(* ===== verification/Gdm_Prelude.thy ===== *)
theory Gdm_Prelude
  imports Main "HOL-Library.Word" "HOL-Library.AList" "HOL-Library.Monad_Syntax"
begin

text \<open>
  The prelude of the development: the types that name C values
  (\<open>guint\<close>, nullable strings), GLib's hash tables as association lists,
  decimal printing and reading, GLib's string functions, and the collection of
  facts about characters that the parsers share.
\<close>

named_theorems char_class \<open>classification of single characters\<close>

type_synonym u32 = "32 word"

text \<open>A \<^verbatim>\<open>char *\<close> that may be \<open>NULL\<close>; \<^verbatim>\<open>g_strcmp0 (a, b) == 0\<close> is equality on it.\<close>

type_synonym cstr = "string option"

section \<open>Decimal printing\<close>

definition digit_char :: "nat \<Rightarrow> char" where
  "digit_char d = char_of (48 + d)"

fun dec_of_nat :: "nat \<Rightarrow> string" where
  "dec_of_nat n =
     (if n < 10 then [digit_char n]
      else dec_of_nat (n div 10) @ [digit_char (n mod 10)])"

declare dec_of_nat.simps [simp del]

lemma digit_char_inj: "a < 10 \<Longrightarrow> b < 10 \<Longrightarrow> digit_char a = digit_char b \<longleftrightarrow> a = b"
  by (auto simp: digit_char_def char_of_eq_iff take_bit_eq_mod)

lemma digit_char_simps [simp]:
  "digit_char 0 = CHR ''0''" "digit_char (Suc 0) = CHR ''1''" "digit_char 1 = CHR ''1''"
  "digit_char 2 = CHR ''2''" "digit_char 3 = CHR ''3''" "digit_char 4 = CHR ''4''"
  "digit_char 5 = CHR ''5''" "digit_char 6 = CHR ''6''" "digit_char 7 = CHR ''7''"
  "digit_char 8 = CHR ''8''" "digit_char 9 = CHR ''9''"
  by (simp_all add: digit_char_def char_of_def bit_Suc_0_iff)

lemma dec_of_nat_not_Nil [simp]: "dec_of_nat n \<noteq> []"
  by (subst dec_of_nat.simps) simp

lemma dec_of_nat_inj: "dec_of_nat m = dec_of_nat n \<longleftrightarrow> m = n"
proof
  show "dec_of_nat m = dec_of_nat n \<Longrightarrow> m = n"
  proof (induction m arbitrary: n rule: dec_of_nat.induct)
    case (1 m)
    show ?case
    proof (cases "m < 10 \<or> n < 10")
      case True
      with "1.prems" show ?thesis
        by (auto simp: dec_of_nat.simps [of m] dec_of_nat.simps [of n] digit_char_inj
            dest: sym [of "[]"] split: if_splits)
    next
      case False
      with "1.prems" have "dec_of_nat (m div 10) = dec_of_nat (n div 10)"
        and "digit_char (m mod 10) = digit_char (n mod 10)"
        by (auto simp: dec_of_nat.simps [of m] dec_of_nat.simps [of n])
      with "1.IH" False have "m div 10 = n div 10" and "m mod 10 = n mod 10"
        by (auto simp: digit_char_inj)
      then show ?thesis by (metis div_mult_mod_eq)
    qed
  qed
qed simp

lemma inj_dec_of_nat: "inj dec_of_nat"
  by (simp add: inj_def dec_of_nat_inj)

section \<open>Decimal reading\<close>

text \<open>\<^verbatim>\<open>isspace\<close> of the C library.\<close>

definition is_space :: "char \<Rightarrow> bool" where
  "is_space c = (c \<in> set [CHR '' '', CHR 0x09, CHR 0x0A, CHR 0x0B, CHR 0x0C, CHR 0x0D])"

definition digit_value :: "char \<Rightarrow> nat option" where
  "digit_value c = (let n = of_char c in if 48 \<le> n \<and> n \<le> 57 then Some (n - 48) else None)"

fun read_digits :: "nat \<Rightarrow> string \<Rightarrow> nat" where
  "read_digits acc [] = acc"
| "read_digits acc (c # cs) =
     (case digit_value c of None \<Rightarrow> acc | Some d \<Rightarrow> read_digits (acc * 10 + d) cs)"

lemma digit_value_digit_char: "d < 10 \<Longrightarrow> digit_value (digit_char d) = Some d"
  by (simp add: digit_value_def digit_char_def Let_def)

lemma read_digits_append:
  "\<forall>c \<in> set xs. digit_value c \<noteq> None \<Longrightarrow> read_digits a (xs @ ys) = read_digits (read_digits a xs) ys"
  by (induction xs arbitrary: a) (auto split: option.split)

lemma dec_of_nat_digits: "\<forall>c \<in> set (dec_of_nat n). digit_value c \<noteq> None"
  by (induction n rule: dec_of_nat.induct)
     (subst dec_of_nat.simps, auto simp: digit_value_digit_char)

lemma read_digits_dec: "read_digits 0 (dec_of_nat n) = n"
proof (induction n rule: dec_of_nat.induct)
  case (1 n)
  then show ?case
    by (subst dec_of_nat.simps)
       (auto simp: digit_value_digit_char read_digits_append dec_of_nat_digits)
qed

lemma digit_not_space: "digit_value c \<noteq> None \<Longrightarrow> \<not> is_space c \<and> c \<noteq> CHR ''-'' \<and> c \<noteq> CHR ''+''"
  by (auto simp: is_space_def digit_value_def Let_def split: if_splits)

section \<open>Strings\<close>

text \<open>GLib's white space does not include the vertical tabulator.\<close>

definition g_ascii_isspace :: "char \<Rightarrow> bool" where
  "g_ascii_isspace c = (c \<in> set [CHR '' '', CHR 0x09, CHR 0x0A, CHR 0x0C, CHR 0x0D])"

definition g_ascii_isdigit :: "char \<Rightarrow> bool" where
  "g_ascii_isdigit c = (48 \<le> (of_char c :: nat) \<and> (of_char c :: nat) \<le> 57)"

definition g_ascii_isalpha :: "char \<Rightarrow> bool" where
  "g_ascii_isalpha c =
     (65 \<le> (of_char c :: nat) \<and> (of_char c :: nat) \<le> 90 \<or> 97 \<le> (of_char c :: nat) \<and> (of_char c :: nat) \<le> 122)"

definition g_strchomp :: "string \<Rightarrow> string" where
  "g_strchomp s = rev (dropWhile g_ascii_isspace (rev s))"

definition g_str_has_suffix :: "string \<Rightarrow> string \<Rightarrow> bool" where
  "g_str_has_suffix s suffix =
     (length suffix \<le> length s \<and> drop (length s - length suffix) s = suffix)"

lemma g_str_has_suffix_iff: "g_str_has_suffix s x \<longleftrightarrow> (\<exists>p. s = p @ x)"
  unfolding g_str_has_suffix_def
  by (metis append_take_drop_id append_eq_conv_conj diff_diff_cancel length_append length_drop
      le_add2 add_diff_cancel_right')

lemma g_strchomp_id: "s = [] \<or> \<not> g_ascii_isspace (last s) \<Longrightarrow> g_strchomp s = s"
  by (cases s rule: rev_cases) (auto simp: g_strchomp_def)

lemma g_strchomp_snoc_space [simp]: "g_ascii_isspace c \<Longrightarrow> g_strchomp (s @ [c]) = g_strchomp s"
  by (simp add: g_strchomp_def)

lemma g_strchomp_Nil [simp]: "g_strchomp [] = []"
  by (simp add: g_strchomp_def)

lemma isspace_classes [char_class]:
  "g_ascii_isspace c \<Longrightarrow> \<not> g_ascii_isdigit c" "g_ascii_isspace c \<Longrightarrow> \<not> g_ascii_isalpha c"
  by (auto simp: g_ascii_isspace_def g_ascii_isdigit_def g_ascii_isalpha_def)

section \<open>GLib hash tables\<close>

text \<open>
  A \<open>GHashTable\<close> is an association list with distinct keys. Its order is the order in
  which an iteration visits the entries; the library promises no particular one.
  \<open>ght_insert\<close> is \<^verbatim>\<open>g_hash_table_insert\<close> (an existing key keeps its place and
  its old value is destroyed), \<open>ght_remove\<close> is \<^verbatim>\<open>g_hash_table_remove\<close>.
\<close>

type_synonym ('k, 'v) ghash = "('k \<times> 'v) list"

definition ght_wf :: "('k, 'v) ghash \<Rightarrow> bool" where
  "ght_wf t = distinct (map fst t)"

definition ght_lookup :: "('k, 'v) ghash \<Rightarrow> 'k \<Rightarrow> 'v option" where
  "ght_lookup t k = map_of t k"

definition ght_contains :: "('k, 'v) ghash \<Rightarrow> 'k \<Rightarrow> bool" where
  "ght_contains t k = (map_of t k \<noteq> None)"

definition ght_insert :: "'k \<Rightarrow> 'v \<Rightarrow> ('k, 'v) ghash \<Rightarrow> ('k, 'v) ghash" where
  "ght_insert k v t = AList.update k v t"

definition ght_remove :: "'k \<Rightarrow> ('k, 'v) ghash \<Rightarrow> ('k, 'v) ghash" where
  "ght_remove k t = AList.delete k t"

text \<open>\<^verbatim>\<open>g_hash_table_find\<close>: the first entry the predicate accepts.\<close>

definition ght_find :: "('k \<Rightarrow> 'v \<Rightarrow> bool) \<Rightarrow> ('k, 'v) ghash \<Rightarrow> 'v option" where
  "ght_find P t = map_option snd (find (\<lambda>(k, v). P k v) t)"

text \<open>
  \<^verbatim>\<open>g_hash_table_foreach_remove\<close>: the entries that stay, and the removed ones in
  the order of their removal.
\<close>

definition ght_foreach_remove ::
  "('k \<Rightarrow> 'v \<Rightarrow> bool) \<Rightarrow> ('k, 'v) ghash \<Rightarrow> ('k, 'v) ghash \<times> ('k \<times> 'v) list" where
  "ght_foreach_remove P t =
     (filter (\<lambda>(k, v). \<not> P k v) t, filter (\<lambda>(k, v). P k v) t)"

text \<open>The contract of a hash table, as its clients use it.\<close>

locale hash_table =
  fixes empty :: 't
    and insert :: "'k \<Rightarrow> 'v \<Rightarrow> 't \<Rightarrow> 't"
    and remove :: "'k \<Rightarrow> 't \<Rightarrow> 't"
    and lookup :: "'t \<Rightarrow> 'k \<Rightarrow> 'v option"
    and wf :: "'t \<Rightarrow> bool"
  assumes lookup_empty: "lookup empty k = None"
    and lookup_insert: "wf t \<Longrightarrow> lookup (insert k v t) = (lookup t)(k \<mapsto> v)"
    and lookup_remove: "wf t \<Longrightarrow> lookup (remove k t) = (lookup t)(k := None)"
    and wf_empty: "wf empty"
    and wf_insert: "wf t \<Longrightarrow> wf (insert k v t)"
    and wf_remove: "wf t \<Longrightarrow> wf (remove k t)"
begin

lemma lookup_insert_same: "wf t \<Longrightarrow> lookup (insert k v t) k = Some v"
  by (simp add: lookup_insert)

lemma lookup_insert_other: "wf t \<Longrightarrow> k' \<noteq> k \<Longrightarrow> lookup (insert k v t) k' = lookup t k'"
  by (simp add: lookup_insert)

lemma lookup_remove_insert:
  "wf t \<Longrightarrow> lookup t k = None \<Longrightarrow> lookup (remove k (insert k v t)) = lookup t"
  by (simp add: lookup_remove lookup_insert wf_insert fun_upd_idem)

lemma dom_insert: "wf t \<Longrightarrow> dom (lookup (insert k v t)) = Set.insert k (dom (lookup t))"
  by (simp add: lookup_insert)

end

interpretation ght: hash_table "[]" ght_insert ght_remove ght_lookup ght_wf
proof unfold_locales
  fix t :: "('a, 'b) ghash" and k v
  assume "ght_wf t"
  then show "ght_wf (ght_insert k v t)"
    by (simp add: ght_wf_def ght_insert_def distinct_update)
qed (auto simp: ght_lookup_def ght_insert_def ght_remove_def ght_wf_def
      update_conv' delete_conv' distinct_delete)

lemma ght_lookup_insert: "ght_lookup (ght_insert k v t) = (ght_lookup t)(k \<mapsto> v)"
  by (rule ext) (simp add: ght_lookup_def ght_insert_def update_conv')

lemma ght_lookup_remove: "ght_lookup (ght_remove k t) = (ght_lookup t)(k := None)"
  by (rule ext) (simp add: ght_lookup_def ght_remove_def delete_conv')

lemma ght_contains_iff: "ght_contains t k \<longleftrightarrow> ght_lookup t k \<noteq> None"
  by (simp add: ght_contains_def ght_lookup_def)

lemma ght_contains_fst: "ght_contains t k \<longleftrightarrow> k \<in> fst ` set t"
  by (simp add: ght_contains_def map_of_eq_None_iff)

lemma ght_lookup_SomeD: "ght_lookup t k = Some v \<Longrightarrow> (k, v) \<in> set t"
  by (simp add: ght_lookup_def map_of_SomeD)

lemma ght_lookup_set: "ght_wf t \<Longrightarrow> ght_lookup t k = Some v \<longleftrightarrow> (k, v) \<in> set t"
  by (simp add: ght_wf_def ght_lookup_def)

lemma ght_insert_fresh: "\<not> ght_contains t k \<Longrightarrow> ght_insert k v t = t @ [(k, v)]"
  by (induction t) (auto simp: ght_contains_def ght_insert_def split: if_splits)

lemma ght_remove_not_in: "k \<notin> fst ` set t \<Longrightarrow> ght_remove k t = t"
  by (force simp: ght_remove_def AList.delete_eq filter_id_conv)

lemma ght_remove_append [simp]: "ght_remove k (s @ t) = ght_remove k s @ ght_remove k t"
  by (simp add: ght_remove_def AList.delete_eq)

lemma ght_remove_set: "set (ght_remove k t) = {(j, v) \<in> set t. j \<noteq> k}"
  by (auto simp: ght_remove_def AList.delete_eq)

lemma ght_insert_remove:
  "\<not> ght_contains t k \<Longrightarrow> ght_remove k (ght_insert k v t) = t"
  by (simp add: ght_insert_fresh ght_contains_fst ght_remove_not_in)
     (simp add: ght_remove_def)

lemma ght_find_Some:
  "ght_find P t = Some v \<Longrightarrow> \<exists>k. (k, v) \<in> set t \<and> P k v"
  by (auto simp: ght_find_def find_Some_iff in_set_conv_nth) (metis)

lemma ght_find_None: "ght_find P t = None \<longleftrightarrow> (\<forall>(k, v) \<in> set t. \<not> P k v)"
  by (auto simp: ght_find_def find_None_iff)

lemma distinct_filter_one: "distinct xs \<Longrightarrow> x \<in> set xs \<Longrightarrow> filter (\<lambda>y. y = x) xs = [x]"
  by (induction xs) (auto simp: filter_empty_conv)

lemma find_cong_set: "(\<And>x. x \<in> set xs \<Longrightarrow> P x = Q x) \<Longrightarrow> find P xs = find Q xs"
  by (induction xs) auto

section \<open>Runs\<close>

text \<open>
  The outcome of code that re-enters itself through signal handlers: it returns a value, it
  ends the daemon (\<^verbatim>\<open>exit\<close>, \<^verbatim>\<open>g_error\<close>, a failed assertion), or the recursion
  has used up the depth it was given.
\<close>

datatype 'a run = Ret 'a | Stop string | OutOfFuel

fun bindR :: "'a run \<Rightarrow> ('a \<Rightarrow> 'b run) \<Rightarrow> 'b run" where
  "bindR (Ret x) f = f x"
| "bindR (Stop m) f = Stop m"
| "bindR OutOfFuel f = OutOfFuel"

lemma bindR_Ret_iff: "bindR m f = Ret y \<longleftrightarrow> (\<exists>x. m = Ret x \<and> f x = Ret y)"
  by (cases m) auto

lemma bindR_RetE [elim!]:
  assumes "bindR m f = Ret y"
  obtains x where "m = Ret x" "f x = Ret y"
  using assms by (auto simp: bindR_Ret_iff)

lemma bindR_assoc [simp]: "bindR (bindR m f) g = bindR m (\<lambda>x. bindR (f x) g)"
  by (cases m) auto

lemma bindR_cong [fundef_cong]:
  "m = m' \<Longrightarrow> (\<And>x. m' = Ret x \<Longrightarrow> f x = g x) \<Longrightarrow> bindR m f = bindR m' g"
  by (cases m') auto

text \<open>Running an action for every element of a list, as \<^verbatim>\<open>g_hash_table_foreach\<close> does.\<close>

fun foldR :: "('a \<Rightarrow> 's \<Rightarrow> 's run) \<Rightarrow> 'a list \<Rightarrow> 's \<Rightarrow> 's run" where
  "foldR f [] s = Ret s"
| "foldR f (x # xs) s = bindR (f x s) (foldR f xs)"

lemma foldR_invariant:
  assumes "foldR f xs s = Ret s'" "P s"
    and "\<And>x s s'. x \<in> set xs \<Longrightarrow> P s \<Longrightarrow> f x s = Ret s' \<Longrightarrow> P s'"
  shows "P s'"
  using assms
proof (induction xs arbitrary: s)
  case (Cons x xs)
  from Cons.prems(1) obtain t where t: "f x s = Ret t" "foldR f xs t = Ret s'" by auto
  have "P t" using Cons.prems(3) [OF _ Cons.prems(2) t(1)] by simp
  with t(2) show ?case using Cons.IH Cons.prems(3) by (metis list.set_intros(2))
qed simp

end
