(* ===== verification/Dynamic_User_Store.thy ===== *)
theory Dynamic_User_Store
  imports Gdm_Prelude
begin

text \<open>
  \<^verbatim>\<open>daemon/gdm-dynamic-user-store.c\<close>: the store of transient system users the
  greeter and initial setup run as. The store hands out a user name and a UID of the range
  reserved for greeters, keeps every user in two hash tables (by name and by UID), and
  answers the userdb queries of the varlink worker from them.

  The passwd and group databases, the creation of the home directory and the build
  configuration are the fields of the record \<open>sysdb\<close>. The build option
  \<^verbatim>\<open>HAVE_USERDB\<close> selects one of the two \<^verbatim>\<open>pick_uid\<close>. The search for a free UID
  may loop when the start lies outside of the range, so it is a
  \<^theory_text>\<open>partial_function (option)\<close>; the lemmas show that it returns from every store that
  the constructor and the operations can build.
\<close>

section \<open>Data\<close>

record dynamic_user =
  username :: string
  display_name :: string
  home :: string
  group :: string
  uid :: u32
  gid :: u32

record dyn_store =
  by_name :: "(string, dynamic_user) ghash"
  by_uid :: "(u32, dynamic_user) ghash"
  next_alloc :: u32

text \<open>What the store asks of the system, and the constants of the build.\<close>

record sysdb =
  have_userdb :: bool
  greeter_uid_min :: u32
  greeter_uid_max :: u32
  dyn_home_dir :: string
  nologin_path :: string
  pwent_for_uid :: "u32 \<Rightarrow> bool"
  pwent_for_name :: "string \<Rightarrow> u32 option"
  grent_for_name :: "string \<Rightarrow> (string \<times> u32) option"
  ensure_dir :: "string \<Rightarrow> u32 \<Rightarrow> u32 \<Rightarrow> bool"

definition greeter_uid_count :: "sysdb \<Rightarrow> nat" where
  "greeter_uid_count D = unat (greeter_uid_max D - greeter_uid_min D) + 1"

definition GID_NOBODY :: u32 where
  "GID_NOBODY = 65534"

definition UID_INVALID :: u32 where
  "UID_INVALID = - 1"

definition GDM_SERVICE_ID :: string where
  "GDM_SERVICE_ID = ''org.gnome.DisplayManager''"

datatype dus_error = NO_FREE_UID | NO_SUCH_GROUP | ENSURE_DIR_FAILED

text \<open>\<open>NotReached\<close> is the \<^verbatim>\<open>g_assert_not_reached\<close> that ends the daemon.\<close>

datatype create_result =
    Created (created_name: string) (created_uid: u32) (created_home: string)
  | CreateFailed dus_error
  | NotReached

datatype free_effect = RmRecursively string | FatalHome string

section \<open>Operations\<close>

definition gdm_dynamic_user_store_init :: "sysdb \<Rightarrow> dyn_store" where
  "gdm_dynamic_user_store_init D =
     \<lparr>by_name = [], by_uid = [], next_alloc = greeter_uid_min D\<rparr>"

definition dynamic_user_new ::
  "string \<Rightarrow> string \<Rightarrow> string \<Rightarrow> u32 \<Rightarrow> string \<times> u32 \<Rightarrow> dynamic_user" where
  "dynamic_user_new name disp hm i grp =
     \<lparr>username = name, display_name = disp, home = hm, group = fst grp,
      uid = i, gid = snd grp\<rparr>"

definition has_prefix :: "string \<Rightarrow> string \<Rightarrow> bool" where
  "has_prefix s p = (take (length p) s = p)"

definition dynamic_user_free :: "dynamic_user \<Rightarrow> free_effect" where
  "dynamic_user_free user =
     (if home user = ''/'' \<or> has_prefix (home user) ''/home'' then FatalHome (home user)
      else RmRecursively (home user))"

text \<open>
  The \<^verbatim>\<open>do ... while\<close> of \<^verbatim>\<open>pick_uid\<close>, one unfolding per iteration, on
  \<^verbatim>\<open>store->next_alloc\<close>. The result is the UID picked, if any, and the new
  \<^verbatim>\<open>next_alloc\<close>.
\<close>

definition next_uid :: "sysdb \<Rightarrow> u32 \<Rightarrow> u32" where
  "next_uid D n = (if n < greeter_uid_max D then n + 1 else greeter_uid_min D)"

definition uid_already_used :: "sysdb \<Rightarrow> (u32, dynamic_user) ghash \<Rightarrow> u32 \<Rightarrow> bool" where
  "uid_already_used D t n = (ght_contains t n \<or> pwent_for_uid D n)"

partial_function (option) pick_uid_loop ::
  "sysdb \<Rightarrow> (u32, dynamic_user) ghash \<Rightarrow> u32 \<Rightarrow> u32 \<Rightarrow> (u32 option \<times> u32) option" where
  "pick_uid_loop D t start n =
     (if \<not> uid_already_used D t n then Some (Some n, next_uid D n)
      else if next_uid D n \<noteq> start then pick_uid_loop D t start (next_uid D n)
      else Some (None, next_uid D n))"

declare pick_uid_loop.simps [code]

definition pick_uid :: "sysdb \<Rightarrow> dyn_store \<Rightarrow> string \<Rightarrow> (u32 option \<times> dyn_store) option" where
  "pick_uid D st name =
     (if have_userdb D
      then map_option (\<lambda>(r, n). (r, st\<lparr>next_alloc := n\<rparr>))
             (pick_uid_loop D (by_uid st) (next_alloc st) (next_alloc st))
      else Some (pwent_for_name D name, st))"

definition numbered_name :: "string \<Rightarrow> nat \<Rightarrow> string" where
  "numbered_name preferred i = preferred @ ''-'' @ dec_of_nat i"

function pick_username_loop ::
  "(string, dynamic_user) ghash \<Rightarrow> string \<Rightarrow> nat \<Rightarrow> nat \<Rightarrow> string option" where
  "pick_username_loop t preferred i count =
     (if i \<le> count
      then if \<not> ght_contains t (numbered_name preferred i)
           then Some (numbered_name preferred i)
           else pick_username_loop t preferred (Suc i) count
      else None)"
  by pat_completeness auto
termination
  by (relation "measure (\<lambda>(t, p, i, count). Suc count - i)") auto

declare pick_username_loop.simps [simp del]

definition pick_username :: "sysdb \<Rightarrow> dyn_store \<Rightarrow> string \<Rightarrow> string option" where
  "pick_username D st preferred =
     (if \<not> ght_contains (by_name st) preferred then Some preferred
      else pick_username_loop (by_name st) preferred 2 (greeter_uid_count D))"

text \<open>\<^verbatim>\<open>g_build_filename\<close> of two elements: one separator between them.\<close>

definition g_build_filename :: "string \<Rightarrow> string \<Rightarrow> string" where
  "g_build_filename a b =
     (if a = [] then b
      else if b = [] then a
      else rev (dropWhile (\<lambda>c. c = CHR ''/'') (rev a)) @ ''/'' @
           dropWhile (\<lambda>c. c = CHR ''/'') b)"

definition gdm_dynamic_user_store_create ::
  "sysdb \<Rightarrow> dyn_store \<Rightarrow> string \<Rightarrow> string \<Rightarrow> string \<Rightarrow> (create_result \<times> dyn_store) option" where
  "gdm_dynamic_user_store_create D st preferred disp member_of =
     (case pick_username D st preferred of
        None \<Rightarrow> Some (NotReached, st)
      | Some name \<Rightarrow>
          Option.bind (pick_uid D st name) (\<lambda>(r, st1).
            case r of
              None \<Rightarrow> Some (CreateFailed NO_FREE_UID, st1)
            | Some i \<Rightarrow>
                (case grent_for_name D member_of of
                   None \<Rightarrow> Some (CreateFailed NO_SUCH_GROUP, st1)
                 | Some grp \<Rightarrow>
                     (let hm = g_build_filename (dyn_home_dir D) name in
                      if \<not> ensure_dir D hm i GID_NOBODY
                      then Some (CreateFailed ENSURE_DIR_FAILED, st1)
                      else
                        let user = dynamic_user_new name disp hm i grp in
                        Some (Created name i hm,
                              st1\<lparr>by_name := ght_insert (username user) user (by_name st1),
                                  by_uid := ght_insert (uid user) user (by_uid st1)\<rparr>)))))"

definition gdm_dynamic_user_store_remove ::
  "dyn_store \<Rightarrow> u32 \<Rightarrow> dyn_store \<times> free_effect list" where
  "gdm_dynamic_user_store_remove st i =
     (case ght_lookup (by_uid st) i of
        None \<Rightarrow> (st, [])
      | Some user \<Rightarrow>
          (st\<lparr>by_uid := ght_remove i (by_uid st),
              by_name := ght_remove (username user) (by_name st)\<rparr>,
           (case ght_lookup (by_name st) (username user) of
              None \<Rightarrow> []
            | Some u \<Rightarrow> [dynamic_user_free u])))"

text \<open>
  \<^verbatim>\<open>gdm_dynamic_user_store_finalize\<close>: the index is destroyed first, then the table
  that owns the users, which frees every one of them.
\<close>

definition gdm_dynamic_user_store_finalize :: "dyn_store \<Rightarrow> free_effect list" where
  "gdm_dynamic_user_store_finalize st = map (\<lambda>(n, u). dynamic_user_free u) (by_name st)"

section \<open>The userdb queries\<close>

datatype json = JStr string | JNum u32

definition dynamic_user_build_record :: "sysdb \<Rightarrow> dynamic_user \<Rightarrow> (string \<times> json) list" where
  "dynamic_user_build_record D user =
     [(''userName'', JStr (username user)),
      (''uid'', JNum (uid user)),
      (''gid'', JNum (gid user)),
      (''realName'', JStr (display_name user)),
      (''homeDirectory'', JStr (home user)),
      (''shell'', JStr (nologin_path D)),
      (''service'', JStr GDM_SERVICE_ID),
      (''disposition'', JStr ''dynamic'')]"

text \<open>
  What a method sends over the varlink connection, and how it ends: \<open>VlFail r\<close> is the
  return of a negative code. \<open>build_rc\<close> and \<open>notify_rc\<close> are the codes of
  \<^verbatim>\<open>sd_json_buildo\<close> and \<^verbatim>\<open>sd_varlink_notify\<close> for a user.
\<close>

datatype vl_msg =
    VlNotify "(string \<times> json) list"
  | VlReply "(string \<times> json) list"
  | VlError string

datatype vl_end = VlDone | VlFail int

record vl_conn =
  dispatch_rc :: int
  build_rc :: "dynamic_user \<Rightarrow> int"
  notify_rc :: "dynamic_user \<Rightarrow> int"

record get_user_record_params =
  gp_uid :: u32
  gp_username :: cstr
  gp_service :: cstr

definition ECANCELED :: int where
  "ECANCELED = 125"

text \<open>
  The listing loop: a user is sent with \<^verbatim>\<open>more\<close> as soon as the next one is
  seen. The accumulator is \<open>found\<close>; the result is the last user or a failed call.
\<close>

fun vl_list_users ::
  "sysdb \<Rightarrow> vl_conn \<Rightarrow> dynamic_user option \<Rightarrow> dynamic_user list \<Rightarrow>
   vl_msg list \<times> (int + dynamic_user option)" where
  "vl_list_users D c found [] = ([], Inr found)"
| "vl_list_users D c None (v # vs) = vl_list_users D c (Some v) vs"
| "vl_list_users D c (Some f) (v # vs) =
     (if build_rc c f < 0 then ([], Inl (build_rc c f))
      else if notify_rc c f < 0
           then ([VlNotify (dynamic_user_build_record D f)], Inl (notify_rc c f))
      else (let (msgs, r) = vl_list_users D c (Some v) vs
            in (VlNotify (dynamic_user_build_record D f) # msgs, r)))"

definition vl_answer_record ::
  "sysdb \<Rightarrow> vl_conn \<Rightarrow> get_user_record_params \<Rightarrow> dynamic_user option \<Rightarrow> vl_msg list \<times> vl_end" where
  "vl_answer_record D c p found =
     (case found of
        None \<Rightarrow> ([VlError ''io.systemd.UserDatabase.NoRecordFound''], VlDone)
      | Some f \<Rightarrow>
          (if (gp_uid p \<noteq> UID_INVALID \<and> gp_uid p \<noteq> uid f) \<or>
              (gp_username p \<noteq> None \<and> gp_username p \<noteq> Some (username f))
           then ([VlError ''io.systemd.UserDatabase.ConflictingRecordFound''], VlDone)
           else if build_rc c f < 0 then ([], VlFail (build_rc c f))
           else ([VlReply (dynamic_user_build_record D f)], VlDone)))"

definition vl_get_user_record ::
  "sysdb \<Rightarrow> vl_conn \<Rightarrow> dyn_store option \<Rightarrow> get_user_record_params \<Rightarrow> vl_msg list \<times> vl_end" where
  "vl_get_user_record D c store p =
     (if dispatch_rc c < 0 then ([], VlFail (dispatch_rc c))
      else if gp_service p \<noteq> Some GDM_SERVICE_ID
      then ([VlError ''io.systemd.UserDatabase.BadService''], VlDone)
      else
        (case store of
           None \<Rightarrow> ([], VlFail (- ECANCELED))
         | Some st \<Rightarrow>
             if gp_uid p \<noteq> UID_INVALID
             then vl_answer_record D c p (ght_lookup (by_uid st) (gp_uid p))
             else
               (case gp_username p of
                  Some n \<Rightarrow> vl_answer_record D c p (ght_lookup (by_name st) n)
                | None \<Rightarrow>
                    (case vl_list_users D c None (map snd (by_name st)) of
                       (msgs, Inl r) \<Rightarrow> (msgs, VlFail r)
                     | (msgs, Inr found) \<Rightarrow>
                         (let (m, e) = vl_answer_record D c p found in (msgs @ m, e))))))"

definition vl_get_group_record :: "cstr \<Rightarrow> vl_msg list" where
  "vl_get_group_record service =
     (if service \<noteq> Some GDM_SERVICE_ID
      then [VlError ''io.systemd.UserDatabase.BadService'']
      else [VlError ''io.systemd.UserDatabase.NoRecordFound''])"

definition user_group_pairs :: "dynamic_user \<Rightarrow> (string \<times> json) list" where
  "user_group_pairs user =
     [(''userName'', JStr (username user)), (''groupName'', JStr (group user))]"

definition test_group_membership :: "dynamic_user option \<Rightarrow> cstr \<Rightarrow> bool" where
  "test_group_membership user grp =
     (case user of
        None \<Rightarrow> False
      | Some u \<Rightarrow> \<not> (grp \<noteq> None \<and> grp \<noteq> Some (group u)))"

datatype reply_mode = VARLINK_REPLY_FINAL | VARLINK_REPLY_MORE_FOLLOW

definition reply_user_group :: "vl_conn \<Rightarrow> reply_mode \<Rightarrow> dynamic_user \<Rightarrow> vl_msg list \<times> vl_end" where
  "reply_user_group c mode u =
     (if build_rc c u < 0 then ([], VlFail (build_rc c u))
      else if mode = VARLINK_REPLY_MORE_FOLLOW
      then ([VlNotify (user_group_pairs u)],
            if notify_rc c u < 0 then VlFail (notify_rc c u) else VlDone)
      else ([VlReply (user_group_pairs u)], VlDone))"

fun vl_list_members ::
  "vl_conn \<Rightarrow> cstr \<Rightarrow> dynamic_user option \<Rightarrow> dynamic_user list \<Rightarrow>
   vl_msg list \<times> (int + dynamic_user option)" where
  "vl_list_members c grp user [] = ([], Inr user)"
| "vl_list_members c grp user (v # vs) =
     (if test_group_membership (Some v) grp
      then (case user of
              None \<Rightarrow> vl_list_members c grp (Some v) vs
            | Some u \<Rightarrow>
                (case reply_user_group c VARLINK_REPLY_MORE_FOLLOW u of
                   (m, VlFail r) \<Rightarrow> (m, Inl r)
                 | (m, VlDone) \<Rightarrow>
                     (let (msgs, r) = vl_list_members c grp (Some v) vs in (m @ msgs, r))))
      else vl_list_members c grp user vs)"

record get_memberships_params =
  mp_username :: cstr
  mp_groupname :: cstr
  mp_service :: cstr

definition vl_get_memberships ::
  "vl_conn \<Rightarrow> dyn_store option \<Rightarrow> get_memberships_params \<Rightarrow> vl_msg list \<times> vl_end" where
  "vl_get_memberships c store p =
     (if dispatch_rc c < 0 then ([], VlFail (dispatch_rc c))
      else if mp_service p \<noteq> Some GDM_SERVICE_ID
      then ([VlError ''io.systemd.UserDatabase.BadService''], VlDone)
      else
        (case store of
           None \<Rightarrow> ([], VlFail (- ECANCELED))
         | Some st \<Rightarrow>
             (let none = ([VlError ''io.systemd.UserDatabase.NoRecordFound''], VlDone) in
              case mp_username p of
                Some n \<Rightarrow>
                  (case ght_lookup (by_name st) n of
                     None \<Rightarrow> none
                   | Some u \<Rightarrow>
                       if test_group_membership (Some u) (mp_groupname p)
                       then reply_user_group c VARLINK_REPLY_FINAL u else none)
              | None \<Rightarrow>
                  (case vl_list_members c (mp_groupname p) None (map snd (by_name st)) of
                     (msgs, Inl r) \<Rightarrow> (msgs, VlFail r)
                   | (msgs, Inr None) \<Rightarrow> (msgs @ fst none, snd none)
                   | (msgs, Inr (Some u)) \<Rightarrow>
                       (let (m, e) = reply_user_group c VARLINK_REPLY_FINAL u in (msgs @ m, e))))))"

section \<open>The invariant\<close>

definition uid_in_range :: "sysdb \<Rightarrow> u32 \<Rightarrow> bool" where
  "uid_in_range D i = (greeter_uid_min D \<le> i \<and> i \<le> greeter_uid_max D)"

text \<open>
  Both tables hold the same users, each under its own key, every UID is one of the greeter
  range, and so is the next candidate.
\<close>

definition dus_inv :: "sysdb \<Rightarrow> dyn_store \<Rightarrow> bool" where
  "dus_inv D st =
     (ght_wf (by_name st) \<and> ght_wf (by_uid st) \<and>
      (\<forall>(n, u) \<in> set (by_name st). username u = n) \<and>
      (\<forall>(i, u) \<in> set (by_uid st). uid u = i \<and> uid_in_range D i) \<and>
      snd ` set (by_name st) = snd ` set (by_uid st) \<and>
      uid_in_range D (next_alloc st))"

lemma dus_inv_init:
  "greeter_uid_min D \<le> greeter_uid_max D \<Longrightarrow> dus_inv D (gdm_dynamic_user_store_init D)"
  by (simp add: dus_inv_def gdm_dynamic_user_store_init_def ght_wf_def uid_in_range_def)

lemma unat_inc_less: "n < (m :: u32) \<Longrightarrow> unat (n + 1) = Suc (unat n)"
  by unat_arith

lemma next_uid_in_range: "uid_in_range D n \<Longrightarrow> uid_in_range D (next_uid D n)"
  by (auto simp: uid_in_range_def next_uid_def word_le_nat_alt word_less_nat_alt
      unat_inc_less [of n "greeter_uid_max D", unfolded word_less_nat_alt])

subsection \<open>The search for a UID\<close>

text \<open>
  The candidates still to try, at \<open>n\<close>, of a search that began at \<open>start\<close>: the rest of
  the range and, from its beginning, up to the start.
\<close>

definition candidates :: "sysdb \<Rightarrow> u32 \<Rightarrow> u32 \<Rightarrow> u32 list" where
  "candidates D start n =
     (if n < start then map of_nat [unat n ..< unat start]
      else map of_nat [unat n ..< Suc (unat (greeter_uid_max D))] @
           map of_nat [unat (greeter_uid_min D) ..< unat start])"

lemma candidates_Cons:
  assumes n: "uid_in_range D n" and s: "uid_in_range D start"
  shows "candidates D start n =
           n # (if next_uid D n = start then [] else candidates D start (next_uid D n))"
proof (cases "n < greeter_uid_max D")
  case True
  then have inc: "unat (n + 1) = Suc (unat n)" by (rule unat_inc_less)
  have eq: "n + 1 = start \<longleftrightarrow> Suc (unat n) = unat start"
    using inc by (metis word_unat_eq_iff)
  have lt: "n + 1 < start \<longleftrightarrow> Suc (unat n) < unat start"
    by (simp add: word_less_nat_alt inc)
  have upt: "unat n < k \<Longrightarrow> [unat n ..< k] = unat n # [Suc (unat n) ..< k]" for k
    by (rule upt_conv_Cons)
  show ?thesis
    using True s by (auto simp: candidates_def next_uid_def eq lt inc upt
        uid_in_range_def word_less_nat_alt word_le_nat_alt)
next
  case False
  with n have nmax: "n = greeter_uid_max D" by (simp add: uid_in_range_def)
  show ?thesis
    using s nmax by (auto simp: candidates_def next_uid_def uid_in_range_def
        word_less_nat_alt word_le_nat_alt word_unat_eq_iff)
qed

lemma pick_uid_loop_candidates:
  assumes "uid_in_range D start" and "uid_in_range D n"
  shows "\<exists>n'. uid_in_range D n' \<and> pick_uid_loop D t start n =
           Some (find (\<lambda>i. \<not> uid_already_used D t i) (candidates D start n), n')"
  using assms(2)
proof (induction "length (candidates D start n)" arbitrary: n rule: less_induct)
  case less
  let ?n = "next_uid D n"
  note C = candidates_Cons [OF less.prems assms(1)]
  have r: "uid_in_range D ?n" using less.prems by (rule next_uid_in_range)
  show ?case
  proof (cases "\<not> uid_already_used D t n \<or> ?n = start")
    case True
    with r C show ?thesis by (subst pick_uid_loop.simps) auto
  next
    case False
    with C have "length (candidates D start ?n) < length (candidates D start n)" by simp
    from less.hyps [OF this r] False C show ?thesis by (subst pick_uid_loop.simps) auto
  qed
qed

lemma set_candidates:
  assumes "uid_in_range D start"
  shows "set (candidates D start start) = {i. uid_in_range D i}"
proof -
  have "i \<in> set (candidates D start start) \<longleftrightarrow> uid_in_range D i" for i
  proof
    assume "uid_in_range D i"
    then have "of_nat (unat i) \<in> set (candidates D start start)"
      using assms unfolding candidates_def uid_in_range_def word_le_nat_alt
      by (cases "unat start \<le> unat i")
         (auto simp: word_unat_eq_iff intro!: image_eqI [of _ _ "unat i"])
    then show "i \<in> set (candidates D start start)" by simp
  next
    assume i: "i \<in> set (candidates D start start)"
    have bound: "k \<le> unat (x :: u32) \<Longrightarrow> unat (of_nat k :: u32) = k" for k x
      by (metis le_unat_uoi)
    from i assms show "uid_in_range D i"
      unfolding candidates_def uid_in_range_def word_le_nat_alt
      by (auto simp: bound [of _ "greeter_uid_max D"] less_Suc_eq_le)
  qed
  then show ?thesis by auto
qed

lemma pick_uid_loop_spec:
  assumes "uid_in_range D start"
  shows "\<exists>r n'. pick_uid_loop D t start start = Some (r, n') \<and> uid_in_range D n' \<and>
    (\<forall>i. r = Some i \<longrightarrow> uid_in_range D i \<and> \<not> uid_already_used D t i) \<and>
    (r = None \<longrightarrow> (\<forall>i. uid_in_range D i \<longrightarrow> uid_already_used D t i))"
proof -
  let ?r = "find (\<lambda>i. \<not> uid_already_used D t i) (candidates D start start)"
  obtain n' where n': "uid_in_range D n'" "pick_uid_loop D t start start = Some (?r, n')"
    using pick_uid_loop_candidates [OF assms assms] by blast
  have "?r = Some i \<longrightarrow> uid_in_range D i \<and> \<not> uid_already_used D t i" for i
    using set_candidates [OF assms] by (auto simp: find_Some_iff)
  moreover have "?r = None \<longrightarrow> uid_in_range D i \<longrightarrow> uid_already_used D t i" for i
    using set_candidates [OF assms] by (auto simp: find_None_iff)
  ultimately show ?thesis using n' by blast
qed

subsection \<open>The number of users\<close>

lemma card_uids_in_range:
  assumes "greeter_uid_min D \<le> greeter_uid_max D"
  shows "card {i. uid_in_range D i} = greeter_uid_count D"
proof -
  have "{i. uid_in_range D i} =
      of_nat ` {unat (greeter_uid_min D) .. unat (greeter_uid_max D)}" (is "?A = of_nat ` ?B")
  proof (intro set_eqI iffI)
    fix i :: u32 assume "i \<in> ?A"
    then show "i \<in> of_nat ` ?B"
      by (intro image_eqI [of _ _ "unat i"]) (auto simp: uid_in_range_def word_le_nat_alt)
  next
    fix i :: u32 assume "i \<in> of_nat ` ?B"
    then show "i \<in> ?A"
      by (auto simp: uid_in_range_def word_le_nat_alt) (metis le_unat_uoi)+
  qed
  moreover have "inj_on (of_nat :: nat \<Rightarrow> u32) ?B"
    by (rule inj_onI) (metis atLeastAtMost_iff le_unat_uoi)
  ultimately have "card ?A = card ?B" by (simp add: card_image)
  with assms show ?thesis
    by (simp add: greeter_uid_count_def unat_sub word_le_nat_alt)
qed

lemma dus_inv_range: "dus_inv D st \<Longrightarrow> greeter_uid_min D \<le> greeter_uid_max D"
  by (auto simp: dus_inv_def uid_in_range_def)

lemma length_card_snd:
  assumes "ght_wf t" and "\<And>k u. (k, u) \<in> set t \<Longrightarrow> f u = k"
  shows "length t = card (snd ` set t)"
proof -
  have "inj_on snd (set t)"
    by (rule inj_onI) (metis assms(2) prod.collapse)
  moreover have "distinct t" using assms(1) by (simp add: ght_wf_def distinct_map)
  ultimately show ?thesis by (simp add: card_image distinct_card)
qed

lemma dus_length_eq:
  assumes "dus_inv D st"
  shows "length (by_name st) = length (by_uid st)"
proof -
  have "length (by_name st) = card (snd ` set (by_name st))"
    using assms by (intro length_card_snd [where f = username]) (auto simp: dus_inv_def)
  moreover have "length (by_uid st) = card (snd ` set (by_uid st))"
    using assms by (intro length_card_snd [where f = uid]) (auto simp: dus_inv_def)
  ultimately show ?thesis using assms by (simp add: dus_inv_def)
qed

lemma dus_uids_in_range: "dus_inv D st \<Longrightarrow> fst ` set (by_uid st) \<subseteq> {i. uid_in_range D i}"
  by (force simp: dus_inv_def)

lemma dus_length_uids: "dus_inv D st \<Longrightarrow> card (fst ` set (by_uid st)) = length (by_name st)"
  by (metis distinct_card dus_inv_def dus_length_eq ght_wf_def length_map list.set_map)

lemma dus_length_le:
  assumes "dus_inv D st"
  shows "length (by_name st) \<le> greeter_uid_count D"
  using card_mono [OF _ dus_uids_in_range [OF assms]] dus_length_uids [OF assms]
    card_uids_in_range [OF dus_inv_range [OF assms]] by simp

lemma dus_full_all_used:
  assumes "dus_inv D st" "length (by_name st) = greeter_uid_count D" "uid_in_range D i"
  shows "ght_contains (by_uid st) i"
proof -
  have "fst ` set (by_uid st) = {i. uid_in_range D i}"
    using assms(1,2) card_uids_in_range [OF dus_inv_range [OF assms(1)]]
    by (intro card_subset_eq) (simp_all add: dus_uids_in_range dus_length_uids)
  with assms(3) show ?thesis by (auto simp: ght_contains_fst)
qed

subsection \<open>The choice of a name\<close>

lemma pick_username_loop_None:
  "pick_username_loop t p i count = None \<longleftrightarrow>
     (\<forall>j. i \<le> j \<and> j \<le> count \<longrightarrow> ght_contains t (numbered_name p j))"
proof (induction t p i count rule: pick_username_loop.induct)
  case (1 t p i count)
  have "(\<forall>j. i \<le> j \<and> j \<le> count \<longrightarrow> ght_contains t (numbered_name p j)) \<longleftrightarrow>
      (i \<le> count \<longrightarrow> ght_contains t (numbered_name p i)) \<and>
      (\<forall>j. Suc i \<le> j \<and> j \<le> count \<longrightarrow> ght_contains t (numbered_name p j))"
    by (metis Suc_leD Suc_le_eq le_eq_less_or_eq)
  with 1 show ?case by (subst pick_username_loop.simps) auto
qed

lemma pick_username_loop_fresh:
  "pick_username_loop t p i count = Some n \<Longrightarrow> \<not> ght_contains t n"
  by (induction t p i count rule: pick_username_loop.induct)
     (subst (asm) (2) pick_username_loop.simps, auto split: if_splits)

lemma pick_username_fresh:
  "pick_username D st p = Some n \<Longrightarrow> \<not> ght_contains (by_name st) n"
  by (auto simp: pick_username_def pick_username_loop_fresh split: if_splits)

definition name_family :: "sysdb \<Rightarrow> string \<Rightarrow> string set" where
  "name_family D p = insert p (numbered_name p ` {2 .. greeter_uid_count D})"

lemma pick_username_None:
  "pick_username D st p = None \<longleftrightarrow> name_family D p \<subseteq> fst ` set (by_name st)"
  by (auto simp: pick_username_def pick_username_loop_None name_family_def ght_contains_fst)

lemma card_name_family: "card (name_family D p) = greeter_uid_count D"
proof -
  have "inj_on (numbered_name p) A" for A
    by (rule inj_onI) (simp add: numbered_name_def dec_of_nat_inj)
  then have "card (numbered_name p ` {2 .. greeter_uid_count D}) = greeter_uid_count D - 1"
    by (simp add: card_image)
  moreover have "p \<notin> numbered_name p ` {2 .. greeter_uid_count D}"
    by (auto simp: numbered_name_def)
  ultimately show ?thesis by (simp add: name_family_def greeter_uid_count_def)
qed

lemma pick_username_not_full:
  assumes "dus_inv D st" "length (by_name st) < greeter_uid_count D"
  shows "pick_username D st p \<noteq> None"
proof
  assume "pick_username D st p = None"
  then have "card (name_family D p) \<le> card (fst ` set (by_name st))"
    by (intro card_mono) (auto simp: pick_username_None)
  also have "\<dots> \<le> length (by_name st)"
    by (metis card_length length_map list.set_map)
  finally show False using assms(2) by (simp add: card_name_family)
qed

subsection \<open>Creating and removing a user\<close>

lemma pick_uid_spec:
  assumes "dus_inv D st" "have_userdb D"
  shows "\<exists>r n'. pick_uid D st name = Some (r, st\<lparr>next_alloc := n'\<rparr>) \<and> uid_in_range D n' \<and>
    (\<forall>i. r = Some i \<longrightarrow> uid_in_range D i \<and> \<not> uid_already_used D (by_uid st) i) \<and>
    (r = None \<longrightarrow> (\<forall>i. uid_in_range D i \<longrightarrow> uid_already_used D (by_uid st) i))"
proof -
  have "uid_in_range D (next_alloc st)" using assms(1) by (simp add: dus_inv_def)
  from pick_uid_loop_spec [OF this, of "by_uid st"] assms(2) show ?thesis
    by (auto simp: pick_uid_def)
qed

lemma dus_inv_next_alloc: "dus_inv D st \<Longrightarrow> uid_in_range D n \<Longrightarrow> dus_inv D (st\<lparr>next_alloc := n\<rparr>)"
  by (simp add: dus_inv_def)

lemma dus_inv_insert:
  assumes inv: "dus_inv D st" and n: "\<not> ght_contains (by_name st) (username u)"
    and i: "\<not> ght_contains (by_uid st) (uid u)" and r: "uid_in_range D (uid u)"
  shows "dus_inv D (st\<lparr>by_name := ght_insert (username u) u (by_name st),
                       by_uid := ght_insert (uid u) u (by_uid st)\<rparr>)"
proof -
  have "ght_wf (ght_insert (username u) u (by_name st))"
    and "ght_wf (ght_insert (uid u) u (by_uid st))"
    using inv by (auto simp: dus_inv_def ght.wf_insert)
  then show ?thesis
    using inv r by (auto simp: dus_inv_def ght_insert_fresh [OF n] ght_insert_fresh [OF i])
qed

text \<open>Every call returns, and what it returns: the tables change only when a user is created.\<close>

lemma create_cases:
  assumes "dus_inv D st" "have_userdb D"
  obtains
    (abort) "gdm_dynamic_user_store_create D st p d g = Some (NotReached, st)"
      "name_family D p \<subseteq> fst ` set (by_name st)"
  | (error) e n' where "gdm_dynamic_user_store_create D st p d g =
        Some (CreateFailed e, st\<lparr>next_alloc := n'\<rparr>)" "uid_in_range D n'"
  | (created) u n' where "gdm_dynamic_user_store_create D st p d g =
        Some (Created (username u) (uid u) (home u),
              st\<lparr>next_alloc := n', by_name := ght_insert (username u) u (by_name st),
                 by_uid := ght_insert (uid u) u (by_uid st)\<rparr>)"
      "uid_in_range D n'" "uid_in_range D (uid u)"
      "\<not> ght_contains (by_name st) (username u)" "\<not> ght_contains (by_uid st) (uid u)"
      "\<not> pwent_for_uid D (uid u)" "home u = g_build_filename (dyn_home_dir D) (username u)"
      "display_name u = d"
proof (cases "pick_username D st p")
  case None
  then show thesis
    by (intro abort) (simp_all add: gdm_dynamic_user_store_create_def
        pick_username_None [symmetric])
next
  case (Some name)
  note name = this
  obtain r n' where pick: "pick_uid D st name = Some (r, st\<lparr>next_alloc := n'\<rparr>)" "uid_in_range D n'"
    and free: "\<forall>i. r = Some i \<longrightarrow> uid_in_range D i \<and> \<not> uid_already_used D (by_uid st) i"
    using pick_uid_spec [OF assms, of name] by blast
  show thesis
  proof (cases "r = None \<or> grent_for_name D g = None \<or>
      \<not> ensure_dir D (g_build_filename (dyn_home_dir D) name) (the r) GID_NOBODY")
    case True
    then show thesis using name pick error
      by (cases r; cases "grent_for_name D g")
         (auto simp: gdm_dynamic_user_store_create_def Let_def)
  next
    case False
    then obtain i grp where i: "r = Some i" and grp: "grent_for_name D g = Some grp" by auto
    let ?u = "dynamic_user_new name d (g_build_filename (dyn_home_dir D) name) i grp"
    show thesis
      using False name pick i grp free pick_username_fresh [OF name]
      by (intro created [of ?u n'])
         (auto simp: gdm_dynamic_user_store_create_def dynamic_user_new_def uid_already_used_def
           Let_def)
  qed
qed

lemma create_inv:
  assumes "dus_inv D st" "have_userdb D"
  obtains r st' where "gdm_dynamic_user_store_create D st p d g = Some (r, st')" "dus_inv D st'"
  using assms
proof (cases rule: create_cases [of D st p d g])
  case (created u n')
  have "dus_inv D (st\<lparr>next_alloc := n'\<rparr>)" using assms(1) created(2) by (rule dus_inv_next_alloc)
  from dus_inv_insert [OF this, of u] created that show thesis by auto
next
  case abort
  show thesis by (rule that [OF abort(1) assms(1)])
next
  case (error e n')
  show thesis by (rule that [OF error(1) dus_inv_next_alloc [OF assms(1) error(2)]])
qed

lemma ght_remove_snd:
  assumes "ght_wf t" "(k, u) \<in> set t" "\<And>j v. (j, v) \<in> set t \<Longrightarrow> f v = j"
  shows "snd ` set (ght_remove k t) = snd ` set t - {u}"
proof -
  have "v = u \<longleftrightarrow> j = k" if "(j, v) \<in> set t" for j v
    using that assms(2) assms(3) [OF that] assms(3) [OF assms(2)]
      ght_lookup_set [OF assms(1), of k u] ght_lookup_set [OF assms(1), of k v] by auto
  then show ?thesis by (force simp: ght_remove_set)
qed

lemma dus_same_user:
  assumes "dus_inv D st" "(i, u) \<in> set (by_uid st)"
  shows "(username u, u) \<in> set (by_name st)" "uid u = i"
proof -
  have "snd ` set (by_name st) = snd ` set (by_uid st)"
    using assms(1) by (simp add: dus_inv_def)
  then have "u \<in> snd ` set (by_name st)" using assms(2) by force
  then obtain n where "(n, u) \<in> set (by_name st)" by auto
  then show "(username u, u) \<in> set (by_name st)" using assms(1) by (auto simp: dus_inv_def)
  show "uid u = i" using assms by (auto simp: dus_inv_def)
qed

lemma remove_inv:
  assumes "dus_inv D st"
  shows "dus_inv D (fst (gdm_dynamic_user_store_remove st i))"
proof (cases "ght_lookup (by_uid st) i")
  case None
  with assms show ?thesis by (simp add: gdm_dynamic_user_store_remove_def)
next
  case (Some u)
  then have iu: "(i, u) \<in> set (by_uid st)" by (rule ght_lookup_SomeD)
  note un = dus_same_user [OF assms iu]
  have wf: "ght_wf (by_name st)" "ght_wf (by_uid st)"
    and same: "snd ` set (by_name st) = snd ` set (by_uid st)"
    using assms by (auto simp: dus_inv_def)
  have "snd ` set (ght_remove (username u) (by_name st)) = snd ` set (by_name st) - {u}"
    using assms by (intro ght_remove_snd [OF wf(1) un(1), where f = username])
      (auto simp: dus_inv_def)
  moreover have "snd ` set (ght_remove i (by_uid st)) = snd ` set (by_uid st) - {u}"
    using assms by (intro ght_remove_snd [OF wf(2) iu, where f = uid]) (auto simp: dus_inv_def)
  ultimately show ?thesis
    using assms Some wf same
    by (auto simp: gdm_dynamic_user_store_remove_def dus_inv_def ght.wf_remove ght_remove_set)
qed

lemma vl_list_users_ok:
  assumes "\<And>u. 0 \<le> build_rc c u" "\<And>u. 0 \<le> notify_rc c u"
  shows "vl_list_users D c (Some f) us =
     (map (\<lambda>u. VlNotify (dynamic_user_build_record D u)) (butlast (f # us)),
      Inr (Some (last (f # us))))"
  using assms by (induction us arbitrary: f) (auto simp: not_less [symmetric])

section \<open>Properties\<close>

text \<open>A store of three UIDs, the first of them taken in the passwd database.\<close>

definition demo_sysdb :: sysdb where
  "demo_sysdb =
     \<lparr>have_userdb = True, greeter_uid_min = 60578, greeter_uid_max = 60580,
      dyn_home_dir = ''/run/gdm/home'', nologin_path = ''/sbin/nologin'',
      pwent_for_uid = (\<lambda>i. i = 60578), pwent_for_name = (\<lambda>n. None),
      grent_for_name = (\<lambda>g. if g = ''gdm'' then Some (''gdm'', 42) else None),
      ensure_dir = (\<lambda>h u g. True)\<rparr>"

definition demo_user :: dynamic_user where
  "demo_user = \<lparr>username = ''gdm-greeter'', display_name = ''GDM Greeter'',
     home = ''/run/gdm/home/gdm-greeter'', group = ''gdm'', uid = 60579, gid = 42\<rparr>"

definition demo_store :: dyn_store where
  "demo_store = \<lparr>by_name = [(''gdm-greeter'', demo_user)], by_uid = [(60579, demo_user)],
     next_alloc = 60580\<rparr>"

lemma demo_store_inv: "dus_inv demo_sysdb demo_store"
  by (simp add: dus_inv_def demo_sysdb_def demo_store_def demo_user_def ght_wf_def uid_in_range_def)

text \<open>
  C12. The search for a UID always returns. It picks the first UID, in the cyclic order that
  begins at \<^verbatim>\<open>next_alloc\<close> and visits the whole greeter range once, that neither the
  store nor the passwd database uses; it reports that there is none exactly when every UID of
  the range is used. The next search begins inside of the range.
\<close>

theorem pick_uid_correct:
  assumes "dus_inv D st" "have_userdb D"
  shows "\<exists>n'. uid_in_range D n' \<and>
    pick_uid D st name =
      Some (find (\<lambda>i. \<not> ght_contains (by_uid st) i \<and> \<not> pwent_for_uid D i)
              (candidates D (next_alloc st) (next_alloc st)), st\<lparr>next_alloc := n'\<rparr>) \<and>
    set (candidates D (next_alloc st) (next_alloc st)) = {i. uid_in_range D i}"
proof -
  have r: "uid_in_range D (next_alloc st)" using assms(1) by (simp add: dus_inv_def)
  from pick_uid_loop_candidates [OF r r, of "by_uid st"] set_candidates [OF r] assms(2)
  show ?thesis by (auto simp: pick_uid_def uid_already_used_def)
qed

theorem pick_uid_correct_witness:
  "dus_inv demo_sysdb demo_store \<and> have_userdb demo_sysdb \<and>
   (\<exists>n'. pick_uid demo_sysdb demo_store ''x'' = Some (Some 60580, demo_store\<lparr>next_alloc := n'\<rparr>))"
proof -
  have u: "have_userdb demo_sysdb" by (simp add: demo_sysdb_def)
  have "candidates demo_sysdb 60580 60580 = [60580, 60578, 60579]"
    by (simp add: candidates_def demo_sysdb_def upt_rec)
  with pick_uid_correct [OF demo_store_inv u, of "''x''"] demo_store_inv u show ?thesis
    by (auto simp: demo_store_def demo_sysdb_def ght_contains_def)
qed

text \<open>
  Creating a user always returns and keeps the invariant, whatever the passwd and group
  databases and the file system answer; so does removing one.
\<close>

theorem create_remove_keep_invariant:
  assumes "dus_inv D st" "have_userdb D"
  shows "(\<exists>r st'. gdm_dynamic_user_store_create D st p d g = Some (r, st') \<and> dus_inv D st') \<and>
    dus_inv D (fst (gdm_dynamic_user_store_remove st i))"
  using create_inv [OF assms] remove_inv [OF assms(1)] by metis

theorem create_remove_keep_invariant_witness:
  "dus_inv demo_sysdb demo_store \<and>
   (\<exists>r st'. gdm_dynamic_user_store_create demo_sysdb demo_store ''a'' ''b'' ''gdm'' = Some (r, st') \<and>
      dus_inv demo_sysdb st') \<and>
   dus_inv demo_sysdb (fst (gdm_dynamic_user_store_remove demo_store 60579))"
  using create_remove_keep_invariant [OF demo_store_inv] demo_store_inv
  by (simp add: demo_sysdb_def)

text \<open>
  C13. A created user has a fresh name, a fresh UID of the greeter range that the passwd
  database does not know, and its home below the configured directory; removing its UID
  gives back exactly the tables of before and deletes exactly that home, unless the path is
  one the code refuses to delete.
\<close>

theorem create_remove_roundtrip:
  assumes "dus_inv D st" "have_userdb D"
    and "gdm_dynamic_user_store_create D st p d g = Some (Created n i h, st')"
  shows "\<not> ght_contains (by_name st) n \<and> \<not> ght_contains (by_uid st) i \<and>
    \<not> pwent_for_uid D i \<and> uid_in_range D i \<and> h = g_build_filename (dyn_home_dir D) n \<and>
    (\<exists>n'. gdm_dynamic_user_store_remove st' i =
       (st\<lparr>next_alloc := n'\<rparr>,
        [if h = ''/'' \<or> has_prefix h ''/home'' then FatalHome h else RmRecursively h]))"
  using assms(1,2)
proof (cases rule: create_cases [of D st p d g])
  case (created u n')
  have lookups: "ght_lookup (ght_insert (uid u) u (by_uid st)) (uid u) = Some u"
    "ght_lookup (ght_insert (username u) u (by_name st)) (username u) = Some u"
    using assms(1) by (auto simp: dus_inv_def ght.lookup_insert_same)
  from created assms(3) lookups show ?thesis
    by (auto simp: gdm_dynamic_user_store_remove_def ght_insert_remove dynamic_user_free_def)
qed (use assms(3) in simp_all)

theorem create_remove_roundtrip_witness:
  "\<exists>st'. gdm_dynamic_user_store_create demo_sysdb demo_store ''gdm-greeter'' ''G'' ''gdm'' =
       Some (Created ''gdm-greeter-2'' 60580 ''/run/gdm/home/gdm-greeter-2'', st') \<and>
     (\<exists>n'. fst (gdm_dynamic_user_store_remove st' 60580) = demo_store\<lparr>next_alloc := n'\<rparr>) \<and>
     \<not> pwent_for_uid demo_sysdb 60580"
proof -
  have u: "have_userdb demo_sysdb" by (simp add: demo_sysdb_def)
  have c: "\<exists>st'. gdm_dynamic_user_store_create demo_sysdb demo_store ''gdm-greeter'' ''G'' ''gdm'' =
       Some (Created ''gdm-greeter-2'' 60580 ''/run/gdm/home/gdm-greeter-2'', st')"
    by (simp add: gdm_dynamic_user_store_create_def demo_sysdb_def demo_store_def
        pick_username_def ght_contains_def pick_username_loop.simps numbered_name_def
        dec_of_nat.simps pick_uid_def pick_uid_loop.simps uid_already_used_def
        greeter_uid_count_def next_uid_def g_build_filename_def dynamic_user_new_def Let_def)
  then obtain st' where st': "gdm_dynamic_user_store_create demo_sysdb demo_store
      ''gdm-greeter'' ''G'' ''gdm'' =
       Some (Created ''gdm-greeter-2'' 60580 ''/run/gdm/home/gdm-greeter-2'', st')" by blast
  from create_remove_roundtrip [OF demo_store_inv u st'] st' show ?thesis by auto
qed

text \<open>
  The comment above the \<^verbatim>\<open>g_assert_not_reached\<close> of \<^verbatim>\<open>pick_username\<close> says
  that the assertion is unreachable, since \<^verbatim>\<open>pick_uid\<close> would catch a full store.
  It holds as long as fewer users are allocated than the range has UIDs. In a full store
  whose users all descend from one preferred name the assertion is reached, because the name
  is picked first: the daemon stops although the UID search would have reported that there
  is no free UID.
\<close>

theorem pick_username_assertion:
  assumes "dus_inv D st" "have_userdb D"
  shows "(length (by_name st) < greeter_uid_count D \<longrightarrow>
       (\<exists>r st'. r \<noteq> NotReached \<and> gdm_dynamic_user_store_create D st p d g = Some (r, st'))) \<and>
    (name_family D p \<subseteq> fst ` set (by_name st) \<longrightarrow>
       gdm_dynamic_user_store_create D st p d g = Some (NotReached, st) \<and>
       (\<exists>st'. pick_uid D st p = Some (None, st')))"
proof (intro conjI impI)
  assume "length (by_name st) < greeter_uid_count D"
  then have name: "pick_username D st p \<noteq> None" using assms(1) by (rule pick_username_not_full [rotated])
  from assms show "\<exists>r st'. r \<noteq> NotReached \<and> gdm_dynamic_user_store_create D st p d g = Some (r, st')"
    by (cases rule: create_cases [of D st p d g]) (use name pick_username_None in auto)
next
  assume full: "name_family D p \<subseteq> fst ` set (by_name st)"
  then show "gdm_dynamic_user_store_create D st p d g = Some (NotReached, st)"
    by (simp add: gdm_dynamic_user_store_create_def pick_username_None [THEN iffD2])
  have "greeter_uid_count D \<le> length (by_name st)"
    using pick_username_not_full [OF assms(1)] full by (metis not_le pick_username_None)
  then have "length (by_name st) = greeter_uid_count D"
    using dus_length_le [OF assms(1)] by simp
  then have "ght_contains (by_uid st) i" if "uid_in_range D i" for i
    using dus_full_all_used [OF assms(1)] that by blast
  then show "\<exists>st'. pick_uid D st p = Some (None, st')"
    using pick_uid_spec [OF assms, of p] by (auto simp: uid_already_used_def) (metis option.exhaust)
qed

definition tiny_sysdb :: sysdb where
  "tiny_sysdb = demo_sysdb\<lparr>greeter_uid_min := 60579, greeter_uid_max := 60579\<rparr>"

theorem pick_username_assertion_witness:
  "dus_inv tiny_sysdb (demo_store\<lparr>next_alloc := 60579\<rparr>) \<and>
   gdm_dynamic_user_store_create tiny_sysdb (demo_store\<lparr>next_alloc := 60579\<rparr>)
     ''gdm-greeter'' ''G'' ''gdm'' = Some (NotReached, demo_store\<lparr>next_alloc := 60579\<rparr>)"
proof -
  let ?st = "demo_store\<lparr>next_alloc := 60579\<rparr>"
  have inv: "dus_inv tiny_sysdb ?st"
    by (simp add: dus_inv_def tiny_sysdb_def demo_sysdb_def demo_store_def demo_user_def
        ght_wf_def uid_in_range_def)
  have u: "have_userdb tiny_sysdb" by (simp add: tiny_sysdb_def demo_sysdb_def)
  have "name_family tiny_sysdb ''gdm-greeter'' \<subseteq> fst ` set (by_name ?st)"
    by (simp add: name_family_def tiny_sysdb_def greeter_uid_count_def demo_store_def)
  with pick_username_assertion [OF inv u, of "''gdm-greeter''" "''G''" "''gdm''"] inv
  show ?thesis by simp
qed

text \<open>
  The userdb listing streams every user of the store exactly once: all but the last one
  with \<^verbatim>\<open>more\<close>, the last one as the final reply, and the error
  \<^verbatim>\<open>NoRecordFound\<close> alone when there is none.
\<close>

theorem vl_listing_complete:
  assumes "0 \<le> dispatch_rc c" "\<And>u. 0 \<le> build_rc c u" "\<And>u. 0 \<le> notify_rc c u"
    and "gp_uid p = UID_INVALID" "gp_username p = None" "gp_service p = Some GDM_SERVICE_ID"
  shows "vl_get_user_record D c (Some st) p =
    (let rs = map (\<lambda>(n, u). dynamic_user_build_record D u) (by_name st) in
     (if rs = [] then [VlError ''io.systemd.UserDatabase.NoRecordFound'']
      else map VlNotify (butlast rs) @ [VlReply (last rs)], VlDone))"
proof (cases "by_name st")
  case Nil
  with assms show ?thesis by (simp add: vl_get_user_record_def vl_answer_record_def)
next
  case (Cons x xs)
  let ?us = "snd x # map snd xs"
  have "vl_list_users D c None (map snd (by_name st)) =
      (map (\<lambda>u. VlNotify (dynamic_user_build_record D u)) (butlast ?us), Inr (Some (last ?us)))"
    using vl_list_users_ok [of c, OF assms(2,3)] Cons by simp
  moreover have "map (\<lambda>(n, u). dynamic_user_build_record D u) (by_name st) =
      map (dynamic_user_build_record D) ?us"
    using Cons by (auto simp: case_prod_beta)
  moreover have "map (\<lambda>u. VlNotify (dynamic_user_build_record D u)) (butlast ?us) =
      map VlNotify (butlast (map (dynamic_user_build_record D) ?us))"
    by (simp only: map_butlast map_map o_def)
  ultimately show ?thesis
    using assms by (simp add: vl_get_user_record_def vl_answer_record_def not_less [symmetric]
        last_map del: butlast.simps map_butlast list.map(2))
qed

theorem vl_listing_complete_witness:
  "vl_get_user_record demo_sysdb
     \<lparr>dispatch_rc = 0, build_rc = (\<lambda>u. 0), notify_rc = (\<lambda>u. 0)\<rparr> (Some demo_store)
     \<lparr>gp_uid = UID_INVALID, gp_username = None, gp_service = Some GDM_SERVICE_ID\<rparr> =
   ([VlReply (dynamic_user_build_record demo_sysdb demo_user)], VlDone)"
  by (subst vl_listing_complete) (simp_all add: demo_store_def)

end
