(* ===== verification/Launch_Environment.thy ===== *)
theory Launch_Environment
  imports Dynamic_User_Store
begin

text \<open>
  \<^verbatim>\<open>daemon/gdm-launch-environment.c\<close>: the object that runs the greeter (or initial
  setup) of a display as a dynamic user. It owns the UID it allocated and a
  \<^verbatim>\<open>GdmSession\<close>. The calls it makes on that session, on the kernel and on the other
  objects of the daemon are values of the type \<open>call\<close>; what a handler does, in order,
  is a list of calls and emitted signals.
\<close>

section \<open>Data\<close>

datatype call =
    SessionNew nat u32 cstr cstr bool
  | SessionStartConversation nat string
  | SessionStopConversation nat string
  | SessionSelectSession nat string
  | SessionSetType nat string
  | SessionSetSupportedTypes nat "string list option"
  | SessionSetDisplayIsInitial nat bool
  | SessionSetRemoteId nat cstr
  | SessionSetupForProgram nat string cstr string
  | SessionStartSession nat string
  | SessionClose nat
  | SessionUnref nat
  | KillGroup int
  | RemoveHome string
  | ActivateSession string string
  | PlymouthPrepare
  | PlymouthQuit bool
  | ExportDisplay string
  | UnexportDisplay string
  | EmitDisplayAdded string
  | EmitDisplayRemoved nat
  | EmitGraphicsUnsupported
  | SettingsReload
  | LookupUser string
  | StartRemoteFactory
  | ReleaseStaleSource nat
  | SessionRecord string nat
  | SessionSetDisplayDevice nat string
  | SessionReset nat
  | UnlockSession string
  | MarkInitialSetupDone
  | SessionSetupForUser nat string cstr
  | SessionSetTimedLogin nat cstr int
  | TerminateSession string

datatype le_signal = OPENED | STARTED | STOPPED | EXITED int | DIED int

datatype le_step = LeCall call | LeEmit le_signal

record launch_env =
  le_session :: "nat option"
  session_name :: string
  pid :: int
  preferred_user_name :: string
  user_disp_name :: string
  user_member_of :: string
  dyn_user_name :: cstr
  dyn_uid :: u32
  dyn_user_home :: cstr
  dconf_profile :: cstr
  le_session_id :: cstr
  display_seat_id :: cstr
  display_hostname :: cstr
  display_is_local :: bool
  holds_store :: bool

section \<open>Construction\<close>

definition launch_env_new ::
  "string \<Rightarrow> string \<Rightarrow> string \<Rightarrow> string \<Rightarrow> string \<Rightarrow> cstr \<Rightarrow> cstr \<Rightarrow> bool \<Rightarrow> launch_env" where
  "launch_env_new name user disp member profile seat host local =
     \<lparr>le_session = None, session_name = name, pid = 0, preferred_user_name = user,
      user_disp_name = disp, user_member_of = member, dyn_user_name = None, dyn_uid = 0,
      dyn_user_home = None, dconf_profile = Some profile, le_session_id = None,
      display_seat_id = seat, display_hostname = host, display_is_local = local,
      holds_store = False\<rparr>"

text \<open>\<open>gdm_group\<close> is the build's \<^verbatim>\<open>GDM_GROUPNAME\<close>.\<close>

definition gdm_create_greeter_launch_environment ::
  "string \<Rightarrow> cstr \<Rightarrow> cstr \<Rightarrow> bool \<Rightarrow> launch_env" where
  "gdm_create_greeter_launch_environment gdm_group seat host local =
     launch_env_new ''gnome-greeter'' ''gdm-greeter'' ''GDM Greeter'' gdm_group ''gdm''
       seat host local"

definition gdm_create_initial_setup_launch_environment ::
  "cstr \<Rightarrow> cstr \<Rightarrow> bool \<Rightarrow> launch_env" where
  "gdm_create_initial_setup_launch_environment seat host local =
     launch_env_new ''gnome-initial-setup'' ''gnome-initial-setup'' ''GNOME Initial Setup''
       ''gnome-initial-setup'' ''gnome-initial-setup'' seat host local"

section \<open>Operations\<close>

text \<open>
  The UID is allocated once. \<open>Inl\<close> is the error that the store reports; its failed
  assertion ends the daemon. A search for a UID that does not return is \<open>OutOfFuel\<close>.
\<close>

definition gdm_launch_environment_ensure_uid ::
  "sysdb \<Rightarrow> dyn_store \<Rightarrow> launch_env \<Rightarrow> ((dus_error + u32) \<times> dyn_store \<times> launch_env) run" where
  "gdm_launch_environment_ensure_uid D st le =
     (if dyn_uid le \<noteq> 0 then Ret (Inr (dyn_uid le), st, le)
      else
        (case gdm_dynamic_user_store_create D st (preferred_user_name le) (user_disp_name le)
                (user_member_of le) of
           None \<Rightarrow> OutOfFuel
         | Some (NotReached, _) \<Rightarrow> Stop ''pick_username: should not be reached''
         | Some (CreateFailed e, st') \<Rightarrow> Ret (Inl e, st', le)
         | Some (Created n i h, st') \<Rightarrow>
             Ret (Inr i, st', le\<lparr>dyn_user_name := Some n, dyn_uid := i, dyn_user_home := Some h,
                               holds_store := True\<rparr>)))"

text \<open>\<open>sid\<close> names the \<^verbatim>\<open>GdmSession\<close> that the call to \<^verbatim>\<open>gdm_session_new\<close> returns.\<close>

definition gdm_launch_environment_start :: "nat \<Rightarrow> launch_env \<Rightarrow> bool \<times> launch_env \<times> call list" where
  "gdm_launch_environment_start sid le =
     (if dyn_uid le = 0 then (False, le, [])
      else (True, le\<lparr>le_session := Some sid\<rparr>,
            [SessionNew sid (dyn_uid le) (display_hostname le) (display_seat_id le)
               (display_is_local le),
             SessionStartConversation sid ''gdm-launch-environment'',
             SessionSelectSession sid (session_name le),
             SessionSetType sid ''wayland'']))"

text \<open>
  The end of a dynamic user: its home is deleted, or the daemon refuses to and stops.
\<close>

fun free_calls :: "free_effect list \<Rightarrow> call list run" where
  "free_calls [] = Ret []"
| "free_calls (RmRecursively h # es) = bindR (free_calls es) (\<lambda>cs. Ret (RemoveHome h # cs))"
| "free_calls (FatalHome h # es) = Stop ''dynamic user home is in /home or is root''"

definition gdm_launch_environment_stop ::
  "dyn_store \<Rightarrow> launch_env \<Rightarrow> (dyn_store \<times> launch_env \<times> le_step list) run" where
  "gdm_launch_environment_stop st le =
     (let killed = (if pid le > 1 then [LeCall (KillGroup (- pid le))] else []);
          closed = (case le_session le of
                      None \<Rightarrow> []
                    | Some s \<Rightarrow> [LeCall (SessionClose s), LeCall (SessionUnref s)]);
          le1 = le\<lparr>le_session := None\<rparr>
      in if dyn_uid le \<noteq> 0
         then (let (st', fx) = gdm_dynamic_user_store_remove st (dyn_uid le) in
               bindR (free_calls fx) (\<lambda>cs.
                 Ret (st', le1\<lparr>dyn_uid := 0\<rparr>,
                      killed @ closed @ map LeCall cs @ [LeEmit STOPPED])))
         else Ret (st, le1, killed @ closed @ [LeEmit STOPPED]))"

section \<open>Handlers of the session's signals\<close>

definition le_on_session_opened :: "string \<Rightarrow> string \<Rightarrow> launch_env \<Rightarrow> launch_env \<times> le_step list" where
  "le_on_session_opened service sid le =
     (le\<lparr>le_session_id := Some sid\<rparr>,
      LeEmit OPENED #
      (case le_session le of
         None \<Rightarrow> []
       | Some s \<Rightarrow> [LeCall (SessionStartSession s service)]))"

definition le_on_session_started :: "int \<Rightarrow> launch_env \<Rightarrow> launch_env \<times> le_step list" where
  "le_on_session_started p le = (le\<lparr>pid := p\<rparr>, [LeEmit STARTED])"

definition stop_conversation_calls :: "launch_env \<Rightarrow> le_step list" where
  "stop_conversation_calls le =
     (case le_session le of
        None \<Rightarrow> []
      | Some s \<Rightarrow> [LeCall (SessionStopConversation s ''gdm-launch-environment'')])"

definition le_on_session_exited :: "int \<Rightarrow> launch_env \<Rightarrow> launch_env \<times> le_step list" where
  "le_on_session_exited code le = (le, stop_conversation_calls le @ [LeEmit (EXITED code)])"

definition le_on_session_died :: "int \<Rightarrow> launch_env \<Rightarrow> launch_env \<times> le_step list" where
  "le_on_session_died sig le = (le, stop_conversation_calls le @ [LeEmit (DIED sig)])"

text \<open>\<open>logdir\<close> is the build's \<^verbatim>\<open>LOGDIR\<close>.\<close>

definition le_on_conversation_started :: "string \<Rightarrow> launch_env \<Rightarrow> launch_env \<times> le_step list" where
  "le_on_conversation_started logdir le =
     (le, case le_session le of
            None \<Rightarrow> []
          | Some s \<Rightarrow>
              [LeCall (SessionSetupForProgram s ''gdm-launch-environment'' (dyn_user_name le)
                 (g_build_filename logdir ''greeter.log''))])"

definition le_on_conversation_stopped :: "launch_env \<Rightarrow> launch_env \<times> le_step list" where
  "le_on_conversation_stopped le =
     (le\<lparr>le_session := None\<rparr>,
      (if pid le > 1 then [LeCall (KillGroup (- pid le)), LeEmit STOPPED] else []) @
      (case le_session le of
         None \<Rightarrow> []
       | Some s \<Rightarrow> [LeCall (SessionClose s), LeCall (SessionUnref s)]))"

section \<open>Lemmas\<close>

lemma ensure_uid_inv:
  assumes "dus_inv D st" "have_userdb D"
    and "gdm_launch_environment_ensure_uid D st le = Ret (r, st', le')"
  shows "dus_inv D st'"
proof (cases "dyn_uid le = 0")
  case True
  obtain c s where "gdm_dynamic_user_store_create D st (preferred_user_name le)
      (user_disp_name le) (user_member_of le) = Some (c, s)" "dus_inv D s"
    using create_inv [OF assms(1,2)] by blast
  with True assms(3) show ?thesis
    by (cases c) (auto simp: gdm_launch_environment_ensure_uid_def)
qed (use assms in \<open>auto simp: gdm_launch_environment_ensure_uid_def\<close>)

text \<open>A second call gives the same UID and allocates nothing.\<close>

lemma ensure_uid_idem:
  assumes "gdm_launch_environment_ensure_uid D st le = Ret (Inr i, st', le')" "i \<noteq> 0"
  shows "gdm_launch_environment_ensure_uid D st' le' = Ret (Inr i, st', le')"
  using assms by (auto simp: gdm_launch_environment_ensure_uid_def
      split: if_splits option.splits create_result.splits)

lemma stop_inv:
  assumes "dus_inv D st" "gdm_launch_environment_stop st le = Ret (st', le', steps)"
  shows "dus_inv D st'" "dyn_uid le' = 0" "le_session le' = None"
proof -
  show "dus_inv D st'"
    using assms remove_inv [OF assms(1), of "dyn_uid le"]
    by (auto simp: gdm_launch_environment_stop_def Let_def split: if_splits prod.splits)
  show "dyn_uid le' = 0" "le_session le' = None"
    using assms(2) by (auto simp: gdm_launch_environment_stop_def Let_def
        split: if_splits prod.splits)
qed

end
