(* ===== verification/Gdm_Display.thy ===== *)
theory Gdm_Display
  imports Launch_Environment
begin

text \<open>
  \<^verbatim>\<open>daemon/gdm-display.c\<close>: the data of one display, its properties, its D-Bus
  getters, and the decision whether it runs initial setup. The operations that change the
  status notify the handlers of other objects, so they act on the state of the daemon and are
  in the theory \<open>Daemon_Displays\<close>.
\<close>

section \<open>Data\<close>

datatype display_status =
  UNMANAGED | PREPARED | MANAGED | WAITING_TO_FINISH | FINISHED | FAILED

text \<open>
  The fields of \<^verbatim>\<open>GdmDisplayPrivate\<close>. \<open>display_id\<close> is the object path; the class of
  the object (\<^verbatim>\<open>GdmLocalDisplay\<close> or \<^verbatim>\<open>GdmRemoteDisplay\<close>) is
  \<open>remote_id\<close>, a remote display's identifier. The last four fields are what GObject keeps
  of the connections between objects: whether the display's handlers are connected to its
  launch environment, whether the manager's and the local factory's handlers of
  \<^verbatim>\<open>notify::status\<close> are connected to the display, and the session of the object data
  \<^verbatim>\<open>gdm-user-session\<close>.
\<close>

record display =
  display_id :: string
  seat_id :: cstr
  session_id :: cstr
  session_class :: cstr
  remote_hostname :: cstr
  status :: display_status
  autologin_user :: cstr
  finish_idle_id :: nat
  launch_environment :: "launch_env option"
  is_local :: bool
  is_initial :: bool
  allow_timed_login :: bool
  have_existing_user_accounts :: bool
  doing_initial_setup :: bool
  session_registered :: bool
  supported_session_types :: "string list option"
  remote_id :: "cstr option"
  le_connected :: bool
  manager_connected :: bool
  factory_connected :: bool
  user_session :: "nat option"

text \<open>What displays, factories and the manager ask of the system.\<close>

record sysenv =
  db :: sysdb
  gdm_groupname :: string
  initial_vt :: u32
  with_plymouth :: bool
  have_udev :: bool
  x11_support :: bool
  cached_users :: "nat option"
  ran_initial_setup :: bool
  proc_cmdline :: cstr
  regex_group :: "string \<Rightarrow> string option"
  session_file_exists :: "string \<Rightarrow> bool"
  setting_bool :: "string \<Rightarrow> bool option"
  setting_string :: "string \<Rightarrow> cstr option"
  x_server_found :: bool
  seat_sessions :: "cstr \<Rightarrow> string list option"
  session_get_class :: "string \<Rightarrow> int + string"
  session_get_state :: "string \<Rightarrow> int + string"
  session_get_service :: "string \<Rightarrow> int + string"
  session_get_type :: "string \<Rightarrow> int + string"
  uid_get_sessions :: "u32 \<Rightarrow> string list option"
  pid_get_session :: "int \<Rightarrow> int + string"
  session_get_tty :: "string \<Rightarrow> int + string"
  session_get_vt :: "string \<Rightarrow> int + u32"
  seat_active_session :: "cstr \<Rightarrow> cstr"
  seat_can_graphical :: "cstr \<Rightarrow> int"
  list_seats :: "string list option"
  udev_devices :: "(string \<times> bool \<times> int option \<times> int option) list"
  user_manager_loaded :: bool
  user_nonexistent :: "string \<Rightarrow> bool"
  system_bus :: bool
  terminate_session :: "string \<Rightarrow> bool"
  polkit_authority :: bool
  polkit_check :: "string \<Rightarrow> string \<Rightarrow> bool option"
  vt_channel :: bool

section \<open>Construction\<close>

definition object_path :: "nat \<Rightarrow> string" where
  "object_path ptr = ''/org/gnome/DisplayManager/Displays/'' @ dec_of_nat ptr"

lemma object_path_inj [simp]: "object_path a = object_path b \<longleftrightarrow> a = b"
  by (simp add: object_path_def dec_of_nat_inj)

text \<open>The defaults of the construct properties, and the path of the object at \<open>ptr\<close>.\<close>

definition gdm_display_constructor :: "nat \<Rightarrow> display" where
  "gdm_display_constructor ptr =
     \<lparr>display_id = object_path ptr, seat_id = None, session_id = None,
      session_class = Some ''greeter'', remote_hostname = None, status = UNMANAGED,
      autologin_user = None, finish_idle_id = 0, launch_environment = None,
      is_local = True, is_initial = False, allow_timed_login = True,
      have_existing_user_accounts = False, doing_initial_setup = False,
      session_registered = False, supported_session_types = None, remote_id = None,
      le_connected = False, manager_connected = False, factory_connected = False,
      user_session = None\<rparr>"

definition gdm_local_display_new :: "nat \<Rightarrow> display" where
  "gdm_local_display_new ptr = gdm_display_constructor ptr"

section \<open>Properties\<close>

datatype display_prop =
    PROP_ID cstr
  | PROP_STATUS display_status
  | PROP_SEAT_ID cstr
  | PROP_SESSION_ID cstr
  | PROP_SESSION_CLASS cstr
  | PROP_REMOTE_HOSTNAME cstr
  | PROP_IS_LOCAL bool
  | PROP_AUTOLOGIN_USER cstr
  | PROP_ALLOW_TIMED_LOGIN bool
  | PROP_LAUNCH_ENVIRONMENT launch_env
  | PROP_IS_INITIAL bool
  | PROP_SESSION_REGISTERED bool
  | PROP_SUPPORTED_SESSION_TYPES "string list option"

text \<open>
  \<^verbatim>\<open>_gdm_display_set_status\<close>: the second component says that the status has
  changed, so that \<^verbatim>\<open>notify::status\<close> is emitted.
\<close>

definition gdm_display_set_status :: "display_status \<Rightarrow> display \<Rightarrow> display \<times> bool" where
  "gdm_display_set_status s d =
     (if s \<noteq> status d then (d\<lparr>status := s\<rparr>, True) else (d, False))"

text \<open>\<^verbatim>\<open>PROP_ID\<close> is a nullable string; \<^verbatim>\<open>NULL\<close> leaves no path, here the empty one.\<close>

fun gdm_display_set_property :: "display_prop \<Rightarrow> display \<Rightarrow> display \<times> bool" where
  "gdm_display_set_property (PROP_ID i) d =
     (d\<lparr>display_id := (case i of None \<Rightarrow> [] | Some x \<Rightarrow> x)\<rparr>, False)"
| "gdm_display_set_property (PROP_STATUS s) d = gdm_display_set_status s d"
| "gdm_display_set_property (PROP_SEAT_ID s) d = (d\<lparr>seat_id := s\<rparr>, False)"
| "gdm_display_set_property (PROP_SESSION_ID s) d = (d\<lparr>session_id := s\<rparr>, False)"
| "gdm_display_set_property (PROP_SESSION_CLASS s) d = (d\<lparr>session_class := s\<rparr>, False)"
| "gdm_display_set_property (PROP_REMOTE_HOSTNAME s) d = (d\<lparr>remote_hostname := s\<rparr>, False)"
| "gdm_display_set_property (PROP_IS_LOCAL b) d = (d\<lparr>is_local := b\<rparr>, False)"
| "gdm_display_set_property (PROP_AUTOLOGIN_USER s) d = (d\<lparr>autologin_user := s\<rparr>, False)"
| "gdm_display_set_property (PROP_ALLOW_TIMED_LOGIN b) d = (d\<lparr>allow_timed_login := b\<rparr>, False)"
| "gdm_display_set_property (PROP_LAUNCH_ENVIRONMENT le) d =
     (d\<lparr>launch_environment := Some le\<rparr>, False)"
| "gdm_display_set_property (PROP_IS_INITIAL b) d = (d\<lparr>is_initial := b\<rparr>, False)"
| "gdm_display_set_property (PROP_SESSION_REGISTERED b) d = (d\<lparr>session_registered := b\<rparr>, False)"
| "gdm_display_set_property (PROP_SUPPORTED_SESSION_TYPES ts) d =
     (d\<lparr>supported_session_types := ts\<rparr>, False)"

text \<open>\<^verbatim>\<open>g_object_set\<close> on an object that no status handler is connected to yet.\<close>

fun g_object_set :: "display_prop list \<Rightarrow> display \<Rightarrow> display" where
  "g_object_set [] d = d"
| "g_object_set (p # ps) d = g_object_set ps (fst (gdm_display_set_property p d))"

section \<open>D-Bus getters\<close>

definition or_empty :: "cstr \<Rightarrow> string" where
  "or_empty s = (case s of None \<Rightarrow> [] | Some x \<Rightarrow> x)"

definition handle_get_id :: "display \<Rightarrow> string" where
  "handle_get_id d = display_id d"

definition handle_get_remote_hostname :: "display \<Rightarrow> string" where
  "handle_get_remote_hostname d = or_empty (remote_hostname d)"

definition handle_get_seat_id :: "display \<Rightarrow> string" where
  "handle_get_seat_id d = or_empty (seat_id d)"

definition handle_get_session_id :: "display \<Rightarrow> string" where
  "handle_get_session_id d = or_empty (session_id d)"

definition handle_is_local :: "display \<Rightarrow> bool" where
  "handle_is_local d = is_local d"

definition handle_is_initial :: "display \<Rightarrow> bool" where
  "handle_is_initial d = is_initial d"

section \<open>Initial setup\<close>

text \<open>
  \<^verbatim>\<open>ListCachedUsers\<close> of the accounts service; \<open>None\<close> is a failed call, after which
  the caller exits.
\<close>

definition look_for_existing_users_sync :: "sysenv \<Rightarrow> display \<Rightarrow> display option" where
  "look_for_existing_users_sync E d =
     map_option (\<lambda>n. d\<lparr>have_existing_user_accounts := (n > 0)\<rparr>) (cached_users E)"

definition can_create_environment :: "sysenv \<Rightarrow> string \<Rightarrow> bool" where
  "can_create_environment E session =
     session_file_exists E (''/gnome-session/sessions/'' @ session @ ''.session'')"

definition already_done_initial_setup_on_this_boot :: "sysenv \<Rightarrow> bool" where
  "already_done_initial_setup_on_this_boot E = ran_initial_setup E"

text \<open>
  The first group of the first match of
  \<^verbatim>\<open>\bgnome.initial-setup=([^\s]*)\b\<close> is the regular expression engine's
  \<open>regex_group\<close>.
\<close>

definition kernel_cmdline_initial_setup_argument :: "sysenv \<Rightarrow> string \<Rightarrow> string option" where
  "kernel_cmdline_initial_setup_argument E contents = regex_group E contents"

definition kernel_cmdline_initial_setup_force_state :: "sysenv \<Rightarrow> bool option" where
  "kernel_cmdline_initial_setup_force_state E =
     (case proc_cmdline E of
        None \<Rightarrow> None
      | Some contents \<Rightarrow>
          (case kernel_cmdline_initial_setup_argument E contents of
             None \<Rightarrow> None
           | Some arg \<Rightarrow> Some (case arg of [] \<Rightarrow> False | c # _ \<Rightarrow> c = CHR ''1'')))"

definition wants_initial_setup :: "sysenv \<Rightarrow> display \<Rightarrow> bool" where
  "wants_initial_setup E d =
     (if already_done_initial_setup_on_this_boot E then False
      else
        (case kernel_cmdline_initial_setup_force_state E of
           Some forced \<Rightarrow> forced
         | None \<Rightarrow>
             if \<not> is_local d then False
             else if have_existing_user_accounts d then False
             else if \<not> can_create_environment E ''gnome-initial-setup'' then False
             else
               (case setting_bool E ''daemon/InitialSetupEnable'' of
                  None \<Rightarrow> False
                | Some enabled \<Rightarrow> enabled)))"

section \<open>Lemmas\<close>

lemma set_status_status [simp]: "status (fst (gdm_display_set_status s d)) = s"
  by (simp add: gdm_display_set_status_def)

lemma set_status_notifies: "snd (gdm_display_set_status s d) \<longleftrightarrow> status d \<noteq> s"
  by (auto simp: gdm_display_set_status_def)

lemma set_status_same: "gdm_display_set_status (status d) d = (d, False)"
  by (simp add: gdm_display_set_status_def)

lemma g_object_set_status:
  "\<forall>p \<in> set ps. \<forall>s. p \<noteq> PROP_STATUS s \<Longrightarrow> status (g_object_set ps d) = status d"
proof (induction ps arbitrary: d)
  case (Cons p ps)
  then have "status (fst (gdm_display_set_property p d)) = status d" by (cases p) auto
  with Cons show ?case by simp
qed simp

section \<open>A concrete system\<close>

text \<open>
  A system with one seat, whose greeter runs in the session \<open>c1\<close> on the virtual terminal
  1; the witnesses use it.
\<close>

definition demo_env :: sysenv where
  "demo_env =
     \<lparr>db = demo_sysdb, gdm_groupname = ''gdm'', initial_vt = 1, with_plymouth = False,
      have_udev = True, x11_support = False, cached_users = Some 1, ran_initial_setup = False,
      proc_cmdline = None, regex_group = (\<lambda>s. None), session_file_exists = (\<lambda>s. False),
      setting_bool = (\<lambda>k. None), setting_string = (\<lambda>k. None), x_server_found = False,
      seat_sessions = (\<lambda>s. Some [''c1'']),
      session_get_class = (\<lambda>s. Inr ''greeter''), session_get_state = (\<lambda>s. Inr ''active''),
      session_get_service = (\<lambda>s. Inr ''gdm-launch-environment''),
      session_get_type = (\<lambda>s. Inr ''wayland''), uid_get_sessions = (\<lambda>i. Some []),
      pid_get_session = (\<lambda>p. Inr ''c1''),
      session_get_tty = (\<lambda>s. Inr ''tty1''), session_get_vt = (\<lambda>s. Inr 1),
      seat_active_session = (\<lambda>s. Some ''c1''), seat_can_graphical = (\<lambda>s. 1),
      list_seats = Some [''seat0''], udev_devices = [(''pci-0'', True, None, None)],
      user_manager_loaded = True, user_nonexistent = (\<lambda>u. False),
      system_bus = True, terminate_session = (\<lambda>s. True), polkit_authority = True,
      polkit_check = (\<lambda>s u. Some True), vt_channel = True\<rparr>"

end
