(* ===== verification/Gdm_Login1.thy ===== *)
theory Gdm_Login1
  imports Gdm_Display
begin

text \<open>
  The queries of \<^verbatim>\<open>common/gdm-common.c\<close> to logind: the login window of a seat and
  the graphical sessions of a user. The functions of \<^verbatim>\<open>sd-login\<close> are fields of
  \<open>sysenv\<close>; \<open>Inl r\<close> is their negative return code.
\<close>

section \<open>The login window of a seat\<close>

definition ENXIO :: int where
  "ENXIO = 6"

text \<open>
  The loop over the sessions of the seat. A session that is gone (\<^verbatim>\<open>-ENXIO\<close>) is
  skipped at each of the three queries, any other failure ends the search.
\<close>

fun login_window_loop :: "sysenv \<Rightarrow> string list \<Rightarrow> string option" where
  "login_window_loop E [] = None"
| "login_window_loop E (s # ss) =
     (case session_get_class E s of
        Inl r \<Rightarrow> if r = - ENXIO then login_window_loop E ss else None
      | Inr cls \<Rightarrow>
          if cls \<noteq> ''greeter'' then login_window_loop E ss
          else
            (case session_get_state E s of
               Inl r \<Rightarrow> if r = - ENXIO then login_window_loop E ss else None
             | Inr state \<Rightarrow>
                 if state = ''closing'' then login_window_loop E ss
                 else
                   (case session_get_service E s of
                      Inl r \<Rightarrow> if r = - ENXIO then login_window_loop E ss else None
                    | Inr service \<Rightarrow>
                        if service = ''gdm-launch-environment'' then Some s
                        else login_window_loop E ss)))"

definition gdm_get_login_window_session_id :: "sysenv \<Rightarrow> cstr \<Rightarrow> string option" where
  "gdm_get_login_window_session_id E seat =
     (case seat_sessions E seat of
        None \<Rightarrow> None
      | Some ss \<Rightarrow> login_window_loop E ss)"

section \<open>The graphical sessions of a user\<close>

definition systemd_session_is_graphical :: "sysenv \<Rightarrow> string \<Rightarrow> bool" where
  "systemd_session_is_graphical E s =
     (case session_get_type E s of
        Inl r \<Rightarrow> False
      | Inr t \<Rightarrow> t \<in> set [''wayland'', ''x11'', ''mir''])"

definition systemd_session_is_active :: "sysenv \<Rightarrow> string \<Rightarrow> bool" where
  "systemd_session_is_active E s =
     (case session_get_state E s of
        Inl r \<Rightarrow> False
      | Inr t \<Rightarrow> t \<in> set [''active'', ''online''])"

definition find_graphical_sessions :: "sysenv \<Rightarrow> u32 \<Rightarrow> string list option" where
  "find_graphical_sessions E i =
     map_option (filter (\<lambda>s. systemd_session_is_graphical E s \<and> systemd_session_is_active E s))
       (uid_get_sessions E i)"

definition gdm_find_graphical_sessions_for_username ::
  "sysenv \<Rightarrow> string \<Rightarrow> string + string list" where
  "gdm_find_graphical_sessions_for_username E name =
     (case pwent_for_name (db E) name of
        None \<Rightarrow> Inl (''Couldn't get pw entry for username '' @ name)
      | Some i \<Rightarrow>
          (case find_graphical_sessions E i of
             None \<Rightarrow> Inl (''Couldn't find sessions for username '' @ name)
           | Some ss \<Rightarrow> Inr ss))"

datatype find_error = NoSessions u32 | NoGraphicalSession u32

text \<open>The session of the process wins; otherwise the first graphical one of the user.\<close>

definition gdm_find_display_session :: "sysenv \<Rightarrow> int \<Rightarrow> u32 \<Rightarrow> find_error + string" where
  "gdm_find_display_session E p i =
     (case pid_get_session E p of
        Inr s \<Rightarrow> Inr s
      | Inl r \<Rightarrow>
          (case find_graphical_sessions E i of
             None \<Rightarrow> Inl (NoSessions i)
           | Some [] \<Rightarrow> Inl (NoGraphicalSession i)
           | Some (s # ss) \<Rightarrow> Inr s))"

section \<open>Properties\<close>

text \<open>A session that logind reports as a running greeter of GDM.\<close>

definition is_login_window :: "sysenv \<Rightarrow> string \<Rightarrow> bool" where
  "is_login_window E s =
     (session_get_class E s = Inr ''greeter'' \<and>
      session_get_service E s = Inr ''gdm-launch-environment'' \<and>
      (\<exists>state. session_get_state E s = Inr state \<and> state \<noteq> ''closing''))"

text \<open>A query that fails for another reason than a vanished session.\<close>

definition login_query_fails :: "sysenv \<Rightarrow> string \<Rightarrow> bool" where
  "login_query_fails E s =
     (\<exists>r. r \<noteq> - ENXIO \<and>
        (session_get_class E s = Inl r \<or> session_get_state E s = Inl r \<or>
         session_get_service E s = Inl r))"

lemma login_window_loop_sound:
  "login_window_loop E ss = Some s \<Longrightarrow> s \<in> set ss \<and> is_login_window E s"
  by (induction ss) (auto simp: is_login_window_def split: sum.splits if_splits)

lemma login_window_loop_complete:
  assumes "\<forall>s \<in> set ss. \<not> login_query_fails E s"
  shows "login_window_loop E ss = find (is_login_window E) ss"
  using assms
proof (induction ss)
  case (Cons s ss)
  then show ?case
    by (cases "session_get_class E s"; cases "session_get_state E s";
        cases "session_get_service E s")
       (auto simp: login_query_fails_def is_login_window_def)
qed simp

text \<open>
  The login window of a seat: whatever the search returns is a session of the seat that
  logind reports as a greeter of GDM that is not closing, and if no query fails other than for
  sessions that have vanished, the search returns the first such session of the seat and
  returns none only when there is none.
\<close>

theorem login_window_correct:
  assumes "seat_sessions E seat = Some ss"
  shows "(\<forall>s. gdm_get_login_window_session_id E seat = Some s \<longrightarrow>
            s \<in> set ss \<and> is_login_window E s) \<and>
    ((\<forall>s \<in> set ss. \<not> login_query_fails E s) \<longrightarrow>
       gdm_get_login_window_session_id E seat = find (is_login_window E) ss)"
  using assms login_window_loop_sound [of E ss] login_window_loop_complete [of ss E]
  by (simp add: gdm_get_login_window_session_id_def)

theorem login_window_correct_witness:
  "seat_sessions demo_env (Some ''seat0'') = Some [''c1''] \<and>
   gdm_get_login_window_session_id demo_env (Some ''seat0'') = Some ''c1'' \<and>
   is_login_window demo_env ''c1''"
proof -
  have s: "seat_sessions demo_env (Some ''seat0'') = Some [''c1'']" by (simp add: demo_env_def)
  have q: "\<forall>s \<in> set [''c1'']. \<not> login_query_fails demo_env s"
    by (simp add: login_query_fails_def demo_env_def)
  have w: "is_login_window demo_env ''c1''" by (simp add: is_login_window_def demo_env_def)
  have "gdm_get_login_window_session_id demo_env (Some ''seat0'') =
      find (is_login_window demo_env) [''c1'']"
    using login_window_correct [OF s] q by (elim conjE) (erule mp)
  also have "\<dots> = Some ''c1''" using w by simp
  finally show ?thesis using s w by (intro conjI)
qed

end
