(* ===== verification/Display_Store.thy ===== *)
theory Display_Store
  imports Gdm_Prelude
begin

text \<open>
  \<^verbatim>\<open>daemon/gdm-display-store.c\<close>: the table of the displays the daemon manages, from the
  object path to the display. A display is its address. Every operation comes with the
  signals it emits, in order: an entry that is removed or overwritten emits
  \<^verbatim>\<open>display-removed\<close> from the value's destroy function.
\<close>

type_synonym display_store = "(string, nat) ghash"

datatype store_signal = DISPLAY_ADDED string | DISPLAY_REMOVED nat

definition gdm_display_store_init :: display_store where
  "gdm_display_store_init = []"

definition gdm_display_store_add ::
  "string \<Rightarrow> nat \<Rightarrow> display_store \<Rightarrow> display_store \<times> store_signal list" where
  "gdm_display_store_add i p st =
     (ght_insert i p st,
      (case ght_lookup st i of None \<Rightarrow> [] | Some q \<Rightarrow> [DISPLAY_REMOVED q]) @ [DISPLAY_ADDED i])"

definition gdm_display_store_lookup :: "display_store \<Rightarrow> string \<Rightarrow> nat option" where
  "gdm_display_store_lookup st i = ght_lookup st i"

definition gdm_display_store_find :: "(string \<Rightarrow> nat \<Rightarrow> bool) \<Rightarrow> display_store \<Rightarrow> nat option" where
  "gdm_display_store_find P st = ght_find P st"

definition gdm_display_store_foreach ::
  "(string \<Rightarrow> nat \<Rightarrow> 's \<Rightarrow> 's run) \<Rightarrow> display_store \<Rightarrow> 's \<Rightarrow> 's run" where
  "gdm_display_store_foreach f st s = foldR (\<lambda>(i, p). f i p) st s"

definition gdm_display_store_foreach_remove ::
  "(string \<Rightarrow> nat \<Rightarrow> bool) \<Rightarrow> display_store \<Rightarrow> nat \<times> display_store \<times> store_signal list" where
  "gdm_display_store_foreach_remove P st =
     (let (kept, gone) = ght_foreach_remove P st
      in (length gone, kept, map (\<lambda>(i, p). DISPLAY_REMOVED p) gone))"

text \<open>The result of \<^verbatim>\<open>gdm_display_store_remove\<close> is always \<^verbatim>\<open>FALSE\<close>.\<close>

definition remove_display :: "nat \<Rightarrow> string \<Rightarrow> nat \<Rightarrow> bool" where
  "remove_display gone i p = (p = gone)"

definition gdm_display_store_remove ::
  "nat \<Rightarrow> display_store \<Rightarrow> bool \<times> display_store \<times> store_signal list" where
  "gdm_display_store_remove p st =
     (let (n, st', sigs) = gdm_display_store_foreach_remove (remove_display p) st
      in (False, st', sigs))"

definition gdm_display_store_clear :: "display_store \<Rightarrow> display_store \<times> store_signal list" where
  "gdm_display_store_clear st = ([], map (\<lambda>(i, p). DISPLAY_REMOVED p) st)"

section \<open>Lemmas\<close>

lemma store_foreach_remove_wf:
  "ght_wf st \<Longrightarrow> gdm_display_store_foreach_remove P st = (n, st', sigs) \<Longrightarrow> ght_wf st'"
  by (auto simp: gdm_display_store_foreach_remove_def ght_foreach_remove_def ght_wf_def
      distinct_map_filter)

lemma store_foreach_remove_set:
  assumes "gdm_display_store_foreach_remove P st = (n, st', sigs)"
  shows "set st' = {(i, p) \<in> set st. \<not> P i p}"
    "DISPLAY_REMOVED q \<in> set sigs \<longleftrightarrow> (\<exists>i. (i, q) \<in> set st \<and> P i q)"
    "n = length sigs"
  using assms
  by (auto simp: gdm_display_store_foreach_remove_def ght_foreach_remove_def image_iff)

lemma store_find_Some:
  "gdm_display_store_find P st = Some p \<Longrightarrow> \<exists>i. (i, p) \<in> set st \<and> P i p"
  by (simp add: gdm_display_store_find_def ght_find_Some)

lemma store_find_None:
  "gdm_display_store_find P st = None \<longleftrightarrow> (\<forall>(i, p) \<in> set st. \<not> P i p)"
  by (simp add: gdm_display_store_find_def ght_find_None)

section \<open>Properties\<close>

text \<open>
  The store is a map from object paths to displays: after an addition the path finds the
  new display and every other path what it found before, a display that was stored under
  the same path leaves with exactly one signal, and removing a freshly added display gives
  back the store and announces it.
\<close>

theorem display_store_add_remove:
  assumes "ght_wf st" "\<And>j q. (j, q) \<in> set st \<Longrightarrow> q \<noteq> p"
  shows "(let (st1, sigs1) = gdm_display_store_add i p st;
              (r, st2, sigs2) = gdm_display_store_remove p st1 in
     gdm_display_store_lookup st1 i = Some p \<and>
     (\<forall>j. j \<noteq> i \<longrightarrow> gdm_display_store_lookup st1 j = gdm_display_store_lookup st j) \<and>
     (\<forall>q. DISPLAY_REMOVED q \<in> set sigs1 \<longleftrightarrow> gdm_display_store_lookup st i = Some q) \<and>
     gdm_display_store_lookup st2 = (gdm_display_store_lookup st)(i := None) \<and>
     sigs2 = [DISPLAY_REMOVED p] \<and> \<not> r)"
proof -
  let ?st1 = "ght_insert i p st"
  have wf1: "ght_wf ?st1" using assms(1) by (rule ght.wf_insert)
  have pi: "q = p \<longleftrightarrow> j = i" if "(j, q) \<in> set ?st1" for j q
  proof -
    have *: "ght_lookup ?st1 j = Some q" using that wf1 by (simp add: ght_lookup_set)
    show ?thesis
    proof (cases "j = i")
      case True
      with * assms(1) show ?thesis by (simp add: ght.lookup_insert_same)
    next
      case False
      with * assms show ?thesis by (auto simp: ght.lookup_insert_other ght_lookup_set)
    qed
  qed
  have ip: "(i, p) \<in> set ?st1"
    using assms(1) by (simp add: ght_lookup_set [OF wf1, symmetric] ght.lookup_insert_same)
  have filt: "filter (\<lambda>(j, q). \<not> remove_display p j q) ?st1 = ght_remove i ?st1"
    using pi by (auto simp: remove_display_def ght_remove_def AList.delete_eq intro!: filter_cong)
  have "filter (\<lambda>(j, q). remove_display p j q) ?st1 = filter (\<lambda>x. x = (i, p)) ?st1"
    using pi by (auto simp: remove_display_def intro!: filter_cong)
  also have "\<dots> = [(i, p)]"
    using ip wf1 by (simp add: ght_wf_def distinct_map distinct_filter_one)
  finally have gone: "filter (\<lambda>(j, q). remove_display p j q) ?st1 = [(i, p)]" .
  have "ght_lookup (ght_remove i ?st1) = (ght_lookup st)(i := None)"
    using assms(1) wf1 by (simp add: ght.lookup_remove ght.lookup_insert)
  with filt gone assms(1) show ?thesis
    by (auto simp: gdm_display_store_add_def gdm_display_store_remove_def
        gdm_display_store_foreach_remove_def ght_foreach_remove_def
        gdm_display_store_lookup_def ght.lookup_insert Let_def split: option.splits)
qed

theorem display_store_add_remove_witness:
  "ght_wf [(''/a'', 1 :: nat)] \<and>
   (let (st1, sigs1) = gdm_display_store_add ''/b'' 2 [(''/a'', 1)];
        (r, st2, sigs2) = gdm_display_store_remove 2 st1 in
     gdm_display_store_lookup st1 ''/b'' = Some 2 \<and> sigs2 = [DISPLAY_REMOVED 2] \<and> \<not> r)"
  using display_store_add_remove [of "[(''/a'', 1)]" 2 "''/b''"]
  by (auto simp: ght_wf_def Let_def split: prod.splits)

end
