(* ===== verification/Daemon_State.thy ===== *)
theory Daemon_State
  imports Gdm_Login1 Display_Store
begin

text \<open>
  The state of the daemon that displays, the manager and the local display factory share: the
  display objects by their address, the display store, the dynamic users, the sources of the
  main loop, and the fields of the manager and of the factory. An operation that calls into
  another object, a session or the system appends a \<open>call\<close> to the log.

  \<open>with_display\<close> dereferences an address. The address of an object that has been
  finalised gives \<open>Stop dangling\<close>: the theorem that no run ends so is the memory safety
  of the handlers.
\<close>

section \<open>Data\<close>

datatype source =
    FinishIdle nat
  | PurgeDisplays
  | WaitToFinish
  | Seat0GraphicsCheck
  | PlymouthQuitTimeout
  | StartUserSession nat string
  | ResetSession nat

record world =
  heap :: "nat \<Rightarrow> display option"
  next_ptr :: nat
  store :: display_store
  users :: dyn_store
  sources :: "(nat \<times> source) list"
  next_source :: nat
  next_session :: nat
  session_display :: "nat \<Rightarrow> nat option"
  log :: "call list"
  \<comment> \<open>\<^verbatim>\<open>GdmDisplayFactory\<close> and \<^verbatim>\<open>GdmLocalDisplayFactory\<close>\<close>
  purge_displays_id :: nat
  display_creation_users :: "(string, nat) ghash"
  is_started :: bool
  num_failures :: u32
  seat0_has_platform_graphics :: bool
  seat0_has_boot_up_graphics :: bool
  seat0_graphics_check_timed_out :: bool
  seat0_graphics_check_timeout_id :: nat
  uevent_handler_id :: nat
  seat_subscriptions :: bool
  active_vt :: u32
  active_vt_watch_id :: nat
  wait_to_finish_timeout_id :: nat
  \<comment> \<open>\<^verbatim>\<open>GdmManager\<close>\<close>
  started :: bool
  remote_login_enabled :: bool
  automatic_login_display :: "nat option"
  did_automatic_login :: bool
  plymouth_is_running :: bool
  plymouth_quit_timeout_id :: nat
  pending_lookups :: "(nat \<times> string) list"
  user_sessions :: "nat list"
  \<comment> \<open>object data that the manager attaches to sessions\<close>
  start_when_ready :: "nat \<Rightarrow> bool"
  waiting_to_start :: "nat \<Rightarrow> bool"
  reset_operation :: "nat \<Rightarrow> bool"

type_synonym emitter = "nat \<Rightarrow> world \<Rightarrow> world run"

section \<open>Objects\<close>

definition dangling :: string where
  "dangling = ''use of a freed display''"

definition with_display :: "nat \<Rightarrow> world \<Rightarrow> (display \<Rightarrow> 'a run) \<Rightarrow> 'a run" where
  "with_display p w f = (case heap w p of None \<Rightarrow> Stop dangling | Some d \<Rightarrow> f d)"

definition put_display :: "nat \<Rightarrow> display \<Rightarrow> world \<Rightarrow> world" where
  "put_display p d w = w\<lparr>heap := (heap w)(p \<mapsto> d)\<rparr>"

text \<open>Creating an object gives it a fresh address.\<close>

definition new_display :: "(nat \<Rightarrow> display) \<Rightarrow> world \<Rightarrow> nat \<times> world" where
  "new_display mk w =
     (next_ptr w, put_display (next_ptr w) (mk (next_ptr w)) (w\<lparr>next_ptr := Suc (next_ptr w)\<rparr>))"

definition log_calls :: "call list \<Rightarrow> world \<Rightarrow> world" where
  "log_calls cs w = w\<lparr>log := log w @ cs\<rparr>"

section \<open>Sources of the main loop\<close>

definition g_source_add :: "source \<Rightarrow> world \<Rightarrow> nat \<times> world" where
  "g_source_add s w =
     (next_source w, w\<lparr>sources := sources w @ [(next_source w, s)],
                       next_source := Suc (next_source w)\<rparr>)"

text \<open>\<^verbatim>\<open>g_source_remove\<close>; removing an identifier that is no source is a critical warning.\<close>

definition g_source_remove :: "nat \<Rightarrow> world \<Rightarrow> world" where
  "g_source_remove i w =
     (if i \<in> fst ` set (sources w)
      then w\<lparr>sources := filter (\<lambda>(j, s). j \<noteq> i) (sources w)\<rparr>
      else log_calls [ReleaseStaleSource i] w)"

definition clear_source :: "nat \<Rightarrow> world \<Rightarrow> world" where
  "clear_source i w = (if i = 0 then w else g_source_remove i w)"

section \<open>Which objects are alive\<close>

definition live :: "world \<Rightarrow> nat \<Rightarrow> bool" where
  "live w p = (heap w p \<noteq> None)"

definition grows :: "world \<Rightarrow> world \<Rightarrow> bool" where
  "grows w w' = (\<forall>p. live w p \<longrightarrow> live w' p)"

lemma grows_refl [simp]: "grows w w"
  by (simp add: grows_def)

lemma grows_trans: "grows w w' \<Longrightarrow> grows w' w'' \<Longrightarrow> grows w w''"
  by (simp add: grows_def)

lemma growsD: "grows w w' \<Longrightarrow> live w p \<Longrightarrow> live w' p"
  by (simp add: grows_def)

lemma with_display_live: "live w p \<Longrightarrow> with_display p w f = f (the (heap w p))"
  by (auto simp: with_display_def live_def)

lemma live_put [simp]: "live (put_display p d w) q \<longleftrightarrow> q = p \<or> live w q"
  by (auto simp: live_def put_display_def)

lemma heap_put [simp]: "heap (put_display p d w) = (heap w)(p \<mapsto> d)"
  by (simp add: put_display_def)

end
