(* ===== verification/Daemon_Displays.thy ===== *)
theory Daemon_Displays
  imports Daemon_State
begin

text \<open>
  The operations of \<^verbatim>\<open>daemon/gdm-display.c\<close>, \<^verbatim>\<open>gdm-local-display.c\<close> and
  \<^verbatim>\<open>gdm-remote-display.c\<close> that change the status of a display, and the reactions of
  \<^verbatim>\<open>daemon/gdm-manager.c\<close> to displays that appear, change and go away.

  A change of the status emits \<^verbatim>\<open>notify::status\<close>, which runs the handlers of other
  objects before the operation goes on. The operations take the emission as their
  argument \<open>emit\<close>, as GObject calls handlers through its tables; the theory
  \<open>Daemon_Loop\<close> closes the recursion with the handlers of the manager and of the
  local factory.
\<close>

section \<open>Status\<close>

definition set_status :: "emitter \<Rightarrow> nat \<Rightarrow> display_status \<Rightarrow> world \<Rightarrow> world run" where
  "set_status emit p s w =
     with_display p w (\<lambda>d.
       let (d', changed) = gdm_display_set_status s d;
           w' = put_display p d' w
       in if changed then emit p w' else Ret w')"

text \<open>
  \<^verbatim>\<open>g_object_set\<close> of the property \<^verbatim>\<open>status\<close>: GObject emits
  \<^verbatim>\<open>notify::status\<close> also when the value is the one the display has.
\<close>

definition set_status_property :: "emitter \<Rightarrow> nat \<Rightarrow> display_status \<Rightarrow> world \<Rightarrow> world run" where
  "set_status_property emit p s w =
     with_display p w (\<lambda>d. emit p (put_display p (fst (gdm_display_set_property (PROP_STATUS s) d)) w))"

definition gdm_display_real_prepare :: "emitter \<Rightarrow> nat \<Rightarrow> world \<Rightarrow> (bool \<times> world) run" where
  "gdm_display_real_prepare emit p w =
     bindR (set_status emit p PREPARED w) (\<lambda>w. Ret (True, w))"

definition gdm_display_finish :: "emitter \<Rightarrow> nat \<Rightarrow> world \<Rightarrow> world run" where
  "gdm_display_finish emit p w =
     with_display p w (\<lambda>d.
       let w1 = put_display p (d\<lparr>finish_idle_id := 0\<rparr>) (clear_source (finish_idle_id d) w)
       in set_status emit p FINISHED w1)"

definition gdm_display_unmanage :: "emitter \<Rightarrow> nat \<Rightarrow> world \<Rightarrow> world run" where
  "gdm_display_unmanage emit p w =
     with_display p w (\<lambda>d.
       if \<not> session_registered d then set_status emit p FAILED w
       else set_status emit p UNMANAGED w)"

definition finish_idle :: "emitter \<Rightarrow> nat \<Rightarrow> world \<Rightarrow> world run" where
  "finish_idle emit p w =
     with_display p w (\<lambda>d. gdm_display_finish emit p (put_display p (d\<lparr>finish_idle_id := 0\<rparr>) w))"

definition queue_finish :: "nat \<Rightarrow> world \<Rightarrow> world run" where
  "queue_finish p w =
     with_display p w (\<lambda>d.
       if finish_idle_id d = 0
       then (let (i, w1) = g_source_add (FinishIdle p) w
             in Ret (put_display p (d\<lparr>finish_idle_id := i\<rparr>) w1))
       else Ret w)"

definition self_destruct :: "emitter \<Rightarrow> nat \<Rightarrow> world \<Rightarrow> world run" where
  "self_destruct emit p w =
     bindR (gdm_display_unmanage emit p w) (\<lambda>w.
       with_display p w (\<lambda>d.
         if status d \<noteq> FINISHED then queue_finish p w else Ret w))"

section \<open>The launch environment of a display\<close>

definition step_calls :: "le_step list \<Rightarrow> call list" where
  "step_calls steps = concat (map (\<lambda>s. case s of LeCall c \<Rightarrow> [c] | LeEmit e \<Rightarrow> []) steps)"

text \<open>
  The last reference to a launch environment goes away: it stops, and its signals reach no
  handler any more.
\<close>

definition finalize_launch_env :: "launch_env \<Rightarrow> world \<Rightarrow> world run" where
  "finalize_launch_env le w =
     bindR (gdm_launch_environment_stop (users w) le) (\<lambda>(st, le', steps).
       Ret (log_calls (step_calls steps) (w\<lparr>users := st\<rparr>)))"

definition set_launch_environment :: "nat \<Rightarrow> launch_env \<Rightarrow> world \<Rightarrow> world run" where
  "set_launch_environment p le w =
     with_display p w (\<lambda>d.
       bindR (case launch_environment d of
                None \<Rightarrow> Ret w
              | Some old \<Rightarrow> finalize_launch_env old w) (\<lambda>w.
         Ret (put_display p (d\<lparr>launch_environment := Some le, le_connected := False\<rparr>) w)))"

text \<open>The handlers of a display for the signals of its launch environment.\<close>

definition on_launch_environment_signal ::
  "emitter \<Rightarrow> nat \<Rightarrow> le_signal \<Rightarrow> world \<Rightarrow> world run" where
  "on_launch_environment_signal emit p sig w =
     with_display p w (\<lambda>d.
       if \<not> le_connected d then Ret w
       else
         (case sig of
            OPENED \<Rightarrow>
              Ret (put_display p
                (d\<lparr>session_id := Option.bind (launch_environment d) le_session_id\<rparr>) w)
          | STARTED \<Rightarrow> Ret w
          | STOPPED \<Rightarrow> self_destruct emit p w
          | EXITED code \<Rightarrow> self_destruct emit p w
          | DIED signo \<Rightarrow> self_destruct emit p w))"

fun run_le_step :: "emitter \<Rightarrow> nat \<Rightarrow> le_step \<Rightarrow> world \<Rightarrow> world run" where
  "run_le_step emit p (LeCall c) w = Ret (log_calls [c] w)"
| "run_le_step emit p (LeEmit e) w = on_launch_environment_signal emit p e w"

text \<open>A signal of the greeter's session arrives at the launch environment of the display.\<close>

definition launch_env_event ::
  "emitter \<Rightarrow> nat \<Rightarrow> (launch_env \<Rightarrow> launch_env \<times> le_step list) \<Rightarrow> world \<Rightarrow> world run" where
  "launch_env_event emit p handler w =
     with_display p w (\<lambda>d.
       case launch_environment d of
         None \<Rightarrow> Ret w
       | Some le \<Rightarrow>
           (let (le', steps) = handler le
            in foldR (run_le_step emit p) steps
                 (put_display p (d\<lparr>launch_environment := Some le'\<rparr>) w)))"

section \<open>Preparing a display\<close>

definition gdm_local_display_prepare ::
  "sysenv \<Rightarrow> emitter \<Rightarrow> nat \<Rightarrow> world \<Rightarrow> (bool \<times> world) run" where
  "gdm_local_display_prepare E emit p w =
     with_display p w (\<lambda>d.
       if session_class d \<noteq> Some ''greeter'' then gdm_display_real_prepare emit p w
       else
         let le = (if \<not> doing_initial_setup d
                   then gdm_create_greeter_launch_environment (gdm_groupname E) (seat_id d) None True
                   else gdm_create_initial_setup_launch_environment (seat_id d) None True)
         in bindR (set_launch_environment p le w) (gdm_display_real_prepare emit p))"

definition gdm_remote_display_prepare ::
  "sysenv \<Rightarrow> emitter \<Rightarrow> nat \<Rightarrow> world \<Rightarrow> (bool \<times> world) run" where
  "gdm_remote_display_prepare E emit p w =
     bindR (set_launch_environment p
              (gdm_create_greeter_launch_environment (gdm_groupname E) None None False) w)
       (gdm_display_real_prepare emit p)"

definition gdm_display_prepare ::
  "sysenv \<Rightarrow> emitter \<Rightarrow> nat \<Rightarrow> world \<Rightarrow> (bool \<times> world) run" where
  "gdm_display_prepare E emit p w =
     with_display p w (\<lambda>d.
       case look_for_existing_users_sync E d of
         None \<Rightarrow> Stop ''EXIT_FAILURE''
       | Some d1 \<Rightarrow>
           (let d2 = d1\<lparr>doing_initial_setup := wants_initial_setup E d1\<rparr>;
                w1 = put_display p d2 w
            in case remote_id d of
                 None \<Rightarrow> gdm_local_display_prepare E emit p w1
               | Some r \<Rightarrow> gdm_remote_display_prepare E emit p w1))"

definition gdm_remote_display_new :: "cstr \<Rightarrow> cstr \<Rightarrow> nat \<Rightarrow> display" where
  "gdm_remote_display_new rid host ptr =
     (g_object_set
        [PROP_IS_LOCAL False, PROP_SUPPORTED_SESSION_TYPES (Some [''wayland'']),
         PROP_REMOTE_HOSTNAME host]
        (gdm_display_constructor ptr))\<lparr>remote_id := Some rid\<rparr>"

section \<open>The greeter session\<close>

text \<open>\<open>None\<close> is the result \<^verbatim>\<open>FALSE\<close>.\<close>

definition gdm_display_prepare_greeter_session ::
  "sysenv \<Rightarrow> nat \<Rightarrow> world \<Rightarrow> (u32 option \<times> world) run" where
  "gdm_display_prepare_greeter_session E p w =
     with_display p w (\<lambda>d.
       if session_class d \<noteq> Some ''greeter'' then Ret (None, w)
       else
         (case launch_environment d of
            None \<Rightarrow> Stop ''NULL launch environment''
          | Some le \<Rightarrow>
              bindR (gdm_launch_environment_ensure_uid (db E) (users w) le) (\<lambda>(r, st, le').
                let w' = put_display p (d\<lparr>launch_environment := Some le'\<rparr>) (w\<lparr>users := st\<rparr>)
                in case r of Inl e \<Rightarrow> Ret (None, w') | Inr i \<Rightarrow> Ret (Some i, w'))))"

definition gdm_display_start_greeter_session :: "nat \<Rightarrow> world \<Rightarrow> world run" where
  "gdm_display_start_greeter_session p w =
     with_display p w (\<lambda>d.
       if session_class d \<noteq> Some ''greeter'' then Ret w
       else
         (case launch_environment d of
            None \<Rightarrow> Ret w
          | Some le \<Rightarrow>
              (let (ok, le', cs) = gdm_launch_environment_start (next_session w) le;
                   w1 = (if ok then w\<lparr>next_session := Suc (next_session w)\<rparr> else w);
                   cs' = (case le_session le' of
                            None \<Rightarrow> []
                          | Some s \<Rightarrow> [SessionSetDisplayIsInitial s (is_initial d),
                                       SessionSetSupportedTypes s (supported_session_types d)])
               in Ret (log_calls (cs @ cs')
                    (put_display p (d\<lparr>launch_environment := Some le', le_connected := True\<rparr>) w1)))))"

text \<open>
  The handlers are disconnected first, so the signal that the launch environment emits while
  it stops reaches nobody. Dropping the reference stops it once more.
\<close>

definition gdm_display_stop_greeter_session :: "nat \<Rightarrow> world \<Rightarrow> world run" where
  "gdm_display_stop_greeter_session p w =
     with_display p w (\<lambda>d.
       case launch_environment d of
         None \<Rightarrow> Ret w
       | Some le \<Rightarrow>
           bindR (gdm_launch_environment_stop (users w) le) (\<lambda>(st, le', steps).
             let w1 = put_display p (d\<lparr>launch_environment := None, le_connected := False\<rparr>)
                        (log_calls (step_calls steps) (w\<lparr>users := st\<rparr>))
             in finalize_launch_env le' w1))"

section \<open>The user session of a display\<close>

text \<open>
  \<^verbatim>\<open>g_object_set_data\<close> of \<^verbatim>\<open>gdm-user-session\<close>: the old session's link to the
  display is cut and its reference dropped (\<^verbatim>\<open>clean_user_session\<close>).
\<close>

definition clean_user_session :: "nat \<Rightarrow> world \<Rightarrow> world" where
  "clean_user_session s w =
     log_calls [SessionUnref s] (w\<lparr>session_display := (session_display w)(s := None)\<rparr>)"

definition set_user_session :: "nat \<Rightarrow> nat option \<Rightarrow> world \<Rightarrow> world run" where
  "set_user_session p s w =
     with_display p w (\<lambda>d.
       let w1 = put_display p (d\<lparr>user_session := s\<rparr>) w
       in Ret (case user_session d of None \<Rightarrow> w1 | Some old \<Rightarrow> clean_user_session old w1))"

definition create_user_session_for_display :: "nat \<Rightarrow> u32 \<Rightarrow> world \<Rightarrow> world run" where
  "create_user_session_for_display p allowed w =
     with_display p w (\<lambda>d.
       let s = next_session w;
           w1 = log_calls
             (SessionNew s allowed (remote_hostname d) (seat_id d) (is_local d) #
              (case remote_id d of None \<Rightarrow> [] | Some r \<Rightarrow> [SessionSetRemoteId s r]) @
              [SessionSetSupportedTypes s (supported_session_types d)])
             (w\<lparr>next_session := Suc s, session_display := (session_display w)(s \<mapsto> p)\<rparr>)
       in set_user_session p (Some s) w1)"

section \<open>The manager's reaction to a status\<close>

definition get_automatic_login_details :: "sysenv \<Rightarrow> display \<Rightarrow> world \<Rightarrow> string option" where
  "get_automatic_login_details E d w =
     (case autologin_user d of
        Some u \<Rightarrow> Some u
      | None \<Rightarrow>
          if seat_id d \<noteq> Some ''seat0'' then None
          else if did_automatic_login w \<or> automatic_login_display w \<noteq> None then None
          else
            (case setting_bool E ''daemon/AutomaticLoginEnable'' of
               None \<Rightarrow> None
             | Some enabled \<Rightarrow>
                 (case setting_string E ''daemon/AutomaticLogin'' of
                    None \<Rightarrow> None
                  | Some u \<Rightarrow> if \<not> enabled \<or> u = None \<or> u = Some [] then None else u)))"

definition set_up_automatic_login_session :: "nat \<Rightarrow> world \<Rightarrow> world run" where
  "set_up_automatic_login_session p w =
     bindR (create_user_session_for_display p 0 w) (\<lambda>w.
       with_display p w (\<lambda>d.
         Ret (case user_session d of
                None \<Rightarrow> w
              | Some s \<Rightarrow>
                  log_calls [SessionSetDisplayIsInitial s False,
                             SessionSetSupportedTypes s (supported_session_types d),
                             SessionStartConversation s ''gdm-autologin''] w)))"

definition set_up_greeter_session :: "sysenv \<Rightarrow> emitter \<Rightarrow> nat \<Rightarrow> world \<Rightarrow> world run" where
  "set_up_greeter_session E emit p w =
     bindR (gdm_display_prepare_greeter_session E p w) (\<lambda>(r, w).
       case r of
         None \<Rightarrow> bindR (gdm_display_unmanage emit p w) (gdm_display_finish emit p)
       | Some greeter_uid \<Rightarrow>
           bindR (create_user_session_for_display p greeter_uid w)
             (gdm_display_start_greeter_session p))"

definition set_up_automatic_login_session_if_user_exists ::
  "sysenv \<Rightarrow> emitter \<Rightarrow> nat \<Rightarrow> string \<Rightarrow> world \<Rightarrow> world run" where
  "set_up_automatic_login_session_if_user_exists E emit p user w =
     (if user_nonexistent E user then set_up_greeter_session E emit p w
      else set_up_automatic_login_session p w)"

definition set_up_session :: "sysenv \<Rightarrow> emitter \<Rightarrow> nat \<Rightarrow> world \<Rightarrow> world run" where
  "set_up_session E emit p w =
     with_display p w (\<lambda>d.
       case get_automatic_login_details E d w of
         None \<Rightarrow> set_up_greeter_session E emit p w
       | Some user \<Rightarrow>
           if user_manager_loaded E
           then set_up_automatic_login_session_if_user_exists E emit p user w
           else Ret (w\<lparr>pending_lookups := (p, user) # pending_lookups w\<rparr>))"

definition manager_on_display_status_changed ::
  "sysenv \<Rightarrow> emitter \<Rightarrow> nat \<Rightarrow> world \<Rightarrow> world run" where
  "manager_on_display_status_changed E emit p w =
     with_display p w (\<lambda>d.
       let quit_plymouth = (\<lambda>transition w.
             if with_plymouth E \<and> is_local d \<and> plymouth_is_running w
             then (clear_source (plymouth_quit_timeout_id w)
                     (log_calls [PlymouthQuit transition] (w\<lparr>plymouth_is_running := False\<rparr>)))
                    \<lparr>plymouth_quit_timeout_id := 0\<rparr>
             else w)
       in case status d of
            PREPARED \<Rightarrow>
              (if session_class d = Some ''greeter'' then set_up_session E emit p w else Ret w)
          | MANAGED \<Rightarrow> Ret (quit_plymouth True w)
          | WAITING_TO_FINISH \<Rightarrow> Ret w
          | _ \<Rightarrow>
              bindR (set_user_session p None (quit_plymouth False w)) (\<lambda>w.
                Ret (if automatic_login_display w = Some p
                     then w\<lparr>automatic_login_display := None, did_automatic_login := True\<rparr>
                     else w)))"

section \<open>Displays that come and go\<close>

text \<open>
  The last reference to a display goes away: \<^verbatim>\<open>gdm_display_dispose\<close> drops the idle
  source and the launch environment, weak pointers are cleared, and finalising the object
  data cuts the link of its user session. An unfinished user lookup keeps a reference.
\<close>

definition gdm_display_dispose :: "nat \<Rightarrow> world \<Rightarrow> world run" where
  "gdm_display_dispose p w =
     with_display p w (\<lambda>d.
       let w1 = clear_source (finish_idle_id d) w
       in bindR (case launch_environment d of
                   None \<Rightarrow> Ret w1
                 | Some le \<Rightarrow> finalize_launch_env le w1) (\<lambda>w2.
            let w3 = (if automatic_login_display w2 = Some p
                      then w2\<lparr>automatic_login_display := None\<rparr> else w2);
                w4 = (case user_session d of
                        None \<Rightarrow> w3 | Some s \<Rightarrow> clean_user_session s w3)
            in Ret (w4\<lparr>heap := (heap w4)(p := None)\<rparr>)))"

definition unref_display :: "nat \<Rightarrow> world \<Rightarrow> world run" where
  "unref_display p w =
     (if p \<in> fst ` set (pending_lookups w) \<or> p \<in> snd ` set (store w) then Ret w
      else gdm_display_dispose p w)"

definition manager_on_display_added :: "string \<Rightarrow> world \<Rightarrow> world run" where
  "manager_on_display_added i w =
     (case gdm_display_store_lookup (store w) i of
        None \<Rightarrow> Ret w
      | Some p \<Rightarrow>
          with_display p w (\<lambda>d.
            Ret (log_calls [ExportDisplay i, EmitDisplayAdded i]
                   (put_display p (d\<lparr>manager_connected := True\<rparr>) w))))"

definition manager_on_display_removed :: "nat \<Rightarrow> world \<Rightarrow> world run" where
  "manager_on_display_removed p w =
     with_display p w (\<lambda>d.
       Ret (log_calls [UnexportDisplay (display_id d), EmitDisplayRemoved p]
              (put_display p (d\<lparr>manager_connected := False\<rparr>) w)))"

text \<open>The local factory's handlers of the store, connected while it is started.\<close>

definition factory_on_display_added :: "string \<Rightarrow> world \<Rightarrow> world run" where
  "factory_on_display_added i w =
     (case gdm_display_store_lookup (store w) i of
        None \<Rightarrow> Ret w
      | Some p \<Rightarrow>
          with_display p w (\<lambda>d. Ret (put_display p (d\<lparr>factory_connected := True\<rparr>) w)))"

definition factory_on_display_removed :: "nat \<Rightarrow> world \<Rightarrow> world run" where
  "factory_on_display_removed p w =
     with_display p w (\<lambda>d. Ret (put_display p (d\<lparr>factory_connected := False\<rparr>) w))"

fun store_signal :: "store_signal \<Rightarrow> world \<Rightarrow> world run" where
  "store_signal (DISPLAY_ADDED i) w =
     bindR (manager_on_display_added i w) (\<lambda>w.
       if is_started w then factory_on_display_added i w else Ret w)"
| "store_signal (DISPLAY_REMOVED p) w =
     bindR (manager_on_display_removed p w) (\<lambda>w.
       bindR (if is_started w then factory_on_display_removed p w else Ret w)
         (unref_display p))"

definition store_display :: "nat \<Rightarrow> world \<Rightarrow> world run" where
  "store_display p w =
     with_display p w (\<lambda>d.
       let (st, sigs) = gdm_display_store_add (display_id d) p (store w)
       in foldR store_signal sigs (w\<lparr>store := st\<rparr>))"

definition store_foreach_remove :: "(string \<Rightarrow> display \<Rightarrow> bool) \<Rightarrow> world \<Rightarrow> world run" where
  "store_foreach_remove P w =
     (let (n, st, sigs) = gdm_display_store_foreach_remove
            (\<lambda>i p. case heap w p of None \<Rightarrow> False | Some d \<Rightarrow> P i d) (store w)
      in foldR store_signal sigs (w\<lparr>store := st\<rparr>))"

text \<open>The user manager has loaded the user of a pending automatic login.\<close>

definition on_user_is_loaded_changed ::
  "sysenv \<Rightarrow> emitter \<Rightarrow> nat \<times> string \<Rightarrow> world \<Rightarrow> world run" where
  "on_user_is_loaded_changed E emit opn w =
     bindR (set_up_automatic_login_session_if_user_exists E emit (fst opn) (snd opn) w) (\<lambda>w.
       unref_display (fst opn) (w\<lparr>pending_lookups := remove1 opn (pending_lookups w)\<rparr>))"

end
