(* ===== verification/Local_Display_Factory.thy ===== *)
theory Local_Display_Factory
  imports Daemon_Displays
begin

text \<open>
  \<^verbatim>\<open>daemon/gdm-display-factory.c\<close> and \<^verbatim>\<open>daemon/gdm-local-display-factory.c\<close>: the
  factory that keeps a login screen on every seat. It reacts to seats that appear and
  vanish, to graphics devices, to switches of the virtual terminal, to timeouts and to the
  status of every display.
\<close>

section \<open>The base class\<close>

definition purge_display :: "string \<Rightarrow> display \<Rightarrow> bool" where
  "purge_display i d =
     (case status d of FINISHED \<Rightarrow> True | FAILED \<Rightarrow> True | _ \<Rightarrow> False)"

definition purge_displays :: "world \<Rightarrow> world run" where
  "purge_displays w = store_foreach_remove purge_display (w\<lparr>purge_displays_id := 0\<rparr>)"

definition gdm_display_factory_queue_purge_displays :: "world \<Rightarrow> world" where
  "gdm_display_factory_queue_purge_displays w =
     (if purge_displays_id w = 0
      then (let (i, w1) = g_source_add PurgeDisplays w in w1\<lparr>purge_displays_id := i\<rparr>)
      else w)"

text \<open>\<open>None\<close> is the result \<^verbatim>\<open>TRUE\<close>, \<open>Some\<close> the error.\<close>

definition gdm_display_factory_authorize_manage_user_displays ::
  "sysenv \<Rightarrow> string \<Rightarrow> string \<Rightarrow> string \<Rightarrow> string option" where
  "gdm_display_factory_authorize_manage_user_displays E method sender user =
     (if method \<noteq> ''CreateUserDisplay'' \<and> method \<noteq> ''DestroyUserDisplay'' then None
      else if \<not> polkit_authority E then Some ''Error getting polkit authority''
      else
        (case polkit_check E sender user of
           None \<Rightarrow> Some ''Failed to check authorization''
         | Some authorized \<Rightarrow> if \<not> authorized then Some ''Not authorized for action'' else None))"

text \<open>
  The table of users maps every user to \<^verbatim>\<open>NULL\<close>, the value 0; the test is on the value
  that the lookup returns.
\<close>

definition gdm_display_factory_on_user_display_creation ::
  "sysenv \<Rightarrow> string \<Rightarrow> world \<Rightarrow> string option \<times> world" where
  "gdm_display_factory_on_user_display_creation E user w =
     (if (case ght_lookup (display_creation_users w) user of None \<Rightarrow> 0 | Some v \<Rightarrow> v) \<noteq> 0
      then (Some (''A display for user '' @ user @ '' has already been created''), w)
      else
        (case gdm_find_graphical_sessions_for_username E user of
           Inl e \<Rightarrow> (Some e, w)
         | Inr sessions \<Rightarrow>
             if length sessions > 0
             then (Some (''There's already an opened session for user '' @ user), w)
             else (None, w\<lparr>display_creation_users :=
                             ght_insert user 0 (display_creation_users w)\<rparr>)))"

fun terminate_sessions :: "sysenv \<Rightarrow> string list \<Rightarrow> string option" where
  "terminate_sessions E [] = None"
| "terminate_sessions E (s # ss) =
     (if \<not> terminate_session E s then Some (''Failed to terminate session '' @ s)
      else terminate_sessions E ss)"

definition gdm_display_factory_on_user_display_destruction ::
  "sysenv \<Rightarrow> string \<Rightarrow> world \<Rightarrow> string option \<times> world" where
  "gdm_display_factory_on_user_display_destruction E user w =
     (if \<not> ght_contains (display_creation_users w) user
      then (Some (''A display for user '' @ user @ '' wasn't created''), w)
      else
        let w1 = w\<lparr>display_creation_users := ght_remove user (display_creation_users w)\<rparr>
        in case gdm_find_graphical_sessions_for_username E user of
             Inl e \<Rightarrow> (Some e, w1)
           | Inr ss \<Rightarrow>
               if length ss = 0 then (Some (''There's no display for user '' @ user), w1)
               else if \<not> system_bus E then (Some ''Failed getting system bus'', w1)
               else (terminate_sessions E ss, w1))"

section \<open>Graphics\<close>

definition gdm_local_display_factory_get_session_types :: "sysenv \<Rightarrow> string list" where
  "gdm_local_display_factory_get_session_types E =
     ''wayland'' #
     (if x11_support E \<and> setting_bool E ''daemon/XorgEnable'' = Some True \<and> x_server_found E
      then [''x11''] else [])"

definition contains_substring :: "string \<Rightarrow> string \<Rightarrow> bool" where
  "contains_substring s sub =
     list_ex (\<lambda>i. take (length sub) (drop i s) = sub) [0 ..< Suc (length s)]"

datatype graphics = PlatformGraphics | BootUpGraphics

text \<open>
  A device is its \<^verbatim>\<open>ID_PATH\<close>, whether it has a platform parent, the
  \<^verbatim>\<open>boot_vga\<close> attribute of its PCI parent and the \<^verbatim>\<open>boot_display\<close> attribute of
  its DRM parent, where it has those parents.
\<close>

fun udev_scan :: "(string \<times> bool \<times> int option \<times> int option) list \<Rightarrow> graphics option" where
  "udev_scan [] = None"
| "udev_scan ((id_path, platform, pci, drm) # ds) =
     (if contains_substring id_path ''platform-simple-framebuffer'' then udev_scan ds
      else if platform then Some PlatformGraphics
      else if pci = Some 1 then Some BootUpGraphics
      else if drm = Some 1 then Some BootUpGraphics
      else udev_scan ds)"

definition udev_is_settled :: "sysenv \<Rightarrow> world \<Rightarrow> bool \<times> world" where
  "udev_is_settled E w =
     (if seat0_has_platform_graphics w then (True, w)
      else if seat0_has_boot_up_graphics w then (True, w)
      else if seat0_graphics_check_timed_out w then (True, w\<lparr>uevent_handler_id := 0\<rparr>)
      else
        (case udev_scan (udev_devices E) of
           None \<Rightarrow> (False, w)
         | Some PlatformGraphics \<Rightarrow>
             (True, w\<lparr>seat0_has_platform_graphics := True, uevent_handler_id := 0\<rparr>)
         | Some BootUpGraphics \<Rightarrow>
             (True, w\<lparr>seat0_has_boot_up_graphics := True, uevent_handler_id := 0\<rparr>)))"

section \<open>Looking displays up\<close>

definition find_display :: "(display \<Rightarrow> bool) \<Rightarrow> world \<Rightarrow> nat option" where
  "find_display P w =
     gdm_display_store_find (\<lambda>i p. case heap w p of None \<Rightarrow> False | Some d \<Rightarrow> P d) (store w)"

definition lookup_by_seat_id :: "cstr \<Rightarrow> display \<Rightarrow> bool" where
  "lookup_by_seat_id looking_for d = (seat_id d = looking_for)"

definition lookup_prepared_display_by_seat_id :: "cstr \<Rightarrow> display \<Rightarrow> bool" where
  "lookup_prepared_display_by_seat_id looking_for d =
     (if status d \<noteq> PREPARED then False else lookup_by_seat_id looking_for d)"

definition lookup_managed_display_by_seat_id :: "cstr \<Rightarrow> display \<Rightarrow> bool" where
  "lookup_managed_display_by_seat_id looking_for d =
     (if status d \<noteq> MANAGED then False else lookup_by_seat_id looking_for d)"

definition lookup_by_session_id :: "cstr \<Rightarrow> display \<Rightarrow> bool" where
  "lookup_by_session_id looking_for d = (session_id d = looking_for)"

definition lookup_by_tty :: "sysenv \<Rightarrow> string \<Rightarrow> display \<Rightarrow> bool" where
  "lookup_by_tty E tty d =
     (case session_id d of
        None \<Rightarrow> False
      | Some s \<Rightarrow> (case session_get_tty E s of Inl r \<Rightarrow> False | Inr t \<Rightarrow> t = tty))"

definition get_display_for_seat :: "cstr \<Rightarrow> world \<Rightarrow> nat option" where
  "get_display_for_seat seat w =
     (if seat = Some ''seat0'' then find_display (lookup_prepared_display_by_seat_id seat) w
      else find_display (lookup_managed_display_by_seat_id seat) w)"

section \<open>Creating displays\<close>

definition gdm_local_display_factory_create_display ::
  "sysenv \<Rightarrow> emitter \<Rightarrow> cstr \<Rightarrow> world \<Rightarrow> ((string + string) \<times> world) run" where
  "gdm_local_display_factory_create_display E emit user w =
     (let (p, w1) = new_display (\<lambda>ptr. g_object_set
            [PROP_SUPPORTED_SESSION_TYPES (Some (gdm_local_display_factory_get_session_types E)),
             PROP_SEAT_ID (Some ''seat0''), PROP_ALLOW_TIMED_LOGIN False, PROP_IS_INITIAL True,
             PROP_AUTOLOGIN_USER user] (gdm_local_display_new ptr)) w
      in bindR (store_display p w1) (\<lambda>w2.
           bindR (gdm_display_prepare E emit p w2) (\<lambda>(ok, w3).
             if \<not> ok
             then bindR (gdm_display_unmanage emit p w3) (\<lambda>w4.
                    Ret (Inl ''Failed preparing display'', w4))
             else with_display p w3 (\<lambda>d. Ret (Inr (display_id d), w3)))))"

text \<open>
  The signal \<^verbatim>\<open>graphics-unsupported\<close>; the manager connects its handler once the
  factory has started and disconnects it when it stops.
\<close>

definition on_graphics_unsupported :: "sysenv \<Rightarrow> world \<Rightarrow> world" where
  "on_graphics_unsupported E w =
     (if with_plymouth E \<and> plymouth_is_running w
      then (log_calls [PlymouthQuit False] w)\<lparr>plymouth_is_running := False\<rparr> else w)"

definition emit_graphics_unsupported :: "sysenv \<Rightarrow> world \<Rightarrow> world" where
  "emit_graphics_unsupported E w =
     (let w1 = log_calls [EmitGraphicsUnsupported] w
      in if started w1 then on_graphics_unsupported E w1 else w1)"

text \<open>
  The second half of \<^verbatim>\<open>ensure_display_for_seat\<close>, when there is no login window to
  switch to.
\<close>

definition create_display_for_seat ::
  "sysenv \<Rightarrow> emitter \<Rightarrow> cstr \<Rightarrow> world \<Rightarrow> world run" where
  "create_display_for_seat E emit seat w =
     (let is_seat0 = (seat = Some ''seat0'');
          (settled, w1) = (if have_udev E then udev_is_settled E w else (True, w))
      in if \<not> settled
         then Ret (if is_seat0 \<and> seat0_graphics_check_timeout_id w1 = 0
                   then (let (i, w2) = g_source_add Seat0GraphicsCheck w1
                         in w2\<lparr>seat0_graphics_check_timeout_id := i\<rparr>)
                   else w1)
         else
           let w2 = (clear_source (seat0_graphics_check_timeout_id w1) w1)
                      \<lparr>seat0_graphics_check_timeout_id := 0\<rparr>;
               ret = seat_can_graphical E seat
           in if ret < 0 then Ret w2
              else if ret = 0
              then Ret (if is_seat0 then emit_graphics_unsupported E w2 else w2)
              else
                case get_display_for_seat seat w2 of
                  Some p \<Rightarrow> Ret w2
                | None \<Rightarrow>
                    let (p, w3) = new_display (\<lambda>ptr. g_object_set
                          [PROP_SUPPORTED_SESSION_TYPES
                             (Some (gdm_local_display_factory_get_session_types E)),
                           PROP_SEAT_ID seat, PROP_IS_INITIAL is_seat0]
                          (gdm_local_display_new ptr)) w2
                    in bindR (store_display p w3) (\<lambda>w4.
                         bindR (gdm_display_prepare E emit p w4) (\<lambda>(ok, w5).
                           if \<not> ok then gdm_display_unmanage emit p w5 else Ret w5)))"

definition ensure_display_for_seat ::
  "sysenv \<Rightarrow> emitter \<Rightarrow> cstr \<Rightarrow> world \<Rightarrow> world run" where
  "ensure_display_for_seat E emit seat w =
     (case gdm_get_login_window_session_id E seat of
        None \<Rightarrow> create_display_for_seat E emit seat w
      | Some sid \<Rightarrow>
          (case find_display (lookup_by_session_id (Some sid)) w of
             None \<Rightarrow> create_display_for_seat E emit seat w
           | Some p \<Rightarrow>
               with_display p w (\<lambda>d.
                 if status d = MANAGED \<or> status d = WAITING_TO_FINISH
                 then bindR (set_status_property emit p MANAGED w) (\<lambda>w1.
                        Ret (case seat of
                               None \<Rightarrow> w1
                             | Some s \<Rightarrow> log_calls [ActivateSession s sid] w1))
                 else create_display_for_seat E emit seat w)))"

definition delete_display :: "cstr \<Rightarrow> world \<Rightarrow> world run" where
  "delete_display seat w = store_foreach_remove (\<lambda>i d. lookup_by_seat_id seat d) w"

section \<open>Background login screens\<close>

text \<open>The seat that the callback gets is not looked at.\<close>

definition finish_display_on_seat_if_waiting :: "emitter \<Rightarrow> nat \<Rightarrow> world \<Rightarrow> world run" where
  "finish_display_on_seat_if_waiting emit p w =
     with_display p w (\<lambda>d.
       if status d \<noteq> WAITING_TO_FINISH then Ret w
       else bindR (gdm_display_stop_greeter_session p w) (\<lambda>w1.
              bindR (gdm_display_unmanage emit p w1) (gdm_display_finish emit p)))"

definition finish_waiting_displays_on_seat :: "emitter \<Rightarrow> world \<Rightarrow> world run" where
  "finish_waiting_displays_on_seat emit w =
     gdm_display_store_foreach (\<lambda>i p. finish_display_on_seat_if_waiting emit p) (store w) w"

definition maybe_stop_greeter_in_background :: "emitter \<Rightarrow> nat \<Rightarrow> world \<Rightarrow> world run" where
  "maybe_stop_greeter_in_background emit p w =
     with_display p w (\<lambda>d.
       if status d \<noteq> MANAGED then Ret w
       else if doing_initial_setup d then Ret w
       else set_status_property emit p WAITING_TO_FINISH w)"

section \<open>The status of a display\<close>

definition MAX_DISPLAY_FAILURES :: u32 where
  "MAX_DISPLAY_FAILURES = 5"

text \<open>When the end of a display must bring back a login screen.\<close>

definition login_screen_needed :: "sysenv \<Rightarrow> display \<Rightarrow> world \<Rightarrow> bool" where
  "login_screen_needed E d w =
     (is_local d \<and>
      ((session_class d \<noteq> Some ''greeter'' \<and>
        (seat_active_session E (seat_id d) = None \<or>
         session_id d = seat_active_session E (seat_id d))) \<or>
       active_vt w = initial_vt E \<or> seat_id d \<noteq> Some ''seat0''))"

definition factory_on_display_status_changed ::
  "sysenv \<Rightarrow> emitter \<Rightarrow> nat \<Rightarrow> world \<Rightarrow> world run" where
  "factory_on_display_status_changed E emit p w =
     (if \<not> is_started w then Ret w
      else
        with_display p w (\<lambda>d.
          case status d of
            FINISHED \<Rightarrow>
              (let w1 = gdm_display_factory_queue_purge_displays w
               in if login_screen_needed E d w1
                  then ensure_display_for_seat E emit (seat_id d) (w1\<lparr>num_failures := 0\<rparr>)
                  else Ret w1)
          | FAILED \<Rightarrow>
              (let w1 = gdm_display_factory_queue_purge_displays w
               in if is_local d
                  then (let w2 = w1\<lparr>num_failures := num_failures w1 + 1\<rparr>
                        in if num_failures w2 > MAX_DISPLAY_FAILURES then Ret w2
                           else ensure_display_for_seat E emit (seat_id d) w2)
                  else Ret w1)
          | UNMANAGED \<Rightarrow> Ret w
          | PREPARED \<Rightarrow> Ret w
          | MANAGED \<Rightarrow> finish_waiting_displays_on_seat emit w
          | WAITING_TO_FINISH \<Rightarrow> Ret w))"

section \<open>Events\<close>

text \<open>
  The two timeouts. The main loop has removed the source that fired; the first callback
  leaves its identifier in the factory, the second clears it.
\<close>

definition on_finish_waiting_for_seat0_displays_timeout :: "emitter \<Rightarrow> world \<Rightarrow> world run" where
  "on_finish_waiting_for_seat0_displays_timeout emit w = finish_waiting_displays_on_seat emit w"

definition on_seat0_graphics_check_timeout :: "sysenv \<Rightarrow> emitter \<Rightarrow> world \<Rightarrow> world run" where
  "on_seat0_graphics_check_timeout E emit w =
     ensure_display_for_seat E emit (Some ''seat0'')
       (w\<lparr>seat0_graphics_check_timeout_id := 0, seat0_graphics_check_timed_out := True\<rparr>)"

definition gdm_local_display_factory_sync_seats ::
  "sysenv \<Rightarrow> emitter \<Rightarrow> world \<Rightarrow> (bool \<times> world) run" where
  "gdm_local_display_factory_sync_seats E emit w =
     (case list_seats E of
        None \<Rightarrow> Ret (False, w)
      | Some seats \<Rightarrow>
          bindR (foldR (\<lambda>s. ensure_display_for_seat E emit (Some s)) seats w) (\<lambda>w. Ret (True, w)))"

definition on_seat_activate_greeter :: "sysenv \<Rightarrow> emitter \<Rightarrow> string \<Rightarrow> world \<Rightarrow> world run" where
  "on_seat_activate_greeter E emit seat w = ensure_display_for_seat E emit (Some seat) w"

definition on_seat_removed :: "string \<Rightarrow> world \<Rightarrow> world run" where
  "on_seat_removed seat w = delete_display (Some seat) w"

text \<open>
  \<open>seat\<close> is the answer to the query of the seat's name; \<open>changed\<close> and
  \<open>invalidated\<close> are the names of the changed and of the invalidated properties.
\<close>

definition on_seat_properties_changed ::
  "sysenv \<Rightarrow> emitter \<Rightarrow> string option \<Rightarrow> string list \<Rightarrow> string list \<Rightarrow> world \<Rightarrow> world run" where
  "on_seat_properties_changed E emit seat changed invalidated w =
     (case seat of
        None \<Rightarrow> Ret w
      | Some s \<Rightarrow>
          if ''CanGraphical'' \<notin> set changed \<and> ''CanGraphical'' \<notin> set invalidated then Ret w
          else
            let ret = seat_can_graphical E (Some s)
            in if ret < 0 then Ret w
               else if ret \<noteq> 0
               then ensure_display_for_seat E emit (Some s) (log_calls [SettingsReload] w)
               else delete_display (Some s) w)"

definition on_uevent :: "sysenv \<Rightarrow> emitter \<Rightarrow> bool \<Rightarrow> string \<Rightarrow> world \<Rightarrow> world run" where
  "on_uevent E emit has_device_file action w =
     (if \<not> has_device_file then Ret w
      else if action \<noteq> ''add'' \<and> action \<noteq> ''change'' then Ret w
      else
        let (settled, w1) = udev_is_settled E w
        in if \<not> settled then Ret w1
           else ensure_display_for_seat E emit (Some ''seat0'') (log_calls [SettingsReload] w1))"

subsection \<open>Switches of the virtual terminal\<close>

text \<open>
  \<^verbatim>\<open>sscanf (s, "tty%u", &vt)\<close> with its test of \<^verbatim>\<open>errno\<close>: the conversion skips
  white space, takes a sign and at least one digit, and reads an \<^verbatim>\<open>unsigned long\<close>
  (out of range sets \<^verbatim>\<open>errno\<close>) that is stored in 32 bits.
\<close>

definition scan_unsigned :: "string \<Rightarrow> u32 option" where
  "scan_unsigned s =
     (let s1 = dropWhile is_space s;
          neg = (s1 \<noteq> [] \<and> hd s1 = CHR ''-'');
          s2 = (if s1 \<noteq> [] \<and> (hd s1 = CHR ''-'' \<or> hd s1 = CHR ''+'') then tl s1 else s1)
      in if s2 = [] \<or> digit_value (hd s2) = None then None
         else
           let v = read_digits 0 s2
           in if v \<ge> 2 ^ 64 then None
              else Some (if neg then - of_nat v else of_nat v))"

definition scan_tty :: "string \<Rightarrow> u32 option" where
  "scan_tty s = (if take 3 s = ''tty'' then scan_unsigned (drop 3 s) else None)"

datatype io_read = IoError | IoEof | IoAgain | IoNormal string

text \<open>
  The first half of the handler: the new terminal with its name, or whether the watch stays
  (\<^verbatim>\<open>G_SOURCE_CONTINUE\<close>).
\<close>

definition read_active_vt :: "bool \<Rightarrow> bool \<Rightarrow> io_read \<Rightarrow> bool + (string \<times> u32)" where
  "read_active_vt pri hup r =
     (if pri \<and> (r = IoError \<or> r = IoEof) then Inl False
      else if pri \<and> r = IoAgain then Inl True
      else if hup then Inl False
      else if \<not> pri then Inl True
      else
        (case r of
           IoNormal line \<Rightarrow>
             (case scan_tty (g_strchomp line) of
                None \<Rightarrow> Inl True
              | Some vt \<Rightarrow> Inr (g_strchomp line, vt))
         | _ \<Rightarrow> Inl True))"

text \<open>
  The login window was on the terminal that is left: it is to finish in the background. The
  result carries its terminal, 0 when there is none.
\<close>

definition vt_left_login_window ::
  "sysenv \<Rightarrow> emitter \<Rightarrow> u32 \<Rightarrow> world \<Rightarrow> (u32 \<times> world) run" where
  "vt_left_login_window E emit previous_vt w =
     (case gdm_get_login_window_session_id E (Some ''seat0'') of
        None \<Rightarrow> Ret (0, w)
      | Some sid \<Rightarrow>
          (case session_get_vt E sid of
             Inl r \<Rightarrow> Ret (0, w)
           | Inr login_vt \<Rightarrow>
               if login_vt \<noteq> 0 \<and> login_vt = previous_vt
               then (case find_display (lookup_by_session_id (Some sid)) w of
                       None \<Rightarrow> Ret (login_vt, w)
                     | Some p \<Rightarrow>
                         bindR (maybe_stop_greeter_in_background emit p w) (\<lambda>w.
                           Ret (login_vt, w)))
               else Ret (login_vt, w)))"

text \<open>The new terminal belongs to a registered session: the login screen goes in a while.\<close>

definition vt_entered_session :: "sysenv \<Rightarrow> string \<Rightarrow> world \<Rightarrow> world run" where
  "vt_entered_session E tty w =
     (let w1 = (clear_source (seat0_graphics_check_timeout_id w) w)
                 \<lparr>seat0_graphics_check_timeout_id := 0\<rparr>
      in case find_display (lookup_by_tty E tty) w1 of
           None \<Rightarrow> Ret w1
         | Some p \<Rightarrow>
             with_display p w1 (\<lambda>d.
               if session_registered d
               then (let w2 = (if wait_to_finish_timeout_id w1 \<noteq> 0
                               then g_source_remove (wait_to_finish_timeout_id w1) w1 else w1);
                         (i, w3) = g_source_add WaitToFinish w2
                     in Ret (w3\<lparr>wait_to_finish_timeout_id := i\<rparr>))
               else Ret w1))"

definition on_vt_changed ::
  "sysenv \<Rightarrow> emitter \<Rightarrow> bool \<Rightarrow> bool \<Rightarrow> io_read \<Rightarrow> world \<Rightarrow> (bool \<times> world) run" where
  "on_vt_changed E emit pri hup r w =
     (case read_active_vt pri hup r of
        Inl continue \<Rightarrow> Ret (continue, w)
      | Inr (tty, new_vt) \<Rightarrow>
          if new_vt = active_vt w then Ret (True, w)
          else
            let previous_vt = active_vt w;
                w1 = w\<lparr>active_vt := new_vt\<rparr>
            in if previous_vt = 0 then Ret (True, w1)
               else
                 bindR (vt_left_login_window E emit previous_vt w1) (\<lambda>(login_vt, w2).
                   bindR (if active_vt w2 \<noteq> login_vt then vt_entered_session E tty w2 else Ret w2)
                     (\<lambda>w3.
                       if active_vt w3 \<noteq> initial_vt E then Ret (True, w3)
                       else bindR (ensure_display_for_seat E emit (Some ''seat0'') w3)
                              (\<lambda>w4. Ret (True, w4)))))"

subsection \<open>Starting and stopping\<close>

definition gdm_local_display_factory_start_monitor :: "sysenv \<Rightarrow> world \<Rightarrow> world" where
  "gdm_local_display_factory_start_monitor E w =
     w\<lparr>seat_subscriptions := True,
       uevent_handler_id := (if have_udev E then 1 else uevent_handler_id w),
       active_vt_watch_id := (if vt_channel E then 1 else active_vt_watch_id w)\<rparr>"

definition gdm_local_display_factory_stop_monitor :: "world \<Rightarrow> world" where
  "gdm_local_display_factory_stop_monitor w =
     (let w1 = w\<lparr>uevent_handler_id := 0, seat_subscriptions := False, active_vt_watch_id := 0\<rparr>;
          w2 = (clear_source (wait_to_finish_timeout_id w1) w1)\<lparr>wait_to_finish_timeout_id := 0\<rparr>
      in (clear_source (seat0_graphics_check_timeout_id w2) w2)
           \<lparr>seat0_graphics_check_timeout_id := 0\<rparr>)"

definition gdm_local_display_factory_start ::
  "sysenv \<Rightarrow> emitter \<Rightarrow> world \<Rightarrow> (bool \<times> world) run" where
  "gdm_local_display_factory_start E emit w =
     gdm_local_display_factory_sync_seats E emit
       (gdm_local_display_factory_start_monitor E (w\<lparr>is_started := True\<rparr>))"

definition gdm_local_display_factory_stop :: "world \<Rightarrow> world" where
  "gdm_local_display_factory_stop w =
     (gdm_local_display_factory_stop_monitor w)\<lparr>is_started := False\<rparr>"

subsection \<open>D-Bus methods\<close>

datatype dbus_reply = ReplyError string | ReplyId string | ReplyDone

definition handle_create_transient_display ::
  "sysenv \<Rightarrow> emitter \<Rightarrow> world \<Rightarrow> (dbus_reply \<times> world) run" where
  "handle_create_transient_display E emit w =
     bindR (gdm_local_display_factory_create_display E emit None w) (\<lambda>(r, w).
       Ret (case r of Inl e \<Rightarrow> ReplyError e | Inr i \<Rightarrow> ReplyId i, w))"

definition handle_create_user_display ::
  "sysenv \<Rightarrow> emitter \<Rightarrow> string \<Rightarrow> world \<Rightarrow> (dbus_reply \<times> world) run" where
  "handle_create_user_display E emit user w =
     (case gdm_display_factory_on_user_display_creation E user w of
        (Some e, w1) \<Rightarrow> Ret (ReplyError e, w1)
      | (None, w1) \<Rightarrow>
          bindR (gdm_local_display_factory_create_display E emit (Some user) w1) (\<lambda>(r, w2).
            Ret (case r of Inl e \<Rightarrow> ReplyError e | Inr i \<Rightarrow> ReplyDone, w2)))"

definition handle_destroy_user_display ::
  "sysenv \<Rightarrow> string \<Rightarrow> world \<Rightarrow> dbus_reply \<times> world" where
  "handle_destroy_user_display E user w =
     (case gdm_display_factory_on_user_display_destruction E user w of
        (Some e, w1) \<Rightarrow> (ReplyError e, w1)
      | (None, w1) \<Rightarrow> (ReplyDone, w1))"

text \<open>
  A method call on the factory's interface: \<^verbatim>\<open>on_authorize_method\<close> decides first
  whether the handler runs.
\<close>

datatype factory_method = CreateTransientDisplay | CreateUserDisplay string | DestroyUserDisplay string

fun method_name :: "factory_method \<Rightarrow> string" where
  "method_name CreateTransientDisplay = ''CreateTransientDisplay''"
| "method_name (CreateUserDisplay u) = ''CreateUserDisplay''"
| "method_name (DestroyUserDisplay u) = ''DestroyUserDisplay''"

fun method_user :: "factory_method \<Rightarrow> string" where
  "method_user CreateTransientDisplay = []"
| "method_user (CreateUserDisplay u) = u"
| "method_user (DestroyUserDisplay u) = u"

definition on_authorize_method :: "sysenv \<Rightarrow> string \<Rightarrow> factory_method \<Rightarrow> string option" where
  "on_authorize_method E sender m =
     gdm_display_factory_authorize_manage_user_displays E (method_name m) sender (method_user m)"

definition factory_method_call ::
  "sysenv \<Rightarrow> emitter \<Rightarrow> string \<Rightarrow> factory_method \<Rightarrow> world \<Rightarrow> (dbus_reply \<times> world) run" where
  "factory_method_call E emit sender m w =
     (case on_authorize_method E sender m of
        Some e \<Rightarrow> Ret (ReplyError e, w)
      | None \<Rightarrow>
          (case m of
             CreateTransientDisplay \<Rightarrow> handle_create_transient_display E emit w
           | CreateUserDisplay u \<Rightarrow> handle_create_user_display E emit u w
           | DestroyUserDisplay u \<Rightarrow> Ret (handle_destroy_user_display E u w)))"

end
