(* ===== verification/Daemon_Invariant.thy ===== *)
theory Daemon_Invariant
  imports Local_Display_Factory
begin

text \<open>
  The invariant of the daemon's state, and the contract of the emission of
  \<^verbatim>\<open>notify::status\<close> as a locale: an emission keeps the invariant, frees no display and
  never touches a freed one. Inside of the locale every operation of displays, of the manager
  and of the factory is shown to keep the same contract, whatever handlers the emission runs.
\<close>

section \<open>The invariant\<close>

definition owned_uid :: "display \<Rightarrow> u32" where
  "owned_uid d = (case launch_environment d of None \<Rightarrow> 0 | Some le \<Rightarrow> dyn_uid le)"

text \<open>What the invariant reads of the display at an address.\<close>

type_synonym heap = "nat \<Rightarrow> display option"

definition path_of :: "heap \<Rightarrow> nat \<Rightarrow> string option" where
  "path_of h p = map_option display_id (h p)"

definition uid_of :: "heap \<Rightarrow> nat \<Rightarrow> u32" where
  "uid_of h p = (case h p of None \<Rightarrow> 0 | Some d \<Rightarrow> owned_uid d)"

definition idle_of :: "heap \<Rightarrow> nat \<Rightarrow> nat" where
  "idle_of h p = (case h p of None \<Rightarrow> 0 | Some d \<Rightarrow> finish_idle_id d)"

definition session_of :: "heap \<Rightarrow> nat \<Rightarrow> nat option" where
  "session_of h p = Option.bind (h p) user_session"

text \<open>Addresses, object paths and the store.\<close>

definition heap_ok ::
  "(nat \<Rightarrow> string option) \<Rightarrow> nat \<Rightarrow> display_store \<Rightarrow> (nat \<times> string) list \<Rightarrow> bool" where
  "heap_ok paths np st lookups =
     ((\<forall>p. paths p = None \<or> (p < np \<and> paths p = Some (object_path p))) \<and>
      ght_wf st \<and>
      (\<forall>(i, p) \<in> set st. paths p \<noteq> None \<and> i = object_path p) \<and>
      (\<forall>(p, u) \<in> set lookups. paths p \<noteq> None))"

text \<open>
  Every dynamic user belongs to the launch environment of exactly one living display, and
  every UID that a launch environment holds is one of the store.
\<close>

definition owners :: "(nat \<Rightarrow> u32) \<Rightarrow> u32 set \<Rightarrow> bool" where
  "owners uids S = bij_betw uids {p. uids p \<noteq> 0} S"

definition users_ok :: "sysdb \<Rightarrow> (nat \<Rightarrow> u32) \<Rightarrow> dyn_store \<Rightarrow> bool" where
  "users_ok D uids us = (dus_inv D us \<and> owners uids {i. ght_contains (by_uid us) i})"

text \<open>
  The pending sources: a living display knows exactly the idle source that will finish it, and
  the identifiers that the factory and the manager keep name their own sources or none.
\<close>

definition idles_ok :: "(nat \<Rightarrow> nat) \<Rightarrow> (nat \<times> source) list \<Rightarrow> nat \<Rightarrow> bool" where
  "idles_ok idles ss n =
     (0 < n \<and> distinct (map fst ss) \<and>
      (\<forall>(i, s) \<in> set ss. 0 < i \<and> i < n) \<and>
      (\<forall>i p. (i, FinishIdle p) \<in> set ss \<longleftrightarrow> i \<noteq> 0 \<and> idles p = i))"

definition purge_ok :: "nat \<Rightarrow> (nat \<times> source) list \<Rightarrow> bool" where
  "purge_ok purge ss = (\<forall>i. (i, PurgeDisplays) \<in> set ss \<longleftrightarrow> i \<noteq> 0 \<and> i = purge)"

definition source_id_ok :: "nat \<Rightarrow> source \<Rightarrow> (nat \<times> source) list \<Rightarrow> nat \<Rightarrow> bool" where
  "source_id_ok i s ss n = (i < n \<and> (\<forall>t. (i, t) \<in> set ss \<longrightarrow> t = s))"

text \<open>A session that points to a display is the user session of that display.\<close>

definition sessions_ok ::
  "(nat \<Rightarrow> nat option) \<Rightarrow> (nat \<Rightarrow> nat option) \<Rightarrow> bool" where
  "sessions_ok displays sessions = (\<forall>s p. displays s = Some p \<longrightarrow> sessions p = Some s)"

text \<open>The build: userdb is available and UID 0 is no greeter's.\<close>

definition build_ok :: "sysenv \<Rightarrow> bool" where
  "build_ok E = (have_userdb (db E) \<and> 0 < greeter_uid_min (db E))"

definition inv :: "sysenv \<Rightarrow> world \<Rightarrow> bool" where
  "inv E w =
     (build_ok E \<and>
      heap_ok (path_of (heap w)) (next_ptr w) (store w) (pending_lookups w) \<and>
      users_ok (db E) (uid_of (heap w)) (users w) \<and>
      idles_ok (idle_of (heap w)) (sources w) (next_source w) \<and>
      purge_ok (purge_displays_id w) (sources w) \<and>
      source_id_ok (wait_to_finish_timeout_id w) WaitToFinish (sources w) (next_source w) \<and>
      source_id_ok (seat0_graphics_check_timeout_id w) Seat0GraphicsCheck (sources w)
        (next_source w) \<and>
      source_id_ok (plymouth_quit_timeout_id w) PlymouthQuitTimeout (sources w)
        (next_source w) \<and>
      sessions_ok (session_display w) (session_of (heap w)))"

section \<open>Contracts\<close>

definition ok :: "sysenv \<Rightarrow> ('a \<Rightarrow> world) \<Rightarrow> world \<Rightarrow> 'a run \<Rightarrow> bool" where
  "ok E sel w m =
     (case m of
        Ret x \<Rightarrow> inv E (sel x) \<and> grows w (sel x)
      | Stop r \<Rightarrow> r \<noteq> dangling
      | OutOfFuel \<Rightarrow> True)"

abbreviation okw :: "sysenv \<Rightarrow> world \<Rightarrow> world run \<Rightarrow> bool" where
  "okw E w m \<equiv> ok E (\<lambda>x. x) w m"

lemma ok_Ret [simp]: "ok E sel w (Ret x) \<longleftrightarrow> inv E (sel x) \<and> grows w (sel x)"
  by (simp add: ok_def)

lemma ok_bind:
  assumes "ok E sel w m"
    and "\<And>x. m = Ret x \<Longrightarrow> inv E (sel x) \<Longrightarrow> grows w (sel x) \<Longrightarrow> ok E sel' (sel x) (f x)"
  shows "ok E sel' w (bindR m f)"
proof (cases m)
  case (Ret x)
  with assms have "inv E (sel x)" "grows w (sel x)" by auto
  with assms(2) [OF Ret] Ret show ?thesis
    by (cases "f x") (auto simp: ok_def intro: grows_trans)
qed (use assms(1) in \<open>auto simp: ok_def\<close>)

lemma ok_grows: "ok E sel w' m \<Longrightarrow> grows w w' \<Longrightarrow> ok E sel w m"
  by (auto simp: ok_def intro: grows_trans split: run.splits)

lemma ok_with_display:
  assumes "live w p" "\<And>d. heap w p = Some d \<Longrightarrow> ok E sel w (f d)"
  shows "ok E sel w (with_display p w f)"
  using assms by (auto simp: with_display_def live_def)

lemma ok_foldR:
  assumes "inv E w" "\<And>x w'. x \<in> set xs \<Longrightarrow> inv E w' \<Longrightarrow> grows w w' \<Longrightarrow> okw E w' (f x w')"
  shows "okw E w (foldR f xs w)"
  using assms
proof (induction xs arbitrary: w)
  case (Cons x xs)
  have "okw E w (f x w)" using Cons.prems(2) [of x w] Cons.prems(1) by simp
  then show ?case unfolding foldR.simps
  proof (rule ok_bind)
    fix w1 assume w1: "inv E w1" "grows w w1"
    show "okw E w1 (foldR f xs w1)"
      using w1(1) Cons.prems(2) grows_trans [OF w1(2)] by (intro Cons.IH) auto
  qed
qed simp

section \<open>Elementary updates\<close>

lemma grows_put: "live w p \<Longrightarrow> grows w (put_display p d w)"
  by (simp add: grows_def)

lemma view_upd [simp]:
  "path_of (h(p \<mapsto> d)) = (path_of h)(p \<mapsto> display_id d)"
  "uid_of (h(p \<mapsto> d)) = (uid_of h)(p := owned_uid d)"
  "idle_of (h(p \<mapsto> d)) = (idle_of h)(p := finish_idle_id d)"
  "session_of (h(p \<mapsto> d)) = (session_of h)(p := user_session d)"
  "path_of (h(p := None)) = (path_of h)(p := None)"
  "uid_of (h(p := None)) = (uid_of h)(p := 0)"
  "idle_of (h(p := None)) = (idle_of h)(p := 0)"
  "session_of (h(p := None)) = (session_of h)(p := None)"
  by (auto simp: path_of_def uid_of_def idle_of_def session_of_def)

lemma fields_put [simp]:
  "next_ptr (put_display p d w) = next_ptr w"
  "store (put_display p d w) = store w"
  "pending_lookups (put_display p d w) = pending_lookups w"
  "users (put_display p d w) = users w"
  "sources (put_display p d w) = sources w"
  "next_source (put_display p d w) = next_source w"
  "session_display (put_display p d w) = session_display w"
  "next_session (put_display p d w) = next_session w"
  "purge_displays_id (put_display p d w) = purge_displays_id w"
  "wait_to_finish_timeout_id (put_display p d w) = wait_to_finish_timeout_id w"
  "seat0_graphics_check_timeout_id (put_display p d w) = seat0_graphics_check_timeout_id w"
  "plymouth_quit_timeout_id (put_display p d w) = plymouth_quit_timeout_id w"
  "is_started (put_display p d w) = is_started w"
  "automatic_login_display (put_display p d w) = automatic_login_display w"
  "num_failures (put_display p d w) = num_failures w"
  "active_vt (put_display p d w) = active_vt w"
  by (simp_all add: put_display_def)

lemma view_heap:
  assumes "heap w p = Some d"
  shows "path_of (heap w) p = Some (display_id d)" "uid_of (heap w) p = owned_uid d"
    "idle_of (heap w) p = finish_idle_id d" "session_of (heap w) p = user_session d"
  using assms by (simp_all add: path_of_def uid_of_def idle_of_def session_of_def)

text \<open>
  Two states that agree on what the invariant reads. Updates of the other fields (the log,
  counters, flags) keep the invariant by this.
\<close>

definition same_view :: "world \<Rightarrow> world \<Rightarrow> bool" where
  "same_view w w' =
     (path_of (heap w') = path_of (heap w) \<and> uid_of (heap w') = uid_of (heap w) \<and> idle_of (heap w') = idle_of (heap w) \<and>
      session_of (heap w') = session_of (heap w) \<and> next_ptr w' = next_ptr w \<and> store w' = store w \<and>
      pending_lookups w' = pending_lookups w \<and> users w' = users w \<and> sources w' = sources w \<and>
      next_source w' = next_source w \<and> session_display w' = session_display w \<and>
      purge_displays_id w' = purge_displays_id w \<and>
      wait_to_finish_timeout_id w' = wait_to_finish_timeout_id w \<and>
      seat0_graphics_check_timeout_id w' = seat0_graphics_check_timeout_id w \<and>
      plymouth_quit_timeout_id w' = plymouth_quit_timeout_id w)"

lemma live_path: "live w p \<longleftrightarrow> path_of (heap w) p \<noteq> None"
  by (simp add: live_def path_of_def)

lemma inv_same_view: "inv E w \<Longrightarrow> same_view w w' \<Longrightarrow> inv E w'"
  by (simp add: same_view_def inv_def)

lemma grows_same_view: "same_view w w' \<Longrightarrow> grows w w'"
  by (simp add: same_view_def grows_def live_path)

lemma same_view_put:
  assumes "heap w p = Some d" "display_id d' = display_id d" "finish_idle_id d' = finish_idle_id d"
    "user_session d' = user_session d" "owned_uid d' = owned_uid d"
  shows "same_view w (put_display p d' w)"
  using assms view_heap [OF assms(1)] by (simp add: same_view_def fun_upd_idem)

lemma same_view_log [simp]: "same_view w (log_calls cs w)"
  by (simp add: same_view_def log_calls_def)

lemma log_calls_simps [simp]:
  "heap (log_calls cs w) = heap w" "inv E (log_calls cs w) \<longleftrightarrow> inv E w"
  "grows w (log_calls cs w)" "live (log_calls cs w) p \<longleftrightarrow> live w p"
  by (simp_all add: log_calls_def inv_def grows_def live_def)

lemma ok_same_view:
  "inv E w \<Longrightarrow> same_view w (sel x) \<Longrightarrow> ok E sel w (Ret x)"
  by (simp add: inv_same_view grows_same_view)

section \<open>Sources, users and sessions\<close>

lemma drop_source:
  assumes "idles_ok idles ss n" "purge_ok purge ss" "source_id_ok i s ss n"
    and "\<And>p. s \<noteq> FinishIdle p" "s \<noteq> PurgeDisplays"
  defines "ss' \<equiv> filter (\<lambda>(j, t). j \<noteq> i) ss"
  shows "idles_ok idles ss' n" "purge_ok purge ss'"
    "\<And>j t. source_id_ok j t ss n \<Longrightarrow> source_id_ok j t ss' n" "source_id_ok 0 u ss' n"
proof -
  show "idles_ok idles ss' n"
    using assms(1,3,4) unfolding ss'_def idles_ok_def source_id_ok_def
    by (auto simp: distinct_map_filter) blast
  show "purge_ok purge ss'"
    using assms(2,3,5) unfolding ss'_def purge_ok_def source_id_ok_def by auto
  show "\<And>j t. source_id_ok j t ss n \<Longrightarrow> source_id_ok j t ss' n"
    by (auto simp: ss'_def source_id_ok_def)
  show "source_id_ok 0 u ss' n"
    using assms(1) by (auto simp: ss'_def source_id_ok_def idles_ok_def)
qed

lemma source_id_ok_0: "idles_ok idles ss n \<Longrightarrow> source_id_ok 0 s ss n"
  by (auto simp: source_id_ok_def idles_ok_def)

lemma drop_idle:
  fixes p :: nat
  assumes "idles_ok idles ss n"
  defines "ss' \<equiv> filter (\<lambda>(j, t). j \<noteq> idles p) ss"
  shows "idles_ok (idles(p := 0)) ss' n" "purge_ok purge ss \<Longrightarrow> purge_ok purge ss'"
    "source_id_ok j t ss n \<Longrightarrow> source_id_ok j t ss' n"
proof -
  have fin: "(i, FinishIdle q) \<in> set ss \<longleftrightarrow> i \<noteq> 0 \<and> idles q = i" for i q
    using assms(1) by (simp add: idles_ok_def)
  have uniq: "(i, a) \<in> set ss \<Longrightarrow> (i, b) \<in> set ss \<Longrightarrow> a = b" for i a b
    using assms(1) eq_key_imp_eq_value by (fastforce simp: idles_ok_def)
  have pos: "(0, a) \<notin> set ss" for a
    using assms(1) by (auto simp: idles_ok_def)
  have only: "(idles p, a) \<in> set ss \<Longrightarrow> a = FinishIdle p" for a
    using fin [of "idles p" p] uniq pos by metis
  have other: "q \<noteq> p \<Longrightarrow> idles q \<noteq> 0 \<Longrightarrow> idles q \<noteq> idles p" for q
    using fin [of "idles q" q] only by fastforce
  show "idles_ok (idles(p := 0)) ss' n"
    using assms(1) other unfolding idles_ok_def ss'_def
    by (auto simp: distinct_map_filter)
  show "purge_ok purge ss \<Longrightarrow> purge_ok purge ss'"
    using only by (auto simp: purge_ok_def ss'_def)
  show "source_id_ok j t ss n \<Longrightarrow> source_id_ok j t ss' n"
    by (auto simp: source_id_ok_def ss'_def)
qed

lemma add_source:
  assumes "idles_ok idles ss n"
  defines "new \<equiv> \<lambda>s. ss @ [(n, s)]"
  shows "idles p = 0 \<Longrightarrow> idles_ok (idles(p := n)) (new (FinishIdle p)) (Suc n)"
    "(\<And>q. s \<noteq> FinishIdle q) \<Longrightarrow> idles_ok idles (new s) (Suc n)"
    "purge_ok purge ss \<Longrightarrow> s \<noteq> PurgeDisplays \<Longrightarrow> purge_ok purge (new s)"
    "purge_ok 0 ss \<Longrightarrow> purge_ok n (new PurgeDisplays)"
    "source_id_ok j t ss n \<Longrightarrow> source_id_ok j t (new s) (Suc n)"
    "source_id_ok n s (new s) (Suc n)"
proof -
  have less: "(i, a) \<in> set ss \<Longrightarrow> 0 < i \<and> i < n" for i a
    using assms(1) by (auto simp: idles_ok_def)
  have fresh: "(n, a) \<notin> set ss" for a
    using less by blast
  have fin: "(i, FinishIdle q) \<in> set ss \<longleftrightarrow> i \<noteq> 0 \<and> idles q = i" for i q
    using assms(1) by (simp add: idles_ok_def)
  have idle: "idles q \<noteq> n" if "0 < n" for q
    using fin [of n q] fresh that by simp
  have base: "0 < n" "distinct (map fst (new a))" "\<forall>(i, s) \<in> set (new a). 0 < i \<and> i < Suc n" for a
    using assms(1) less unfolding new_def idles_ok_def by (auto, fastforce+)
  show "idles p = 0 \<Longrightarrow> idles_ok (idles(p := n)) (new (FinishIdle p)) (Suc n)"
    using base fin idle by (auto simp: idles_ok_def) (auto simp: new_def)
  show "(\<And>q. s \<noteq> FinishIdle q) \<Longrightarrow> idles_ok idles (new s) (Suc n)"
    using base fin by (auto simp: idles_ok_def) (auto simp: new_def)
  show "purge_ok purge ss \<Longrightarrow> s \<noteq> PurgeDisplays \<Longrightarrow> purge_ok purge (new s)"
    by (auto simp: purge_ok_def new_def)
  show "purge_ok 0 ss \<Longrightarrow> purge_ok n (new PurgeDisplays)"
    using base(1) by (auto simp: purge_ok_def new_def)
  show "source_id_ok j t ss n \<Longrightarrow> source_id_ok j t (new s) (Suc n)"
    by (auto simp: source_id_ok_def new_def)
  show "source_id_ok n s (new s) (Suc n)"
    using fresh by (auto simp: source_id_ok_def new_def)
qed

text \<open>Clearing an identifier takes its source out; nothing else but the log changes.\<close>

lemma clear_source_eq:
  assumes "idles_ok idles (sources w) n"
  obtains l where "clear_source i w = w\<lparr>sources := filter (\<lambda>(j, s). j \<noteq> i) (sources w), log := l\<rparr>"
proof (cases "i \<in> fst ` set (sources w)")
  case True
  then have "i \<noteq> 0" using assms by (auto simp: idles_ok_def)
  with True that [of "log w"] show thesis by (simp add: clear_source_def g_source_remove_def)
next
  case False
  then have "filter (\<lambda>(j, s). j \<noteq> i) (sources w) = sources w"
    by (force simp: filter_id_conv)
  with False that [of "log w"] that [of "log w @ [ReleaseStaleSource i]"] show thesis
    by (cases "i = 0") (simp_all add: clear_source_def g_source_remove_def log_calls_def)
qed

lemma users_ok_idem: "users_ok D uids us \<Longrightarrow> uids p = u \<Longrightarrow> users_ok D (uids(p := u)) us"
  by (simp add: fun_upd_idem)

lemma users_ok_next_alloc:
  "users_ok D uids us \<Longrightarrow> uid_in_range D n \<Longrightarrow> users_ok D uids (us\<lparr>next_alloc := n\<rparr>)"
  by (simp add: users_ok_def dus_inv_next_alloc)

lemma owners_add:
  assumes "owners uids S" "uids p = 0" "i \<notin> S" "i \<noteq> 0"
  shows "owners (uids(p := i)) (insert i S)"
proof -
  have "{q. (uids(p := i)) q \<noteq> 0} = insert p {q. uids q \<noteq> 0}"
    using assms(2,4) by auto
  with assms show ?thesis
    by (auto simp: owners_def bij_betw_def inj_on_def)
qed

lemma owners_remove:
  assumes "owners uids S" "uids p \<noteq> 0"
  shows "owners (uids(p := 0)) (S - {uids p})"
proof -
  have "{q. (uids(p := 0)) q \<noteq> 0} = {q. uids q \<noteq> 0} - {p}" by auto
  with assms show ?thesis
    by (auto simp: owners_def bij_betw_def inj_on_def)
qed

lemma users_ok_insert:
  assumes "users_ok D uids us" "uids p = 0" "\<not> ght_contains (by_uid us) (uid u)"
    and "\<not> ght_contains (by_name us) (username u)" "uid_in_range D (uid u)"
    and "0 < greeter_uid_min D"
  shows "users_ok D (uids(p := uid u))
    (us\<lparr>by_name := ght_insert (username u) u (by_name us),
        by_uid := ght_insert (uid u) u (by_uid us)\<rparr>)"
proof -
  have "dus_inv D (us\<lparr>by_name := ght_insert (username u) u (by_name us),
      by_uid := ght_insert (uid u) u (by_uid us)\<rparr>)"
    using assms dus_inv_insert [of D us u] by (simp add: users_ok_def)
  moreover have "{i. ght_contains (ght_insert (uid u) u (by_uid us)) i} =
      insert (uid u) {i. ght_contains (by_uid us) i}"
    using assms(3) by (auto simp: ght_insert_fresh ght_contains_fst)
  moreover have "uid u \<noteq> 0" using assms(5,6) by (auto simp: uid_in_range_def)
  ultimately show ?thesis
    using assms(1-3) by (simp add: users_ok_def owners_add)
qed

lemma ensure_uid_users:
  assumes "users_ok D uids us" "have_userdb D" "0 < greeter_uid_min D" "uids p = dyn_uid le"
    and "gdm_launch_environment_ensure_uid D us le = Ret (r, us', le')"
  shows "users_ok D (uids(p := dyn_uid le')) us'"
proof (cases "dyn_uid le = 0")
  case False
  with assms show ?thesis
    by (auto simp: gdm_launch_environment_ensure_uid_def users_ok_idem)
next
  case True
  have inv: "dus_inv D us" using assms(1) by (simp add: users_ok_def)
  show ?thesis
    using inv assms(2)
  proof (cases rule: create_cases [of D us "preferred_user_name le" "user_disp_name le"
        "user_member_of le"])
    case (created u n)
    have "users_ok D uids (us\<lparr>next_alloc := n\<rparr>)"
      by (rule users_ok_next_alloc [OF assms(1) created(2)])
    from users_ok_insert [OF this, of p u] created True assms(3-5) show ?thesis
      by (auto simp: gdm_launch_environment_ensure_uid_def)
  qed (use True assms in \<open>auto simp: gdm_launch_environment_ensure_uid_def users_ok_idem
         users_ok_next_alloc\<close>)
qed

lemma ensure_uid_run: "gdm_launch_environment_ensure_uid D us le \<noteq> Stop dangling"
  by (simp add: gdm_launch_environment_ensure_uid_def dangling_def
      split: option.split create_result.split)

lemma remove_by_uid:
  "by_uid (fst (gdm_dynamic_user_store_remove us i)) = ght_remove i (by_uid us)"
  by (auto simp: gdm_dynamic_user_store_remove_def ght_lookup_def map_of_eq_None_iff
      ght_remove_not_in split: option.split)

lemma users_ok_remove:
  assumes "users_ok D uids us" "uids p \<noteq> 0"
  shows "users_ok D (uids(p := 0)) (fst (gdm_dynamic_user_store_remove us (uids p)))"
proof -
  have "{i. ght_contains (by_uid (fst (gdm_dynamic_user_store_remove us (uids p)))) i} =
      {i. ght_contains (by_uid us) i} - {uids p}"
    by (force simp: remove_by_uid ght_contains_fst ght_remove_set image_iff)
  moreover have "dus_inv D (fst (gdm_dynamic_user_store_remove us (uids p)))"
    using assms(1) remove_inv by (simp add: users_ok_def)
  ultimately show ?thesis
    using assms by (simp add: users_ok_def owners_remove)
qed

lemma stop_users:
  assumes "users_ok D uids us" "uids p = dyn_uid le"
    and "gdm_launch_environment_stop us le = Ret (us', le', steps)"
  shows "users_ok D (uids(p := 0)) us'" "dyn_uid le' = 0"
proof -
  show "users_ok D (uids(p := 0)) us'"
    using assms users_ok_remove [OF assms(1), of p]
    by (auto simp: gdm_launch_environment_stop_def Let_def users_ok_idem
        split: if_splits prod.splits)
  show "dyn_uid le' = 0"
    using assms(1,3) stop_inv(2) by (auto simp: users_ok_def)
qed

lemma free_calls_run: "free_calls es \<noteq> Stop dangling"
proof (induction es rule: free_calls.induct)
  case (2 h es)
  then show ?case by (cases "free_calls es") simp_all
qed (simp_all add: dangling_def)

lemma stop_run: "gdm_launch_environment_stop us le \<noteq> Stop dangling"
proof (cases "free_calls (snd (gdm_dynamic_user_store_remove us (dyn_uid le)))")
  case (Stop r)
  with free_calls_run have "r \<noteq> dangling" by metis
  with Stop show ?thesis
    by (auto simp: gdm_launch_environment_stop_def Let_def split: prod.split)
qed (auto simp: gdm_launch_environment_stop_def Let_def split: prod.split)

lemma stop_without_user:
  "dyn_uid le = 0 \<Longrightarrow> \<exists>le' steps. gdm_launch_environment_stop us le = Ret (us, le', steps)"
  by (simp add: gdm_launch_environment_stop_def Let_def)

end
