(* ===== verification/Daemon_Contracts.thy ===== *)
theory Daemon_Contracts
  imports Daemon_Invariant
begin

text \<open>
  Every operation of displays, of the manager and of the factory keeps the invariant, frees no
  display that its caller holds and touches no freed one. The first half is about the operations
  that emit nothing; the second is proved once inside of the locale \<open>status_emitter\<close>,
  for any emission of \<^verbatim>\<open>notify::status\<close> that keeps the contract itself.
\<close>

section \<open>Operations without emissions\<close>

lemma view_same:
  assumes "heap w p = Some d"
  shows "(path_of (heap w))(p \<mapsto> display_id d) = path_of (heap w)"
    "(uid_of (heap w))(p := owned_uid d) = uid_of (heap w)"
    "(idle_of (heap w))(p := finish_idle_id d) = idle_of (heap w)"
    "(session_of (heap w))(p := user_session d) = session_of (heap w)"
  using view_heap [OF assms] by (simp_all add: fun_upd_idem)

lemma owned_uid_update [simp]:
  "owned_uid (d\<lparr>launch_environment := Some le\<rparr>) = dyn_uid le"
  "owned_uid (d\<lparr>launch_environment := None\<rparr>) = 0"
  "owned_uid (d\<lparr>finish_idle_id := i\<rparr>) = owned_uid d"
  "owned_uid (d\<lparr>user_session := s\<rparr>) = owned_uid d"
  "owned_uid (d\<lparr>status := x\<rparr>) = owned_uid d"
  "owned_uid (d\<lparr>session_id := c\<rparr>) = owned_uid d"
  "owned_uid (d\<lparr>le_connected := b\<rparr>) = owned_uid d"
  "owned_uid (d\<lparr>manager_connected := b\<rparr>) = owned_uid d"
  "owned_uid (d\<lparr>factory_connected := b\<rparr>) = owned_uid d"
  "owned_uid (d\<lparr>doing_initial_setup := b\<rparr>) = owned_uid d"
  "owned_uid (d\<lparr>have_existing_user_accounts := b\<rparr>) = owned_uid d"
  by (simp_all add: owned_uid_def)

lemma grows_heap: "heap w' = heap w \<Longrightarrow> grows w w'"
  by (simp add: grows_def live_def)

lemma grows_upd: "heap w' = (heap w)(p \<mapsto> d) \<Longrightarrow> grows w w'"
  by (simp add: grows_def live_def)

lemma liveE:
  assumes "live w p" obtains d where "heap w p = Some d"
  using assms by (auto simp: live_def)

lemma queue_finish_ok: "inv E w \<Longrightarrow> live w p \<Longrightarrow> okw E w (queue_finish p w)"
proof (unfold queue_finish_def, rule ok_with_display, assumption)
  fix d assume inv: "inv E w" and d: "heap w p = Some d"
  have "idle_of (heap w) p = finish_idle_id d" using view_heap [OF d] by simp
  with inv d show "okw E w (if finish_idle_id d = 0
      then let (i, w1) = g_source_add (FinishIdle p) w
           in Ret (put_display p (d\<lparr>finish_idle_id := i\<rparr>) w1) else Ret w)"
    by (auto simp: g_source_add_def inv_def view_same add_source intro: grows_upd)
qed

lemma queue_purge_ok:
  "inv E w \<Longrightarrow> inv E (gdm_display_factory_queue_purge_displays w)"
  "grows w (gdm_display_factory_queue_purge_displays w)"
  by (auto simp: gdm_display_factory_queue_purge_displays_def g_source_add_def inv_def add_source
      intro: grows_heap)

text \<open>The old launch environment of a display stops: its dynamic user goes.\<close>

lemma finalize_launch_env_cases:
  assumes "finalize_launch_env le w = m"
  obtains (stop) r where "m = Stop r" "r \<noteq> dangling"
  | (ret) us le' steps l where "gdm_launch_environment_stop (users w) le = Ret (us, le', steps)"
      "m = Ret (w\<lparr>users := us, log := l\<rparr>)"
  | (fuel) "m = OutOfFuel"
proof (cases "gdm_launch_environment_stop (users w) le")
  case (Ret x)
  obtain us le' steps where "x = (us, le', steps)" by (cases x)
  with Ret assms show thesis
    by (intro ret [of us le' steps "log w @ step_calls steps"]) (simp_all add: finalize_launch_env_def log_calls_def)
next
  case (Stop r)
  with stop_run [of "users w" le] assms show thesis
    by (intro stop [of r]) (auto simp: finalize_launch_env_def)
next
  case OutOfFuel
  with assms show thesis by (intro fuel) (simp add: finalize_launch_env_def)
qed

lemma finalize_launch_env_users:
  assumes "inv E w" "heap w p = Some d" "launch_environment d = Some le"
    and "finalize_launch_env le w = Ret w'"
  obtains us l where "w' = w\<lparr>users := us, log := l\<rparr>"
    "users_ok (db E) ((uid_of (heap w))(p := 0)) us"
  using assms(4)
proof (cases rule: finalize_launch_env_cases)
  case (ret us le' steps l)
  moreover have "uid_of (heap w) p = dyn_uid le"
    using assms(2,3) by (simp add: uid_of_def owned_uid_def)
  ultimately show thesis
    using assms(1) that stop_users(1) [OF _ _ ret(1)] by (auto simp: inv_def)
qed auto

lemma finalize_launch_env_safe: "finalize_launch_env le w \<noteq> Stop dangling"
  by (cases rule: finalize_launch_env_cases [OF refl, of le w]) auto

lemma set_launch_environment_ok:
  assumes inv: "inv E w" and p: "live w p" and le: "dyn_uid le = 0"
  shows "okw E w (set_launch_environment p le w)"
proof (unfold set_launch_environment_def, rule ok_with_display [OF p])
  fix d assume d: "heap w p = Some d"
  show "okw E w (bindR (case launch_environment d of None \<Rightarrow> Ret w
        | Some old \<Rightarrow> finalize_launch_env old w)
      (\<lambda>w. Ret (put_display p (d\<lparr>launch_environment := Some le, le_connected := False\<rparr>) w)))"
  proof (cases "launch_environment d")
    case None
    then have "owned_uid d = 0" by (simp add: owned_uid_def)
    with None inv le view_same [OF d] show ?thesis
      by (auto simp: inv_def intro: grows_upd)
  next
    case (Some old)
    show ?thesis
    proof (cases "finalize_launch_env old w")
      case (Ret w')
      from finalize_launch_env_users [OF inv d Some Ret] obtain us l where
        "w' = w\<lparr>users := us, log := l\<rparr>" "users_ok (db E) ((uid_of (heap w))(p := 0)) us" .
      with Some Ret inv le view_same [OF d] show ?thesis
        by (auto simp: inv_def intro: grows_upd)
    qed (use Some finalize_launch_env_safe [of old w] in \<open>auto simp: ok_def\<close>)
  qed
qed

lemma prepare_greeter_session_ok:
  assumes inv: "inv E w" and p: "live w p"
  shows "ok E snd w (gdm_display_prepare_greeter_session E p w)"
proof (unfold gdm_display_prepare_greeter_session_def, rule ok_with_display [OF p])
  fix d assume d: "heap w p = Some d"
  let ?m = "\<lambda>le. gdm_launch_environment_ensure_uid (db E) (users w) le"
  have step: "ok E snd w (bindR (?m le) (\<lambda>(r, st, le').
      let w' = put_display p (d\<lparr>launch_environment := Some le'\<rparr>) (w\<lparr>users := st\<rparr>)
      in case r of Inl e \<Rightarrow> Ret (None, w') | Inr i \<Rightarrow> Ret (Some i, w')))"
    if le: "launch_environment d = Some le" for le
  proof (cases "?m le")
    case (Ret x)
    obtain r st le' where x: "x = (r, st, le')" by (cases x)
    have "uid_of (heap w) p = dyn_uid le" using d le by (simp add: uid_of_def owned_uid_def)
    then have "users_ok (db E) ((uid_of (heap w))(p := dyn_uid le')) st"
      using inv Ret x ensure_uid_users [of "db E" "uid_of (heap w)" "users w" p le r st le']
      by (simp add: inv_def build_ok_def)
    with Ret x inv view_same [OF d] show ?thesis
      by (auto simp: inv_def Let_def intro: grows_upd split: sum.split)
  qed (use ensure_uid_run [of "db E" "users w" le] in \<open>auto simp: ok_def\<close>)
  show "ok E snd w (if session_class d \<noteq> Some ''greeter'' then Ret (None, w)
      else case launch_environment d of None \<Rightarrow> Stop ''NULL launch environment''
        | Some le \<Rightarrow> bindR (?m le) (\<lambda>(r, st, le').
            let w' = put_display p (d\<lparr>launch_environment := Some le'\<rparr>) (w\<lparr>users := st\<rparr>)
            in case r of Inl e \<Rightarrow> Ret (None, w') | Inr i \<Rightarrow> Ret (Some i, w')))"
    using inv step by (cases "launch_environment d") (auto simp: ok_def dangling_def)
qed

lemma start_keeps_uid:
  "gdm_launch_environment_start s le = (b, le', cs) \<Longrightarrow> dyn_uid le' = dyn_uid le"
  by (auto simp: gdm_launch_environment_start_def split: if_splits)

lemma start_greeter_session_ok:
  assumes inv: "inv E w" and p: "live w p"
  shows "okw E w (gdm_display_start_greeter_session p w)"
proof (unfold gdm_display_start_greeter_session_def, rule ok_with_display [OF p])
  fix d assume d: "heap w p = Some d"
  show "okw E w (if session_class d \<noteq> Some ''greeter'' then Ret w
      else case launch_environment d of None \<Rightarrow> Ret w
        | Some le \<Rightarrow>
            let (b, le', cs) = gdm_launch_environment_start (next_session w) le;
                w1 = (if b then w\<lparr>next_session := Suc (next_session w)\<rparr> else w);
                cs' = (case le_session le' of None \<Rightarrow> []
                       | Some s \<Rightarrow> [SessionSetDisplayIsInitial s (is_initial d),
                                    SessionSetSupportedTypes s (supported_session_types d)])
            in Ret (log_calls (cs @ cs')
                 (put_display p (d\<lparr>launch_environment := Some le', le_connected := True\<rparr>) w1)))"
  proof (cases "session_class d = Some ''greeter'' \<and> launch_environment d \<noteq> None")
    case True
    then obtain le where le: "launch_environment d = Some le" by auto
    obtain b le' cs where start: "gdm_launch_environment_start (next_session w) le = (b, le', cs)"
      by (cases "gdm_launch_environment_start (next_session w) le") auto
    have "dyn_uid le' = owned_uid d" using start_keeps_uid [OF start] le by (simp add: owned_uid_def)
    then show ?thesis
      using inv True le start view_same [OF d]
      by (auto simp: inv_def log_calls_def Let_def intro: grows_upd)
  qed (use inv in auto)
qed

lemma stop_greeter_session_ok:
  assumes inv: "inv E w" and p: "live w p"
  shows "okw E w (gdm_display_stop_greeter_session p w)"
proof (unfold gdm_display_stop_greeter_session_def, rule ok_with_display [OF p])
  fix d assume d: "heap w p = Some d"
  show "okw E w (case launch_environment d of None \<Rightarrow> Ret w
      | Some le \<Rightarrow> bindR (gdm_launch_environment_stop (users w) le) (\<lambda>(st, le', steps).
          let w1 = put_display p (d\<lparr>launch_environment := None, le_connected := False\<rparr>)
                     (log_calls (step_calls steps) (w\<lparr>users := st\<rparr>))
          in finalize_launch_env le' w1))"
  proof (cases "launch_environment d")
    case (Some le)
    show ?thesis
    proof (cases "gdm_launch_environment_stop (users w) le")
      case (Ret x)
      obtain st le' steps where x: "x = (st, le', steps)" by (cases x)
      have uid: "uid_of (heap w) p = dyn_uid le" using d Some by (simp add: uid_of_def owned_uid_def)
      have "users_ok (db E) (uid_of (heap w)) (users w)" using inv by (simp add: inv_def)
      note users = stop_users [OF this uid Ret [unfolded x]]
      obtain le'' steps' where "gdm_launch_environment_stop st le' = Ret (st, le'', steps')"
        using stop_without_user [OF users(2)] by blast
      with Some Ret x users(1) inv view_same [OF d] show ?thesis
        by (auto simp: inv_def finalize_launch_env_def log_calls_def intro: grows_upd)
    qed (use Some stop_run [of "users w" le] in \<open>auto simp: ok_def\<close>)
  qed (use inv in simp)
qed

lemma set_user_session_None_ok:
  assumes inv: "inv E w" and p: "live w p"
  shows "okw E w (set_user_session p None w)"
proof -
  obtain d where d: "heap w p = Some d" using p by (rule liveE)
  have sess: "sessions_ok (session_display w) (session_of (heap w))"
    using inv by (simp add: inv_def)
  have "session_of (heap w) p = user_session d" using view_heap [OF d] by simp
  with sess have "sessions_ok (case user_session d of None \<Rightarrow> session_display w
        | Some old \<Rightarrow> (session_display w)(old := None))
      ((session_of (heap w))(p := None))"
    by (auto simp: sessions_ok_def split: option.split)
  with inv d view_same [OF d] show ?thesis
    by (cases "user_session d") (auto simp: set_user_session_def clean_user_session_def
        with_display_def inv_def log_calls_def Let_def intro: grows_upd)
qed

lemma create_user_session_ok:
  assumes inv: "inv E w" and p: "live w p"
  shows "okw E w (create_user_session_for_display p allowed w)"
proof -
  obtain d where d: "heap w p = Some d" using p by (rule liveE)
  have sess: "sessions_ok (session_display w) (session_of (heap w))"
    using inv by (simp add: inv_def)
  let ?s = "next_session w"
  have "session_of (heap w) p = user_session d" using view_heap [OF d] by simp
  with sess have "sessions_ok ((session_display w)(?s \<mapsto> p))
        ((session_of (heap w))(p \<mapsto> ?s))" if "user_session d = None"
    using that by (auto simp: sessions_ok_def)
  moreover have "sessions_ok ((session_display w)(?s \<mapsto> p, old := None))
        ((session_of (heap w))(p \<mapsto> ?s))" if "user_session d = Some old" for old
    using that sess \<open>session_of (heap w) p = user_session d\<close>
    by (auto simp: sessions_ok_def)
  ultimately show ?thesis
    using inv d view_same [OF d]
    by (cases "user_session d") (auto simp: create_user_session_for_display_def set_user_session_def clean_user_session_def
        with_display_def inv_def log_calls_def Let_def intro: grows_upd)
qed

text \<open>A new display is known to nobody yet; adding it to the store announces it.\<close>

lemma new_display_ok:
  assumes inv: "inv E w"
    and mk: "\<And>n. display_id (mk n) = object_path n" "\<And>n. finish_idle_id (mk n) = 0"
      "\<And>n. user_session (mk n) = None" "\<And>n. launch_environment (mk n) = None"
    and new: "new_display mk w = (p, w')"
  shows "inv E w'" "live w' p" "grows w w'" "ght_lookup (store w') (object_path p) = None"
proof -
  have np: "p = next_ptr w"
    and w': "w' = put_display p (mk p) (w\<lparr>next_ptr := Suc (next_ptr w)\<rparr>)"
    using new by (auto simp: new_display_def)
  have heap: "heap_ok (path_of (heap w)) (next_ptr w) (store w) (pending_lookups w)"
    using inv by (simp add: inv_def)
  then have "path_of (heap w) p = None" by (auto simp: heap_ok_def np)
  then have none: "heap w p = None" by (simp add: path_of_def)
  then have views: "uid_of (heap w) p = 0" "idle_of (heap w) p = 0" "session_of (heap w) p = None"
    by (simp_all add: uid_of_def idle_of_def session_of_def)
  have "heap_ok ((path_of (heap w))(p \<mapsto> object_path p)) (Suc (next_ptr w)) (store w)
      (pending_lookups w)"
    using heap by (auto simp: heap_ok_def np less_Suc_eq)
  with inv views show "inv E w'"
    by (simp add: w' inv_def mk owned_uid_def fun_upd_idem)
  show "live w' p" "grows w w'" by (simp_all add: w' grows_def live_def)
  have "(object_path p, q) \<notin> set (store w)" for q
    using heap \<open>path_of (heap w) p = None\<close> by (auto simp: heap_ok_def)
  then show "ght_lookup (store w') (object_path p) = None"
    by (auto simp: w' ght_lookup_def map_of_eq_None_iff)
qed

lemma store_display_ok:
  assumes inv: "inv E w" and p: "live w p" and new: "ght_lookup (store w) (object_path p) = None"
  shows "okw E w (store_display p w)"
proof -
  obtain d where d: "heap w p = Some d" using p by (rule liveE)
  have heap: "heap_ok (path_of (heap w)) (next_ptr w) (store w) (pending_lookups w)"
    using inv by (simp add: inv_def)
  then have i: "display_id d = object_path p"
    using view_heap(1) [OF d] by (auto simp: heap_ok_def) (metis option.distinct(1) option.inject)
  let ?st = "ght_insert (object_path p) p (store w)"
  have "ght_lookup ?st (object_path p) = Some p"
    using heap by (auto simp: heap_ok_def ght.lookup_insert)
  moreover have "heap_ok (path_of (heap w)) (next_ptr w) ?st (pending_lookups w)"
    using heap new view_heap(1) [OF d] ght.wf_insert [of "store w" "object_path p" p]
    by (auto simp: heap_ok_def ght_insert_fresh ght_contains_iff)
  moreover have "(path_of (heap w))(p \<mapsto> object_path p) = path_of (heap w)"
    using view_same(1) [OF d] i by simp
  ultimately show ?thesis
    using inv new d i view_same [OF d]
    by (auto simp: store_display_def with_display_def gdm_display_store_add_def Let_def
        manager_on_display_added_def factory_on_display_added_def gdm_display_store_lookup_def
        log_calls_def inv_def intro: grows_upd)
qed

lemma clear_source_known:
  assumes inv: "inv E w" and i: "source_id_ok i s (sources w) (next_source w)"
    and s: "\<And>p. s \<noteq> FinishIdle p" "s \<noteq> PurgeDisplays"
  obtains ss l where "clear_source i w = w\<lparr>sources := ss, log := l\<rparr>"
    "idles_ok (idle_of (heap w)) ss (next_source w)" "purge_ok (purge_displays_id w) ss"
    "\<And>j t. source_id_ok j t (sources w) (next_source w) \<Longrightarrow> source_id_ok j t ss (next_source w)"
    "\<And>t. source_id_ok 0 t ss (next_source w)"
proof -
  have idles: "idles_ok (idle_of (heap w)) (sources w) (next_source w)"
    and purge: "purge_ok (purge_displays_id w) (sources w)"
    using inv by (simp_all add: inv_def)
  obtain l where "clear_source i w = w\<lparr>sources := filter (\<lambda>(j, s). j \<noteq> i) (sources w), log := l\<rparr>"
    using clear_source_eq [OF idles] .
  with drop_source [OF idles purge i s] that show thesis by blast
qed

lemma clear_seat0_check_ok:
  assumes "inv E w"
  defines "w' \<equiv> (clear_source (seat0_graphics_check_timeout_id w) w)
      \<lparr>seat0_graphics_check_timeout_id := 0\<rparr>"
  shows "inv E w'" "heap w' = heap w" "store w' = store w"
proof -
  have "source_id_ok (seat0_graphics_check_timeout_id w) Seat0GraphicsCheck (sources w)
      (next_source w)" using assms(1) by (simp add: inv_def)
  then obtain ss l where "clear_source (seat0_graphics_check_timeout_id w) w =
        w\<lparr>sources := ss, log := l\<rparr>"
    "idles_ok (idle_of (heap w)) ss (next_source w)" "purge_ok (purge_displays_id w) ss"
    "\<And>j t. source_id_ok j t (sources w) (next_source w) \<Longrightarrow> source_id_ok j t ss (next_source w)"
    "\<And>t. source_id_ok 0 t ss (next_source w)"
    by (rule clear_source_known [OF assms(1)]) auto
  with assms(1) show "inv E w'" "heap w' = heap w" "store w' = store w"
    by (simp_all add: w'_def inv_def)
qed

lemma clear_wait_ok:
  assumes "inv E w"
  shows "inv E (clear_source (wait_to_finish_timeout_id w) w)"
    "inv E ((clear_source (wait_to_finish_timeout_id w) w)\<lparr>wait_to_finish_timeout_id := 0\<rparr>)"
    "heap (clear_source (wait_to_finish_timeout_id w) w) = heap w"
proof -
  have "source_id_ok (wait_to_finish_timeout_id w) WaitToFinish (sources w) (next_source w)"
    using assms by (simp add: inv_def)
  then obtain ss l where "clear_source (wait_to_finish_timeout_id w) w = w\<lparr>sources := ss, log := l\<rparr>"
    "idles_ok (idle_of (heap w)) ss (next_source w)" "purge_ok (purge_displays_id w) ss"
    "\<And>j t. source_id_ok j t (sources w) (next_source w) \<Longrightarrow> source_id_ok j t ss (next_source w)"
    "\<And>t. source_id_ok 0 t ss (next_source w)"
    by (rule clear_source_known [OF assms]) auto
  with assms show "inv E (clear_source (wait_to_finish_timeout_id w) w)"
    "inv E ((clear_source (wait_to_finish_timeout_id w) w)\<lparr>wait_to_finish_timeout_id := 0\<rparr>)"
    "heap (clear_source (wait_to_finish_timeout_id w) w) = heap w"
    by (simp_all add: inv_def)
qed

lemma clear_plymouth_ok:
  assumes "inv E w"
  shows "inv E ((clear_source (plymouth_quit_timeout_id w) w)\<lparr>plymouth_quit_timeout_id := 0\<rparr>)"
    "heap (clear_source (plymouth_quit_timeout_id w) w) = heap w"
proof -
  have "source_id_ok (plymouth_quit_timeout_id w) PlymouthQuitTimeout (sources w) (next_source w)"
    using assms by (simp add: inv_def)
  then obtain ss l where "clear_source (plymouth_quit_timeout_id w) w = w\<lparr>sources := ss, log := l\<rparr>"
    "idles_ok (idle_of (heap w)) ss (next_source w)" "purge_ok (purge_displays_id w) ss"
    "\<And>j t. source_id_ok j t (sources w) (next_source w) \<Longrightarrow> source_id_ok j t ss (next_source w)"
    "\<And>t. source_id_ok 0 t ss (next_source w)"
    by (rule clear_source_known [OF assms]) auto
  with assms show "heap (clear_source (plymouth_quit_timeout_id w) w) = heap w"
    "inv E ((clear_source (plymouth_quit_timeout_id w) w)\<lparr>plymouth_quit_timeout_id := 0\<rparr>)"
    by (simp_all add: inv_def)
qed

text \<open>Finishing drops the idle source of the display.\<close>

lemma clear_idle_ok:
  assumes inv: "inv E w" and d: "heap w p = Some d"
  defines "w' \<equiv> put_display p (d\<lparr>finish_idle_id := 0\<rparr>) (clear_source (finish_idle_id d) w)"
  shows "inv E w'" "grows w w'" "live w' p"
proof -
  have idles: "idles_ok (idle_of (heap w)) (sources w) (next_source w)"
    using inv by (simp add: inv_def)
  obtain l where l: "clear_source (finish_idle_id d) w =
      w\<lparr>sources := filter (\<lambda>(j, s). j \<noteq> finish_idle_id d) (sources w), log := l\<rparr>"
    using clear_source_eq [OF idles] .
  have i: "finish_idle_id d = idle_of (heap w) p" using view_heap(3) [OF d] by simp
  from inv view_same [OF d] drop_idle [OF idles] show "inv E w'"
    by (simp add: w'_def l inv_def) (simp add: i)
  show "grows w w'" "live w' p"
    by (simp_all add: w'_def l grows_def live_def)
qed

lemma find_display_live:
  assumes "inv E w" "find_display P w = Some p"
  shows "live w p"
  using assms store_find_Some [of _ "store w" p]
  by (fastforce simp: find_display_def inv_def heap_ok_def live_path)

section \<open>Operations with emissions\<close>

locale status_emitter =
  fixes E :: sysenv
    and emit :: emitter
  assumes emit_ok: "inv E w \<Longrightarrow> live w p \<Longrightarrow> okw E w (emit p w)"
begin

lemma okw_same: "inv E w' \<Longrightarrow> heap w' = heap w \<Longrightarrow> okw E w (Ret w')"
  by (simp add: grows_heap)

lemma emit_put_ok:
  assumes "inv E w" "heap w p = Some d" "same_view w (put_display p d' w)"
  shows "okw E w (emit p (put_display p d' w))"
  using emit_ok [OF inv_same_view [OF assms(1,3)], of p] grows_same_view [OF assms(3)]
  by (auto intro: ok_grows)

lemma set_status_ok: "inv E w \<Longrightarrow> live w p \<Longrightarrow> okw E w (set_status emit p s w)"
  unfolding set_status_def
proof (rule ok_with_display, assumption)
  fix d assume inv: "inv E w" and d: "heap w p = Some d"
  have same: "same_view w (put_display p (d\<lparr>status := s\<rparr>) w)" "same_view w (put_display p d w)"
    by (rule same_view_put [OF d]; simp)+
  with emit_put_ok [OF inv d same(1)] inv
  show "okw E w (let (d', changed) = gdm_display_set_status s d; w' = put_display p d' w
      in if changed then emit p w' else Ret w')"
    by (simp add: gdm_display_set_status_def inv_same_view [OF inv] grows_same_view)
qed

lemma set_status_property_ok:
  "inv E w \<Longrightarrow> live w p \<Longrightarrow> okw E w (set_status_property emit p s w)"
  unfolding set_status_property_def
proof (rule ok_with_display, assumption)
  fix d assume inv: "inv E w" and d: "heap w p = Some d"
  have same: "same_view w (put_display p (fst (gdm_display_set_property (PROP_STATUS s) d)) w)"
    by (rule same_view_put [OF d]) (simp_all add: gdm_display_set_status_def)
  show "okw E w (emit p (put_display p (fst (gdm_display_set_property (PROP_STATUS s) d)) w))"
    by (rule emit_put_ok [OF inv d same])
qed

lemma real_prepare_ok:
  "inv E w \<Longrightarrow> live w p \<Longrightarrow> ok E snd w (gdm_display_real_prepare emit p w)"
  unfolding gdm_display_real_prepare_def by (rule ok_bind [OF set_status_ok]) simp_all

lemma finish_ok: "inv E w \<Longrightarrow> live w p \<Longrightarrow> okw E w (gdm_display_finish emit p w)"
  unfolding gdm_display_finish_def
  by (rule ok_with_display) (auto intro: ok_grows [OF set_status_ok] clear_idle_ok)

lemma unmanage_ok: "inv E w \<Longrightarrow> live w p \<Longrightarrow> okw E w (gdm_display_unmanage emit p w)"
  unfolding gdm_display_unmanage_def by (rule ok_with_display) (auto intro: set_status_ok)

lemma self_destruct_ok: "inv E w \<Longrightarrow> live w p \<Longrightarrow> okw E w (self_destruct emit p w)"
  unfolding self_destruct_def
  by (rule ok_bind [OF unmanage_ok], assumption+, rule ok_with_display)
    (auto dest: growsD intro: queue_finish_ok)

lemma unmanage_finish_ok:
  "inv E w \<Longrightarrow> live w p \<Longrightarrow>
     okw E w (bindR (gdm_display_unmanage emit p w) (gdm_display_finish emit p))"
  by (rule ok_bind [OF unmanage_ok]) (auto dest: growsD intro: finish_ok)

subsection \<open>The manager\<close>

lemma look_for_users_views:
  "look_for_existing_users_sync E d = Some d' \<Longrightarrow>
     \<exists>b. d' = d\<lparr>have_existing_user_accounts := b\<rparr>"
  by (auto simp: look_for_existing_users_sync_def split: option.splits)

lemma then_prepare_ok:
  assumes "okw E w m" "live w p"
  shows "ok E snd w (bindR m (gdm_display_real_prepare emit p))"
  by (rule ok_bind [OF assms(1)]) (auto dest: growsD intro: real_prepare_ok assms)

lemma launch_env_uid [simp]:
  "dyn_uid (gdm_create_greeter_launch_environment g seat host loc) = 0"
  "dyn_uid (gdm_create_initial_setup_launch_environment seat host loc) = 0"
  by (simp_all add: gdm_create_greeter_launch_environment_def
      gdm_create_initial_setup_launch_environment_def launch_env_new_def)

lemma local_prepare_ok:
  assumes "inv E w" "live w p"
  shows "ok E snd w (gdm_local_display_prepare E emit p w)"
  unfolding gdm_local_display_prepare_def Let_def
  using assms
  by (intro ok_with_display)
    (auto intro!: then_prepare_ok set_launch_environment_ok real_prepare_ok)

lemma remote_prepare_ok:
  assumes "inv E w" "live w p"
  shows "ok E snd w (gdm_remote_display_prepare E emit p w)"
  unfolding gdm_remote_display_prepare_def
  using assms by (intro then_prepare_ok set_launch_environment_ok) simp_all

lemma prepare_ok:
  assumes inv: "inv E w" and p: "live w p"
  shows "ok E snd w (gdm_display_prepare E emit p w)"
proof (unfold gdm_display_prepare_def, rule ok_with_display [OF p])
  fix d assume d: "heap w p = Some d"
  show "ok E snd w (case look_for_existing_users_sync E d of None \<Rightarrow> Stop ''EXIT_FAILURE''
      | Some d1 \<Rightarrow> let d2 = d1\<lparr>doing_initial_setup := wants_initial_setup E d1\<rparr>;
                      w1 = put_display p d2 w
                  in case remote_id d of
                       None \<Rightarrow> gdm_local_display_prepare E emit p w1
                     | Some r \<Rightarrow> gdm_remote_display_prepare E emit p w1)"
  proof (cases "look_for_existing_users_sync E d")
    case (Some d1)
    let ?d2 = "d1\<lparr>doing_initial_setup := wants_initial_setup E d1\<rparr>"
    obtain b where "d1 = d\<lparr>have_existing_user_accounts := b\<rparr>"
      using look_for_users_views [OF Some] ..
    then have same: "same_view w (put_display p ?d2 w)"
      by (intro same_view_put [OF d]) simp_all
    have "inv E (put_display p ?d2 w)" "live (put_display p ?d2 w) p"
      using inv_same_view [OF inv same] by simp_all
    then have "ok E snd w (gdm_local_display_prepare E emit p (put_display p ?d2 w))"
      "ok E snd w (gdm_remote_display_prepare E emit p (put_display p ?d2 w))"
      using grows_same_view [OF same]
      by (auto intro: ok_grows [OF local_prepare_ok] ok_grows [OF remote_prepare_ok])
    with Some show ?thesis by (simp add: Let_def split: option.split)
  qed (simp add: ok_def dangling_def)
qed

lemma set_up_greeter_session_ok:
  assumes "inv E w" "live w p"
  shows "okw E w (set_up_greeter_session E emit p w)"
  unfolding set_up_greeter_session_def
proof (rule ok_bind [OF prepare_greeter_session_ok [OF assms]])
  fix x :: "u32 option \<times> world"
  assume inv: "inv E (snd x)" and g: "grows w (snd x)"
  have p: "live (snd x) p" by (rule growsD [OF g assms(2)])
  have "okw E (snd x) (bindR (create_user_session_for_display p i (snd x))
      (gdm_display_start_greeter_session p))" for i
    by (rule ok_bind [OF create_user_session_ok [OF inv p]])
      (auto intro: start_greeter_session_ok growsD [OF _ p])
  then show "okw E (snd x) (case x of (r, w) \<Rightarrow> case r of
      None \<Rightarrow> bindR (gdm_display_unmanage emit p w) (gdm_display_finish emit p)
    | Some greeter_uid \<Rightarrow> bindR (create_user_session_for_display p greeter_uid w)
        (gdm_display_start_greeter_session p))"
    using unmanage_finish_ok [OF inv p] by (auto split: prod.split option.split)
qed

lemma set_up_automatic_login_session_ok:
  assumes "inv E w" "live w p"
  shows "okw E w (set_up_automatic_login_session p w)"
  unfolding set_up_automatic_login_session_def
  by (rule ok_bind [OF create_user_session_ok [OF assms]], rule ok_with_display)
    (auto dest: growsD [OF _ assms(2)] split: option.split)

lemma set_up_session_if_user_exists_ok:
  "inv E w \<Longrightarrow> live w p \<Longrightarrow>
     okw E w (set_up_automatic_login_session_if_user_exists E emit p u w)"
  by (simp add: set_up_automatic_login_session_if_user_exists_def set_up_greeter_session_ok
      set_up_automatic_login_session_ok)

lemma set_up_session_ok:
  assumes inv: "inv E w" and p: "live w p"
  shows "okw E w (set_up_session E emit p w)"
proof -
  have "inv E (w\<lparr>pending_lookups := (p, u) # pending_lookups w\<rparr>)" for u
    using inv p by (auto simp: inv_def heap_ok_def live_path)
  then show ?thesis
    unfolding set_up_session_def
    using inv p by (intro ok_with_display)
      (auto intro: set_up_greeter_session_ok set_up_session_if_user_exists_ok grows_heap
        split: option.split)
qed

lemma manager_status_ok:
  assumes inv: "inv E w" and p: "live w p"
  shows "okw E w (manager_on_display_status_changed E emit p w)"
proof -
  let ?q = "\<lambda>t w. (clear_source (plymouth_quit_timeout_id w)
      (log_calls [PlymouthQuit t] (w\<lparr>plymouth_is_running := False\<rparr>)))\<lparr>plymouth_quit_timeout_id := 0\<rparr>"
  have q: "inv E (?q t w)" "heap (?q t w) = heap w" for t
  proof -
    let ?w = "log_calls [PlymouthQuit t] (w\<lparr>plymouth_is_running := False\<rparr>)"
    have "inv E ?w" using inv by (simp add: inv_def log_calls_def)
    from clear_plymouth_ok [OF this] show "inv E (?q t w)" "heap (?q t w) = heap w"
      by (simp_all add: log_calls_def)
  qed
  have drop: "okw E w (bindR (set_user_session p None w') (\<lambda>w. Ret (if automatic_login_display w = Some p
        then w\<lparr>automatic_login_display := None, did_automatic_login := True\<rparr> else w)))"
    if "inv E w'" "heap w' = heap w" for w'
  proof -
    have "live w' p" using that(2) p by (simp add: live_def)
    from ok_bind [OF set_user_session_None_ok [OF that(1) this], of "\<lambda>x. x"]
    have "okw E w' (bindR (set_user_session p None w') (\<lambda>w. Ret (if automatic_login_display w = Some p
        then w\<lparr>automatic_login_display := None, did_automatic_login := True\<rparr> else w)))"
      by (simp add: inv_def grows_heap)
    then show ?thesis using that(2) by (rule ok_grows [OF _ grows_heap])
  qed
  show ?thesis
    unfolding manager_on_display_status_changed_def Let_def
    using inv p q drop
    by (intro ok_with_display)
      (auto intro: set_up_session_ok grows_heap split: display_status.split)
qed

subsection \<open>The local display factory\<close>

lemma store_prepare_ok:
  assumes inv: "inv E w"
    and mk: "\<And>n. display_id (mk n) = object_path n" "\<And>n. finish_idle_id (mk n) = 0"
      "\<And>n. user_session (mk n) = None" "\<And>n. launch_environment (mk n) = None"
    and k: "\<And>p x. inv E (snd x) \<Longrightarrow> live (snd x) p \<Longrightarrow> ok E sel (snd x) (k p x)"
  shows "ok E sel w (case new_display mk w of (p, w1) \<Rightarrow>
    bindR (store_display p w1) (\<lambda>w2. bindR (gdm_display_prepare E emit p w2) (k p)))"
proof -
  obtain p w1 where new: "new_display mk w = (p, w1)" by fastforce
  note n = new_display_ok [OF inv mk new]
  have "ok E sel w1 (bindR (store_display p w1) (\<lambda>w2. bindR (gdm_display_prepare E emit p w2) (k p)))"
  proof (rule ok_bind [OF store_display_ok [OF n(1,2,4)]])
    fix w2 assume w2: "inv E w2" "grows w1 w2"
    have p2: "live w2 p" by (rule growsD [OF w2(2) n(2)])
    show "ok E sel w2 (bindR (gdm_display_prepare E emit p w2) (k p))"
      by (rule ok_bind [OF prepare_ok [OF w2(1) p2]]) (auto intro: k dest: growsD [OF _ p2])
  qed
  then show ?thesis using new by (auto intro: ok_grows [OF _ n(3)])
qed

lemmas constructed = gdm_local_display_new_def gdm_display_constructor_def

lemma create_display_ok:
  assumes "inv E w"
  shows "ok E snd w (gdm_local_display_factory_create_display E emit user w)"
proof -
  have k: "ok E snd (snd x) (case x of (b, w3) \<Rightarrow>
      if \<not> b then bindR (gdm_display_unmanage emit p w3) (\<lambda>w4. Ret (Inl ''Failed preparing display'', w4))
      else with_display p w3 (\<lambda>d. Ret (Inr (display_id d), w3)))"
    if "inv E (snd x)" "live (snd x) p" for x p
    using that by (cases x) (auto intro!: ok_bind [OF unmanage_ok] ok_with_display)
  show ?thesis
    unfolding gdm_local_display_factory_create_display_def Let_def
    by (rule store_prepare_ok [OF assms _ _ _ _ k]) (simp_all add: constructed)
qed

lemma udev_is_settled_ok:
  assumes "udev_is_settled E w = (b, w')"
  shows "same_view w w'" "heap w' = heap w"
  using assms by (auto simp: udev_is_settled_def same_view_def split: if_splits option.splits
      graphics.splits)

lemma emit_unsupported_ok:
  assumes "inv E w"
  shows "inv E (emit_graphics_unsupported E w)" "heap (emit_graphics_unsupported E w) = heap w"
  using assms by (simp_all add: emit_graphics_unsupported_def on_graphics_unsupported_def Let_def
      inv_def log_calls_def)

lemma create_display_for_seat_ok:
  assumes inv: "inv E w"
  shows "okw E w (create_display_for_seat E emit seat w)"
proof -
  obtain b w1 where w1: "(if have_udev E then udev_is_settled E w else (True, w)) = (b, w1)"
    by fastforce
  have "same_view w w1 \<and> heap w1 = heap w"
    using w1 udev_is_settled_ok [of w b w1] by (auto simp: same_view_def split: if_splits)
  then have i1: "inv E w1" and h1: "heap w1 = heap w"
    using inv_same_view [OF inv] by auto
  let ?c = "(clear_source (seat0_graphics_check_timeout_id w1) w1)
      \<lparr>seat0_graphics_check_timeout_id := 0\<rparr>"
  note c = clear_seat0_check_ok [OF i1]
  have added: "inv E (case g_source_add Seat0GraphicsCheck w1 of
      (i, w2) \<Rightarrow> w2\<lparr>seat0_graphics_check_timeout_id := i\<rparr>)"
    "heap (case g_source_add Seat0GraphicsCheck w1 of
      (i, w2) \<Rightarrow> w2\<lparr>seat0_graphics_check_timeout_id := i\<rparr>) = heap w"
    using i1 h1 by (auto simp: g_source_add_def inv_def add_source)
  have k: "okw E (snd x) (case x of (b, w5) \<Rightarrow> if \<not> b then gdm_display_unmanage emit p w5 else Ret w5)"
    if "inv E (snd x)" "live (snd x) p" for x p
    using that by (cases x) (auto intro: unmanage_ok)
  have unsupported: "inv E (emit_graphics_unsupported E ?c)"
    "heap (emit_graphics_unsupported E ?c) = heap w"
    using emit_unsupported_ok [OF c(1)] c(2) h1 by simp_all
  let ?mk = "\<lambda>ptr. g_object_set
      [PROP_SUPPORTED_SESSION_TYPES (Some (gdm_local_display_factory_get_session_types E)),
       PROP_SEAT_ID seat, PROP_IS_INITIAL (seat = Some ''seat0'')] (gdm_local_display_new ptr)"
  have "okw E ?c (case new_display ?mk ?c of (p, w3) \<Rightarrow>
      bindR (store_display p w3) (\<lambda>w4. bindR (gdm_display_prepare E emit p w4)
        (\<lambda>(b, w5). if \<not> b then gdm_display_unmanage emit p w5 else Ret w5)))" (is "okw E ?c ?new")
    by (rule store_prepare_ok [OF c(1) _ _ _ _ k]) (simp_all add: constructed)
  then have new: "okw E w ?new" by (rule ok_grows) (simp add: grows_heap c h1)
  have "okw E w (if seat_can_graphical E seat < 0 then Ret ?c
      else if seat_can_graphical E seat = 0
      then Ret (if seat = Some ''seat0'' then emit_graphics_unsupported E ?c else ?c)
      else case get_display_for_seat seat ?c of Some p \<Rightarrow> Ret ?c | None \<Rightarrow> ?new)"
    using c h1 new unsupported
    by (auto simp: grows_heap split: option.split simp del: g_object_set.simps)
  moreover have "okw E w (Ret (if seat = Some ''seat0'' \<and> seat0_graphics_check_timeout_id w1 = 0
      then (case g_source_add Seat0GraphicsCheck w1 of
              (i, w2) \<Rightarrow> w2\<lparr>seat0_graphics_check_timeout_id := i\<rparr>) else w1))"
    using added i1 h1 by (auto simp: grows_heap)
  ultimately show ?thesis
    unfolding create_display_for_seat_def Let_def w1 split_conv by (simp only: split: if_split) simp
qed

lemma ensure_display_for_seat_ok:
  assumes inv: "inv E w"
  shows "okw E w (ensure_display_for_seat E emit seat w)"
proof -
  have "okw E w (bindR (set_status_property emit p MANAGED w) (\<lambda>w1.
      Ret (case seat of None \<Rightarrow> w1 | Some s \<Rightarrow> log_calls [ActivateSession s sid] w1)))"
    if "live w p" for p sid
    by (rule ok_bind [OF set_status_property_ok [OF inv that]]) (simp split: option.split)
  then show ?thesis
    unfolding ensure_display_for_seat_def
    using create_display_for_seat_ok [OF inv, of seat] find_display_live [OF inv]
    by (auto split: option.split intro!: ok_with_display)
qed

lemma finish_if_waiting_ok:
  assumes "inv E w" "live w p"
  shows "okw E w (finish_display_on_seat_if_waiting emit p w)"
proof -
  have "okw E w (bindR (gdm_display_stop_greeter_session p w) (\<lambda>w1.
      bindR (gdm_display_unmanage emit p w1) (gdm_display_finish emit p)))"
    by (rule ok_bind [OF stop_greeter_session_ok [OF assms]])
      (auto intro: unmanage_finish_ok growsD [OF _ assms(2)])
  then show ?thesis
    unfolding finish_display_on_seat_if_waiting_def
    using assms by (auto intro!: ok_with_display)
qed

lemma finish_waiting_ok:
  assumes inv: "inv E w"
  shows "okw E w (finish_waiting_displays_on_seat emit w)"
  unfolding finish_waiting_displays_on_seat_def gdm_display_store_foreach_def
proof (rule ok_foldR [OF inv])
  fix x w' assume x: "x \<in> set (store w)" and w': "inv E w'" "grows w w'"
  obtain i p where ip: "x = (i, p)" by (cases x)
  have "live w p" using inv x ip by (auto simp: inv_def heap_ok_def live_path)
  with w' ip show "okw E w' ((case x of (i, p) \<Rightarrow> finish_display_on_seat_if_waiting emit p) w')"
    by (auto intro: finish_if_waiting_ok growsD)
qed

lemma maybe_stop_greeter_ok:
  "inv E w \<Longrightarrow> live w p \<Longrightarrow> okw E w (maybe_stop_greeter_in_background emit p w)"
  unfolding maybe_stop_greeter_in_background_def
  by (rule ok_with_display) (auto intro: set_status_property_ok)

lemma factory_status_ok:
  assumes inv: "inv E w" and p: "live w p"
  shows "okw E w (factory_on_display_status_changed E emit p w)"
proof -
  let ?w1 = "gdm_display_factory_queue_purge_displays w"
  have w1: "inv E ?w1" "grows w ?w1" by (simp_all add: queue_purge_ok inv)
  have "inv E (?w1\<lparr>num_failures := n\<rparr>)" "grows w (?w1\<lparr>num_failures := n\<rparr>)" for n
    using w1 by (simp_all add: inv_def grows_def live_def)
  then have "okw E w (ensure_display_for_seat E emit s (?w1\<lparr>num_failures := n\<rparr>))" for n s
    by (auto intro: ok_grows [OF ensure_display_for_seat_ok])
  with \<open>\<And>n. inv E (?w1\<lparr>num_failures := n\<rparr>)\<close> \<open>\<And>n. grows w (?w1\<lparr>num_failures := n\<rparr>)\<close> w1 inv p
  show ?thesis
    unfolding factory_on_display_status_changed_def Let_def
    by (auto intro!: ok_with_display finish_waiting_ok split: display_status.split)
qed

subsection \<open>Events\<close>

lemma sync_seats_ok:
  assumes "inv E w"
  shows "ok E snd w (gdm_local_display_factory_sync_seats E emit w)"
  unfolding gdm_local_display_factory_sync_seats_def
  using assms by (auto split: option.split
      intro!: ok_bind [OF ok_foldR [OF assms]] ensure_display_for_seat_ok)

lemma start_ok:
  assumes "inv E w"
  shows "ok E snd w (gdm_local_display_factory_start E emit w)"
proof -
  let ?w = "gdm_local_display_factory_start_monitor E (w\<lparr>is_started := True\<rparr>)"
  have "inv E ?w" "grows w ?w"
    using assms by (auto simp: gdm_local_display_factory_start_monitor_def inv_def grows_heap)
  then show ?thesis
    unfolding gdm_local_display_factory_start_def by (auto intro: ok_grows [OF sync_seats_ok])
qed

lemma seat0_check_timeout_ok:
  assumes "inv E w"
  shows "okw E w (on_seat0_graphics_check_timeout E emit w)"
proof -
  have "inv E (w\<lparr>seat0_graphics_check_timeout_id := 0, seat0_graphics_check_timed_out := True\<rparr>)"
    using assms by (auto simp: inv_def source_id_ok_0)
  then show ?thesis
    unfolding on_seat0_graphics_check_timeout_def
    by (rule ok_grows [OF ensure_display_for_seat_ok]) (simp add: grows_heap)
qed

lemma vt_left_login_window_ok:
  assumes "inv E w"
  shows "ok E snd w (vt_left_login_window E emit vt w)"
proof -
  have "ok E snd w (bindR (maybe_stop_greeter_in_background emit p w) (\<lambda>w. Ret (v, w)))"
    if "live w p" for p and v :: u32
    by (rule ok_bind [OF maybe_stop_greeter_ok [OF assms that]]) simp
  then show ?thesis
    unfolding vt_left_login_window_def
    using assms find_display_live [OF assms] by (auto split: option.split sum.split)
qed

lemma vt_entered_session_ok:
  assumes inv: "inv E w"
  shows "okw E w (vt_entered_session E tty w)"
proof -
  let ?c = "(clear_source (seat0_graphics_check_timeout_id w) w)
      \<lparr>seat0_graphics_check_timeout_id := 0\<rparr>"
  let ?w2 = "if wait_to_finish_timeout_id ?c \<noteq> 0
      then g_source_remove (wait_to_finish_timeout_id ?c) ?c else ?c"
  note c = clear_seat0_check_ok [OF inv]
  have "?w2 = clear_source (wait_to_finish_timeout_id ?c) ?c"
    by (simp add: clear_source_def)
  then have w2: "inv E ?w2" "heap ?w2 = heap w"
    using clear_wait_ok(1,3) [OF c(1)] c(2) by simp_all
  have w3: "inv E (case g_source_add WaitToFinish v of (i, w3) \<Rightarrow> w3\<lparr>wait_to_finish_timeout_id := i\<rparr>)"
    "heap (case g_source_add WaitToFinish v of (i, w3) \<Rightarrow> w3\<lparr>wait_to_finish_timeout_id := i\<rparr>) = heap v"
    if "inv E v" for v
    using that by (auto simp: g_source_add_def inv_def add_source)
  have wait: "okw E ?c (case g_source_add WaitToFinish ?w2 of
      (i, w3) \<Rightarrow> Ret (w3\<lparr>wait_to_finish_timeout_id := i\<rparr>))"
    using w3 [OF w2(1)] w2(2) c(2) by (simp only: split_beta ok_Ret) (simp add: grows_heap)
  have "okw E ?c (vt_entered_session E tty w)"
  proof (cases "find_display (lookup_by_tty E tty) ?c")
    case (Some p)
    have "live ?c p" by (rule find_display_live [OF c(1) Some])
    with Some wait c(1) show ?thesis
      unfolding vt_entered_session_def Let_def by (auto intro!: ok_with_display)
  qed (simp add: vt_entered_session_def c)
  then show ?thesis by (rule ok_grows) (simp add: grows_heap c)
qed

lemma on_vt_changed_ok:
  assumes inv: "inv E w"
  shows "ok E snd w (on_vt_changed E emit pri hup r w)"
proof -
  have w1: "inv E (w\<lparr>active_vt := v\<rparr>)" "grows w (w\<lparr>active_vt := v\<rparr>)" for v
    using inv by (simp_all add: inv_def grows_heap)
  have last: "ok E snd w3 (if active_vt w3 \<noteq> initial_vt E then Ret (True, w3)
      else bindR (ensure_display_for_seat E emit (Some ''seat0'') w3) (\<lambda>w4. Ret (True, w4)))"
    if "inv E w3" for w3
    using that by (auto intro!: ok_bind [OF ensure_display_for_seat_ok])
  have mid: "ok E snd w2 (bindR (if active_vt w2 \<noteq> v then vt_entered_session E tty w2 else Ret w2)
      (\<lambda>w3. if active_vt w3 \<noteq> initial_vt E then Ret (True, w3)
        else bindR (ensure_display_for_seat E emit (Some ''seat0'') w3) (\<lambda>w4. Ret (True, w4))))"
    if "inv E w2" for w2 v tty
    using that by (intro ok_bind [where sel = "\<lambda>x. x"] last) (auto intro: vt_entered_session_ok)
  have "ok E snd w (bindR (vt_left_login_window E emit prev (w\<lparr>active_vt := v\<rparr>)) (\<lambda>(login_vt, w2).
      bindR (if active_vt w2 \<noteq> login_vt then vt_entered_session E tty w2 else Ret w2)
        (\<lambda>w3. if active_vt w3 \<noteq> initial_vt E then Ret (True, w3)
          else bindR (ensure_display_for_seat E emit (Some ''seat0'') w3) (\<lambda>w4. Ret (True, w4)))))"
    for prev v tty
    by (rule ok_grows [OF ok_bind [OF vt_left_login_window_ok [OF w1(1)]] w1(2)])
      (simp only: split_beta, rule mid)
  then show ?thesis
    unfolding on_vt_changed_def Let_def using inv w1 by (auto split: sum.split)
qed

lemma launch_env_signal_ok:
  assumes "inv E w" "live w p"
  shows "okw E w (on_launch_environment_signal emit p sig w)"
proof -
  have "okw E w (Ret (put_display p (d\<lparr>session_id := c\<rparr>) w))" if "heap w p = Some d" for d c
    using assms(1) that by (intro ok_same_view same_view_put) simp_all
  then show ?thesis
    unfolding on_launch_environment_signal_def
    using assms by (auto intro!: ok_with_display self_destruct_ok split: le_signal.split)
qed

lemma launch_env_event_ok:
  assumes inv: "inv E w" and p: "live w p" and h: "\<And>le. dyn_uid (fst (handler le)) = dyn_uid le"
  shows "okw E w (launch_env_event emit p handler w)"
proof (unfold launch_env_event_def, rule ok_with_display [OF p])
  fix d assume d: "heap w p = Some d"
  show "okw E w (case launch_environment d of None \<Rightarrow> Ret w
      | Some le \<Rightarrow> let (le', steps) = handler le
          in foldR (run_le_step emit p) steps (put_display p (d\<lparr>launch_environment := Some le'\<rparr>) w))"
  proof (cases "launch_environment d")
    case (Some le)
    obtain le' steps where s: "handler le = (le', steps)" by fastforce
    let ?w = "put_display p (d\<lparr>launch_environment := Some le'\<rparr>) w"
    have "dyn_uid le' = owned_uid d" using Some s h [of le] by (simp add: owned_uid_def)
    then have same: "same_view w ?w" by (intro same_view_put [OF d]) simp_all
    have "okw E ?w (foldR (run_le_step emit p) steps ?w)"
    proof (rule ok_foldR [OF inv_same_view [OF inv same]])
      fix x w' assume "inv E w'" "grows ?w w'"
      moreover from this have "live w' p" using growsD [of ?w w' p] by simp
      ultimately show "okw E w' (run_le_step emit p x w')"
        by (cases x) (simp_all add: launch_env_signal_ok)
    qed
    from ok_grows [OF this grows_same_view [OF same]] Some s show ?thesis by simp
  qed (use inv in simp)
qed

lemma factory_method_call_ok:
  assumes inv: "inv E w"
  shows "ok E snd w (factory_method_call E emit sender m w)"
proof -
  have "inv E (snd (gdm_display_factory_on_user_display_creation E u w))"
    "heap (snd (gdm_display_factory_on_user_display_creation E u w)) = heap w"
    "inv E (snd (handle_destroy_user_display E u w))"
    "heap (snd (handle_destroy_user_display E u w)) = heap w" for u
    using inv by (auto simp: gdm_display_factory_on_user_display_creation_def Let_def
        handle_destroy_user_display_def gdm_display_factory_on_user_display_destruction_def inv_def
        split: sum.split option.split)
  note d = this
  have "ok E snd w' (bindR (gdm_local_display_factory_create_display E emit u w') (\<lambda>(r, w). Ret (f r, w)))"
    if "inv E w'" for u w' and f :: "string + string \<Rightarrow> dbus_reply"
    by (rule ok_bind [OF create_display_ok [OF that]]) (auto simp: split_beta)
  with inv have "ok E snd w (handle_create_transient_display E emit w)"
    by (simp add: handle_create_transient_display_def)
  moreover have "ok E snd w (handle_create_user_display E emit u w)" for u
    using d(1,2) [of u] unfolding handle_create_user_display_def
    by (auto split: prod.split option.split simp: grows_heap
        intro!: ok_grows [OF \<open>\<And>w' u f. inv E w' \<Longrightarrow> ok E snd w' (bindR
          (gdm_local_display_factory_create_display E emit u w') (\<lambda>(r, w). Ret (f r, w)))\<close>])
  ultimately show ?thesis
    unfolding factory_method_call_def using inv d
    by (auto split: option.split factory_method.split simp: grows_heap)
qed

end

section \<open>Displays that go away\<close>

definition safely :: "'a run \<Rightarrow> ('a \<Rightarrow> bool) \<Rightarrow> bool" where
  "safely m Q = (case m of Ret x \<Rightarrow> Q x | Stop r \<Rightarrow> r \<noteq> dangling | OutOfFuel \<Rightarrow> True)"

lemma safely_simps [simp]:
  "safely (Ret x) Q \<longleftrightarrow> Q x" "safely (Stop r) Q \<longleftrightarrow> r \<noteq> dangling" "safely OutOfFuel Q"
  by (simp_all add: safely_def)

lemma safely_bind: "safely m (\<lambda>x. safely (f x) Q) \<Longrightarrow> safely (bindR m f) Q"
  by (cases m) simp_all

lemma safely_mono: "safely m Q \<Longrightarrow> (\<And>x. m = Ret x \<Longrightarrow> Q x \<Longrightarrow> R x) \<Longrightarrow> safely m R"
  by (cases m) simp_all

lemma ok_safely: "ok E sel w m \<longleftrightarrow> safely m (\<lambda>x. inv E (sel x) \<and> grows w (sel x))"
  by (simp add: ok_def safely_def)

text \<open>What the end of a display leaves of the daemon's state.\<close>

definition after_dispose :: "sysenv \<Rightarrow> nat \<Rightarrow> world \<Rightarrow> world \<Rightarrow> bool" where
  "after_dispose E p w w' =
     (inv E w' \<and> heap w' = (heap w)(p := None) \<and> store w' = store w \<and>
      pending_lookups w' = pending_lookups w \<and> is_started w' = is_started w)"

lemma dispose_ok:
  assumes inv: "inv E w" and p: "live w p"
    and gone: "p \<notin> fst ` set (pending_lookups w)" "p \<notin> snd ` set (store w)"
  shows "safely (gdm_display_dispose p w) (after_dispose E p w)"
proof -
  obtain d where d: "heap w p = Some d" using p by (rule liveE)
  have idles: "idles_ok (idle_of (heap w)) (sources w) (next_source w)"
    and users: "users_ok (db E) (uid_of (heap w)) (users w)"
    and heap: "heap_ok (path_of (heap w)) (next_ptr w) (store w) (pending_lookups w)"
    and sess: "sessions_ok (session_display w) (session_of (heap w))"
    using inv by (simp_all add: inv_def)
  obtain l where l: "clear_source (finish_idle_id d) w =
      w\<lparr>sources := filter (\<lambda>(j, s). j \<noteq> finish_idle_id d) (sources w), log := l\<rparr>"
    using clear_source_eq [OF idles] .
  let ?w1 = "clear_source (finish_idle_id d) w"
  define m where "m = (case launch_environment d of None \<Rightarrow> Ret ?w1
      | Some le \<Rightarrow> finalize_launch_env le ?w1)"
  have m: "safely m (\<lambda>w2. \<exists>us l'. w2 = ?w1\<lparr>users := us, log := l'\<rparr> \<and>
      users_ok (db E) ((uid_of (heap w))(p := 0)) us)"
  proof (cases "launch_environment d")
    case None
    then have "uid_of (heap w) p = 0" using d by (simp add: uid_of_def owned_uid_def)
    with None users show ?thesis
      by (auto simp: m_def l users_ok_idem intro!: exI [of _ "users w"] exI [of _ l])
  next
    case (Some le)
    have uid: "uid_of (heap w) p = dyn_uid le" using d Some by (simp add: uid_of_def owned_uid_def)
    have "finalize_launch_env le ?w1 = m" using Some by (simp add: m_def)
    then show ?thesis
    proof (cases rule: finalize_launch_env_cases)
      case (ret us le' steps l')
      have "gdm_launch_environment_stop (users w) le = Ret (us, le', steps)" using ret by (simp add: l)
      from stop_users(1) [OF users uid this] ret show ?thesis by auto
    qed auto
  qed
  have heap': "heap_ok ((path_of (heap w))(p := None)) (next_ptr w) (store w) (pending_lookups w)"
  proof -
    have "(i, q) \<in> set (store w) \<Longrightarrow> q \<noteq> p" "(q, u) \<in> set (pending_lookups w) \<Longrightarrow> q \<noteq> p" for i q u
      using gone by force+
    with heap show ?thesis by (auto simp: heap_ok_def)
  qed
  have sess': "sessions_ok (case user_session d of None \<Rightarrow> session_display w
      | Some s \<Rightarrow> (session_display w)(s := None)) ((session_of (heap w))(p := None))"
    using sess view_heap(4) [OF d] by (auto simp: sessions_ok_def split: option.split)
  have idle: "finish_idle_id d = idle_of (heap w) p" using view_heap(3) [OF d] by simp
  define fin where "fin w2 =
      (let w3 = (if automatic_login_display w2 = Some p
                 then w2\<lparr>automatic_login_display := None\<rparr> else w2);
           w4 = (case user_session d of None \<Rightarrow> w3 | Some s \<Rightarrow> clean_user_session s w3)
       in w4\<lparr>heap := (heap w4)(p := None)\<rparr>)" for w2
  have fin: "after_dispose E p w (fin (?w1\<lparr>users := us, log := l'\<rparr>))"
    if "users_ok (db E) ((uid_of (heap w))(p := 0)) us" for us l'
    using that inv heap' sess' drop_idle [OF idles]
    by (cases "user_session d") (simp_all add: fin_def after_dispose_def inv_def l
        clean_user_session_def log_calls_def, simp_all add: idle)
  have "safely (bindR m (\<lambda>w2. Ret (fin w2))) (after_dispose E p w)"
    by (intro safely_bind safely_mono [OF m]) (use fin in auto)
  with d show ?thesis
    unfolding gdm_display_dispose_def m_def with_display_def fin_def
    by (simp only: Let_def option.case)
qed

text \<open>
  The displays at the addresses \<open>ps\<close> have left the store: each goes away unless an
  unfinished lookup holds it, and every other display stays as it is.
\<close>

definition after_removal :: "sysenv \<Rightarrow> nat set \<Rightarrow> world \<Rightarrow> world \<Rightarrow> bool" where
  "after_removal E ps w w' =
     (inv E w' \<and> store w' = store w \<and> pending_lookups w' = pending_lookups w \<and>
      (\<forall>q. q \<notin> ps \<longrightarrow> heap w' q = heap w q) \<and>
      (\<forall>p \<in> ps. live w' p \<longleftrightarrow> p \<in> fst ` set (pending_lookups w)))"

lemma put_put: "put_display p d (put_display p d' w) = put_display p d w"
  "(put_display p d w)\<lparr>log := l\<rparr> = put_display p d (w\<lparr>log := l\<rparr>)"
  "log (put_display p d w) = log w"
  by (simp_all add: put_display_def)

lemma removed_signal_ok:
  assumes inv: "inv E w" and p: "live w p" and gone: "p \<notin> snd ` set (store w)"
  shows "safely (store_signal (DISPLAY_REMOVED p) w) (after_removal E {p} w)"
proof -
  obtain d where d: "heap w p = Some d" using p by (rule liveE)
  obtain d' l where
    eq: "store_signal (DISPLAY_REMOVED p) w = unref_display p ((put_display p d' w)\<lparr>log := l\<rparr>)"
    and d': "display_id d' = display_id d" "finish_idle_id d' = finish_idle_id d"
      "user_session d' = user_session d" "owned_uid d' = owned_uid d"
  proof
    let ?d = "if is_started w then d\<lparr>manager_connected := False, factory_connected := False\<rparr>
        else d\<lparr>manager_connected := False\<rparr>"
    show "store_signal (DISPLAY_REMOVED p) w = unref_display p ((put_display p ?d w)
        \<lparr>log := log w @ [UnexportDisplay (display_id d), EmitDisplayRemoved p]\<rparr>)"
      using d by (simp add: manager_on_display_removed_def factory_on_display_removed_def
          with_display_def log_calls_def put_put)
  qed auto
  let ?w = "(put_display p d' w)\<lparr>log := l\<rparr>"
  have w: "inv E ?w" using inv_same_view [OF inv same_view_put [OF d d']] by (simp add: inv_def)
  show ?thesis
  proof (cases "p \<in> fst ` set (pending_lookups w)")
    case True
    with w show ?thesis
      unfolding eq by (simp add: unref_display_def after_removal_def live_def put_display_def)
  next
    case False
    have "safely (gdm_display_dispose p ?w) (after_dispose E p ?w)"
      by (rule dispose_ok [OF w]) (use False gone in \<open>simp_all add: put_display_def live_def\<close>)
    then have "safely (gdm_display_dispose p ?w) (after_removal E {p} w)"
      by (rule safely_mono) (use False in \<open>auto simp: after_dispose_def after_removal_def live_def\<close>)
    with False gone show ?thesis unfolding eq by (simp add: unref_display_def put_display_def)
  qed
qed

lemma removed_signals_ok:
  assumes "inv E w" "distinct ps" "\<And>p. p \<in> set ps \<Longrightarrow> live w p"
    "\<And>p. p \<in> set ps \<Longrightarrow> p \<notin> snd ` set (store w)"
  shows "safely (foldR store_signal (map DISPLAY_REMOVED ps) w) (after_removal E (set ps) w)"
  using assms
proof (induction ps arbitrary: w)
  case Nil
  then show ?case by (simp add: after_removal_def)
next
  case (Cons p ps)
  have "safely (store_signal (DISPLAY_REMOVED p) w) (after_removal E {p} w)"
    using Cons.prems by (intro removed_signal_ok) auto
  then show ?case
    unfolding list.map foldR.simps
  proof (intro safely_bind, elim safely_mono)
    fix w1 assume w1: "after_removal E {p} w w1"
    have "live w1 q" if "q \<in> set ps" for q
    proof -
      have "q \<noteq> p" using that Cons.prems(2) by auto
      with w1 Cons.prems(3) [of q] that show ?thesis by (simp add: after_removal_def live_def)
    qed
    with w1 Cons.prems have "safely (foldR store_signal (map DISPLAY_REMOVED ps) w1)
        (after_removal E (set ps) w1)"
      by (intro Cons.IH) (auto simp: after_removal_def)
    then show "safely (foldR store_signal (map DISPLAY_REMOVED ps) w1)
        (after_removal E (set (p # ps)) w)"
      by (rule safely_mono) (use w1 Cons.prems(2) in \<open>auto simp: after_removal_def live_def\<close>)
  qed
qed

lemma store_foreach_remove_ok:
  fixes P :: "string \<Rightarrow> display \<Rightarrow> bool"
  assumes inv: "inv E w"
  defines "gone \<equiv> {p. \<exists>i d. (i, p) \<in> set (store w) \<and> heap w p = Some d \<and> P i d}"
  shows "safely (store_foreach_remove P w)
    (after_removal E gone (w\<lparr>store := filter (\<lambda>(i, p). p \<notin> gone) (store w)\<rparr>))"
proof -
  have heap: "heap_ok (path_of (heap w)) (next_ptr w) (store w) (pending_lookups w)"
    using inv by (simp add: inv_def)
  let ?Q = "\<lambda>(i, p). case heap w p of None \<Rightarrow> False | Some d \<Rightarrow> P i d"
  let ?ps = "map snd (filter ?Q (store w))"
  have key: "(i, p) \<in> set (store w) \<Longrightarrow> i = object_path p \<and> live w p" for i p
    using heap by (auto simp: heap_ok_def live_path)
  have ps: "set ?ps = gone" by (force simp: gone_def split: option.splits)
  have kept: "filter (\<lambda>x. \<not> ?Q x) (store w) = filter (\<lambda>(i, p). p \<notin> gone) (store w)"
  proof (rule filter_cong [OF refl])
    fix x assume "x \<in> set (store w)"
    then obtain i p where "x = (i, p)" "(i, p) \<in> set (store w)" by (metis surj_pair)
    with key show "(\<not> ?Q x) = (case x of (i, p) \<Rightarrow> p \<notin> gone)"
      by (auto simp: gone_def split: option.splits)
  qed
  have "distinct (map snd (store w))"
    using heap unfolding heap_ok_def ght_wf_def distinct_map
    by (auto intro!: inj_onI dest!: key)
  then have dist: "distinct ?ps" by (rule distinct_map_filter)
  have eq: "store_foreach_remove P w = foldR store_signal (map DISPLAY_REMOVED ?ps)
      (w\<lparr>store := filter (\<lambda>(i, p). p \<notin> gone) (store w)\<rparr>)"
    unfolding kept [symmetric]
    by (simp add: store_foreach_remove_def gdm_display_store_foreach_remove_def case_prod_unfold
        ght_foreach_remove_def comp_def)
  have "inv E (w\<lparr>store := filter (\<lambda>(i, p). p \<notin> gone) (store w)\<rparr>)"
    using inv by (auto simp: inv_def heap_ok_def ght_wf_def distinct_map_filter)
  from removed_signals_ok [OF this dist, unfolded ps] show ?thesis
    unfolding eq by (rule meta_mp) (auto simp: gone_def live_def)
qed

end
