(* ===== verification/Gdm_Manager.thy ===== *)
theory Gdm_Manager
  imports Daemon_Contracts
begin

text \<open>
  \<^verbatim>\<open>daemon/gdm-manager.c\<close>: the methods that greeters and sessions call over D-Bus, the
  hand-over of a logged-in session to a display of its own, the end of user sessions, and
  starting and stopping the manager. What the manager asks of a \<^verbatim>\<open>GdmSession\<close>, of the
  bus and of logind are fields of the records \<open>session_view\<close> and \<open>busenv\<close>.
\<close>

section \<open>Data\<close>

record busenv =
  name_pid :: "string \<Rightarrow> int option"
  name_uid :: "string \<Rightarrow> u32 option"
  session_uid :: "string \<Rightarrow> u32 option"
  session_get_seat :: "string \<Rightarrow> int + string"
  session_is_remote :: "string \<Rightarrow> int"
  activate_session :: "string \<Rightarrow> string \<Rightarrow> bool"
  session_get_username :: "string \<Rightarrow> string option"
  setting_int :: "string \<Rightarrow> int option"
  plymouth_ping :: bool

text \<open>The accessors of \<^verbatim>\<open>GdmSession\<close>, by the name of the session.\<close>

record session_view =
  sv_username :: "nat \<Rightarrow> cstr"
  sv_running :: "nat \<Rightarrow> bool"
  sv_seat :: "nat \<Rightarrow> cstr"
  sv_session_id :: "nat \<Rightarrow> cstr"
  sv_conversation_session_id :: "nat \<Rightarrow> string \<Rightarrow> cstr"
  sv_allowed_user :: "nat \<Rightarrow> u32"
  sv_server_address :: "nat \<Rightarrow> cstr"
  sv_display_is_local :: "nat \<Rightarrow> bool"
  sv_remote_id :: "nat \<Rightarrow> cstr"
  sv_hostname :: "nat \<Rightarrow> cstr"
  sv_client_connected :: "nat \<Rightarrow> bool"

datatype reply = ReplyOk | ReplyAddress string | AccessDenied string

section \<open>Who calls\<close>

text \<open>\<open>Inl\<close> is an error that logind reported.\<close>

definition is_login_session :: "sysenv \<Rightarrow> string \<Rightarrow> int + bool" where
  "is_login_session E sid =
     (case session_get_class E sid of Inl r \<Rightarrow> Inl r | Inr c \<Rightarrow> Inr (c = ''greeter''))"

definition is_remote_session :: "busenv \<Rightarrow> string \<Rightarrow> bool" where
  "is_remote_session B sid =
     (let r = session_is_remote B sid in if r < 0 \<and> r \<noteq> - ENXIO then False else r \<noteq> 0)"

definition get_seat_id_for_session_id :: "busenv \<Rightarrow> string \<Rightarrow> cstr" where
  "get_seat_id_for_session_id B sid =
     (case session_get_seat B sid of Inl r \<Rightarrow> None | Inr s \<Rightarrow> Some s)"

definition get_tty_for_session_id :: "sysenv \<Rightarrow> string \<Rightarrow> cstr" where
  "get_tty_for_session_id E sid =
     (case session_get_tty E sid of Inl r \<Rightarrow> None | Inr s \<Rightarrow> Some s)"

text \<open>
  The values behind the out pointers; a field that the code has not written is \<open>None\<close>
  or false. \<open>want_login\<close> says that the caller passes a pointer for
  \<^verbatim>\<open>is_login_screen\<close>, whose query may end the function early.
\<close>

record sender_details =
  sd_display :: "nat option"
  sd_seat :: cstr
  sd_session :: cstr
  sd_tty :: cstr
  sd_pid :: "int option"
  sd_uid :: "u32 option"
  sd_is_login_screen :: bool
  sd_is_remote :: bool

definition no_details :: sender_details where
  "no_details = \<lparr>sd_display = None, sd_seat = None, sd_session = None, sd_tty = None, sd_pid = None,
     sd_uid = None, sd_is_login_screen = False, sd_is_remote = False\<rparr>"

definition get_display_and_details_for_bus_sender ::
  "sysenv \<Rightarrow> busenv \<Rightarrow> bool \<Rightarrow> string \<Rightarrow> world \<Rightarrow> sender_details" where
  "get_display_and_details_for_bus_sender E B want_login sender w =
     (case name_pid B sender of
        None \<Rightarrow> no_details
      | Some caller_pid \<Rightarrow>
          let r1 = no_details\<lparr>sd_pid := Some caller_pid\<rparr> in
          case name_uid B sender of
            None \<Rightarrow> r1
          | Some caller \<Rightarrow>
              (case gdm_find_display_session E caller_pid caller of
                 Inl e \<Rightarrow> r1
               | Inr sid \<Rightarrow>
                   let r2 = r1\<lparr>sd_session := Some sid\<rparr> in
                   case (if want_login then is_login_session E sid else Inr False) of
                     Inl e \<Rightarrow> r2
                   | Inr login \<Rightarrow>
                       let r3 = r2\<lparr>sd_is_login_screen := login\<rparr> in
                       case session_uid B sid of
                         None \<Rightarrow> r3
                       | Some su \<Rightarrow>
                           let r4 = r3\<lparr>sd_uid := Some caller\<rparr> in
                           if caller \<noteq> su then r4
                           else r4\<lparr>sd_seat := get_seat_id_for_session_id B sid,
                                   sd_is_remote := is_remote_session B sid,
                                   sd_tty := get_tty_for_session_id E sid,
                                   sd_display := find_display (lookup_by_session_id (Some sid)) w\<rparr>))"

section \<open>User sessions\<close>

fun find_session_for_user_loop ::
  "session_view \<Rightarrow> cstr \<Rightarrow> nat option \<Rightarrow> nat list \<Rightarrow> nat option" where
  "find_session_for_user_loop V user skip [] = None"
| "find_session_for_user_loop V user skip (s # ss) =
     (if Some s = skip then find_session_for_user_loop V user skip ss
      else if \<not> sv_running V s then find_session_for_user_loop V user skip ss
      else if sv_username V s = user then Some s
      else find_session_for_user_loop V user skip ss)"

definition find_session_for_user ::
  "session_view \<Rightarrow> cstr \<Rightarrow> nat option \<Rightarrow> world \<Rightarrow> nat option" where
  "find_session_for_user V user skip w = find_session_for_user_loop V user skip (user_sessions w)"

definition find_user_session_for_display :: "nat \<Rightarrow> world \<Rightarrow> nat option" where
  "find_user_session_for_display p w = find (\<lambda>s. session_display w s = Some p) (user_sessions w)"

text \<open>
  The identifier of the session to activate goes to logind as it is; \<^verbatim>\<open>NULL\<close> is the empty
  string there.
\<close>

definition switch_to_compatible_user_session ::
  "busenv \<Rightarrow> session_view \<Rightarrow> nat \<Rightarrow> bool \<Rightarrow> world \<Rightarrow> bool \<times> world" where
  "switch_to_compatible_user_session B V s fail_if_already_switched w =
     (case find_session_for_user V (sv_username V s)
             (if fail_if_already_switched then Some s else None) w of
        None \<Rightarrow> (False, w)
      | Some other \<Rightarrow>
          let ssid = (case sv_session_id V other of None \<Rightarrow> [] | Some i \<Rightarrow> i) in
          case sv_seat V s of
            None \<Rightarrow> (True, log_calls [UnlockSession ssid] w)
          | Some seat \<Rightarrow>
              let w1 = log_calls [ActivateSession seat ssid] w
              in if \<not> activate_session B seat ssid then (False, w1)
                 else (True, log_calls [UnlockSession ssid] w1))"

section \<open>D-Bus methods\<close>

definition gdm_manager_handle_register_display ::
  "sysenv \<Rightarrow> busenv \<Rightarrow> emitter \<Rightarrow> string \<Rightarrow> world \<Rightarrow> (reply \<times> world) run" where
  "gdm_manager_handle_register_display E B emit sender w =
     (case sd_display (get_display_and_details_for_bus_sender E B False sender w) of
        None \<Rightarrow> Ret (AccessDenied ''No display available'', w)
      | Some p \<Rightarrow> bindR (set_status_property emit p MANAGED w) (\<lambda>w. Ret (ReplyOk, w)))"

definition gdm_manager_handle_register_session ::
  "sysenv \<Rightarrow> busenv \<Rightarrow> string \<Rightarrow> world \<Rightarrow> (reply \<times> world) run" where
  "gdm_manager_handle_register_session E B sender w =
     (let r = get_display_and_details_for_bus_sender E B False sender w
      in case sd_display r of
           None \<Rightarrow> Ret (AccessDenied ''No display available'', w)
         | Some p \<Rightarrow>
             let w1 = (case find_user_session_for_display p w of
                         None \<Rightarrow> w
                       | Some s \<Rightarrow>
                           log_calls ((case sd_tty r of
                                         None \<Rightarrow> [] | Some t \<Rightarrow> [SessionSetDisplayDevice s t]) @
                                      [SessionRecord ''login'' s]) w)
             in with_display p w1 (\<lambda>d.
                  let w2 = put_display p (d\<lparr>session_registered := True\<rparr>) w1
                  in Ret (ReplyOk,
                       if with_plymouth E \<and> plymouth_is_running w2 \<and> is_local d \<and>
                          plymouth_quit_timeout_id w2 = 0
                       then (let (i, w3) = g_source_add PlymouthQuitTimeout w2
                             in w3\<lparr>plymouth_quit_timeout_id := i\<rparr>)
                       else w2)))"

text \<open>
  \<^verbatim>\<open>OpenSession\<close>. The display may have lost its user session; the accessors
  guard against \<^verbatim>\<open>NULL\<close> except \<^verbatim>\<open>gdm_session_get_allowed_user\<close>, which
  dereferences it.
\<close>

definition gdm_manager_handle_open_session ::
  "sysenv \<Rightarrow> busenv \<Rightarrow> session_view \<Rightarrow> string \<Rightarrow> world \<Rightarrow> reply run" where
  "gdm_manager_handle_open_session E B V sender w =
     (let r = get_display_and_details_for_bus_sender E B False sender w
      in case sd_display r of
           None \<Rightarrow> Ret (AccessDenied ''No session available'')
         | Some p \<Rightarrow>
             with_display p w (\<lambda>d.
               case user_session d of
                 None \<Rightarrow> Stop ''NULL session''
               | Some s \<Rightarrow>
                   if sv_running V s
                   then Ret (AccessDenied ''Can only be called before user is logged in'')
                   else if (case sd_uid r of None \<Rightarrow> -1 | Some i \<Rightarrow> i) \<noteq> sv_allowed_user V s
                   then Ret (AccessDenied ''Caller not GDM'')
                   else (case sv_server_address V s of
                           None \<Rightarrow> Ret (AccessDenied ''Unable to open private communication channel'')
                         | Some a \<Rightarrow> Ret (ReplyAddress a))))"

section \<open>Starting the session of a user\<close>

definition create_display_for_user_session ::
  "session_view \<Rightarrow> nat \<Rightarrow> cstr \<Rightarrow> world \<Rightarrow> world run" where
  "create_display_for_user_session V s sid w =
     (let (p, w1) = new_display (\<lambda>ptr. g_object_set
            [PROP_SESSION_CLASS (Some ''user''), PROP_SEAT_ID (sv_seat V s), PROP_SESSION_ID sid]
            (if \<not> sv_display_is_local V s
             then gdm_remote_display_new (sv_remote_id V s) (sv_hostname V s) ptr
             else gdm_local_display_new ptr)) w
      in bindR (store_display p w1) (\<lambda>w2.
           set_user_session p (Some s)
             (w2\<lparr>session_display := (session_display w2)(s \<mapsto> p)\<rparr>)))"

text \<open>
  The parts of \<^verbatim>\<open>on_start_user_session\<close>: initial setup closes in the background; the
  session leaves the display for a new one; after an automatic login without a greeter, the
  unused display goes.
\<close>

definition close_initial_setup :: "emitter \<Rightarrow> nat \<Rightarrow> world \<Rightarrow> world run" where
  "close_initial_setup emit p w =
     with_display p w (\<lambda>d.
       if doing_initial_setup d
       then bindR (set_status_property emit p WAITING_TO_FINISH w) (\<lambda>w.
              Ret (log_calls [MarkInitialSetupDone] w))
       else Ret w)"

definition hand_over_session :: "session_view \<Rightarrow> nat \<Rightarrow> string \<Rightarrow> nat \<Rightarrow> world \<Rightarrow> world run" where
  "hand_over_session V s service p w =
     bindR (set_user_session p None w) (\<lambda>w1.
     bindR (create_user_session_for_display p (sv_allowed_user V s)
              (w1\<lparr>session_display := (session_display w1)(s := None)\<rparr>))
       (create_display_for_user_session V s (sv_conversation_session_id V s service)))"

definition drop_autologin_greeter ::
  "session_view \<Rightarrow> nat \<Rightarrow> string \<Rightarrow> nat \<Rightarrow> world \<Rightarrow> world run" where
  "drop_autologin_greeter V s service p w =
     (if service = ''gdm-autologin'' \<and> \<not> sv_client_connected V s
      then bindR (let (r, st, sigs) = gdm_display_store_remove p (store w)
                  in foldR store_signal sigs (w\<lparr>store := st\<rparr>)) (\<lambda>w1.
             Ret (w1\<lparr>automatic_login_display := session_display w1 s\<rparr>))
      else Ret w)"

text \<open>
  The idle callback of an operation for the session \<open>s\<close>, opened by the service
  \<open>service\<close>. A session that has lost its display is not expected by the code: GLib's checks
  of the \<^verbatim>\<open>NULL\<close> pointer fail and the model ends there. The reference that the
  operation holds to the display is dropped before the session is started.
\<close>

definition on_start_user_session ::
  "sysenv \<Rightarrow> busenv \<Rightarrow> session_view \<Rightarrow> emitter \<Rightarrow> nat \<Rightarrow> string \<Rightarrow> world \<Rightarrow> world run" where
  "on_start_user_session E B V emit s service w =
     (let (migrated, w0) = switch_to_compatible_user_session B V s True w
      in if migrated then Ret (log_calls [SessionReset s] w0)
         else
           case session_display w0 s of
             None \<Rightarrow> Stop ''NULL display''
           | Some p \<Rightarrow>
               bindR (close_initial_setup emit p w0) (\<lambda>w1.
               bindR (hand_over_session V s service p w1) (\<lambda>w2.
               bindR (drop_autologin_greeter V s service p w2) (\<lambda>w3.
                 Ret (log_calls [SessionStartSession s service] w3)))))"

section \<open>The end of user sessions\<close>

definition remove_user_session :: "emitter \<Rightarrow> nat \<Rightarrow> world \<Rightarrow> world run" where
  "remove_user_session emit s w =
     bindR (case session_display w s of
              None \<Rightarrow> Ret w
            | Some p \<Rightarrow>
                bindR (gdm_display_unmanage emit p w) (\<lambda>w.
                  with_display p w (\<lambda>d.
                    if status d \<noteq> FAILED then gdm_display_finish emit p w else Ret w))) (\<lambda>w.
       Ret (if s \<in> set (user_sessions w)
            then log_calls [SessionClose s, SessionUnref s]
                   (w\<lparr>user_sessions := remove1 s (user_sessions w)\<rparr>)
            else w))"

definition on_session_start_failed :: "emitter \<Rightarrow> nat \<Rightarrow> world \<Rightarrow> world run" where
  "on_session_start_failed emit s w = remove_user_session emit s w"

definition on_user_session_exited :: "emitter \<Rightarrow> nat \<Rightarrow> world \<Rightarrow> world run" where
  "on_user_session_exited emit s w =
     remove_user_session emit s (log_calls [SessionRecord ''logout'' s] w)"

definition on_user_session_died :: "emitter \<Rightarrow> nat \<Rightarrow> world \<Rightarrow> world run" where
  "on_user_session_died emit s w = remove_user_session emit s w"

section \<open>Signals of a session\<close>

definition queue_start_user_session :: "nat \<Rightarrow> string \<Rightarrow> world \<Rightarrow> world" where
  "queue_start_user_session s service w = snd (g_source_add (StartUserSession s service) w)"

definition start_user_session_if_ready :: "nat \<Rightarrow> string \<Rightarrow> world \<Rightarrow> world" where
  "start_user_session_if_ready s service w =
     (if start_when_ready w s
      then queue_start_user_session s service
             (w\<lparr>waiting_to_start := (waiting_to_start w)(s := False)\<rparr>)
      else w\<lparr>waiting_to_start := (waiting_to_start w)(s := True)\<rparr>)"

definition on_user_session_opened :: "session_view \<Rightarrow> nat \<Rightarrow> string \<Rightarrow> world \<Rightarrow> world" where
  "on_user_session_opened V s service w =
     (let w1 = w\<lparr>user_sessions := user_sessions w @ [s]\<rparr>;
          w2 = (if service = ''gdm-autologin'' \<and> \<not> sv_client_connected V s
                then w1\<lparr>start_when_ready := (start_when_ready w1)(s := True)\<rparr> else w1)
      in start_user_session_if_ready s service w2)"

definition on_session_client_ready_for_session_to_start ::
  "nat \<Rightarrow> string \<Rightarrow> bool \<Rightarrow> world \<Rightarrow> world" where
  "on_session_client_ready_for_session_to_start s service client_is_ready w =
     (let w1 = w\<lparr>start_when_ready := (start_when_ready w)(s := client_is_ready)\<rparr>
      in if client_is_ready \<and> waiting_to_start w s
         then start_user_session_if_ready s service w1 else w1)"

text \<open>The result is whether timed login is enabled, with the user and the delay.\<close>

definition get_timed_login_details :: "sysenv \<Rightarrow> busenv \<Rightarrow> bool \<times> cstr \<times> int" where
  "get_timed_login_details E B =
     (case setting_bool E ''daemon/TimedLoginEnable'' of
        Some False \<Rightarrow> (False, None, 0)
      | res \<Rightarrow>
          let enabled = (res = Some True) in
          case setting_string E ''daemon/TimedLogin'' of
            Some None \<Rightarrow> (enabled, None, 0)
          | Some (Some []) \<Rightarrow> (enabled, None, 0)
          | user \<Rightarrow>
              (enabled, Option.bind user (\<lambda>u. u),
               case setting_int B ''daemon/TimedLoginDelay'' of
                 None \<Rightarrow> 0
               | Some delay \<Rightarrow> if delay \<le> 0 then 10 else delay))"

definition on_session_client_connected ::
  "sysenv \<Rightarrow> busenv \<Rightarrow> session_view \<Rightarrow> nat \<Rightarrow> world \<Rightarrow> world run" where
  "on_session_client_connected E B V s w =
     (if sv_running V s then Ret w
      else
        case session_display w s of
          None \<Rightarrow> Ret w
        | Some p \<Rightarrow>
            with_display p w (\<lambda>d.
              if seat_id d \<noteq> Some ''seat0'' then Ret w
              else if \<not> allow_timed_login d then Ret w
              else
                case get_timed_login_details E B of
                  (enabled, user, delay) \<Rightarrow>
                    if \<not> enabled then Ret w
                    else Ret (log_calls [SessionSetTimedLogin s user delay,
                                         SessionStartConversation s ''gdm-autologin''] w)))"

definition queue_session_reset :: "nat \<Rightarrow> world \<Rightarrow> world" where
  "queue_session_reset s w =
     (if reset_operation w s then w
      else (snd (g_source_add (ResetSession s) w))\<lparr>reset_operation := (reset_operation w)(s := True)\<rparr>)"

definition on_reset_session :: "nat \<Rightarrow> world \<Rightarrow> world" where
  "on_reset_session s w =
     (log_calls [SessionReset s] w)\<lparr>reset_operation := (reset_operation w)(s := False)\<rparr>"

definition on_session_cancelled :: "nat \<Rightarrow> world \<Rightarrow> world" where
  "on_session_cancelled s w = queue_session_reset s w"

definition on_session_conversation_started ::
  "sysenv \<Rightarrow> nat \<Rightarrow> string \<Rightarrow> world \<Rightarrow> world run" where
  "on_session_conversation_started E s service w =
     (if service \<noteq> ''gdm-autologin'' then Ret w
      else
        case session_display w s of
          None \<Rightarrow> Ret w
        | Some p \<Rightarrow>
            with_display p w (\<lambda>d.
              case get_automatic_login_details E d w of
                None \<Rightarrow> Ret w
              | Some user \<Rightarrow> Ret (log_calls [SessionSetupForUser s service (Some user)] w)))"

text \<open>The calls that terminate the other sessions of the user; failures are only logged.\<close>

definition on_stop_conflicting_session :: "sysenv \<Rightarrow> busenv \<Rightarrow> string \<Rightarrow> world \<Rightarrow> world" where
  "on_stop_conflicting_session E B opened w =
     (case session_get_username B opened of
        None \<Rightarrow> w
      | Some user \<Rightarrow>
          (case gdm_find_graphical_sessions_for_username E user of
             Inl e \<Rightarrow> w
           | Inr ids \<Rightarrow> log_calls (map TerminateSession (filter (\<lambda>i. i \<noteq> opened) ids)) w))"

section \<open>Starting and stopping\<close>

definition plymouth_quit_timeout_cb :: "world \<Rightarrow> world" where
  "plymouth_quit_timeout_cb w =
     (let w1 = w\<lparr>plymouth_quit_timeout_id := 0\<rparr>
      in if plymouth_is_running w1
         then (log_calls [PlymouthQuit False] w1)\<lparr>plymouth_is_running := False\<rparr> else w1)"

definition gdm_manager_start :: "sysenv \<Rightarrow> busenv \<Rightarrow> emitter \<Rightarrow> world \<Rightarrow> world run" where
  "gdm_manager_start E B emit w =
     (let w1 = (if with_plymouth E then w\<lparr>plymouth_is_running := plymouth_ping B\<rparr> else w);
          w2 = (if with_plymouth E \<and> plymouth_is_running w1
                then log_calls [PlymouthPrepare] w1 else w1)
      in bindR (gdm_local_display_factory_start E emit w2) (\<lambda>(r, w3).
           Ret ((if remote_login_enabled w3 then log_calls [StartRemoteFactory] w3 else w3)
                  \<lparr>started := True\<rparr>)))"

definition gdm_manager_stop :: "sysenv \<Rightarrow> world \<Rightarrow> world" where
  "gdm_manager_stop E w =
     (let w1 = gdm_local_display_factory_stop w;
          w2 = (if with_plymouth E
                then (clear_source (plymouth_quit_timeout_id w1) w1)\<lparr>plymouth_quit_timeout_id := 0\<rparr>
                else w1)
      in w2\<lparr>started := False\<rparr>)"

definition finish_display :: "emitter \<Rightarrow> nat \<Rightarrow> world \<Rightarrow> world run" where
  "finish_display emit p w =
     bindR (gdm_display_stop_greeter_session p w) (\<lambda>w.
       with_display p w (\<lambda>d.
         bindR (if status d = MANAGED then gdm_display_unmanage emit p w else Ret w)
           (gdm_display_finish emit p)))"

section \<open>The manager keeps the invariant\<close>

lemma session_display_live:
  assumes "inv E w" "session_display w s = Some p"
  shows "live w p"
proof -
  have "session_of (heap w) p = Some s" using assms by (simp add: inv_def sessions_ok_def)
  then show ?thesis by (cases "heap w p") (simp_all add: session_of_def live_def)
qed

lemma sender_display:
  assumes "sd_display (get_display_and_details_for_bus_sender E B l sender w) = Some p"
  obtains sid caller caller_pid where "name_pid B sender = Some caller_pid"
    "name_uid B sender = Some caller" "gdm_find_display_session E caller_pid caller = Inr sid"
    "session_uid B sid = Some caller" "find_display (lookup_by_session_id (Some sid)) w = Some p"
    "sd_uid (get_display_and_details_for_bus_sender E B l sender w) = Some caller"
  using assms by (auto simp: get_display_and_details_for_bus_sender_def Let_def no_details_def
      split: option.splits sum.splits if_splits)

lemma sender_display_live:
  "inv E w \<Longrightarrow> sd_display (get_display_and_details_for_bus_sender E B l sender w) = Some p \<Longrightarrow> live w p"
  by (erule sender_display) (rule find_display_live)

lemma switch_same:
  "switch_to_compatible_user_session B V s b w = (r, w') \<Longrightarrow> \<exists>l. w' = w\<lparr>log := l\<rparr>"
  by (auto simp: switch_to_compatible_user_session_def Let_def log_calls_def
      split: option.splits if_splits intro: exI [of _ "log w"])

lemma add_source_ok:
  assumes "inv E w" "\<And>p. s \<noteq> FinishIdle p" "s \<noteq> PurgeDisplays"
  shows "inv E (snd (g_source_add s w))" "heap (snd (g_source_add s w)) = heap w"
  using assms by (auto simp: g_source_add_def inv_def add_source)

lemma add_plymouth_ok:
  "inv E w \<Longrightarrow> inv E (case g_source_add PlymouthQuitTimeout w of
     (i, w') \<Rightarrow> w'\<lparr>plymouth_quit_timeout_id := i\<rparr>)"
  by (auto simp: g_source_add_def inv_def add_source)

lemma register_session_ok:
  assumes inv: "inv E w"
  shows "ok E snd w (gdm_manager_handle_register_session E B sender w)"
proof -
  let ?r = "get_display_and_details_for_bus_sender E B False sender w"
  show ?thesis
  proof (cases "sd_display ?r")
    case (Some p)
    obtain l where l: "(case find_user_session_for_display p w of None \<Rightarrow> w
        | Some s \<Rightarrow> log_calls ((case sd_tty ?r of None \<Rightarrow> [] | Some t \<Rightarrow> [SessionSetDisplayDevice s t]) @
            [SessionRecord ''login'' s]) w) = w\<lparr>log := l\<rparr>"
      by (cases "find_user_session_for_display p w") (auto simp: log_calls_def intro: that [of "log w"])
    obtain d where d: "heap w p = Some d"
      using sender_display_live [OF inv Some] by (rule liveE)
    let ?w2 = "put_display p (d\<lparr>session_registered := True\<rparr>) (w\<lparr>log := l\<rparr>)"
    have "inv E (w\<lparr>log := l\<rparr>)" using inv by (simp add: inv_def)
    then have w2: "inv E ?w2"
      by (rule inv_same_view) (rule same_view_put, use d in \<open>simp_all add: owned_uid_def\<close>)
    have "inv E (case g_source_add PlymouthQuitTimeout ?w2 of
        (i, w3) \<Rightarrow> w3\<lparr>plymouth_quit_timeout_id := i\<rparr>)"
      by (rule add_plymouth_ok [OF w2])
    with w2 show ?thesis
      using Some l d unfolding gdm_manager_handle_register_session_def Let_def
      by (auto simp: with_display_def g_source_add_def intro: grows_upd)
  qed (simp add: gdm_manager_handle_register_session_def inv)
qed

lemma create_display_for_user_session_ok:
  assumes inv: "inv E w"
  shows "okw E w (create_display_for_user_session V s sid w)"
proof -
  let ?mk = "\<lambda>ptr. g_object_set
      [PROP_SESSION_CLASS (Some ''user''), PROP_SEAT_ID (sv_seat V s), PROP_SESSION_ID sid]
      (if \<not> sv_display_is_local V s
       then gdm_remote_display_new (sv_remote_id V s) (sv_hostname V s) ptr
       else gdm_local_display_new ptr)"
  obtain p w1 where new: "new_display ?mk w = (p, w1)" by fastforce
  note n = new_display_ok [OF inv _ _ _ _ new]
  have n: "inv E w1" "live w1 p" "grows w w1" "ght_lookup (store w1) (object_path p) = None"
    by (rule n; simp add: gdm_local_display_new_def gdm_remote_display_new_def
        gdm_display_constructor_def)+
  have "okw E w1 (bindR (store_display p w1) (\<lambda>w2. set_user_session p (Some s)
      (w2\<lparr>session_display := (session_display w2)(s \<mapsto> p)\<rparr>)))"
  proof (rule ok_bind [OF store_display_ok [OF n(1,2,4)]])
    fix w2 assume w2: "inv E w2" "grows w1 w2"
    obtain d where d: "heap w2 p = Some d" using growsD [OF w2(2) n(2)] by (rule liveE)
    show "okw E w2 (set_user_session p (Some s) (w2\<lparr>session_display := (session_display w2)(s \<mapsto> p)\<rparr>))"
      using w2(1) d view_same [OF d] view_heap(4) [OF d]
      by (cases "user_session d") (auto simp: set_user_session_def with_display_def inv_def Let_def
          sessions_ok_def clean_user_session_def log_calls_def intro: grows_upd)
  qed
  from ok_grows [OF this n(3)] show ?thesis
    using new unfolding create_display_for_user_session_def by simp
qed

lemma cut_session_ok: "inv E w \<Longrightarrow> inv E (w\<lparr>session_display := (session_display w)(s := None)\<rparr>)"
  by (simp add: inv_def sessions_ok_def)

context status_emitter
begin

lemma register_display_ok:
  "inv E w \<Longrightarrow> ok E snd w (gdm_manager_handle_register_display E B emit sender w)"
  unfolding gdm_manager_handle_register_display_def
  by (auto split: option.split intro!: ok_bind [OF set_status_property_ok] dest: sender_display_live)

lemma remove_user_session_ok:
  assumes inv: "inv E w"
  shows "okw E w (remove_user_session emit s w)"
  unfolding remove_user_session_def
proof (rule ok_bind)
  have "okw E w (bindR (gdm_display_unmanage emit p w) (\<lambda>w. with_display p w (\<lambda>d.
      if status d \<noteq> FAILED then gdm_display_finish emit p w else Ret w)))" if "live w p" for p
    by (rule ok_bind [OF unmanage_ok [OF inv that]])
      (auto intro!: ok_with_display finish_ok dest: growsD [OF _ that])
  then show "okw E w (case session_display w s of None \<Rightarrow> Ret w
      | Some p \<Rightarrow> bindR (gdm_display_unmanage emit p w) (\<lambda>w. with_display p w (\<lambda>d.
          if status d \<noteq> FAILED then gdm_display_finish emit p w else Ret w)))"
    using inv session_display_live [OF inv] by (auto split: option.split)
qed (auto simp: inv_def log_calls_def grows_heap)

lemma finish_display_ok:
  assumes "inv E w" "live w p"
  shows "okw E w (finish_display emit p w)"
  unfolding finish_display_def
proof (rule ok_bind [OF stop_greeter_session_ok [OF assms]])
  fix w1 assume w1: "inv E w1" "grows w w1"
  have p: "live w1 p" by (rule growsD [OF w1(2) assms(2)])
  then show "okw E w1 (with_display p w1 (\<lambda>d. bindR (if status d = MANAGED
      then gdm_display_unmanage emit p w1 else Ret w1) (gdm_display_finish emit p)))"
    using w1(1) by (auto intro!: ok_with_display unmanage_finish_ok finish_ok)
qed

text \<open>Removing the greeter's display from the store at the end of an automatic login.\<close>

lemma store_remove_ok:
  assumes inv: "inv E w"
  shows "safely (let (r, st, sigs) = gdm_display_store_remove p (store w)
    in foldR store_signal sigs (w\<lparr>store := st\<rparr>)) (inv E)"
proof -
  have heap: "heap_ok (path_of (heap w)) (next_ptr w) (store w) (pending_lookups w)"
    using inv by (simp add: inv_def)
  let ?gone = "filter (\<lambda>(i, q). q = p) (store w)"
  have key: "(i, q) \<in> set (store w) \<Longrightarrow> i = object_path q \<and> live w q" for i q
    using heap by (auto simp: heap_ok_def live_path)
  have "distinct (map snd (store w))"
    using heap unfolding heap_ok_def ght_wf_def distinct_map by (auto intro!: inj_onI dest!: key)
  then have dist: "distinct (map snd ?gone)" by (rule distinct_map_filter)
  have "inv E (w\<lparr>store := filter (\<lambda>(i, q). q \<noteq> p) (store w)\<rparr>)"
    using inv by (auto simp: inv_def heap_ok_def ght_wf_def distinct_map_filter)
  from removed_signals_ok [OF this dist]
  have "safely (foldR store_signal (map DISPLAY_REMOVED (map snd ?gone))
      (w\<lparr>store := filter (\<lambda>(i, q). q \<noteq> p) (store w)\<rparr>)) (inv E)"
    by (rule safely_mono [OF meta_mp]) (use key in \<open>auto simp: live_def after_removal_def\<close>)
  then show ?thesis
    by (simp add: gdm_display_store_remove_def gdm_display_store_foreach_remove_def Let_def
        ght_foreach_remove_def remove_display_def [abs_def] comp_def case_prod_unfold)
qed

lemma close_initial_setup_ok:
  "inv E w \<Longrightarrow> live w p \<Longrightarrow> okw E w (close_initial_setup emit p w)"
  unfolding close_initial_setup_def
  by (auto intro!: ok_with_display ok_bind [OF set_status_property_ok])

lemma hand_over_session_ok:
  assumes "inv E w" "live w p"
  shows "okw E w (hand_over_session V s service p w)"
  unfolding hand_over_session_def
proof (rule ok_bind [OF set_user_session_None_ok [OF assms]])
  fix w1 assume w1: "inv E w1" "grows w w1"
  let ?w1 = "w1\<lparr>session_display := (session_display w1)(s := None)\<rparr>"
  have "inv E ?w1" "live ?w1 p"
    using w1(1) growsD [OF w1(2) assms(2)] by (simp_all add: cut_session_ok live_def)
  from ok_bind [OF create_user_session_ok [OF this] create_display_for_user_session_ok]
  show "okw E w1 (bindR (create_user_session_for_display p (sv_allowed_user V s) ?w1)
      (create_display_for_user_session V s (sv_conversation_session_id V s service)))"
    by (rule ok_grows) (auto intro: grows_heap)
qed

lemma drop_autologin_greeter_ok:
  assumes "inv E w"
  shows "safely (drop_autologin_greeter V s service p w) (inv E)"
proof -
  have "inv E (w1\<lparr>automatic_login_display := session_display w1 s\<rparr>)" if "inv E w1" for w1
    using that by (simp add: inv_def)
  with assms show ?thesis
    unfolding drop_autologin_greeter_def
    by (auto intro!: safely_bind safely_mono [OF store_remove_ok [OF assms, unfolded Let_def]])
qed

lemma on_start_user_session_ok:
  assumes inv: "inv E w"
  shows "safely (on_start_user_session E B V emit s service w) (inv E)"
proof -
  obtain r w0 where sw: "switch_to_compatible_user_session B V s True w = (r, w0)" by fastforce
  obtain l where "w0 = w\<lparr>log := l\<rparr>" using switch_same [OF sw] ..
  then have w0: "inv E w0" using inv by (simp add: inv_def)
  have "safely (bindR (close_initial_setup emit p w0) (\<lambda>w1.
      bindR (hand_over_session V s service p w1) (\<lambda>w2.
      bindR (drop_autologin_greeter V s service p w2) (\<lambda>w3.
        Ret (log_calls [SessionStartSession s service] w3))))) (inv E)" if p: "live w0 p" for p
  proof (rule safely_bind, rule safely_mono [OF close_initial_setup_ok [OF w0 p, unfolded ok_safely]])
    fix w1 assume w1: "inv E w1 \<and> grows w0 w1"
    then have "live w1 p" using growsD p by blast
    with w1 have "okw E w1 (hand_over_session V s service p w1)" by (simp add: hand_over_session_ok)
    then show "safely (bindR (hand_over_session V s service p w1) (\<lambda>w2.
        bindR (drop_autologin_greeter V s service p w2) (\<lambda>w3.
          Ret (log_calls [SessionStartSession s service] w3)))) (inv E)"
      unfolding ok_safely
      by (intro safely_bind, elim safely_mono)
        (auto intro!: safely_bind safely_mono [OF drop_autologin_greeter_ok])
  qed
  with sw w0 session_display_live [OF w0] show ?thesis
    unfolding on_start_user_session_def by (auto simp: dangling_def split: option.split)
qed

end

end
