(* ===== verification/Remote_Display_Factory.thy ===== *)
theory Remote_Display_Factory
  imports Daemon_Contracts
begin

text \<open>
  \<^verbatim>\<open>daemon/gdm-remote-display-factory.c\<close>: displays for remote users, and the lock with which
  logind is kept from suspending the machine while remote displays exist.
\<close>

section \<open>Displays\<close>

definition gdm_remote_display_factory_create_display ::
  "sysenv \<Rightarrow> emitter \<Rightarrow> cstr \<Rightarrow> cstr \<Rightarrow> cstr \<Rightarrow> world \<Rightarrow> (bool \<times> world) run" where
  "gdm_remote_display_factory_create_display E emit autologin rid remote_host w =
     (let (p, w1) = new_display (\<lambda>ptr. g_object_set [PROP_AUTOLOGIN_USER autologin]
            (gdm_remote_display_new rid remote_host ptr)) w
      in bindR (store_display p w1) (\<lambda>w2.
           bindR (gdm_display_prepare E emit p w2) (\<lambda>(ok, w3).
             if \<not> ok then bindR (gdm_display_unmanage emit p w3) (\<lambda>w4. Ret (False, w4))
             else Ret (True, w3))))"

context status_emitter
begin

lemma remote_create_display_ok:
  assumes "inv E w"
  shows "ok E snd w (gdm_remote_display_factory_create_display E emit autologin rid remote_host w)"
proof -
  have k: "ok E snd (snd x) (case x of (b, w3) \<Rightarrow>
      if \<not> b then bindR (gdm_display_unmanage emit p w3) (\<lambda>w4. Ret (False, w4)) else Ret (True, w3))"
    if "inv E (snd x)" "live (snd x) p" for x p
    using that by (cases x) (auto intro!: ok_bind [OF unmanage_ok])
  show ?thesis
    unfolding gdm_remote_display_factory_create_display_def Let_def
    by (rule store_prepare_ok [OF assms _ _ _ _ k])
       (simp_all add: gdm_remote_display_new_def gdm_display_constructor_def)
qed

end

section \<open>The factory\<close>

text \<open>
  \<^verbatim>\<open>struct _GdmRemoteDisplayFactory\<close> with the table of users of its parent class.
  \<open>inhibit_calls\<close> counts the calls to logind that are not answered yet; \<open>closed_fds\<close> are the
  locks that were given back.
\<close>

record remote_factory =
  remote_creation_users :: "(string, nat) ghash"
  remote_displays_count :: int
  suspend_inhibited :: bool
  inhibit_suspend_fd :: int
  inhibit_calls :: nat
  closed_fds :: "int list"

definition gdm_remote_display_factory_init :: remote_factory where
  "gdm_remote_display_factory_init =
     \<lparr>remote_creation_users = [], remote_displays_count = 0, suspend_inhibited = False,
      inhibit_suspend_fd = -1, inhibit_calls = 0, closed_fds = []\<rparr>"

text \<open>The handlers of the parent class work on the table of this factory.\<close>

definition remote_user_display_creation ::
  "sysenv \<Rightarrow> string \<Rightarrow> remote_factory \<Rightarrow> world \<Rightarrow> string option \<times> remote_factory" where
  "remote_user_display_creation E user f w =
     (let (err, w1) = gdm_display_factory_on_user_display_creation E user
            (w\<lparr>display_creation_users := remote_creation_users f\<rparr>)
      in (err, f\<lparr>remote_creation_users := display_creation_users w1\<rparr>))"

definition remote_user_display_destruction ::
  "sysenv \<Rightarrow> string \<Rightarrow> remote_factory \<Rightarrow> world \<Rightarrow> string option \<times> remote_factory" where
  "remote_user_display_destruction E user f w =
     (let (err, w1) = gdm_display_factory_on_user_display_destruction E user
            (w\<lparr>display_creation_users := remote_creation_users f\<rparr>)
      in (err, f\<lparr>remote_creation_users := display_creation_users w1\<rparr>))"

definition remote_handle_create_remote_display ::
  "sysenv \<Rightarrow> emitter \<Rightarrow> cstr \<Rightarrow> cstr \<Rightarrow> world \<Rightarrow> (dbus_reply \<times> world) run" where
  "remote_handle_create_remote_display E emit rid remote_host w =
     (case rid of
        None \<Rightarrow> Ret (ReplyError ''Missing remote-id in properties'', w)
      | Some r \<Rightarrow>
          bindR (gdm_remote_display_factory_create_display E emit None (Some r) remote_host w) (\<lambda>(ok, w).
            Ret (if ok then ReplyDone else ReplyError ''Error creating remote display'', w)))"

definition remote_handle_create_user_display ::
  "sysenv \<Rightarrow> emitter \<Rightarrow> string \<Rightarrow> remote_factory \<Rightarrow> world \<Rightarrow> (dbus_reply \<times> remote_factory \<times> world) run" where
  "remote_handle_create_user_display E emit user f w =
     (case remote_user_display_creation E user f w of
        (Some e, f) \<Rightarrow> Ret (ReplyError e, f, w)
      | (None, f) \<Rightarrow>
          bindR (gdm_remote_display_factory_create_display E emit (Some user) None None w) (\<lambda>(ok, w).
            Ret (if ok then ReplyDone else ReplyError ''Error creating remote display'', f, w)))"

definition remote_handle_destroy_user_display ::
  "sysenv \<Rightarrow> string \<Rightarrow> remote_factory \<Rightarrow> world \<Rightarrow> dbus_reply \<times> remote_factory" where
  "remote_handle_destroy_user_display E user f w =
     (case remote_user_display_destruction E user f w of
        (Some e, f) \<Rightarrow> (ReplyError e, f)
      | (None, f) \<Rightarrow> (ReplyDone, f))"

section \<open>The lock against suspending\<close>

text \<open>\<open>proxy\<close> is whether the proxy of logind could be made.\<close>

definition inhibit_suspend :: "bool \<Rightarrow> remote_factory \<Rightarrow> remote_factory" where
  "inhibit_suspend proxy f =
     (if suspend_inhibited f \<or> \<not> proxy then f
      else f\<lparr>suspend_inhibited := True, inhibit_calls := Suc (inhibit_calls f)\<rparr>)"

text \<open>The answer: an error, an answer without a usable descriptor, or the descriptor of the lock.\<close>

datatype inhibit_answer = InhibitFailed | InhibitNoFd | InhibitFd nat

definition on_inhibit_suspend_done :: "inhibit_answer \<Rightarrow> remote_factory \<Rightarrow> remote_factory" where
  "on_inhibit_suspend_done a f =
     (let f = f\<lparr>inhibit_calls := inhibit_calls f - 1\<rparr>
      in case a of
           InhibitFailed \<Rightarrow> f\<lparr>suspend_inhibited := False\<rparr>
         | InhibitNoFd \<Rightarrow> f\<lparr>inhibit_suspend_fd := -1, suspend_inhibited := False\<rparr>
         | InhibitFd fd \<Rightarrow> f\<lparr>inhibit_suspend_fd := int fd\<rparr>)"

definition uninhibit_suspend :: "remote_factory \<Rightarrow> remote_factory" where
  "uninhibit_suspend f =
     (if inhibit_suspend_fd f = -1 then f
      else f\<lparr>closed_fds := closed_fds f @ [inhibit_suspend_fd f], inhibit_suspend_fd := -1,
             suspend_inhibited := False\<rparr>)"

definition remote_on_display_added :: "bool \<Rightarrow> bool \<Rightarrow> remote_factory \<Rightarrow> remote_factory" where
  "remote_on_display_added proxy is_remote f =
     (if \<not> is_remote then f
      else
        let f = f\<lparr>remote_displays_count := remote_displays_count f + 1\<rparr>
        in if remote_displays_count f > 0 then inhibit_suspend proxy f else f)"

definition remote_on_display_removed :: "bool \<Rightarrow> remote_factory \<Rightarrow> remote_factory run" where
  "remote_on_display_removed is_remote f =
     (if \<not> remote_displays_count f \<ge> 0 then Stop ''factory->remote_displays_count >= 0''
      else if \<not> is_remote then Ret f
      else
        let f = f\<lparr>remote_displays_count := remote_displays_count f - 1\<rparr>
        in Ret (if remote_displays_count f = 0 then uninhibit_suspend f else f))"

definition gdm_remote_display_factory_finalize :: "remote_factory \<Rightarrow> int list" where
  "gdm_remote_display_factory_finalize f = (if inhibit_suspend_fd f \<noteq> -1 then [inhibit_suspend_fd f] else [])"

datatype remote_event =
    RemoteAdded bool bool
  | RemoteRemoved bool
  | RemoteInhibited inhibit_answer

text \<open>
  A remote display that leaves the store was added before, and only a call that was made is
  answered.
\<close>

inductive remote_step :: "remote_event \<Rightarrow> remote_factory \<Rightarrow> remote_factory \<Rightarrow> bool" where
  added: "remote_step (RemoteAdded proxy r) f (remote_on_display_added proxy r f)"
| removed: "\<not> r \<or> 0 < remote_displays_count f \<Longrightarrow> remote_on_display_removed r f = Ret g \<Longrightarrow>
    remote_step (RemoteRemoved r) f g"
| answered: "0 < inhibit_calls f \<Longrightarrow> remote_step (RemoteInhibited a) f (on_inhibit_suspend_done a f)"

inductive_cases remote_stepE: "remote_step e f g"

inductive remote_reachable :: "remote_factory \<Rightarrow> bool" where
  remote_init: "remote_reachable gdm_remote_display_factory_init"
| remote_more: "remote_reachable f \<Longrightarrow> remote_step e f g \<Longrightarrow> remote_reachable g"

definition lock_ok :: "remote_factory \<Rightarrow> bool" where
  "lock_ok f =
     (0 \<le> remote_displays_count f \<and> inhibit_calls f \<le> 1 \<and> -1 \<le> inhibit_suspend_fd f \<and>
      (suspend_inhibited f \<longleftrightarrow> inhibit_calls f = 1 \<or> inhibit_suspend_fd f \<noteq> -1) \<and>
      (inhibit_calls f = 1 \<longrightarrow> inhibit_suspend_fd f = -1))"

lemma lock_ok_step: "remote_step e f g \<Longrightarrow> lock_ok f \<Longrightarrow> lock_ok g"
  by (erule remote_stepE)
     (auto simp: lock_ok_def remote_on_display_added_def remote_on_display_removed_def inhibit_suspend_def
       uninhibit_suspend_def on_inhibit_suspend_done_def Let_def split: if_splits inhibit_answer.splits)

lemma remote_reachable_lock: "remote_reachable f \<Longrightarrow> lock_ok f"
  by (induction rule: remote_reachable.induct)
     (auto simp: lock_ok_def gdm_remote_display_factory_init_def dest: lock_ok_step [unfolded lock_ok_def])

text \<open>
  The lock against suspending. At most one call to logind is under way, a lock is never
  overwritten by another one (so every lock is given back), and adding a remote display leaves a
  lock or a call for one, unless logind cannot be reached. But the lock can outlive the
  displays: when the last remote display goes while the call is under way, nothing is given
  back, and the answer leaves a lock without a remote display.
\<close>

theorem suspend_lock:
  assumes "remote_reachable f"
  shows "inhibit_calls f \<le> 1 \<and> (inhibit_calls f = 1 \<longrightarrow> inhibit_suspend_fd f = -1) \<and>
         (let g = remote_on_display_added True True f
          in remote_displays_count g > 0 \<and> (inhibit_suspend_fd g \<noteq> -1 \<or> inhibit_calls g = 1)) \<and>
         (remote_displays_count f = 1 \<and> inhibit_calls f = 1 \<longrightarrow>
            (\<exists>g. remote_on_display_removed True f = Ret g \<and>
               (let h = on_inhibit_suspend_done (InhibitFd fd) g
                in remote_reachable h \<and> remote_displays_count h = 0 \<and> inhibit_calls h = 0 \<and>
                   inhibit_suspend_fd h = int fd \<and> closed_fds h = closed_fds f)))"
proof (intro conjI)
  note ok = remote_reachable_lock [OF assms, unfolded lock_ok_def]
  show "inhibit_calls f \<le> 1" "inhibit_calls f = 1 \<longrightarrow> inhibit_suspend_fd f = -1" using ok by auto
  show "let g = remote_on_display_added True True f
      in remote_displays_count g > 0 \<and> (inhibit_suspend_fd g \<noteq> -1 \<or> inhibit_calls g = 1)"
    using ok by (auto simp: remote_on_display_added_def inhibit_suspend_def Let_def)
  show "remote_displays_count f = 1 \<and> inhibit_calls f = 1 \<longrightarrow>
      (\<exists>g. remote_on_display_removed True f = Ret g \<and>
         (let h = on_inhibit_suspend_done (InhibitFd fd) g
          in remote_reachable h \<and> remote_displays_count h = 0 \<and> inhibit_calls h = 0 \<and>
             inhibit_suspend_fd h = int fd \<and> closed_fds h = closed_fds f))"
  proof
    assume f: "remote_displays_count f = 1 \<and> inhibit_calls f = 1"
    define g where "g = f\<lparr>remote_displays_count := 0\<rparr>"
    have g: "remote_on_display_removed True f = Ret g"
      using f ok by (simp add: remote_on_display_removed_def uninhibit_suspend_def g_def)
    have "remote_reachable g"
      by (rule remote_more [OF assms removed [OF _ g]]) (simp add: f)
    then have "remote_reachable (on_inhibit_suspend_done (InhibitFd fd) g)"
      by (rule remote_more) (rule answered, simp add: g_def f)
    with g show "\<exists>g. remote_on_display_removed True f = Ret g \<and>
        (let h = on_inhibit_suspend_done (InhibitFd fd) g
         in remote_reachable h \<and> remote_displays_count h = 0 \<and> inhibit_calls h = 0 \<and>
            inhibit_suspend_fd h = int fd \<and> closed_fds h = closed_fds f)"
      using f by (simp add: on_inhibit_suspend_done_def g_def Let_def)
  qed
qed

theorem suspend_lock_witness:
  "let f = remote_on_display_added True True gdm_remote_display_factory_init
   in remote_reachable f \<and> remote_displays_count f = 1 \<and> inhibit_calls f = 1 \<and>
      (\<exists>g. remote_on_display_removed True f = Ret g \<and>
         remote_displays_count (on_inhibit_suspend_done (InhibitFd 9) g) = 0 \<and>
         inhibit_suspend_fd (on_inhibit_suspend_done (InhibitFd 9) g) = 9)"
proof -
  let ?f = "remote_on_display_added True True gdm_remote_display_factory_init"
  have "remote_reachable ?f" by (rule remote_more [OF remote_init added])
  moreover have "remote_displays_count ?f = 1" "inhibit_calls ?f = 1" by code_simp+
  ultimately show ?thesis
    using suspend_lock [of ?f 9] by (auto simp: Let_def)
qed

end
