(* ===== verification/Daemon_Loop.thy ===== *)
theory Daemon_Loop
  imports Gdm_Manager Remote_Display_Factory
begin

text \<open>
  The daemon as a state machine. \<open>notify_status\<close> closes the recursion between the status
  of displays and the handlers of the manager and of the factory; \<open>dispatch\<close> is one
  iteration of the main loop; \<open>reachable\<close> are the states that some sequence of events
  leads to, whatever logind, the bus, the devices and the sessions answer on the way.
\<close>

section \<open>The emission of a status\<close>

text \<open>
  The handlers of \<^verbatim>\<open>notify::status\<close>, in the order of their connection. The number is
  the depth of nested emissions that is left.
\<close>

fun notify_status :: "sysenv \<Rightarrow> nat \<Rightarrow> nat \<Rightarrow> world \<Rightarrow> world run" where
  "notify_status E 0 p w = OutOfFuel"
| "notify_status E (Suc n) p w =
     with_display p w (\<lambda>d.
       bindR (if manager_connected d
              then manager_on_display_status_changed E (notify_status E n) p w else Ret w) (\<lambda>w1.
         if factory_connected d
         then factory_on_display_status_changed E (notify_status E n) p w1 else Ret w1))"

lemma notify_status_emitter: "status_emitter E (notify_status E n)"
proof (induction n)
  case 0
  show ?case by unfold_locales (simp add: ok_def)
next
  case (Suc n)
  show ?case
  proof
    fix w p assume inv: "inv E w" and p: "live w p"
    show "okw E w (notify_status E (Suc n) p w)"
      unfolding notify_status.simps
    proof (rule ok_with_display [OF p], rule ok_bind)
      fix d
      show "okw E w (if manager_connected d
          then manager_on_display_status_changed E (notify_status E n) p w else Ret w)"
        using inv p by (simp add: status_emitter.manager_status_ok [OF Suc])
      fix w1 assume "inv E w1" "grows w w1"
      then show "okw E w1 (if factory_connected d
          then factory_on_display_status_changed E (notify_status E n) p w1 else Ret w1)"
        using p growsD by (simp add: status_emitter.factory_status_ok [OF Suc])
    qed
  qed
qed

interpretation notify: status_emitter E "notify_status E n" for E n
  by (rule notify_status_emitter)

section \<open>Events\<close>

datatype greeter_signal =
    GreeterOpened string string
  | GreeterStarted int
  | GreeterExited int
  | GreeterDied int
  | GreeterConversationStarted string
  | GreeterConversationStopped

fun greeter_handler :: "greeter_signal \<Rightarrow> launch_env \<Rightarrow> launch_env \<times> le_step list" where
  "greeter_handler (GreeterOpened service sid) = le_on_session_opened service sid"
| "greeter_handler (GreeterStarted p) = le_on_session_started p"
| "greeter_handler (GreeterExited code) = le_on_session_exited code"
| "greeter_handler (GreeterDied sig) = le_on_session_died sig"
| "greeter_handler (GreeterConversationStarted logdir) = le_on_conversation_started logdir"
| "greeter_handler GreeterConversationStopped = le_on_conversation_stopped"

datatype event =
    SourceFires nat
  | SeatNew string
  | SeatRemoved string
  | SeatChanged "string option" "string list" "string list"
  | Uevent bool string
  | VtChanged bool bool io_read
  | FactoryCall string factory_method
  | RemoteDisplayRequested cstr cstr cstr
  | RegisterDisplay string
  | RegisterSession string
  | GreeterSignal nat greeter_signal
  | UserLoaded nat string
  | SessionOpened nat string
  | SessionReady nat string bool
  | SessionClientConnected nat
  | SessionConversationStarted nat string
  | SessionCancelled nat
  | SessionFailed nat
  | SessionExited nat
  | SessionDied nat
  | StopConflicting string
  | StartManager
  | StopManager

text \<open>
  A source that fires has left the main loop before its callback runs (every one of these
  callbacks runs once).
\<close>

definition take_source :: "nat \<Rightarrow> world \<Rightarrow> world" where
  "take_source i w = w\<lparr>sources := filter (\<lambda>(j, s). j \<noteq> i) (sources w)\<rparr>"

fun run_source ::
  "sysenv \<Rightarrow> busenv \<Rightarrow> session_view \<Rightarrow> emitter \<Rightarrow> source \<Rightarrow> world \<Rightarrow> world run" where
  "run_source E B V emit (FinishIdle p) w = finish_idle emit p w"
| "run_source E B V emit PurgeDisplays w = purge_displays w"
| "run_source E B V emit WaitToFinish w = on_finish_waiting_for_seat0_displays_timeout emit w"
| "run_source E B V emit Seat0GraphicsCheck w = on_seat0_graphics_check_timeout E emit w"
| "run_source E B V emit PlymouthQuitTimeout w = Ret (plymouth_quit_timeout_cb w)"
| "run_source E B V emit (StartUserSession s service) w = on_start_user_session E B V emit s service w"
| "run_source E B V emit (ResetSession s) w = Ret (on_reset_session s w)"

definition the_world :: "('a \<times> world) run \<Rightarrow> world run" where
  "the_world m = bindR m (\<lambda>(r, w). Ret w)"

text \<open>
  One event. An event of an object that does not exist (a source, the greeter of a display, a
  pending lookup) does not happen and changes nothing.
\<close>

fun handle ::
  "sysenv \<Rightarrow> busenv \<Rightarrow> session_view \<Rightarrow> emitter \<Rightarrow> event \<Rightarrow> world \<Rightarrow> world run" where
  "handle E B V emit (SourceFires i) w =
     (case map_of (sources w) i of
        None \<Rightarrow> Ret w
      | Some s \<Rightarrow> run_source E B V emit s (take_source i w))"
| "handle E B V emit (SeatNew seat) w =
     (if seat_subscriptions w then on_seat_activate_greeter E emit seat w else Ret w)"
| "handle E B V emit (SeatRemoved seat) w =
     (if seat_subscriptions w then on_seat_removed seat w else Ret w)"
| "handle E B V emit (SeatChanged seat ch inval) w =
     (if seat_subscriptions w then on_seat_properties_changed E emit seat ch inval w else Ret w)"
| "handle E B V emit (Uevent f a) w =
     (if uevent_handler_id w \<noteq> 0 then on_uevent E emit f a w else Ret w)"
| "handle E B V emit (VtChanged pri hup r) w =
     (if active_vt_watch_id w = 0 then Ret w
      else bindR (on_vt_changed E emit pri hup r w) (\<lambda>(continue, w).
             Ret (if continue then w else w\<lparr>active_vt_watch_id := 0\<rparr>)))"
| "handle E B V emit (FactoryCall sender m) w = the_world (factory_method_call E emit sender m w)"
| "handle E B V emit (RemoteDisplayRequested autologin rid host) w =
     the_world (gdm_remote_display_factory_create_display E emit autologin rid host w)"
| "handle E B V emit (RegisterDisplay sender) w =
     the_world (gdm_manager_handle_register_display E B emit sender w)"
| "handle E B V emit (RegisterSession sender) w =
     the_world (gdm_manager_handle_register_session E B sender w)"
| "handle E B V emit (GreeterSignal p sig) w =
     (if heap w p = None then Ret w else launch_env_event emit p (greeter_handler sig) w)"
| "handle E B V emit (UserLoaded p u) w =
     (if (p, u) \<in> set (pending_lookups w) then on_user_is_loaded_changed E emit (p, u) w else Ret w)"
| "handle E B V emit (SessionOpened s service) w = Ret (on_user_session_opened V s service w)"
| "handle E B V emit (SessionReady s service b) w =
     Ret (on_session_client_ready_for_session_to_start s service b w)"
| "handle E B V emit (SessionClientConnected s) w = on_session_client_connected E B V s w"
| "handle E B V emit (SessionConversationStarted s service) w =
     on_session_conversation_started E s service w"
| "handle E B V emit (SessionCancelled s) w = Ret (on_session_cancelled s w)"
| "handle E B V emit (SessionFailed s) w = on_session_start_failed emit s w"
| "handle E B V emit (SessionExited s) w = on_user_session_exited emit s w"
| "handle E B V emit (SessionDied s) w = on_user_session_died emit s w"
| "handle E B V emit (StopConflicting opened) w = Ret (on_stop_conflicting_session E B opened w)"
| "handle E B V emit StartManager w = gdm_manager_start E B emit w"
| "handle E B V emit StopManager w = Ret (gdm_manager_stop E w)"

definition dispatch ::
  "sysenv \<Rightarrow> busenv \<Rightarrow> session_view \<Rightarrow> nat \<Rightarrow> event \<Rightarrow> world \<Rightarrow> world run" where
  "dispatch E B V n e w = handle E B V (notify_status E n) e w"

section \<open>Every event keeps the invariant\<close>

lemma the_world_safely: "ok E snd w m \<Longrightarrow> safely (the_world m) (inv E)"
  by (cases m) (auto simp: the_world_def ok_def)

lemma ok_inv: "okw E w m \<Longrightarrow> safely m (inv E)"
  by (cases m) (auto simp: ok_def)

lemma greeter_handler_uid: "dyn_uid (fst (greeter_handler sig le)) = dyn_uid le"
  by (cases sig) (simp_all add: le_on_session_opened_def le_on_session_started_def
      le_on_session_exited_def le_on_session_died_def le_on_conversation_started_def
      le_on_conversation_stopped_def)

lemma after_inv: "after_dispose E p w w' \<Longrightarrow> inv E w'" "after_removal E ps w w' \<Longrightarrow> inv E w'"
  by (simp_all add: after_dispose_def after_removal_def)

lemma foreach_remove_inv: "inv E w \<Longrightarrow> safely (store_foreach_remove P w) (inv E)"
  by (erule safely_mono [OF store_foreach_remove_ok]) (erule after_inv)

lemma source_unique:
  assumes "inv E w" "map_of (sources w) i = Some s"
  shows "source_id_ok i s (sources w) (next_source w)" "(i, s) \<in> set (sources w)"
  using assms map_of_SomeD [OF assms(2)]
  by (auto simp: inv_def idles_ok_def source_id_ok_def eq_key_imp_eq_value)

lemma take_source_ok:
  assumes inv: "inv E w" and i: "map_of (sources w) i = Some s"
    and s: "\<And>p. s \<noteq> FinishIdle p" "s \<noteq> PurgeDisplays"
  shows "inv E (take_source i w)"
proof -
  have "idles_ok (idle_of (heap w)) (sources w) (next_source w)"
    "purge_ok (purge_displays_id w) (sources w)" using inv by (simp_all add: inv_def)
  from drop_source [OF this source_unique(1) [OF inv i] s] inv show ?thesis
    by (simp add: take_source_def inv_def)
qed

lemma finish_idle_ok:
  assumes inv: "inv E w" and i: "map_of (sources w) i = Some (FinishIdle p)"
  shows "safely (finish_idle (notify_status E n) p (take_source i w)) (inv E)"
proof -
  have idles: "idles_ok (idle_of (heap w)) (sources w) (next_source w)"
    using inv by (simp add: inv_def)
  with source_unique(2) [OF inv i] have idle: "idle_of (heap w) p = i" "i \<noteq> 0"
    by (simp_all add: idles_ok_def)
  then obtain d where d: "heap w p = Some d" by (auto simp: idle_of_def split: option.splits)
  let ?w = "put_display p (d\<lparr>finish_idle_id := 0\<rparr>) (take_source i w)"
  have "inv E ?w"
    using inv view_same [OF d] drop_idle [OF idles, of p] drop_idle(2,3) [OF idles] idle(1)
    by (auto simp: inv_def take_source_def)
  then have "okw E ?w (gdm_display_finish (notify_status E n) p ?w)"
    by (rule notify.finish_ok) simp
  with d show ?thesis
    by (auto simp: finish_idle_def with_display_def take_source_def intro: ok_inv)
qed

text \<open>The world in which the purge of displays starts.\<close>

lemma purge_start_ok:
  assumes inv: "inv E w" and i: "map_of (sources w) i = Some PurgeDisplays"
  shows "inv E ((take_source i w)\<lparr>purge_displays_id := 0\<rparr>)"
proof -
  have idles: "idles_ok (idle_of (heap w)) (sources w) (next_source w)"
    and purge: "purge_ok (purge_displays_id w) (sources w)"
    and ids: "source_id_ok j t (sources w) (next_source w) \<Longrightarrow>
        source_id_ok j t (filter (\<lambda>(j, s). j \<noteq> i) (sources w)) (next_source w)" for j t
    using inv by (auto simp: inv_def source_id_ok_def)
  have "(i, FinishIdle q) \<notin> set (sources w)" for q
    using source_unique [OF inv i] by (auto simp: source_id_ok_def)
  then have "idles_ok (idle_of (heap w)) (filter (\<lambda>(j, s). j \<noteq> i) (sources w)) (next_source w)"
    using idles by (auto simp: idles_ok_def distinct_map_filter) blast
  moreover have "purge_ok 0 (filter (\<lambda>(j, s). j \<noteq> i) (sources w))"
    using purge source_unique(2) [OF inv i] by (auto simp: purge_ok_def)
  ultimately show ?thesis
    using inv ids by (simp add: inv_def take_source_def)
qed

lemma run_source_ok:
  assumes inv: "inv E w" and i: "map_of (sources w) i = Some s"
  shows "safely (run_source E B V (notify_status E n) s (take_source i w)) (inv E)"
proof (cases s)
  case (FinishIdle p)
  with finish_idle_ok [OF inv] i show ?thesis by simp
next
  case PurgeDisplays
  with purge_start_ok [OF inv] i have w: "inv E ((take_source i w)\<lparr>purge_displays_id := 0\<rparr>)" by simp
  from PurgeDisplays show ?thesis
    by (simp add: purge_displays_def foreach_remove_inv [OF w])
next
  case PlymouthQuitTimeout
  with take_source_ok [OF inv i] show ?thesis
    by (auto simp: plymouth_quit_timeout_cb_def Let_def inv_def source_id_ok_0 log_calls_def)
next
  case (ResetSession x)
  with take_source_ok [OF inv i] show ?thesis
    by (simp add: on_reset_session_def inv_def log_calls_def)
qed (use take_source_ok [OF inv i] in \<open>simp_all add: notify.on_start_user_session_ok
      on_finish_waiting_for_seat0_displays_timeout_def ok_inv [OF notify.finish_waiting_ok]
      ok_inv [OF notify.seat0_check_timeout_ok]\<close>)

lemma user_loaded_ok:
  assumes inv: "inv E w" and x: "(p, u) \<in> set (pending_lookups w)"
  shows "safely (on_user_is_loaded_changed E (notify_status E n) (p, u) w) (inv E)"
proof -
  have p: "live w p" using inv x by (auto simp: inv_def heap_ok_def live_path)
  show ?thesis
    unfolding on_user_is_loaded_changed_def fst_conv snd_conv
  proof (rule safely_bind, rule safely_mono
      [OF notify.set_up_session_if_user_exists_ok [OF inv p, unfolded ok_safely]])
    fix w1 assume w1: "inv E w1 \<and> grows w w1"
    let ?w = "w1\<lparr>pending_lookups := remove1 (p, u) (pending_lookups w1)\<rparr>"
    have "set (remove1 (p, u) (pending_lookups w1)) \<subseteq> set (pending_lookups w1)"
      by (rule set_remove1_subset)
    then have "inv E ?w" using w1 by (auto simp: inv_def heap_ok_def)
    moreover have "live ?w p" using w1 p growsD by (simp add: live_def grows_def)
    ultimately show "safely (unref_display p ?w) (inv E)"
      unfolding unref_display_def
      by (auto intro!: safely_mono [OF dispose_ok] dest: after_inv(1))
  qed
qed

lemma delete_display_ok: "inv E w \<Longrightarrow> safely (delete_display seat w) (inv E)"
  unfolding delete_display_def by (rule foreach_remove_inv)

lemma seat_changed_ok:
  "inv E w \<Longrightarrow>
     safely (on_seat_properties_changed E (notify_status E n) seat ch inval w) (inv E)"
  by (auto simp: on_seat_properties_changed_def Let_def split: option.split
      intro!: delete_display_ok ok_inv [OF notify.ensure_display_for_seat_ok])

lemma uevent_ok: "inv E w \<Longrightarrow> safely (on_uevent E (notify_status E n) f a w) (inv E)"
proof -
  assume inv: "inv E w"
  obtain b w1 where b: "udev_is_settled E w = (b, w1)" by fastforce
  then have "inv E w1" using notify.udev_is_settled_ok(1) inv inv_same_view by blast
  with inv b show ?thesis
    by (auto simp: on_uevent_def intro!: ok_inv [OF notify.ensure_display_for_seat_ok])
qed

lemma manager_start_ok:
  assumes "inv E w"
  shows "safely (gdm_manager_start E B (notify_status E n) w) (inv E)"
proof -
  let ?w1 = "if with_plymouth E then w\<lparr>plymouth_is_running := plymouth_ping B\<rparr> else w"
  let ?w2 = "if with_plymouth E \<and> plymouth_is_running ?w1 then log_calls [PlymouthPrepare] ?w1 else ?w1"
  have w2: "inv E ?w2" using assms by (auto simp: inv_def log_calls_def)
  show ?thesis
    unfolding gdm_manager_start_def Let_def
    by (rule safely_bind, rule safely_mono [OF notify.start_ok [OF w2, unfolded ok_safely]])
      (auto simp: inv_def log_calls_def)
qed

lemma manager_stop_ok: "inv E w \<Longrightarrow> inv E (gdm_manager_stop E w)"
proof -
  assume inv: "inv E w"
  let ?w1 = "w\<lparr>uevent_handler_id := 0, seat_subscriptions := False, active_vt_watch_id := 0\<rparr>"
  have "inv E ?w1" using inv by (simp add: inv_def)
  from clear_seat0_check_ok(1) [OF clear_wait_ok(2) [OF this]]
  have "inv E (gdm_local_display_factory_stop w)"
    by (simp add: gdm_local_display_factory_stop_def gdm_local_display_factory_stop_monitor_def
        Let_def inv_def)
  with clear_plymouth_ok(1) [OF this] show ?thesis
    by (simp add: gdm_manager_stop_def Let_def inv_def)
qed

lemma start_user_session_if_ready_ok:
  assumes "inv E w"
  shows "inv E (start_user_session_if_ready s service w)"
proof -
  have "inv E (w\<lparr>waiting_to_start := f\<rparr>)" for f using assms by (simp add: inv_def)
  with add_source_ok(1) [OF this] show ?thesis
    by (simp add: start_user_session_if_ready_def queue_start_user_session_def)
qed

lemma session_signals_ok:
  assumes inv: "inv E w"
  shows "inv E (on_user_session_opened V s service w)"
    "inv E (on_session_client_ready_for_session_to_start s service b w)"
    "inv E (on_session_cancelled s w)" "inv E (on_stop_conflicting_session E B sid w)"
proof -
  have "inv E (w\<lparr>user_sessions := us\<rparr>)" "inv E (w\<lparr>user_sessions := us, start_when_ready := f\<rparr>)"
    "inv E (w\<lparr>start_when_ready := f\<rparr>)" for us f
    using inv by (simp_all add: inv_def)
  then show "inv E (on_user_session_opened V s service w)"
    "inv E (on_session_client_ready_for_session_to_start s service b w)"
    by (simp_all add: on_user_session_opened_def start_user_session_if_ready_ok Let_def
        on_session_client_ready_for_session_to_start_def)
  have "inv E (snd (g_source_add (ResetSession s) w))" by (rule add_source_ok(1) [OF inv]) simp_all
  then show "inv E (on_session_cancelled s w)"
    using inv by (simp add: on_session_cancelled_def queue_session_reset_def inv_def)
  show "inv E (on_stop_conflicting_session E B sid w)"
    using inv by (simp add: on_stop_conflicting_session_def split: option.split sum.split)
qed

lemma session_display_signals_ok:
  assumes "inv E w"
  shows "safely (on_session_client_connected E B V s w) (inv E)"
    "safely (on_session_conversation_started E s service w) (inv E)"
  using assms session_display_live [OF assms]
  by (auto simp: on_session_client_connected_def on_session_conversation_started_def
      with_display_live split: option.split prod.split)

text \<open>The handlers of all events.\<close>

lemma handle_ok:
  assumes "inv E w"
  shows "safely (handle E B V (notify_status E n) e w) (inv E)"
proof (cases e)
  case (SourceFires i)
  with assms show ?thesis by (auto simp: run_source_ok split: option.split)
next
  case (VtChanged pri hup r)
  have "safely (bindR (on_vt_changed E (notify_status E n) pri hup r w) (\<lambda>(continue, w).
      Ret (if continue then w else w\<lparr>active_vt_watch_id := 0\<rparr>))) (inv E)"
    by (rule safely_bind, rule safely_mono [OF notify.on_vt_changed_ok [OF assms, unfolded ok_safely]])
      (auto simp: inv_def)
  with VtChanged assms show ?thesis by simp
next
  case (GreeterSignal p sig)
  have "heap w p \<noteq> None \<Longrightarrow> okw E w (launch_env_event (notify_status E n) p (greeter_handler sig) w)"
    by (rule notify.launch_env_event_ok [OF assms]) (simp_all add: live_def greeter_handler_uid)
  with GreeterSignal assms show ?thesis by (auto intro: ok_inv)
next
  case (SessionExited s)
  with assms show ?thesis
    by (simp add: on_user_session_exited_def ok_inv [OF notify.remove_user_session_ok])
qed (use assms in \<open>simp_all add: user_loaded_ok seat_changed_ok uevent_ok manager_start_ok
      manager_stop_ok session_signals_ok session_display_signals_ok on_seat_removed_def
      delete_display_ok on_seat_activate_greeter_def on_session_start_failed_def
      on_user_session_died_def ok_inv [OF notify.ensure_display_for_seat_ok]
      ok_inv [OF notify.remove_user_session_ok] the_world_safely [OF notify.factory_method_call_ok]
      the_world_safely [OF notify.remote_create_display_ok]
      the_world_safely [OF notify.register_display_ok] the_world_safely [OF register_session_ok]\<close>)

section \<open>Reachable states\<close>

text \<open>The state that \<^verbatim>\<open>gdm_manager_init\<close> and the factory's constructor leave.\<close>

definition gdm_manager_init :: "sysdb \<Rightarrow> world" where
  "gdm_manager_init D =
     \<lparr>heap = (\<lambda>p. None), next_ptr = 1, store = gdm_display_store_init,
      users = gdm_dynamic_user_store_init D, sources = [], next_source = 1, next_session = 1,
      session_display = (\<lambda>s. None), log = [], purge_displays_id = 0, display_creation_users = [],
      is_started = False, num_failures = 0, seat0_has_platform_graphics = False,
      seat0_has_boot_up_graphics = False, seat0_graphics_check_timed_out = False,
      seat0_graphics_check_timeout_id = 0, uevent_handler_id = 0, seat_subscriptions = False,
      active_vt = 0, active_vt_watch_id = 0, wait_to_finish_timeout_id = 0, started = False,
      remote_login_enabled = False, automatic_login_display = None, did_automatic_login = False,
      plymouth_is_running = False, plymouth_quit_timeout_id = 0, pending_lookups = [],
      user_sessions = [], start_when_ready = (\<lambda>s. False), waiting_to_start = (\<lambda>s. False),
      reset_operation = (\<lambda>s. False)\<rparr>"

text \<open>
  The build does not change while the daemon runs: it has userdb, and the range of the
  greeters' UIDs is not empty and starts above 0.
\<close>

definition sane_build :: "sysdb \<Rightarrow> bool" where
  "sane_build D = (have_userdb D \<and> 0 < greeter_uid_min D \<and> greeter_uid_min D \<le> greeter_uid_max D)"

definition same_build :: "sysdb \<Rightarrow> sysdb \<Rightarrow> bool" where
  "same_build D D' =
     (have_userdb D' = have_userdb D \<and> greeter_uid_min D' = greeter_uid_min D \<and>
      greeter_uid_max D' = greeter_uid_max D)"

inductive reachable :: "sysdb \<Rightarrow> world \<Rightarrow> bool" for D where
  init: "reachable D (gdm_manager_init D)"
| step: "reachable D w \<Longrightarrow> same_build D (db E) \<Longrightarrow> dispatch E B V n e w = Ret w' \<Longrightarrow>
           reachable D w'"

lemma inv_same_build:
  assumes "same_build (db E) (db E')" "inv E w"
  shows "inv E' w"
proof -
  have "uid_in_range (db E') = uid_in_range (db E)"
    using assms(1) by (simp add: same_build_def uid_in_range_def fun_eq_iff)
  with assms show ?thesis
    by (simp add: same_build_def inv_def build_ok_def users_ok_def dus_inv_def)
qed

lemma init_ok: "sane_build (db E) \<Longrightarrow> inv E (gdm_manager_init (db E))"
  using dus_inv_init [of "db E"]
  by (auto simp: sane_build_def inv_def gdm_manager_init_def build_ok_def heap_ok_def users_ok_def
      bij_betw_def idles_ok_def purge_ok_def source_id_ok_def sessions_ok_def path_of_def uid_of_def idle_of_def
      gdm_display_store_init_def ght_wf_def owners_def gdm_dynamic_user_store_init_def
      ght_contains_def)

lemma reachable_inv:
  assumes "reachable D w" "sane_build D" "same_build D (db E)"
  shows "inv E w"
  using assms
proof (induction arbitrary: E)
  case init
  have "inv (E\<lparr>db := D\<rparr>) (gdm_manager_init D)" using init_ok [of "E\<lparr>db := D\<rparr>"] init by simp
  then show ?case by (rule inv_same_build [rotated]) (simp add: init)
next
  case (step w E' B V n e w')
  have "inv E' w" by (rule step.IH) (use step in simp_all)
  from handle_ok [OF this, of B V n e] step.hyps(3) have "inv E' w'" by (simp add: dispatch_def)
  then show ?case
    by (rule inv_same_build [rotated]) (use step in \<open>simp add: same_build_def\<close>)
qed

fun run_events ::
  "sysenv \<Rightarrow> busenv \<Rightarrow> session_view \<Rightarrow> nat \<Rightarrow> event list \<Rightarrow> world \<Rightarrow> world run" where
  "run_events E B V n [] w = Ret w"
| "run_events E B V n (e # es) w = bindR (dispatch E B V n e w) (run_events E B V n es)"

lemma reachable_events:
  assumes "reachable D w" "same_build D (db E)" "run_events E B V n es w = Ret w'"
  shows "reachable D w'"
  using assms by (induction es arbitrary: w) (auto intro: reachable.step)

section \<open>A run of the daemon\<close>

definition demo_bus :: busenv where
  "demo_bus =
     \<lparr>name_pid = (\<lambda>s. Some 100), name_uid = (\<lambda>s. Some 60579), session_uid = (\<lambda>s. Some 60579),
      session_get_seat = (\<lambda>s. Inr ''seat0''), session_is_remote = (\<lambda>s. 0),
      activate_session = (\<lambda>a b. True), session_get_username = (\<lambda>s. None),
      setting_int = (\<lambda>s. None), plymouth_ping = False\<rparr>"

definition demo_view :: session_view where
  "demo_view =
     \<lparr>sv_username = (\<lambda>s. None), sv_running = (\<lambda>s. False), sv_seat = (\<lambda>s. Some ''seat0''),
      sv_session_id = (\<lambda>s. None), sv_conversation_session_id = (\<lambda>s t. None),
      sv_allowed_user = (\<lambda>s. 60579), sv_server_address = (\<lambda>s. Some ''unix:abstract=/x''),
      sv_display_is_local = (\<lambda>s. True), sv_remote_id = (\<lambda>s. None), sv_hostname = (\<lambda>s. None),
      sv_client_connected = (\<lambda>s. True)\<rparr>"

text \<open>
  The manager starts; the greeter on seat0 opens its session, registers, and later exits,
  which brings up a second greeter and queues the end of the first display.
\<close>

definition demo_events :: "event list" where
  "demo_events =
     [StartManager, GreeterSignal 1 (GreeterOpened ''gdm-launch-environment'' ''c1''),
      RegisterDisplay '':1.7'', RegisterSession '':1.7'', GreeterSignal 1 (GreeterExited 0)]"

definition demo_world :: "event list \<Rightarrow> world" where
  "demo_world es =
     (case run_events demo_env demo_bus demo_view 6 es (gdm_manager_init demo_sysdb) of
        Ret w \<Rightarrow> w | _ \<Rightarrow> gdm_manager_init demo_sysdb)"

lemma demo_sane [simp]: "sane_build demo_sysdb" "same_build demo_sysdb (db demo_env)"
  by (simp_all add: sane_build_def same_build_def demo_env_def demo_sysdb_def)

lemma demo_reachable: "reachable demo_sysdb (demo_world es)"
  using reachable_events [OF reachable.init demo_sane(2), of demo_bus demo_view 6 es]
  by (auto simp: demo_world_def reachable.init split: run.split)

text \<open>The greeter after the start, and the state before its display is purged.\<close>

lemma demo_started:
  "let w = demo_world [StartManager] in
     store w = [(object_path 1, 1)] \<and> ght_contains (by_uid (users w)) 60579"
  by code_simp

lemma demo_finished:
  "let w = demo_world (demo_events @ [SourceFires 1]) in
     store w = [(object_path 1, 1)] \<and> map_of (sources w) 2 = Some PurgeDisplays \<and>
     pending_lookups w = [] \<and> map_option status (heap w 1) = Some FINISHED \<and>
     (case dispatch demo_env demo_bus demo_view 6 (SourceFires 2) w of Ret w' \<Rightarrow> True | _ \<Rightarrow> False)"
  by code_simp

lemma purge_display_iff: "purge_display i d \<longleftrightarrow> status d = FINISHED \<or> status d = FAILED"
  by (simp add: purge_display_def split: display_status.split)

section \<open>Properties\<close>

text \<open>
  C1. Memory safety of the displays. In every state that the daemon can reach, and whatever event
  comes next, no handler dereferences a display that has been finalised, however deep the
  emissions of \<^verbatim>\<open>notify::status\<close> nest; and the unowned pointers that the daemon
  keeps to displays (the store's, the sessions' \<^verbatim>\<open>gdm-display\<close>, the callbacks' user
  data) point to living ones.
\<close>

theorem daemon_memory_safe:
  assumes "reachable D w" "sane_build D" "same_build D (db E)"
  shows "dispatch E B V n e w \<noteq> Stop dangling \<and>
    (\<forall>(i, p) \<in> set (store w). heap w p \<noteq> None) \<and>
    (\<forall>s p. session_display w s = Some p \<longrightarrow> heap w p \<noteq> None) \<and>
    (\<forall>i p. (i, FinishIdle p) \<in> set (sources w) \<longrightarrow> heap w p \<noteq> None)"
proof -
  have inv: "inv E w" by (rule reachable_inv [OF assms])
  from handle_ok [OF this, of B V n e] have "dispatch E B V n e w \<noteq> Stop dangling"
    by (auto simp: dispatch_def safely_def)
  moreover have "\<forall>(i, p) \<in> set (store w). heap w p \<noteq> None"
    using inv by (fastforce simp: inv_def heap_ok_def path_of_def)
  moreover have "\<forall>s p. session_display w s = Some p \<longrightarrow> heap w p \<noteq> None"
    using session_display_live [OF inv] by (simp add: live_def)
  moreover have "\<forall>i p. (i, FinishIdle p) \<in> set (sources w) \<longrightarrow> heap w p \<noteq> None"
    using inv by (auto simp: inv_def idles_ok_def idle_of_def split: option.splits)
  ultimately show ?thesis by blast
qed

theorem daemon_memory_safe_witness:
  "reachable demo_sysdb (demo_world [StartManager]) \<and>
   store (demo_world [StartManager]) = [(object_path 1, 1)] \<and>
   heap (demo_world [StartManager]) 1 \<noteq> None \<and>
   dispatch demo_env demo_bus demo_view 6 (RegisterDisplay '':1.7'') (demo_world [StartManager]) \<noteq>
     Stop dangling"
  using daemon_memory_safe [OF demo_reachable demo_sane, of demo_bus demo_view 6
      "RegisterDisplay '':1.7''" "[StartManager]"] demo_reachable [of "[StartManager]"] demo_started
  by (simp add: Let_def)

text \<open>
  C2. No dynamic user leaks and none is shared: in every reachable state the users of the store
  are exactly the non-zero UIDs that the launch environments of living displays hold, and no
  two displays hold the same one.
\<close>

theorem dynamic_users_owned:
  assumes "reachable D w" "sane_build D"
  shows "(ght_contains (by_uid (users w)) i \<longleftrightarrow>
      i \<noteq> 0 \<and> (\<exists>p d le. heap w p = Some d \<and> launch_environment d = Some le \<and> dyn_uid le = i)) \<and>
    (\<forall>p q d e le le'. heap w p = Some d \<and> launch_environment d = Some le \<and>
       heap w q = Some e \<and> launch_environment e = Some le' \<and> dyn_uid le \<noteq> 0 \<and>
       dyn_uid le = dyn_uid le' \<longrightarrow> p = q)"
proof -
  have "inv (demo_env\<lparr>db := D\<rparr>) w"
    by (rule reachable_inv [OF assms]) (simp add: same_build_def)
  then have bij: "bij_betw (uid_of (heap w)) {p. uid_of (heap w) p \<noteq> 0}
      {i. ght_contains (by_uid (users w)) i}"
    by (simp add: inv_def users_ok_def owners_def)
  have uid: "uid_of (heap w) p = i \<and> i \<noteq> 0 \<longleftrightarrow> i \<noteq> 0 \<and>
      (\<exists>d le. heap w p = Some d \<and> launch_environment d = Some le \<and> dyn_uid le = i)" for p i
    by (auto simp: uid_of_def owned_uid_def split: option.splits)
  have "ght_contains (by_uid (users w)) i \<longleftrightarrow>
      i \<in> uid_of (heap w) ` {p. uid_of (heap w) p \<noteq> 0}"
    unfolding bij_betw_imp_surj_on [OF bij] by simp
  then have "ght_contains (by_uid (users w)) i \<longleftrightarrow> (\<exists>p. uid_of (heap w) p = i \<and> i \<noteq> 0)"
    by auto
  then have owned: "ght_contains (by_uid (users w)) i \<longleftrightarrow> i \<noteq> 0 \<and>
      (\<exists>p d le. heap w p = Some d \<and> launch_environment d = Some le \<and> dyn_uid le = i)"
    by (simp only: uid) auto
  have "p = q" if "heap w p = Some d" "launch_environment d = Some le" "heap w q = Some e"
    "launch_environment e = Some le'" "dyn_uid le \<noteq> 0" "dyn_uid le = dyn_uid le'" for p q d e le le'
  proof -
    have "uid_of (heap w) p = dyn_uid le" "uid_of (heap w) q = dyn_uid le"
      using that by (simp_all add: uid_of_def owned_uid_def)
    with bij_betw_imp_inj_on [OF bij] that(5) show ?thesis by (simp add: inj_on_def)
  qed
  with owned show ?thesis by auto
qed

theorem dynamic_users_owned_witness:
  "reachable demo_sysdb (demo_world [StartManager]) \<and>
   ght_contains (by_uid (users (demo_world [StartManager]))) 60579 \<and>
   (\<exists>p d le. heap (demo_world [StartManager]) p = Some d \<and> launch_environment d = Some le \<and>
      dyn_uid le = 60579)"
  using dynamic_users_owned [OF demo_reachable demo_sane(1), of "[StartManager]" 60579]
    demo_reachable [of "[StartManager]"] demo_started by (simp add: Let_def)



end
