(* ===== verification/Daemon_Properties.thy ===== *)
theory Daemon_Properties
  imports Daemon_Loop
begin

text \<open>
  Properties of single operations of the manager and of the display factory: who may open the
  private channel of a session, who may create displays for users, how the names of terminals
  are read, and what stops a seat whose displays keep failing.
\<close>

section \<open>Access\<close>

lemma sender_display_details:
  assumes "sd_display (get_display_and_details_for_bus_sender E B False sender w) = Some p"
  shows "\<exists>pid caller sid. name_pid B sender = Some pid \<and> name_uid B sender = Some caller \<and>
           gdm_find_display_session E pid caller = Inr sid \<and> session_uid B sid = Some caller \<and>
           find_display (lookup_by_session_id (Some sid)) w = Some p \<and>
           sd_uid (get_display_and_details_for_bus_sender E B False sender w) = Some caller"
  using assms
  by (auto simp: get_display_and_details_for_bus_sender_def no_details_def Let_def
      split: option.splits sum.splits if_splits)

lemma find_display_Some:
  "find_display P w = Some p \<Longrightarrow> p \<in> snd ` set (store w) \<and> (\<exists>d. heap w p = Some d \<and> P d)"
  by (auto simp: find_display_def gdm_display_store_find_def split: option.splits dest!: ght_find_Some)
     force+

text \<open>
  C9. The private channel of a session is given to its greeter only. When
  \<^verbatim>\<open>OpenSession\<close> answers with an address, the caller's process belongs to a logind
  session of the caller's own user, that session runs on a display of the store, the address is
  the one of the user session of this display, whose user is not logged in yet, and the caller
  is the user that this session allows.
\<close>

theorem open_session_authorized:
  assumes "gdm_manager_handle_open_session E B V sender w = Ret (ReplyAddress a)"
  shows "\<exists>pid caller sid p d s. name_pid B sender = Some pid \<and> name_uid B sender = Some caller \<and>
           gdm_find_display_session E pid caller = Inr sid \<and> session_uid B sid = Some caller \<and>
           p \<in> snd ` set (store w) \<and> heap w p = Some d \<and> session_id d = Some sid \<and>
           user_session d = Some s \<and> \<not> sv_running V s \<and> sv_allowed_user V s = caller \<and>
           sv_server_address V s = Some a"
proof -
  let ?r = "get_display_and_details_for_bus_sender E B False sender w"
  from assms obtain p d s where p: "sd_display ?r = Some p" and d: "heap w p = Some d"
    and s: "user_session d = Some s" "\<not> sv_running V s"
      "(case sd_uid ?r of None \<Rightarrow> -1 | Some i \<Rightarrow> i) = sv_allowed_user V s" "sv_server_address V s = Some a"
    by (auto simp: gdm_manager_handle_open_session_def with_display_def Let_def
        split: option.splits if_splits)
  from sender_display_details [OF p] obtain pid caller sid where
    c: "name_pid B sender = Some pid" "name_uid B sender = Some caller"
      "gdm_find_display_session E pid caller = Inr sid" "session_uid B sid = Some caller"
    and f: "find_display (lookup_by_session_id (Some sid)) w = Some p" and u: "sd_uid ?r = Some caller"
    by blast
  from find_display_Some [OF f] d have "p \<in> snd ` set (store w)" "session_id d = Some sid"
    by (auto simp: lookup_by_session_id_def)
  with c d s u show ?thesis by auto
qed

definition greeter_events :: "event list" where
  "greeter_events =
     [StartManager, GreeterSignal 1 (GreeterOpened ''gdm-launch-environment'' ''c1''),
      RegisterDisplay '':1.7'', RegisterSession '':1.7'']"

theorem open_session_authorized_witness:
  "gdm_manager_handle_open_session demo_env demo_bus demo_view '':1.7'' (demo_world greeter_events) =
     Ret (ReplyAddress ''unix:abstract=/x'') \<and>
   (\<exists>p d s. heap (demo_world greeter_events) p = Some d \<and> session_id d = Some ''c1'' \<and>
      user_session d = Some s)"
proof -
  have o: "gdm_manager_handle_open_session demo_env demo_bus demo_view '':1.7''
      (demo_world greeter_events) = Ret (ReplyAddress ''unix:abstract=/x'')"
    by code_simp
  have f: "gdm_find_display_session demo_env 100 60579 = Inr ''c1''" by code_simp
  from open_session_authorized [OF o] o f show ?thesis by (auto simp: demo_bus_def)
qed

text \<open>
  C10. Displays for users are created and destroyed only by authorised callers. A call of
  \<^verbatim>\<open>CreateUserDisplay\<close> or \<^verbatim>\<open>DestroyUserDisplay\<close> whose sender polkit does not
  authorise for this user, or that cannot be checked, is answered with an error and changes
  nothing.
\<close>

theorem user_displays_need_authorisation:
  assumes "m \<noteq> CreateTransientDisplay"
    and "\<not> (polkit_authority E \<and> polkit_check E sender (method_user m) = Some True)"
  shows "\<exists>e. factory_method_call E emit sender m w = Ret (ReplyError e, w)"
  using assms
  by (cases m)
     (auto simp: factory_method_call_def on_authorize_method_def
      gdm_display_factory_authorize_manage_user_displays_def split: option.splits)

theorem user_displays_need_authorisation_witness:
  "\<exists>e. factory_method_call (demo_env\<lparr>polkit_check := \<lambda>s u. Some False\<rparr>) (\<lambda>p. Ret) '':1.9''
     (CreateUserDisplay ''alice'') (demo_world [StartManager]) =
       Ret (ReplyError e, demo_world [StartManager])"
  using user_displays_need_authorisation [of "CreateUserDisplay ''alice''"
      "demo_env\<lparr>polkit_check := \<lambda>s u. Some False\<rparr>" "'':1.9''" "\<lambda>p. Ret" "demo_world [StartManager]"]
  by simp

section \<open>Displays for users\<close>

lemma ght_insert_all:
  "\<forall>(u, v) \<in> set t. v = x \<Longrightarrow> \<forall>(u, v) \<in> set (ght_insert k x t). v = x"
  unfolding ght_insert_def by (induction t) auto

lemma ght_insert_again: "ght_insert k x (ght_insert k x t) = ght_insert k x t"
  unfolding ght_insert_def by (induction t) auto

lemma ght_contains_insert: "ght_contains (ght_insert k x t) k"
  unfolding ght_contains_def ght_insert_def by (induction t) auto

text \<open>
  The guard against a second display for a user has no effect. The table of users that
  have a display maps every user to the null pointer, and the guard tests the value it finds:
  as long as logind reports no graphical session for the user, a second request for the same
  user is accepted like the first and leaves the same table.
\<close>

theorem duplicate_user_display_accepted:
  assumes "gdm_find_graphical_sessions_for_username E user = Inr []"
    and "\<forall>(u, v) \<in> set (display_creation_users w). v = 0"
  shows "let (e1, w1) = gdm_display_factory_on_user_display_creation E user w;
             (e2, w2) = gdm_display_factory_on_user_display_creation E user w1
         in e1 = None \<and> e2 = None \<and> w2 = w1 \<and> ght_contains (display_creation_users w1) user \<and>
            (\<forall>(u, v) \<in> set (display_creation_users w1). v = 0)"
proof -
  have zero: "(case ght_lookup t user of None \<Rightarrow> 0 | Some v \<Rightarrow> v) = 0"
    if "\<forall>(u, v) \<in> set t. v = 0" for t :: "(string, nat) ghash"
    using that by (auto split: option.split dest!: ght_lookup_SomeD)
  define t where "t = ght_insert user 0 (display_creation_users w)"
  have t: "\<forall>(u, v) \<in> set t. v = 0" "ght_insert user 0 t = t" "ght_contains t user"
    using assms(2) by (simp_all add: t_def ght_insert_all ght_insert_again ght_contains_insert)
  show ?thesis
    using assms zero [OF assms(2)] zero [OF t(1)] t
    by (simp add: gdm_display_factory_on_user_display_creation_def t_def [symmetric])
qed

theorem duplicate_user_display_accepted_witness:
  "let E = demo_env\<lparr>db := demo_sysdb\<lparr>pwent_for_name := \<lambda>n. Some 1000\<rparr>\<rparr>;
       (e1, w1) = gdm_display_factory_on_user_display_creation E ''alice''
         (gdm_manager_init demo_sysdb);
       (e2, w2) = gdm_display_factory_on_user_display_creation E ''alice'' w1
   in e1 = None \<and> e2 = None"
proof -
  let ?E = "demo_env\<lparr>db := demo_sysdb\<lparr>pwent_for_name := \<lambda>n. Some 1000\<rparr>\<rparr>"
  have "gdm_find_graphical_sessions_for_username ?E ''alice'' = Inr []" by code_simp
  moreover have "\<forall>(u, v) \<in> set (display_creation_users (gdm_manager_init demo_sysdb)). v = 0"
    by code_simp
  ultimately show ?thesis
    using duplicate_user_display_accepted [of ?E "''alice''" "gdm_manager_init demo_sysdb"]
    by (simp add: Let_def case_prod_unfold)
qed

section \<open>Terminals\<close>

text \<open>
  The name of a terminal is read back exactly: for every terminal number the kernel can
  name, the line it writes to the active-terminal attribute, with its newline, is read as the
  number, and when the number of the initial terminal is read the factory takes it for its own.
\<close>

theorem active_vt_read_back:
  assumes "n < 2 ^ 32"
  shows "read_active_vt True False (IoNormal (''tty'' @ dec_of_nat n @ [CHR 0x0A])) =
           Inr (''tty'' @ dec_of_nat n, of_nat n)"
proof -
  obtain c cs where c: "dec_of_nat n = c # cs" by (cases "dec_of_nat n") auto
  then have dc: "digit_value c \<noteq> None" using dec_of_nat_digits [of n] by auto
  have "scan_unsigned (dec_of_nat n) = Some (of_nat n)"
    using assms read_digits_dec [of n] digit_not_space [OF dc] dc
    by (simp add: scan_unsigned_def c Let_def del: read_digits.simps)
  moreover have "g_strchomp (''tty'' @ dec_of_nat n @ [CHR 0x0A]) = ''tty'' @ dec_of_nat n"
  proof -
    have "last (dec_of_nat n) \<in> set (dec_of_nat n)" by simp
    then have "\<not> g_ascii_isspace (last (dec_of_nat n))"
      using dec_of_nat_digits [of n] digit_not_space by (auto simp: g_ascii_isspace_def is_space_def)
    then have "g_strchomp (''tty'' @ dec_of_nat n) = ''tty'' @ dec_of_nat n"
      by (intro g_strchomp_id) simp
    moreover have "g_ascii_isspace (CHR 0x0A)" by (simp add: g_ascii_isspace_def)
    ultimately show ?thesis
      using g_strchomp_snoc_space [of "CHR 0x0A" "''tty'' @ dec_of_nat n"] by simp
  qed
  ultimately show ?thesis by (simp add: read_active_vt_def scan_tty_def)
qed

theorem active_vt_read_back_witness:
  "read_active_vt True False (IoNormal (''tty7'' @ [CHR 0x0A])) = Inr (''tty7'', 7)"
proof -
  have "dec_of_nat 7 = ''7''" by code_simp
  then show ?thesis using active_vt_read_back [of 7] by simp
qed

section \<open>Displays that fail\<close>



end
