(* ===== verification/Manager_Reauthentication.thy ===== *)
theory Manager_Reauthentication
  imports Daemon_Loop "HOL-Library.Multiset"
begin

text \<open>
  Reauthentication in \<^verbatim>\<open>daemon/gdm-manager.c\<close>: the method with which lock screens and login
  screens open a channel to reauthenticate a user, the temporary sessions behind the channel
  where the user's own session cannot serve it, and the end of a reauthentication.
\<close>

section \<open>Data\<close>

text \<open>
  The part of the manager that reauthentication uses. A temporary session is named by a number
  and keeps what the manager attaches to it; \<open>temporary\<close> holds the ones whose object
  exists. \<open>reauth_pid_of_caller\<close> is the datum \<^verbatim>\<open>reauth-pid-of-caller\<close> of the
  displays.
\<close>

record temporary_session =
  ts_allowed_user :: u32
  ts_seat :: cstr
  ts_is_local :: bool
  caller_session_id :: cstr
  ts_user_session :: "nat option"
  ts_caller_pid :: int

record reauth =
  transient_sessions :: "(int, nat) ghash"
  open_reauthentication_requests :: "(int, nat) ghash"
  temporary :: "nat \<Rightarrow> temporary_session option"
  next_temporary :: nat
  reauth_pid_of_caller :: "nat \<Rightarrow> int"

definition no_reauth :: reauth where
  "no_reauth = \<lparr>transient_sessions = [], open_reauthentication_requests = [], temporary = (\<lambda>_. None),
     next_temporary = 0, reauth_pid_of_caller = (\<lambda>_. 0)\<rparr>"

text \<open>
  What leaves the manager: the answer of a method call, named by a number; the request to the
  worker of a user's session; the end of a temporary session; and a call whose invocation is
  freed without an answer.
\<close>

datatype reauth_effect =
    ReauthDenied nat string
  | ReauthAddress nat cstr
  | StartReauthenticationOn nat int u32
  | CloseTemporary nat
  | DropRequest nat

text \<open>What the kernel shows of the control groups of the sessions' leaders.\<close>

record cgroup_env =
  leader_of_session :: "nat \<Rightarrow> int"
  cgroup_of :: "int \<Rightarrow> string option"
  events_of :: "string \<Rightarrow> string option"

section \<open>Frozen sessions\<close>

text \<open>\<^verbatim>\<open>g_strsplit_set\<close> keeps the empty fields between two delimiters.\<close>

fun strsplit_set :: "char list \<Rightarrow> string \<Rightarrow> string list" where
  "strsplit_set ds [] = [[]]"
| "strsplit_set ds (c # cs) =
     (if c \<in> set ds then [] # strsplit_set ds cs
      else (case strsplit_set ds cs of [] \<Rightarrow> [[c]] | f # fs \<Rightarrow> (c # f) # fs))"

fun frozen_loop :: "string list \<Rightarrow> bool" where
  "frozen_loop [] = False"
| "frozen_loop (x # xs) =
     (if x = ''frozen'' then (case xs of [] \<Rightarrow> False | y # _ \<Rightarrow> y = ''1'') else frozen_loop xs)"

definition gdm_session_is_frozen :: "cgroup_env \<Rightarrow> nat \<Rightarrow> bool" where
  "gdm_session_is_frozen K s =
     (if leader_of_session K s \<le> 0 then False
      else
        case cgroup_of K (leader_of_session K s) of
          None \<Rightarrow> False
        | Some g \<Rightarrow>
            (case events_of K (''/sys/fs/cgroup'' @ g @ ''/cgroup.events'') of
               None \<Rightarrow> False
             | Some contents \<Rightarrow> frozen_loop (strsplit_set [CHR '' '', CHR 0x0A] contents)))"

section \<open>Temporary channels\<close>

definition are_sessions_compatible :: "session_view \<Rightarrow> nat \<Rightarrow> nat \<Rightarrow> bool" where
  "are_sessions_compatible V session_a session_b =
     (if sv_display_is_local V session_a \<noteq> sv_display_is_local V session_b then False
      else if \<not> sv_display_is_local V session_a \<and> \<not> sv_display_is_local V session_b then True
      else sv_seat V session_a = sv_seat V session_b)"

definition get_user_session_for_display :: "nat option \<Rightarrow> world \<Rightarrow> nat option" where
  "get_user_session_for_display p w =
     (case p of
        None \<Rightarrow> None
      | Some q \<Rightarrow> (case heap w q of None \<Rightarrow> None | Some d \<Rightarrow> user_session d))"

text \<open>The table of temporary sessions owns them: a value that leaves it is unreferenced.\<close>

definition unref_transient :: "int \<Rightarrow> reauth \<Rightarrow> reauth" where
  "unref_transient k r =
     (case ght_lookup (transient_sessions r) k of
        None \<Rightarrow> r
      | Some t \<Rightarrow> r\<lparr>temporary := (temporary r)(t := None)\<rparr>)"

definition open_temporary_reauthentication_channel ::
  "nat option \<Rightarrow> cstr \<Rightarrow> cstr \<Rightarrow> int \<Rightarrow> u32 \<Rightarrow> bool \<Rightarrow> reauth \<Rightarrow> nat \<times> reauth" where
  "open_temporary_reauthentication_channel user_sess caller_seat caller_sid caller_pid caller remote r =
     (let t = next_temporary r;
          r = r\<lparr>temporary := (temporary r)(t \<mapsto>
                 \<lparr>ts_allowed_user = caller, ts_seat = caller_seat, ts_is_local = (\<not> remote),
                  caller_session_id = caller_sid, ts_user_session = user_sess, ts_caller_pid = caller_pid\<rparr>),
                next_temporary := Suc t\<rparr>;
          r = unref_transient caller_pid r
      in (t, r\<lparr>transient_sessions := ght_insert caller_pid t (transient_sessions r)\<rparr>))"

definition close_transient_session :: "nat \<Rightarrow> temporary_session \<Rightarrow> reauth \<Rightarrow> reauth \<times> reauth_effect list" where
  "close_transient_session t s r =
     (let r = unref_transient (ts_caller_pid s) r
      in (r\<lparr>transient_sessions := ght_remove (ts_caller_pid s) (transient_sessions r)\<rparr>, [CloseTemporary t]))"

text \<open>
  The handlers run while the session they belong to exists. \<open>client_connected\<close> is the answer
  of \<^verbatim>\<open>gdm_session_client_is_connected\<close>, \<open>session_id_for_pid\<close> the session logind names for a
  process.
\<close>

definition on_reauthentication_client_disconnected :: "nat \<Rightarrow> reauth \<Rightarrow> reauth \<times> reauth_effect list" where
  "on_reauthentication_client_disconnected t r =
     (case temporary r t of None \<Rightarrow> (r, []) | Some s \<Rightarrow> close_transient_session t s r)"

definition on_reauthentication_cancelled :: "nat \<Rightarrow> reauth \<Rightarrow> reauth \<times> reauth_effect list" where
  "on_reauthentication_cancelled t r =
     (case temporary r t of None \<Rightarrow> (r, []) | Some s \<Rightarrow> close_transient_session t s r)"

definition on_reauthentication_client_rejected ::
  "(int \<Rightarrow> cstr) \<Rightarrow> bool \<Rightarrow> int \<Rightarrow> nat \<Rightarrow> reauth \<Rightarrow> reauth \<times> reauth_effect list" where
  "on_reauthentication_client_rejected session_id_for_pid client_connected pid_of_client t r =
     (case temporary r t of
        None \<Rightarrow> (r, [])
      | Some s \<Rightarrow>
          if client_connected then (r, [])
          else if ts_caller_pid s \<noteq> pid_of_client \<and> caller_session_id s \<noteq> session_id_for_pid pid_of_client
          then (r, [])
          else close_transient_session t s r)"

text \<open>
  A verified user: the frozen session of the login screen's user is switched to, or the session
  of the caller is unlocked.
\<close>

definition on_reauthentication_verification_complete ::
  "busenv \<Rightarrow> session_view \<Rightarrow> nat \<Rightarrow> reauth \<Rightarrow> world \<Rightarrow> (reauth \<times> reauth_effect list) \<times> world" where
  "on_reauthentication_verification_complete B V t r w =
     (case temporary r t of
        None \<Rightarrow> ((r, []), w)
      | Some s \<Rightarrow>
          (close_transient_session t s r,
           case ts_user_session s of
             Some u \<Rightarrow> snd (switch_to_compatible_user_session B V u False w)
           | None \<Rightarrow>
               (case caller_session_id s of
                  None \<Rightarrow> w
                | Some sid \<Rightarrow> log_calls [UnlockSession sid] w)))"

section \<open>The method\<close>

text \<open>\<^verbatim>\<open>g_hash_table_insert\<close> unreferences the invocation that the table held for the same process.\<close>

definition insert_request :: "int \<Rightarrow> nat \<Rightarrow> reauth \<Rightarrow> reauth \<times> reauth_effect list" where
  "insert_request caller_pid i r =
     (r\<lparr>open_reauthentication_requests := ght_insert caller_pid i (open_reauthentication_requests r)\<rparr>,
      case ght_lookup (open_reauthentication_requests r) caller_pid of
        None \<Rightarrow> [] | Some old \<Rightarrow> [DropRequest old])"

text \<open>
  The handler from the first to the second half of its body: the sessions a call is about, and
  what becomes of the call. \<open>new_address\<close> gives the address of the server of a new temporary
  session.
\<close>

definition reauthentication_sessions ::
  "session_view \<Rightarrow> string \<Rightarrow> int \<Rightarrow> sender_details \<Rightarrow> world \<Rightarrow> reauth \<Rightarrow>
     nat option \<times> nat option \<times> reauth" where
  "reauthentication_sessions V user caller_pid details w r =
     (if sd_is_login_screen details
      then (find_session_for_user V (Some user) None w,
            get_user_session_for_display (sd_display details) w,
            case sd_display details of
              None \<Rightarrow> r
            | Some p \<Rightarrow> r\<lparr>reauth_pid_of_caller := (reauth_pid_of_caller r)(p := caller_pid)\<rparr>)
      else (get_user_session_for_display (sd_display details) w, None, r))"

definition choose_reauthentication_channel ::
  "session_view \<Rightarrow> cgroup_env \<Rightarrow> (nat \<Rightarrow> cstr) \<Rightarrow> nat \<Rightarrow> sender_details \<Rightarrow> int \<Rightarrow> u32 \<Rightarrow>
     nat option \<Rightarrow> nat option \<Rightarrow> reauth \<Rightarrow> reauth \<times> reauth_effect list" where
  "choose_reauthentication_channel V K new_address i details caller_pid caller sess login_session r =
     (if sess \<noteq> None \<and> login_session \<noteq> None \<and>
         \<not> are_sessions_compatible V (the sess) (the login_session)
      then (r, [ReauthDenied i ''Login session is not compatible with user session''])
      else if sess \<noteq> None \<and> sv_running V (the sess) \<and> \<not> gdm_session_is_frozen K (the sess)
      then (let (r, es) = insert_request caller_pid i r
            in (r, StartReauthenticationOn (the sess) caller_pid caller # es))
      else if \<not> (sess \<noteq> None \<and> sv_running V (the sess)) \<and> sd_is_login_screen details
      then (r, [ReauthDenied i
             ''Login screen only allowed to open reauthentication channels for running sessions''])
      else
        let (t, r) = open_temporary_reauthentication_channel
                       (if sd_is_login_screen details then sess else None)
                       (sd_seat details) (sd_session details) caller_pid caller (sd_is_remote details) r
        in (r, [ReauthAddress i (new_address t)]))"

definition gdm_manager_handle_open_reauthentication_channel ::
  "sysenv \<Rightarrow> busenv \<Rightarrow> session_view \<Rightarrow> cgroup_env \<Rightarrow> (nat \<Rightarrow> cstr) \<Rightarrow> nat \<Rightarrow> string \<Rightarrow> string \<Rightarrow>
     world \<Rightarrow> reauth \<Rightarrow> reauth \<times> reauth_effect list" where
  "gdm_manager_handle_open_reauthentication_channel E B V K new_address i sender user w r =
     (let details = get_display_and_details_for_bus_sender E B True sender w;
          caller_pid = (case sd_pid details of None \<Rightarrow> 0 | Some p \<Rightarrow> p);
          caller = (case sd_uid details of None \<Rightarrow> -1 | Some u \<Rightarrow> u)
      in if sd_session details = None \<or> caller_pid = 0 \<or> caller = -1
         then (r, [ReauthDenied i ''No session available''])
         else
           case reauthentication_sessions V user caller_pid details w r of
             (sess, login_session, r) \<Rightarrow>
               choose_reauthentication_channel V K new_address i details caller_pid caller
                 sess login_session r)"

text \<open>The worker of the user's session has opened its own channel.\<close>

definition on_session_reauthentication_started :: "int \<Rightarrow> string \<Rightarrow> reauth \<Rightarrow> reauth \<times> reauth_effect list" where
  "on_session_reauthentication_started pid_of_caller addr r =
     (case ght_lookup (open_reauthentication_requests r) pid_of_caller of
        None \<Rightarrow> (r, [])
      | Some i \<Rightarrow>
          (r\<lparr>open_reauthentication_requests := ght_remove pid_of_caller (open_reauthentication_requests r)\<rparr>,
           [ReauthAddress i (Some addr)]))"

section \<open>The reauthenticated session\<close>

definition lookup_by_reauth_pid :: "int \<Rightarrow> reauth \<Rightarrow> nat \<Rightarrow> bool" where
  "lookup_by_reauth_pid looking_for r p =
     (if looking_for = 0 \<or> reauth_pid_of_caller r p = 0 then False
      else looking_for = reauth_pid_of_caller r p)"

text \<open>
  On a remote login screen the remote identifier moves to the display of the session, which
  tells the remoting software to redirect its connection.
\<close>

definition transfer_remote_id :: "session_view \<Rightarrow> nat \<Rightarrow> nat \<Rightarrow> world \<Rightarrow> world" where
  "transfer_remote_id V s login_display w =
     (case Option.bind (heap w login_display) remote_id of
        None \<Rightarrow> w
      | Some rid \<Rightarrow>
          (case find_display (lookup_by_session_id (sv_session_id V s)) w of
             None \<Rightarrow> w
           | Some p \<Rightarrow>
               (case heap w p of
                  None \<Rightarrow> w
                | Some d \<Rightarrow>
                    if remote_id d = None then w else put_display p (d\<lparr>remote_id := Some rid\<rparr>) w)))"

definition on_session_reauthenticated ::
  "busenv \<Rightarrow> session_view \<Rightarrow> nat \<Rightarrow> int \<Rightarrow> reauth \<Rightarrow> world \<Rightarrow> world" where
  "on_session_reauthenticated B V s pid_of_caller r w =
     (let w = (case gdm_display_store_find (\<lambda>i. lookup_by_reauth_pid pid_of_caller r) (store w) of
                 None \<Rightarrow> w
               | Some p \<Rightarrow> transfer_remote_id V s p w)
      in snd (switch_to_compatible_user_session B V s False w))"

section \<open>Sequences of events\<close>

text \<open>
  Everything around the manager may differ from one event to the next, so an event carries it:
  what logind, the bus, the sessions and the control groups answer, and the state of the
  displays.
\<close>

datatype reauth_event =
    OpenChannel sysenv busenv session_view cgroup_env "nat \<Rightarrow> cstr" nat string string world
  | ReauthStarted int string
  | ReauthDisconnected nat
  | ReauthRejected "int \<Rightarrow> cstr" bool int nat
  | ReauthCancelled nat
  | ReauthVerified busenv session_view nat world

fun reauth_handle :: "reauth_event \<Rightarrow> reauth \<Rightarrow> reauth \<times> reauth_effect list" where
  "reauth_handle (OpenChannel E B V K a i sender user w) r =
     gdm_manager_handle_open_reauthentication_channel E B V K a i sender user w r"
| "reauth_handle (ReauthStarted p a) r = on_session_reauthentication_started p a r"
| "reauth_handle (ReauthDisconnected t) r = on_reauthentication_client_disconnected t r"
| "reauth_handle (ReauthRejected f c p t) r = on_reauthentication_client_rejected f c p t r"
| "reauth_handle (ReauthCancelled t) r = on_reauthentication_cancelled t r"
| "reauth_handle (ReauthVerified B V t w) r = fst (on_reauthentication_verification_complete B V t r w)"

fun reauth_run :: "reauth_event list \<Rightarrow> reauth \<Rightarrow> reauth \<times> reauth_effect list" where
  "reauth_run [] r = (r, [])"
| "reauth_run (e # es) r =
     (let (r, xs) = reauth_handle e r; (r, ys) = reauth_run es r in (r, xs @ ys))"

fun reauth_call :: "reauth_event \<Rightarrow> nat multiset" where
  "reauth_call (OpenChannel E B V K a i sender user w) = {#i#}"
| "reauth_call _ = {#}"

definition reauth_calls :: "reauth_event list \<Rightarrow> nat multiset" where
  "reauth_calls es = (\<Sum>e \<in># mset es. reauth_call e)"

fun reauth_answer :: "reauth_effect \<Rightarrow> nat multiset" where
  "reauth_answer (ReauthDenied i e) = {#i#}"
| "reauth_answer (ReauthAddress i a) = {#i#}"
| "reauth_answer _ = {#}"

fun reauth_drop :: "reauth_effect \<Rightarrow> nat multiset" where
  "reauth_drop (DropRequest i) = {#i#}"
| "reauth_drop _ = {#}"

definition reauth_answers :: "reauth_effect list \<Rightarrow> nat multiset" where
  "reauth_answers es = (\<Sum>e \<in># mset es. reauth_answer e)"

definition reauth_drops :: "reauth_effect list \<Rightarrow> nat multiset" where
  "reauth_drops es = (\<Sum>e \<in># mset es. reauth_drop e)"

definition reauth_waiting :: "reauth \<Rightarrow> nat multiset" where
  "reauth_waiting r = mset (map snd (open_reauthentication_requests r))"

lemma reauth_counts [simp]:
  "reauth_answers [] = {#}" "reauth_drops [] = {#}" "reauth_calls [] = {#}"
  "reauth_answers (x # xs) = reauth_answer x + reauth_answers xs"
  "reauth_drops (x # xs) = reauth_drop x + reauth_drops xs"
  "reauth_calls (e # es) = reauth_call e + reauth_calls es"
  "reauth_answers (xs @ ys) = reauth_answers xs + reauth_answers ys"
  "reauth_drops (xs @ ys) = reauth_drops xs + reauth_drops ys"
  by (simp_all add: reauth_answers_def reauth_drops_def reauth_calls_def)

text \<open>How the two tables lose a value.\<close>

lemma ght_insert_values:
  "ght_wf t \<Longrightarrow>
     mset (map snd (ght_insert k v t)) + (case ght_lookup t k of None \<Rightarrow> {#} | Some x \<Rightarrow> {#x#}) =
       {#v#} + mset (map snd t)"
  by (induction t) (auto simp: ght_insert_def ght_lookup_def ght_wf_def split: option.splits)

lemma ght_remove_values:
  "ght_wf t \<Longrightarrow>
     mset (map snd (ght_remove k t)) + (case ght_lookup t k of None \<Rightarrow> {#} | Some x \<Rightarrow> {#x#}) =
       mset (map snd t)"
proof (induction t)
  case (Cons p t)
  then show ?case
    by (cases p; cases "fst p = k")
       (auto simp: ght_remove_not_in ght_lookup_def ght_wf_def ght_remove_def AList.delete_eq
         filter_id_conv map_of_eq_None_iff [THEN iffD2] split: option.splits)
qed (simp add: ght_remove_def ght_lookup_def)

section \<open>The tables\<close>

text \<open>A temporary session exists exactly as long as the table holds it, under the process that asked.\<close>

definition owns :: "(int \<Rightarrow> nat option) \<Rightarrow> (nat \<Rightarrow> temporary_session option) \<Rightarrow> bool" where
  "owns table objects \<longleftrightarrow>
     (\<forall>t s. objects t = Some s \<longrightarrow> table (ts_caller_pid s) = Some t) \<and>
     (\<forall>k t. table k = Some t \<longrightarrow> (\<exists>s. objects t = Some s \<and> ts_caller_pid s = k))"

lemma owns_remove:
  assumes o: "owns L T" and k: "L k = Some t"
  shows "owns (L(k := None)) (T(t := None))"
  unfolding owns_def
proof (intro conjI allI impI)
  fix u s assume "(T(t := None)) u = Some s"
  then have "u \<noteq> t" "L (ts_caller_pid s) = Some u" using o by (auto simp: owns_def split: if_splits)
  with k show "(L(k := None)) (ts_caller_pid s) = Some u" by auto
next
  fix j u assume "(L(k := None)) j = Some u"
  then have j: "j \<noteq> k" "L j = Some u" by (auto split: if_splits)
  with o obtain s where s: "T u = Some s" "ts_caller_pid s = j" unfolding owns_def by blast
  from o k obtain s' where "T t = Some s'" "ts_caller_pid s' = k" unfolding owns_def by blast
  with s j(1) show "\<exists>s. (T(t := None)) u = Some s \<and> ts_caller_pid s = j" by auto
qed

lemma owns_new:
  assumes "owns L T" "T n = None" "L k = None" "ts_caller_pid s = k"
  shows "owns (L(k \<mapsto> n)) (T(n \<mapsto> s))"
  using assms by (fastforce simp: owns_def)

definition reauth_inv :: "reauth \<Rightarrow> bool" where
  "reauth_inv r \<longleftrightarrow>
     ght_wf (open_reauthentication_requests r) \<and> ght_wf (transient_sessions r) \<and>
     owns (ght_lookup (transient_sessions r)) (temporary r) \<and>
     (\<forall>t. temporary r t \<noteq> None \<longrightarrow> t < next_temporary r)"

lemma reauth_inv_init: "reauth_inv no_reauth"
  by (simp add: reauth_inv_def no_reauth_def ght.lookup_empty ght_wf_def owns_def)

definition reauth_step_ok :: "nat multiset \<Rightarrow> reauth \<Rightarrow> reauth \<times> reauth_effect list \<Rightarrow> bool" where
  "reauth_step_ok called r res \<longleftrightarrow>
     reauth_inv (fst res) \<and>
     called + reauth_waiting r = reauth_answers (snd res) + reauth_drops (snd res) + reauth_waiting (fst res)"

lemma close_transient_session_ok:
  assumes "reauth_inv r" "temporary r t = Some s"
  shows "reauth_step_ok {#} r (close_transient_session t s r)"
proof -
  have l: "ght_lookup (transient_sessions r) (ts_caller_pid s) = Some t"
    using assms by (simp add: reauth_inv_def owns_def)
  with assms show ?thesis
    by (auto simp: reauth_step_ok_def close_transient_session_def unref_transient_def reauth_inv_def
        reauth_waiting_def ght.lookup_remove ght.wf_remove owns_remove)
qed

lemma reauth_unchanged_ok: "reauth_inv r \<Longrightarrow> reauth_step_ok {#} r (r, [])"
  by (simp add: reauth_step_ok_def)

lemma owns_replace:
  assumes o: "owns L T" and n: "T n = None" "\<And>t. L k = Some t \<Longrightarrow> t \<noteq> n" and s: "ts_caller_pid s = k"
  shows "owns (L(k \<mapsto> n)) (case L k of None \<Rightarrow> T(n \<mapsto> s) | Some t \<Rightarrow> T(n \<mapsto> s, t := None))"
proof (cases "L k")
  case None
  with o n s show ?thesis by (simp add: owns_new)
next
  case (Some t)
  from owns_new [OF owns_remove [OF o Some], of n k s] n(1) s
  have "owns (L(k \<mapsto> n)) (T(t := None, n \<mapsto> s))" by simp
  with Some n(2) [OF Some] show ?thesis by (simp add: fun_upd_twist)
qed

lemma open_temporary_ok:
  assumes inv: "reauth_inv r"
    and t: "open_temporary_reauthentication_channel u st sid caller_pid caller remote r = (t, r')"
  shows "reauth_inv r' \<and> open_reauthentication_requests r' = open_reauthentication_requests r"
proof -
  have o: "owns (ght_lookup (transient_sessions r)) (temporary r)"
    and n: "temporary r (next_temporary r) = None"
    using inv by (force simp: reauth_inv_def)+
  then have "ght_lookup (transient_sessions r) caller_pid = Some t \<Longrightarrow> t \<noteq> next_temporary r" for t
    by (force simp: owns_def)
  from owns_replace [OF o n this, where s = "\<lparr>ts_allowed_user = caller, ts_seat = st,
      ts_is_local = (\<not> remote), caller_session_id = sid, ts_user_session = u, ts_caller_pid = caller_pid\<rparr>"]
  have "owns ((ght_lookup (transient_sessions r))(caller_pid \<mapsto> next_temporary r)) (temporary r')"
    using t by (auto simp: open_temporary_reauthentication_channel_def unref_transient_def Let_def
        split: option.splits)
  with inv t show ?thesis
    by (auto simp: open_temporary_reauthentication_channel_def unref_transient_def reauth_inv_def Let_def
        ght.lookup_insert ght.wf_insert less_Suc_eq split: option.splits if_splits)
qed

lemma insert_request_ok:
  assumes "reauth_inv r"
  shows "reauth_step_ok {#i#} r (insert_request caller_pid i r)"
  using assms ght_insert_values [of "open_reauthentication_requests r" caller_pid i]
  by (auto simp: reauth_step_ok_def insert_request_def reauth_inv_def reauth_waiting_def ght.wf_insert
      ac_simps split: option.splits)

lemma reauth_started_ok:
  assumes "reauth_inv r"
  shows "reauth_step_ok {#} r (on_session_reauthentication_started p a r)"
  using assms ght_remove_values [of "open_reauthentication_requests r" p]
  by (auto simp: reauth_step_ok_def on_session_reauthentication_started_def reauth_inv_def
      reauth_waiting_def ght.wf_remove split: option.splits)

lemma choose_channel_ok:
  assumes inv: "reauth_inv r"
  shows "reauth_step_ok {#i#} r
    (choose_reauthentication_channel V K a i d caller_pid caller sess login r)"
proof -
  have "reauth_step_ok {#i#} r
      (let (r, es) = insert_request p i r in (r, StartReauthenticationOn x p c # es))" for p x c
    using insert_request_ok [OF inv, of i p] by (auto simp: reauth_step_ok_def split: prod.split)
  moreover have "reauth_step_ok {#i#} r
      (let (t, r) = open_temporary_reauthentication_channel u st sid p c rem r in (r, [ReauthAddress i (a t)]))"
    for u st sid p c rem
    using open_temporary_ok [OF inv] by (auto simp: reauth_step_ok_def reauth_waiting_def split: prod.split)
  moreover have "reauth_step_ok {#i#} r (r, [ReauthDenied i e])" for e
    using inv by (simp add: reauth_step_ok_def)
  ultimately show ?thesis
    by (simp add: choose_reauthentication_channel_def del: not_None_eq)
qed

lemma open_channel_ok:
  assumes inv: "reauth_inv r"
  shows "reauth_step_ok {#i#} r
    (gdm_manager_handle_open_reauthentication_channel E B V K a i sender user w r)"
proof -
  have "reauth_inv q \<and> reauth_waiting q = reauth_waiting r"
    if "reauthentication_sessions V user p d w r = (x, y, q)" for p d x y q
    using that inv
    by (auto simp: reauthentication_sessions_def reauth_inv_def reauth_waiting_def
        split: if_splits option.splits)
  moreover have "reauth_step_ok {#i#} r (r, [ReauthDenied i e])" for e
    using inv by (simp add: reauth_step_ok_def)
  ultimately show ?thesis
    using choose_channel_ok
    by (simp add: gdm_manager_handle_open_reauthentication_channel_def Let_def reauth_step_ok_def
        split: prod.split)
qed

lemma reauth_handle_ok:
  assumes "reauth_inv r"
  shows "reauth_step_ok (reauth_call e) r (reauth_handle e r)"
  using assms
  by (cases e)
     (auto simp: open_channel_ok reauth_started_ok reauth_unchanged_ok close_transient_session_ok
        on_reauthentication_client_disconnected_def on_reauthentication_cancelled_def
        on_reauthentication_client_rejected_def on_reauthentication_verification_complete_def
      split: option.split)

lemma reauth_run_ok:
  "reauth_inv r \<Longrightarrow> reauth_step_ok (reauth_calls es) r (reauth_run es r)"
proof (induction es arbitrary: r)
  case Nil
  then show ?case by (simp add: reauth_unchanged_ok)
next
  case (Cons e es)
  obtain r1 xs where 1: "reauth_handle e r = (r1, xs)" by fastforce
  obtain r2 ys where 2: "reauth_run es r1 = (r2, ys)" by fastforce
  from reauth_handle_ok [OF Cons.prems, of e] have s: "reauth_step_ok (reauth_call e) r (r1, xs)" by (simp add: 1)
  then have "reauth_inv r1" by (simp add: reauth_step_ok_def)
  from Cons.IH [OF this] s 1 2 show ?case
    by (auto simp: reauth_step_ok_def ac_simps) (metis (no_types) union_assoc union_commute)
qed

section \<open>Properties\<close>


lemma find_session_for_user_loop_Some:
  "find_session_for_user_loop V user skip ss = Some s \<Longrightarrow>
     s \<in> set ss \<and> sv_running V s \<and> sv_username V s = user"
  by (induction ss) (auto split: if_splits)

lemma channel_of_login_screen:
  assumes "sd_is_login_screen d"
    and "choose_reauthentication_channel V K a i d p c sess login r = (r', effects)"
    and "\<forall>e. ReauthDenied i e \<notin> set effects"
  shows "sess \<noteq> None \<and> sv_running V (the sess) \<and>
    (login \<noteq> None \<longrightarrow> are_sessions_compatible V (the sess) (the login))"
  using assms
  by (auto simp: choose_reauthentication_channel_def split: if_splits)

text \<open>
  C28. A login screen opens channels only for sessions it may switch to. When
  \<^verbatim>\<open>OpenReauthenticationChannel\<close> does not deny a call of a login screen, the user the call
  names has a running session among the sessions of the manager, and where the login screen has
  a session of its own, the two are on the same seat or both remote.
\<close>

theorem login_screen_needs_running_session:
  assumes "gdm_manager_handle_open_reauthentication_channel E B V K a i sender user w r = (r', effects)"
    and "\<forall>e. ReauthDenied i e \<notin> set effects"
    and "sd_is_login_screen (get_display_and_details_for_bus_sender E B True sender w)"
  shows "\<exists>s \<in> set (user_sessions w). sv_running V s \<and> sv_username V s = Some user \<and>
    (case get_user_session_for_display
            (sd_display (get_display_and_details_for_bus_sender E B True sender w)) w of
       None \<Rightarrow> True
     | Some l \<Rightarrow> sv_display_is_local V s = sv_display_is_local V l \<and>
                 (sv_display_is_local V s \<longrightarrow> sv_seat V s = sv_seat V l))"
proof -
  let ?d = "get_display_and_details_for_bus_sender E B True sender w"
  let ?l = "get_user_session_for_display (sd_display ?d) w"
  obtain p c q where q: "choose_reauthentication_channel V K a i ?d p c
      (find_session_for_user V (Some user) None w) ?l q = (r', effects)"
    using assms
    by (auto simp: gdm_manager_handle_open_reauthentication_channel_def reauthentication_sessions_def
        Let_def split: if_splits)
  from channel_of_login_screen [OF assms(3) q assms(2)] obtain s where
    s: "find_session_for_user V (Some user) None w = Some s"
    and c: "?l \<noteq> None \<longrightarrow> are_sessions_compatible V s (the ?l)" by auto
  from find_session_for_user_loop_Some [OF s [unfolded find_session_for_user_def]] c show ?thesis
    by (intro bexI [of _ s]) (auto simp: are_sessions_compatible_def split: option.splits if_splits)
qed

definition demo_switch_world :: world where
  "demo_switch_world =
     (demo_world [StartManager, GreeterSignal 1 (GreeterOpened ''gdm-launch-environment'' ''c1'')])
       \<lparr>user_sessions := [7]\<rparr>"

definition demo_switch_view :: session_view where
  "demo_switch_view = demo_view\<lparr>sv_username := (\<lambda>s. Some ''alice''), sv_running := (\<lambda>s. s = 7)\<rparr>"

definition demo_cgroups :: cgroup_env where
  "demo_cgroups =
     \<lparr>leader_of_session = (\<lambda>s. 4000), cgroup_of = (\<lambda>p. Some ''/user.slice/c2''),
      events_of = (\<lambda>f. if f = ''/sys/fs/cgroup/user.slice/c2/cgroup.events''
                        then Some (''populated 1'' @ [CHR 0x0A] @ ''frozen 1'' @ [CHR 0x0A]) else None)\<rparr>"

theorem login_screen_needs_running_session_witness:
  "gdm_session_is_frozen demo_cgroups 7 \<and>
   snd (gdm_manager_handle_open_reauthentication_channel demo_env demo_bus demo_switch_view demo_cgroups
     (\<lambda>t. Some ''unix:abstract=/y'') 9 '':1.7'' ''alice'' demo_switch_world no_reauth) =
       [ReauthAddress 9 (Some ''unix:abstract=/y'')] \<and>
   (\<exists>s \<in> set (user_sessions demo_switch_world). sv_running demo_switch_view s)"
proof -
  let ?h = "gdm_manager_handle_open_reauthentication_channel demo_env demo_bus demo_switch_view demo_cgroups
     (\<lambda>t. Some ''unix:abstract=/y'') 9 '':1.7'' ''alice'' demo_switch_world no_reauth"
  have f: "gdm_session_is_frozen demo_cgroups 7" by code_simp
  have e: "snd ?h = [ReauthAddress 9 (Some ''unix:abstract=/y'')]" by code_simp
  have d: "\<forall>e. ReauthDenied 9 e \<notin> set (snd ?h)" by (simp add: e)
  have l: "sd_is_login_screen (get_display_and_details_for_bus_sender demo_env demo_bus True '':1.7''
      demo_switch_world)" by code_simp
  from login_screen_needs_running_session [OF surjective_pairing d l] f e show ?thesis by blast
qed

end
