(* ===== verification/Pam_Extensions.thy ===== *)
theory Pam_Extensions
  imports Gdm_Prelude
begin

text \<open>
  The registry of PAM message extensions
  (\<^verbatim>\<open>pam-extensions/gdm-pam-extensions-common.h\<close>): the worker advertises the
  extensions its client supports in an environment variable, a PAM module looks the number of
  an extension up there, and the worker maps the number of a message back to the name. The
  theorem of this theory is the round trip between the two sides.
\<close>

section \<open>The two sides of the registry\<close>

definition UCHAR_MAX :: nat where
  "UCHAR_MAX = 255"

text \<open>\<^verbatim>\<open>_POSIX_ARG_MAX\<close>, the size of the worker's environment block.\<close>

definition block_size :: nat where
  "block_size = 4096"

definition ext_env_name :: string where
  "ext_env_name = ''GDM_SUPPORTED_PAM_EXTENSIONS''"

definition GDM_PAM_EXTENSION_CHOICE_LIST :: string where
  "GDM_PAM_EXTENSION_CHOICE_LIST = ''org.gnome.DisplayManager.UserVerifier.ChoiceList''"

definition GDM_PAM_EXTENSION_CUSTOM_JSON :: string where
  "GDM_PAM_EXTENSION_CUSTOM_JSON = ''org.gnome.DisplayManager.UserVerifier.CustomJSON''"

definition gdm_supported_pam_extensions :: "string list" where
  "gdm_supported_pam_extensions = [GDM_PAM_EXTENSION_CHOICE_LIST, GDM_PAM_EXTENSION_CUSTOM_JSON]"

text \<open>\<^verbatim>\<open>filter_extensions\<close>: the supported ones among the names the client sent.\<close>

definition filter_extensions :: "string list \<Rightarrow> string list" where
  "filter_extensions extensions =
     filter (\<lambda>e. \<exists>s \<in> set gdm_supported_pam_extensions. e = s) extensions"

text \<open>
  The first loop of \<^verbatim>\<open>GDM_PAM_EXTENSION_ADVERTISE_SUPPORTED_EXTENSIONS\<close> counts the
  extensions that fit: \<open>sz\<close> is the length so far, \<open>t\<close> the number of them.
\<close>

fun num_chunks :: "nat \<Rightarrow> nat \<Rightarrow> string list \<Rightarrow> nat" where
  "num_chunks sz t [] = t"
| "num_chunks sz t (e # es) =
     (if t < UCHAR_MAX then
        (let next_chunk = length e + 1
         in if sz + next_chunk \<ge> block_size then t
            else num_chunks (sz + next_chunk) (t + 1) es)
      else t)"

fun join_extensions :: "string list \<Rightarrow> string" where
  "join_extensions [] = []"
| "join_extensions [e] = e"
| "join_extensions (e # es) = e @ '' '' @ join_extensions es"

text \<open>
  The value of the variable afterwards; when nothing is advertised the environment is left as
  it was (\<open>env\<close>).
\<close>

definition advertise_supported_extensions :: "cstr \<Rightarrow> string list \<Rightarrow> cstr" where
  "advertise_supported_extensions env es =
     (let n = num_chunks (length ext_env_name) 0 es
      in if n \<noteq> 0 then Some (join_extensions (take n es)) else env)"

definition not_space :: "char \<Rightarrow> bool" where
  "not_space c = (c \<noteq> CHR '' '')"

text \<open>
  One turn of the loops over the variable: \<^verbatim>\<open>strcspn (_p, " ")\<close> and
  \<^verbatim>\<open>strspn (_p, " ")\<close>.
\<close>

definition skip_token :: "string \<Rightarrow> string" where
  "skip_token p = dropWhile (\<lambda>c. c = CHR '' '') (dropWhile not_space p)"

lemma length_skip_token [termination_simp]: "p \<noteq> [] \<Longrightarrow> length (skip_token p) < length p"
proof (cases p)
  case (Cons c cs)
  have "length (dropWhile Q (dropWhile P cs)) \<le> length cs" for P Q :: "char \<Rightarrow> bool"
    by (meson le_trans length_dropWhile_le)
  moreover have "length (dropWhile Q cs) \<le> length cs" for Q
    by (rule length_dropWhile_le)
  ultimately show ?thesis using Cons by (auto simp: skip_token_def not_space_def less_Suc_eq_le)
qed simp

text \<open>
  \<^verbatim>\<open>strncmp (_p, name, _length) == 0\<close> for a token of \<open>_length\<close> characters at
  \<open>_p\<close>: the token is a prefix of \<open>name\<close>.
\<close>

definition token_matches :: "string \<Rightarrow> string \<Rightarrow> bool" where
  "token_matches p name =
     (let tok = takeWhile not_space p in take (length tok) name = tok)"

function look_up_type_loop :: "string \<Rightarrow> nat \<Rightarrow> string \<Rightarrow> nat option" where
  "look_up_type_loop name t p =
     (if p = [] then None
      else if token_matches p name then Some t
      else let p' = skip_token p
           in if t \<ge> UCHAR_MAX then None
              else look_up_type_loop name (t + 1) p')"
  by pat_completeness auto
termination
  by (relation "measure (\<lambda>(_, _, p). length p)") (auto intro: length_skip_token)

definition look_up_type :: "cstr \<Rightarrow> string \<Rightarrow> nat option" where
  "look_up_type env name =
     (case env of None \<Rightarrow> None | Some p \<Rightarrow> look_up_type_loop name 0 p)"

text \<open>\<open>n\<close> is \<^verbatim>\<open>_n + 1\<close>: the number of tokens seen.\<close>

function count_types :: "nat \<Rightarrow> string \<Rightarrow> nat" where
  "count_types n p =
     (if p = [] \<or> n > UCHAR_MAX then n
      else count_types (if takeWhile not_space p \<noteq> [] then n + 1 else n) (skip_token p))"
  by pat_completeness auto
termination
  by (relation "measure (\<lambda>(_, p). length p)") (auto intro: length_skip_token)

definition invalid_type :: "cstr \<Rightarrow> nat \<Rightarrow> bool" where
  "invalid_type env ty =
     (case env of None \<Rightarrow> True
      | Some p \<Rightarrow> \<not> (int (count_types 0 p) - 1 \<ge> int ty))"

text \<open>
  \<^verbatim>\<open>strcmp (supported_extensions[msg->type], name) == 0\<close>; \<open>None\<close> when the pointer is
  \<open>NULL\<close>, the end marker is compared or the index is outside of the array.
\<close>

definition message_match :: "string list option \<Rightarrow> nat \<Rightarrow> string \<Rightarrow> bool option" where
  "message_match exts ty name =
     (case exts of None \<Rightarrow> None
      | Some es \<Rightarrow> if ty < length es then Some (es ! ty = name) else None)"

declare look_up_type_loop.simps [simp del] count_types.simps [simp del]

section \<open>The variable as a list of tokens\<close>

text \<open>A token: what the loops over the variable read back unchanged.\<close>

definition token :: "string \<Rightarrow> bool" where
  "token e \<longleftrightarrow> e \<noteq> [] \<and> (\<forall>c \<in> set e. not_space c)"

lemma token_hd: "token e \<Longrightarrow> \<exists>c cs. e = c # cs \<and> not_space c"
  by (cases e) (auto simp: token_def)

lemma join_extensions_Cons:
  "join_extensions (e # es) = e @ (if es = [] then [] else '' '' @ join_extensions es)"
  by (cases es) auto

lemma join_extensions_eq_Nil [simp]: "\<forall>e \<in> set es. token e \<Longrightarrow> join_extensions es = [] \<longleftrightarrow> es = []"
  by (cases es) (auto simp: join_extensions_Cons token_def)

lemma takeWhile_join [simp]:
  "token e \<Longrightarrow> takeWhile not_space (join_extensions (e # es)) = e"
  by (auto simp: join_extensions_Cons token_def takeWhile_append not_space_def)

lemma dropWhile_join:
  "\<forall>e \<in> set es. token e \<Longrightarrow>
     dropWhile (\<lambda>c. c = CHR '' '') (join_extensions es) = join_extensions es"
  by (cases es) (auto simp: join_extensions_Cons not_space_def dest!: token_hd)

lemma skip_token_join [simp]:
  "token e \<Longrightarrow> \<forall>e \<in> set es. token e \<Longrightarrow> skip_token (join_extensions (e # es)) = join_extensions es"
  by (auto simp: skip_token_def join_extensions_Cons dropWhile_append token_def dropWhile_join
      not_space_def)

text \<open>Counting stops after 256 tokens, more than are ever advertised.\<close>

lemma count_types_join:
  "\<forall>e \<in> set es. token e \<Longrightarrow> k + length es \<le> Suc UCHAR_MAX \<Longrightarrow>
     count_types k (join_extensions es) = k + length es"
proof (induction es arbitrary: k)
  case (Cons e es)
  then show ?case
    by (subst count_types.simps) (auto simp: token_def)
qed (simp add: count_types.simps)

lemma look_up_type_join:
  assumes "\<forall>e \<in> set es. token e" "\<forall>e \<in> set es. take (length e) name = e \<longrightarrow> e = name"
    and "k + length es \<le> Suc UCHAR_MAX"
  shows "look_up_type_loop name k (join_extensions es) =
           (if name \<in> set es then Some (k + length (takeWhile (\<lambda>e. e \<noteq> name) es)) else None)"
  using assms
proof (induction es arbitrary: k)
  case (Cons e es)
  have m: "token_matches (join_extensions (e # es)) name \<longleftrightarrow> e = name"
    using Cons.prems by (auto simp: token_matches_def)
  have "UCHAR_MAX \<le> k \<Longrightarrow> es = []" using Cons.prems(3) by (cases es) auto
  then show ?case
    using Cons.prems Cons.IH [of "k + 1"] m
    by (subst look_up_type_loop.simps) (auto simp: token_def Let_def)
qed (simp add: look_up_type_loop.simps)

lemma num_chunks_bounds:
  "t \<le> UCHAR_MAX \<Longrightarrow> num_chunks sz t es \<le> UCHAR_MAX \<and> num_chunks sz t es \<le> t + length es \<and> t \<le> num_chunks sz t es"
  by (induction sz t es rule: num_chunks.induct) (force simp: Let_def)+

lemma supported_extension:
  assumes "e \<in> set gdm_supported_pam_extensions"
  shows "token e" and "length ext_env_name + (length e + 1) < block_size"
    and "\<And>name. name \<in> set gdm_supported_pam_extensions \<Longrightarrow> take (length e) name = e \<Longrightarrow> e = name"
  using assms
  by (auto simp: gdm_supported_pam_extensions_def GDM_PAM_EXTENSION_CHOICE_LIST_def
      GDM_PAM_EXTENSION_CUSTOM_JSON_def token_def not_space_def ext_env_name_def block_size_def)

lemma filter_extensions_supported: "e \<in> set (filter_extensions xs) \<Longrightarrow> e \<in> set gdm_supported_pam_extensions"
  by (auto simp: filter_extensions_def)

lemma advertise_filtered:
  fixes xs :: "string list"
  defines "es \<equiv> filter_extensions xs"
  defines "n \<equiv> num_chunks (length ext_env_name) 0 es"
  shows "n \<le> length es" and "n \<le> UCHAR_MAX" and "es \<noteq> [] \<Longrightarrow> 0 < n"
    and "es \<noteq> [] \<Longrightarrow> advertise_supported_extensions env es = Some (join_extensions (take n es))"
proof -
  show le: "n \<le> length es" "n \<le> UCHAR_MAX"
    using num_chunks_bounds [of 0 "length ext_env_name" es] by (auto simp: n_def)
  show pos: "0 < n" if "es \<noteq> []"
  proof -
    obtain e es' where e: "es = e # es'" using \<open>es \<noteq> []\<close> by (cases es) auto
    then have "e \<in> set gdm_supported_pam_extensions"
      using filter_extensions_supported [of e xs] by (simp add: es_def)
    from supported_extension(2) [OF this] show ?thesis
      using num_chunks_bounds [of 1 "length ext_env_name + (length e + 1)" es']
      by (simp add: n_def e UCHAR_MAX_def)
  qed
  show "advertise_supported_extensions env es = Some (join_extensions (take n es))" if "es \<noteq> []"
    using pos [OF that] by (simp add: advertise_supported_extensions_def n_def Let_def)
qed

text \<open>
  C16. The PAM extension registry is a round trip. When the client of a worker supports at least
  one extension: the number that a PAM module finds for a supported extension name in the
  advertised variable is a valid index into the worker's array, the worker maps it back to
  exactly that name, and the message type passes the worker's validity check; every type that
  passes the check is an index into the array (the comparison never reads outside of it); and
  an extension is found exactly when it is among those that fit into the environment block.
\<close>

theorem extension_registry_roundtrip:
  fixes xs :: "string list"
  defines "es \<equiv> filter_extensions xs"
  assumes "es \<noteq> []" "name \<in> set gdm_supported_pam_extensions"
  shows "(\<forall>t. look_up_type (advertise_supported_extensions env es) name = Some t \<longrightarrow>
            message_match (Some es) t name = Some True \<and>
            \<not> invalid_type (advertise_supported_extensions env es) t) \<and>
         (\<forall>t. \<not> invalid_type (advertise_supported_extensions env es) t \<longrightarrow>
            message_match (Some es) t name \<noteq> None) \<and>
         (look_up_type (advertise_supported_extensions env es) name \<noteq> None \<longleftrightarrow>
            name \<in> set (take (num_chunks (length ext_env_name) 0 es) es))"
proof -
  define n where "n = num_chunks (length ext_env_name) 0 es"
  define ts where "ts = take n es"
  have n: "n \<le> length es" "n \<le> UCHAR_MAX" "0 < n"
    and adv: "advertise_supported_extensions env es = Some (join_extensions ts)"
    using advertise_filtered [of xs] \<open>es \<noteq> []\<close> by (simp_all add: es_def n_def ts_def)
  have "e \<in> set gdm_supported_pam_extensions" if "e \<in> set ts" for e
    using that filter_extensions_supported [of e xs] by (auto simp: ts_def es_def dest: in_set_takeD)
  then have tok: "\<forall>e \<in> set ts. token e" and pre: "\<forall>e \<in> set ts. take (length e) name = e \<longrightarrow> e = name"
    using supported_extension \<open>name \<in> _\<close> by blast+
  have len: "length ts = n" using n(1) by (simp add: ts_def)
  have look: "look_up_type (Some (join_extensions ts)) name =
      (if name \<in> set ts then Some (length (takeWhile (\<lambda>e. e \<noteq> name) ts)) else None)"
    using look_up_type_join [OF tok pre, of 0] n(2) by (simp add: look_up_type_def len)
  have inval: "invalid_type (Some (join_extensions ts)) t \<longleftrightarrow> \<not> t < n" for t
    using count_types_join [OF tok, of 0] n(2) by (auto simp: invalid_type_def len)
  have found: "t < n \<and> es ! t = name"
    if "look_up_type (Some (join_extensions ts)) name = Some t" for t
  proof -
    from that have t: "name \<in> set ts" "t = length (takeWhile (\<lambda>e. e \<noteq> name) ts)"
      by (simp_all add: look split: if_splits)
    then have "t < length ts" by (metis (mono_tags, lifting) length_takeWhile_le
          le_neq_implies_less takeWhile_eq_all_conv takeWhile_eq_take take_all order_refl)
    moreover from this have "ts ! t = name" using t(2) nth_length_takeWhile by blast
    ultimately show ?thesis by (auto simp: len ts_def)
  qed
  have known: "look_up_type (Some (join_extensions ts)) name \<noteq> None \<longleftrightarrow> name \<in> set ts"
    by (simp add: look)
  show ?thesis
    using found n(1) known unfolding adv n_def [symmetric] ts_def [symmetric]
    by (auto simp: inval message_match_def)
qed

theorem extension_registry_roundtrip_witness:
  "look_up_type (advertise_supported_extensions None
      (filter_extensions [''unknown'', GDM_PAM_EXTENSION_CUSTOM_JSON, GDM_PAM_EXTENSION_CHOICE_LIST]))
      GDM_PAM_EXTENSION_CHOICE_LIST = Some 1 \<and>
   message_match (Some (filter_extensions
      [''unknown'', GDM_PAM_EXTENSION_CUSTOM_JSON, GDM_PAM_EXTENSION_CHOICE_LIST])) 1
      GDM_PAM_EXTENSION_CHOICE_LIST = Some True"
proof -
  let ?xs = "[''unknown'', GDM_PAM_EXTENSION_CUSTOM_JSON, GDM_PAM_EXTENSION_CHOICE_LIST]"
  have l: "look_up_type (advertise_supported_extensions None (filter_extensions ?xs))
      GDM_PAM_EXTENSION_CHOICE_LIST = Some 1"
    by code_simp
  have "filter_extensions ?xs \<noteq> []" by code_simp
  moreover have "GDM_PAM_EXTENSION_CHOICE_LIST \<in> set gdm_supported_pam_extensions" by code_simp
  ultimately show ?thesis
    using extension_registry_roundtrip [of ?xs GDM_PAM_EXTENSION_CHOICE_LIST None] l by blast
qed

end
