(* ===== verification/Session_Settings.thy ===== *)
theory Session_Settings
  imports Gdm_Prelude
begin

text \<open>
  The settings of a user as a session worker keeps them
  (\<^verbatim>\<open>daemon/gdm-session-settings.c\<close>): they come from the AccountsService, possibly
  later than they are asked for, and go back there when the session is opened. The
  AccountsService is a parameter: \<open>get_user\<close> is \<^verbatim>\<open>act_user_manager_get_user\<close>.
\<close>

record act_user =
  act_user_name :: string
  act_user_is_loaded :: bool
  act_user_session_type :: cstr
  act_user_session :: cstr
  act_user_language :: cstr
  act_user_is_local_account :: bool

text \<open>\<open>ss_watching\<close>: \<^verbatim>\<open>on_user_is_loaded_changed\<close> is connected to \<open>ss_user\<close>.\<close>

record session_settings =
  ss_user :: "act_user option"
  ss_session_name :: cstr
  ss_session_type :: cstr
  ss_language_name :: cstr
  ss_watching :: bool

text \<open>The property notifications, with the value their handlers read.\<close>

datatype ss_notify =
    NotifyLanguageName cstr
  | NotifySessionName cstr
  | NotifySessionType cstr
  | NotifyIsLoaded

type_synonym settings_result = "session_settings \<times> ss_notify list"

definition gdm_session_settings_new :: session_settings where
  "gdm_session_settings_new =
     \<lparr>ss_user = None, ss_session_name = None, ss_session_type = None, ss_language_name = None,
      ss_watching = False\<rparr>"

definition gdm_session_settings_set_language_name ::
  "cstr \<Rightarrow> session_settings \<Rightarrow> settings_result" where
  "gdm_session_settings_set_language_name language_name st =
     (if ss_language_name st = None \<or> ss_language_name st \<noteq> language_name
      then (st\<lparr>ss_language_name := language_name\<rparr>, [NotifyLanguageName language_name])
      else (st, []))"

definition gdm_session_settings_set_session_name ::
  "cstr \<Rightarrow> session_settings \<Rightarrow> settings_result" where
  "gdm_session_settings_set_session_name session_name st =
     (if ss_session_name st = None \<or> ss_session_name st \<noteq> session_name
      then (st\<lparr>ss_session_name := session_name\<rparr>, [NotifySessionName session_name])
      else (st, []))"

definition gdm_session_settings_set_session_type ::
  "cstr \<Rightarrow> session_settings \<Rightarrow> settings_result" where
  "gdm_session_settings_set_session_type session_type st =
     (if ss_session_type st = None \<or> ss_session_type st \<noteq> session_type
      then (st\<lparr>ss_session_type := session_type\<rparr>, [NotifySessionType session_type])
      else (st, []))"

definition gdm_session_settings_is_loaded :: "session_settings \<Rightarrow> bool" where
  "gdm_session_settings_is_loaded st =
     (case ss_user st of None \<Rightarrow> False | Some u \<Rightarrow> act_user_is_loaded u)"

definition nonempty :: "cstr \<Rightarrow> bool" where
  "nonempty s = (s \<noteq> None \<and> s \<noteq> Some [])"

definition and_then :: "settings_result \<Rightarrow> (session_settings \<Rightarrow> settings_result) \<Rightarrow> settings_result" where
  "and_then r f = (let (st, ns) = r; (st', ns') = f st in (st', ns @ ns'))"

definition load_settings_from_user :: "act_user \<Rightarrow> session_settings \<Rightarrow> settings_result" where
  "load_settings_from_user u st =
     (if \<not> act_user_is_loaded u then (st, [])
      else
        let r1 = (if nonempty (act_user_session_type u)
                  then gdm_session_settings_set_session_type (act_user_session_type u) st
                  else (st, []));
            r2 = (if nonempty (act_user_session u)
                  then and_then r1 (gdm_session_settings_set_session_name (act_user_session u))
                  else r1);
            r3 = (if nonempty (act_user_language u)
                  then and_then r2 (gdm_session_settings_set_language_name (act_user_language u))
                  else r2)
        in and_then r3 (\<lambda>st. (st, [NotifyIsLoaded])))"

text \<open>
  The user object of the settings changes (\<^verbatim>\<open>notify::is-loaded\<close> of the
  AccountsService): \<open>u\<close> is its new contents.
\<close>

definition on_user_is_loaded_changed :: "act_user \<Rightarrow> session_settings \<Rightarrow> settings_result" where
  "on_user_is_loaded_changed u st =
     (let st = st\<lparr>ss_user := Some u\<rparr>
      in if ss_watching st \<and> act_user_is_loaded u
         then and_then (load_settings_from_user u st) (\<lambda>st. (st\<lparr>ss_watching := False\<rparr>, []))
         else (st, []))"

definition gdm_session_settings_load ::
  "(string \<Rightarrow> act_user) \<Rightarrow> cstr \<Rightarrow> session_settings \<Rightarrow> settings_result \<times> bool" where
  "gdm_session_settings_load get_user username st =
     (case username of None \<Rightarrow> ((st, []), False)
      | Some name \<Rightarrow>
          if gdm_session_settings_is_loaded st then ((st, []), False)
          else
            let u = get_user name; st = st\<lparr>ss_user := Some u, ss_watching := False\<rparr>
            in if \<not> act_user_is_loaded u then ((st\<lparr>ss_watching := True\<rparr>, []), False)
               else (load_settings_from_user u st, True))"

text \<open>What a save writes to the AccountsService.\<close>

datatype act_call =
    ActSetSession string cstr
  | ActSetSessionType string cstr
  | ActSetLanguage string cstr
  | ActCacheUser string

definition gdm_session_settings_save ::
  "(string \<Rightarrow> act_user) \<Rightarrow> bool \<Rightarrow> cstr \<Rightarrow> session_settings \<Rightarrow> act_call list \<times> bool" where
  "gdm_session_settings_save get_user cache_ok username st =
     (case username of None \<Rightarrow> ([], False)
      | Some name \<Rightarrow>
          if \<not> gdm_session_settings_is_loaded st then ([], False)
          else
            let u = get_user name
            in if \<not> act_user_is_loaded u then ([], False)
               else
                 let calls =
                   (if ss_session_name st \<noteq> None then [ActSetSession name (ss_session_name st)] else []) @
                   (if ss_session_type st \<noteq> None then [ActSetSessionType name (ss_session_type st)] else []) @
                   (if ss_language_name st \<noteq> None then [ActSetLanguage name (ss_language_name st)] else [])
                 in if act_user_is_local_account u then (calls, True)
                    else (calls @ [ActCacheUser name], cache_ok))"

lemmas settings_defs = gdm_session_settings_set_language_name_def
  gdm_session_settings_set_session_name_def gdm_session_settings_set_session_type_def
  load_settings_from_user_def and_then_def

section \<open>Properties\<close>

lemma load_settings_is_loaded:
  "act_user_is_loaded u \<Longrightarrow> ss_user st = Some u \<Longrightarrow>
     gdm_session_settings_is_loaded (fst (load_settings_from_user u st)) \<and>
     last (snd (load_settings_from_user u st)) = NotifyIsLoaded \<and>
     ss_user (fst (load_settings_from_user u st)) = Some u \<and>
     ss_watching (fst (load_settings_from_user u st)) = ss_watching st"
  by (auto simp: settings_defs gdm_session_settings_is_loaded_def Let_def)

lemma load_settings_fields:
  assumes "act_user_is_loaded u"
  shows "ss_session_type (fst (load_settings_from_user u st)) =
           (if nonempty (act_user_session_type u) then act_user_session_type u else ss_session_type st)"
    and "ss_session_name (fst (load_settings_from_user u st)) =
           (if nonempty (act_user_session u) then act_user_session u else ss_session_name st)"
    and "ss_language_name (fst (load_settings_from_user u st)) =
           (if nonempty (act_user_language u) then act_user_language u else ss_language_name st)"
  using assms by (auto simp: settings_defs Let_def)

text \<open>Where the settings come from plays no role in what is read.\<close>

definition rehome :: "act_user option \<Rightarrow> bool \<Rightarrow> settings_result \<Rightarrow> settings_result" where
  "rehome a b r = ((fst r)\<lparr>ss_user := a, ss_watching := b\<rparr>, snd r)"

lemma rehome_set:
  "gdm_session_settings_set_language_name v (st\<lparr>ss_user := a, ss_watching := b\<rparr>) =
     rehome a b (gdm_session_settings_set_language_name v st)"
  "gdm_session_settings_set_session_name v (st\<lparr>ss_user := a, ss_watching := b\<rparr>) =
     rehome a b (gdm_session_settings_set_session_name v st)"
  "gdm_session_settings_set_session_type v (st\<lparr>ss_user := a, ss_watching := b\<rparr>) =
     rehome a b (gdm_session_settings_set_session_type v st)"
  by (auto simp: settings_defs rehome_def)

lemma rehome_and_then:
  assumes "\<And>st. f (st\<lparr>ss_user := a, ss_watching := b\<rparr>) = rehome a b (f st)"
  shows "and_then (rehome a b r) f = rehome a b (and_then r f)"
  using assms by (simp add: and_then_def rehome_def case_prod_beta Let_def)

lemma load_settings_source:
  "load_settings_from_user u (st\<lparr>ss_user := a, ss_watching := b\<rparr>) =
     rehome a b (load_settings_from_user u st)"
proof -
  have start: "(st\<lparr>ss_user := a, ss_watching := b\<rparr>, ns) = rehome a b (st, ns)" for ns
    by (simp add: rehome_def)
  have notify: "and_then (rehome a b r) (\<lambda>st. (st, [NotifyIsLoaded])) =
      rehome a b (and_then r (\<lambda>st. (st, [NotifyIsLoaded])))" for r
    by (simp add: and_then_def rehome_def case_prod_beta Let_def)
  show ?thesis
    by (simp add: load_settings_from_user_def Let_def rehome_set start notify rehome_and_then
        if_distrib [of "rehome a b", symmetric] cong: if_cong)
qed

lemma on_user_is_loaded_changed_eq:
  "act_user_is_loaded u \<Longrightarrow>
     on_user_is_loaded_changed u (st\<lparr>ss_user := a, ss_watching := True\<rparr>) =
       (let r = load_settings_from_user u st in ((fst r)\<lparr>ss_user := Some u, ss_watching := False\<rparr>, snd r))"
  using load_settings_source [where u = u and st = st and a = "Some u" and b = True]
  by (simp add: on_user_is_loaded_changed_def and_then_def rehome_def Let_def)
     (metis (no_types, lifting) session_settings.update_convs(1,5) case_prod_conv
       session_settings.surjective)

text \<open>
  C17. Loading and saving user settings. Asking for the settings of a user either finds the user
  loaded and then reads every non-empty setting and announces that the settings are loaded, or
  it answers that they will come later, without announcing anything; in this case the load
  happens when the user object reports that it is loaded, with the same settings, exactly once
  (a second report changes no setting and announces nothing). Saving the loaded settings of a
  local user unchanged writes back what the AccountsService had.
\<close>

theorem settings_load_save:
  assumes "\<not> gdm_session_settings_is_loaded st" "u = get_user name"
  defines "res \<equiv> gdm_session_settings_load get_user (Some name) st"
  shows "(snd res \<longleftrightarrow> act_user_is_loaded u) \<and>
         (act_user_is_loaded u \<longrightarrow>
            gdm_session_settings_is_loaded (fst (fst res)) \<and> last (snd (fst res)) = NotifyIsLoaded) \<and>
         (\<not> act_user_is_loaded u \<longrightarrow>
            snd (fst res) = [] \<and> \<not> gdm_session_settings_is_loaded (fst (fst res)) \<and>
            (\<forall>u'. act_user_is_loaded u' \<longrightarrow>
               (let r = on_user_is_loaded_changed u' (fst (fst res))
                in snd r = snd (load_settings_from_user u' st) \<and>
                   gdm_session_settings_is_loaded (fst r) \<and>
                   on_user_is_loaded_changed u' (fst r) = (fst r, [])))) \<and>
         (act_user_is_loaded u \<and> act_user_is_local_account u \<and>
            nonempty (act_user_session u) \<and> nonempty (act_user_session_type u) \<and>
            nonempty (act_user_language u) \<longrightarrow>
            gdm_session_settings_save get_user c (Some name) (fst (fst res)) =
              ([ActSetSession name (act_user_session u), ActSetSessionType name (act_user_session_type u),
                ActSetLanguage name (act_user_language u)], True))"
proof -
  have later: "let r = on_user_is_loaded_changed u' (st\<lparr>ss_user := Some u, ss_watching := True\<rparr>)
      in snd r = snd (load_settings_from_user u' st) \<and> gdm_session_settings_is_loaded (fst r) \<and>
         on_user_is_loaded_changed u' (fst r) = (fst r, [])" if "act_user_is_loaded u'" for u'
    using that
    by (simp add: on_user_is_loaded_changed_eq Let_def gdm_session_settings_is_loaded_def)
       (simp add: on_user_is_loaded_changed_def)
  show ?thesis
  proof (cases "act_user_is_loaded u")
    case True
    define s where "s = st\<lparr>ss_user := Some u, ss_watching := False\<rparr>"
    have res: "res = (load_settings_from_user u s, True)"
      using assms True by (simp add: gdm_session_settings_load_def Let_def s_def)
    have "ss_user s = Some u" by (simp add: s_def)
    with True res load_settings_is_loaded [OF True, of s] load_settings_fields [OF True, of s]
    show ?thesis
      using assms(2)
      by (auto simp: gdm_session_settings_save_def nonempty_def Let_def)
  next
    case False
    then have res: "res = ((st\<lparr>ss_user := Some u, ss_watching := True\<rparr>, []), False)"
      using assms by (simp add: gdm_session_settings_load_def Let_def)
    with False later show ?thesis by (auto simp: gdm_session_settings_is_loaded_def)
  qed
qed

definition demo_act_user :: "bool \<Rightarrow> act_user" where
  "demo_act_user loaded =
     \<lparr>act_user_name = ''ann'', act_user_is_loaded = loaded, act_user_session_type = Some ''wayland'',
      act_user_session = Some ''gnome'', act_user_language = Some ''C'',
      act_user_is_local_account = True\<rparr>"

theorem settings_load_save_witness:
  "gdm_session_settings_save (\<lambda>_. demo_act_user True) True (Some ''ann'')
     (fst (fst (gdm_session_settings_load (\<lambda>_. demo_act_user True) (Some ''ann'') gdm_session_settings_new))) =
   ([ActSetSession ''ann'' (Some ''gnome''), ActSetSessionType ''ann'' (Some ''wayland''),
     ActSetLanguage ''ann'' (Some ''C'')], True)"
  using settings_load_save [where st = gdm_session_settings_new and u = "demo_act_user True" and
      get_user = "\<lambda>_. demo_act_user True" and name = "''ann''" and c = True]
  by (simp add: gdm_session_settings_is_loaded_def gdm_session_settings_new_def demo_act_user_def nonempty_def)

end
