(* ===== verification/Session_Worker.thy ===== *)
theory Session_Worker
  imports Pam_Extensions Session_Settings
begin

text \<open>
  The session worker (\<^verbatim>\<open>daemon/gdm-session-worker.c\<close>): the process that talks to
  PAM on behalf of the daemon. Its D-Bus methods move it one state at a time from
  \<open>STATE_NONE\<close> to \<open>STATE_SESSION_STARTED\<close>.

  PAM, the kernel and the AccountsService are parameters (\<open>wenv\<close>): every answer of theirs
  may depend on everything the worker has done so far, which the worker's \<open>log\<close> records. A
  PAM operation is a finite interaction (\<open>pam_prog\<close>): its modules may call the worker's
  conversation function any number of times and choose what to do next by the replies.
\<close>

section \<open>Types\<close>

datatype worker_state =
    STATE_NONE
  | STATE_SETUP_COMPLETE
  | STATE_AUTHENTICATED
  | STATE_AUTHORIZED
  | STATE_ACCREDITED
  | STATE_ACCOUNT_DETAILS_SAVED
  | STATE_SESSION_OPENED
  | STATE_SESSION_STARTED

text \<open>The integer value of the C enumeration, which the code compares and adds one to.\<close>

primrec state_num :: "worker_state \<Rightarrow> nat" where
  "state_num STATE_NONE = 0"
| "state_num STATE_SETUP_COMPLETE = 1"
| "state_num STATE_AUTHENTICATED = 2"
| "state_num STATE_AUTHORIZED = 3"
| "state_num STATE_ACCREDITED = 4"
| "state_num STATE_ACCOUNT_DETAILS_SAVED = 5"
| "state_num STATE_SESSION_OPENED = 6"
| "state_num STATE_SESSION_STARTED = 7"

instantiation worker_state :: linorder
begin

definition less_eq_worker_state :: "worker_state \<Rightarrow> worker_state \<Rightarrow> bool" where
  "less_eq_worker_state a b = (state_num a \<le> state_num b)"

definition less_worker_state :: "worker_state \<Rightarrow> worker_state \<Rightarrow> bool" where
  "less_worker_state a b = (state_num a < state_num b)"

lemma state_num_inj: "state_num a = state_num b \<Longrightarrow> a = b"
  by (cases a; cases b) simp_all

instance
  by standard (auto simp: less_eq_worker_state_def less_worker_state_def dest: state_num_inj)

end

lemmas worker_state_order = less_eq_worker_state_def less_worker_state_def

datatype pam_code =
    PAM_SUCCESS
  | PAM_IGNORE
  | PAM_AUTH_ERR
  | PAM_USER_UNKNOWN
  | PAM_AUTHINFO_UNAVAIL
  | PAM_MODULE_UNKNOWN
  | PAM_MAXTRIES
  | PAM_NEW_AUTHTOK_REQD
  | PAM_ACCT_EXPIRED
  | PAM_AUTHTOK_EXPIRED
  | PAM_SYSTEM_ERR
  | PAM_ABORT
  | PAM_CONV_ERR
  | PAM_OTHER nat

datatype pam_item = PAM_USER_PROMPT | PAM_RHOST | PAM_TTY

datatype cred_flags = NO_CRED_FLAGS | PAM_ESTABLISH_CRED | PAM_REINITIALIZE_CRED | PAM_DELETE_CRED

text \<open>
  A binary message: its header, and what its payload reads as when it is cast to a choice list
  request or to a JSON request.
\<close>

record ext_message =
  ext_length :: nat
  ext_type :: nat
  ext_prompt :: string
  ext_items :: "(cstr \<times> string) list"
  ext_protocol :: string
  ext_version :: nat
  ext_json :: cstr

datatype pam_message =
    PAM_PROMPT_ECHO_ON string
  | PAM_PROMPT_ECHO_OFF string
  | PAM_TEXT_INFO string
  | PAM_ERROR_MSG string
  | PAM_RADIO_TYPE string
  | PAM_BINARY_PROMPT ext_message
  | UnknownStyle nat string

datatype pam_reply =
    TextReply string
  | ChoiceReply cstr
  | JsonReply string nat string

text \<open>The operations of PAM that run modules.\<close>

datatype pam_op =
    Authenticate bool
  | AcctMgmt bool
  | Chauthtok
  | Setcred cred_flags
  | OpenSession bool
  | CloseSession

datatype pam_prog =
    PamDone pam_code
  | PamConv int "pam_message list" "pam_code \<times> pam_reply option list option \<Rightarrow> pam_prog"

text \<open>Calls to the manager over the worker's connection.\<close>

datatype manager_query =
    InfoQuery string
  | SecretInfoQuery string
  | Info string
  | Problem string
  | ChoiceListQuery string "(string \<times> string) list"
  | CustomJsonRequest string nat string

datatype audit_event =
    AuditUsername cstr
  | AuditPasswordChanged
  | AuditPasswordChangeFailure
  | AuditUserAccredited
  | AuditLogin
  | AuditLoginFailure pam_code
  | AuditLogout

datatype service_kind = Password | Autologin | Fingerprint | Smartcard | OtherService

text \<open>The messages of the errors, by what they say and for which service.\<close>

datatype error_message =
    NoMessage
  | TimeLimitPassed
  | MaxRetries service_kind
  | DidNotWork service_kind
  | NoUserAccount
  | UnableToChangeUser
  | UnableToOpenVt
  | PamMessage pam_code
  | OsMessage
  | OutstandingMessage string string
  | WrongStateMessage string string string
  | ReauthMessage string
  | ParseMessage

datatype worker_error =
    SERVICE_UNAVAILABLE error_message
  | AUTHENTICATING error_message
  | TOO_MANY_RETRIES error_message
  | AUTHORIZING error_message
  | GIVING_CREDENTIALS error_message
  | OPENING_SESSION error_message
  | WRONG_STATE error_message
  | OUTSTANDING_REQUEST error_message
  | IN_REAUTH_SESSION error_message
  | SHELL_ERROR error_message

datatype wreply =
    Done
  | SessionIdReply string
  | PidReply int
  | AddressReply string
  | ErrorReply worker_error

datatype wsignal =
    UsernameChanged cstr
  | SessionExited cstr int
  | SavedLanguageNameRead cstr
  | SavedSessionNameRead cstr
  | SavedSessionTypeRead cstr
  | CancelPendingQuery
  | Reauthenticated string int

datatype wcall =
    PamStart string cstr pam_code
  | PamSetItem pam_item string pam_code
  | PamPutenv string pam_code
  | PamOp pam_op pam_code
  | PamEnd pam_code
  | ManagerCall manager_query
  | Audit audit_event
  | Replied nat wreply
  | Emitted wsignal
  | ActCalls "act_call list"
  | ChangeUser u32 u32 bool
  | OpenTty nat bool
  | Ioctl string int bool
  | ClearScreen
  | Fork int
  | Killpg int
  | Terminate int
  | PingManager
  | NewReauthSession int u32

datatype display_mode = NEW_VT | LOGIND_MANAGED

text \<open>\<^verbatim>\<open>getpwnam_r\<close>: the outcomes the lookup distinguishes.\<close>

record passwd =
  pw_uid :: u32
  pw_gid :: u32
  pw_dir :: cstr
  pw_shell :: cstr

datatype pw_result = PwInterrupted | PwError | PwNotFound | PwFound passwd

text \<open>
  The system around the worker. Every function takes the log of what has happened before the
  call. \<open>getpwnam_r_results\<close> lists the outcomes of the successive attempts of a lookup.
\<close>

record wenv =
  pam_start_result :: "wcall list \<Rightarrow> string \<Rightarrow> cstr \<Rightarrow> pam_code"
  pam_set_item_result :: "wcall list \<Rightarrow> pam_item \<Rightarrow> string \<Rightarrow> pam_code"
  pam_putenv_result :: "wcall list \<Rightarrow> string \<Rightarrow> pam_code"
  pam_op_prog :: "wcall list \<Rightarrow> pam_op \<Rightarrow> pam_prog"
  pam_user :: "wcall list \<Rightarrow> cstr option"
  pam_getenv :: "wcall list \<Rightarrow> string \<Rightarrow> cstr"
  manager_answer :: "wcall list \<Rightarrow> manager_query \<Rightarrow> bool \<times> cstr"
  getpwnam_r_results :: "wcall list \<Rightarrow> string \<Rightarrow> pw_result list"
  setgid_ok :: "wcall list \<Rightarrow> u32 \<Rightarrow> bool"
  initgroups_ok :: "wcall list \<Rightarrow> u32 \<Rightarrow> bool"
  open_tty :: "wcall list \<Rightarrow> nat \<Rightarrow> int"
  ioctl_result :: "wcall list \<Rightarrow> string \<Rightarrow> int option"
  fork_result :: "wcall list \<Rightarrow> int"
  act_get_user :: "wcall list \<Rightarrow> string \<Rightarrow> act_user"
  act_cache_ok :: "wcall list \<Rightarrow> bool"
  sd_seat_can_tty :: "wcall list \<Rightarrow> bool"
  shell_parse_argv :: "string \<Rightarrow> string list option"
  locale_to_utf8 :: "string \<Rightarrow> cstr"
  utf8_valid_length :: "string \<Rightarrow> nat"
  json_is_valid :: "string \<Rightarrow> bool"
  new_session_address :: "wcall list \<Rightarrow> string"
  bindir :: string
  initial_vt :: nat
  geteuid_is_root :: bool

text \<open>
  \<^verbatim>\<open>struct _GdmSessionWorker\<close>. Pointers that are only tested against \<open>NULL\<close> are
  booleans; \<open>settings_waiting\<close> is whether \<^verbatim>\<open>on_settings_is_loaded_changed\<close> is
  connected to \<open>user_settings\<close> and \<open>settings_readers\<close> whether
  \<^verbatim>\<open>on_saved_session_name_read\<close> and \<^verbatim>\<open>on_saved_language_name_read\<close> are.
  \<open>ext_env\<close> is the process environment variable of the PAM extensions.
\<close>

record worker =
  state :: worker_state
  pam_handle :: bool
  child_pid :: int
  child_watch_id :: bool
  service :: cstr
  display_device :: cstr
  display_seat_id :: cstr
  hostname :: cstr
  username :: cstr
  log_file :: cstr
  session_id :: cstr
  uid :: u32
  gid :: u32
  password_is_required :: bool
  extensions :: "string list option"
  cred_flags :: cred_flags
  session_vt :: nat
  session_tty_fd :: int
  arguments :: "string list option"
  cancelled :: bool
  timed_out :: bool
  is_program_session :: bool
  is_reauth_session :: bool
  display_is_local :: bool
  display_is_initial :: bool
  seat0_has_vts :: bool
  state_change_idle_id :: bool
  display_mode :: "display_mode option"
  reauthentication_requests :: "(int, u32) ghash"
  auditor :: bool
  user_settings :: "session_settings option"
  settings_waiting :: bool
  settings_readers :: bool
  pending_invocation :: "nat option"
  ext_env :: cstr
  log :: "wcall list"

definition PAM_MAX_RESP_SIZE :: nat where
  "PAM_MAX_RESP_SIZE = 512"

definition gdm_session_worker_new :: "bool \<Rightarrow> worker" where
  "gdm_session_worker_new is_reauth =
     \<lparr>state = STATE_NONE, pam_handle = False, child_pid = 0, child_watch_id = False,
      service = None, display_device = None, display_seat_id = None, hostname = None,
      username = None, log_file = None, session_id = None, uid = 0, gid = 0,
      password_is_required = False, extensions = None, cred_flags = NO_CRED_FLAGS,
      session_vt = 0, session_tty_fd = 0, arguments = None, cancelled = False,
      timed_out = False, is_program_session = False, is_reauth_session = is_reauth,
      display_is_local = False, display_is_initial = False, seat0_has_vts = False,
      state_change_idle_id = False, display_mode = Some NEW_VT,
      reauthentication_requests = [], auditor = False, user_settings = None,
      settings_waiting = False, settings_readers = False, pending_invocation = None,
      ext_env = None, log = []\<rparr>"

definition logged :: "wcall list \<Rightarrow> worker \<Rightarrow> worker" where
  "logged cs w = w\<lparr>log := log w @ cs\<rparr>"

text \<open>A call on the auditor; without one it does nothing.\<close>

definition audit :: "audit_event \<Rightarrow> worker \<Rightarrow> worker" where
  "audit a w = (if auditor w then logged [Audit a] w else w)"

section \<open>State changes and settings\<close>

fun get_state_name :: "nat \<Rightarrow> string run" where
  "get_state_name n =
     (case n of
        0 \<Rightarrow> Ret ''NONE''
      | Suc 0 \<Rightarrow> Ret ''SETUP_COMPLETE''
      | Suc (Suc 0) \<Rightarrow> Ret ''AUTHENTICATED''
      | Suc (Suc (Suc 0)) \<Rightarrow> Ret ''AUTHORIZED''
      | Suc (Suc (Suc (Suc 0))) \<Rightarrow> Ret ''ACCREDITED''
      | Suc (Suc (Suc (Suc (Suc 0)))) \<Rightarrow> Ret ''ACCOUNT_DETAILS_SAVED''
      | Suc (Suc (Suc (Suc (Suc (Suc 0))))) \<Rightarrow> Ret ''SESSION_OPENED''
      | Suc (Suc (Suc (Suc (Suc (Suc (Suc 0)))))) \<Rightarrow> Ret ''SESSION_STARTED''
      | _ \<Rightarrow> Stop ''get_state_name: not reached'')"

definition set_state :: "worker_state \<Rightarrow> worker \<Rightarrow> worker" where
  "set_state st w = w\<lparr>state := st\<rparr>"

definition queue_state_change :: "worker \<Rightarrow> worker" where
  "queue_state_change w = w\<lparr>state_change_idle_id := True\<rparr>"

definition save_account_details_now :: "wenv \<Rightarrow> worker \<Rightarrow> worker run" where
  "save_account_details_now E w =
     (if state w \<noteq> STATE_ACCREDITED then Stop ''save_account_details_now: state''
      else
        let w = set_state STATE_ACCOUNT_DETAILS_SAVED w;
            w = (case user_settings w of None \<Rightarrow> w
                 | Some st \<Rightarrow>
                     logged [ActCalls (fst (gdm_session_settings_save (act_get_user E (log w))
                       (act_cache_ok E (log w)) (username w) st))] w)
        in Ret (queue_state_change w))"

definition on_settings_is_loaded_changed :: "wenv \<Rightarrow> worker \<Rightarrow> worker run" where
  "on_settings_is_loaded_changed E w =
     (if \<not> (case user_settings w of None \<Rightarrow> False | Some st \<Rightarrow> gdm_session_settings_is_loaded st)
      then Ret w
      else
        let w = w\<lparr>settings_readers := False\<rparr>
        in if state w = STATE_NONE
           then Ret ((queue_state_change w)\<lparr>settings_waiting := False\<rparr>)
           else if state w = STATE_ACCREDITED
           then bindR (save_account_details_now E w) (\<lambda>w. Ret (w\<lparr>settings_waiting := False\<rparr>))
           else Ret w)"

text \<open>The handlers of the notifications of the settings object.\<close>

definition on_settings_notify :: "wenv \<Rightarrow> ss_notify \<Rightarrow> worker \<Rightarrow> worker run" where
  "on_settings_notify E n w =
     (case n of
        NotifyLanguageName v \<Rightarrow>
          Ret (if settings_readers w then logged [Emitted (SavedLanguageNameRead v)] w else w)
      | NotifySessionName v \<Rightarrow>
          Ret (if settings_readers w then logged [Emitted (SavedSessionNameRead v)] w else w)
      | NotifySessionType v \<Rightarrow> Ret (logged [Emitted (SavedSessionTypeRead v)] w)
      | NotifyIsLoaded \<Rightarrow> if settings_waiting w then on_settings_is_loaded_changed E w else Ret w)"

definition put_settings :: "wenv \<Rightarrow> settings_result \<Rightarrow> worker \<Rightarrow> worker run" where
  "put_settings E r w = foldR (on_settings_notify E) (snd r) (w\<lparr>user_settings := Some (fst r)\<rparr>)"

definition attempt_to_load_user_settings :: "wenv \<Rightarrow> cstr \<Rightarrow> worker \<Rightarrow> worker run" where
  "attempt_to_load_user_settings E name w =
     (case user_settings w of None \<Rightarrow> Ret w
      | Some st \<Rightarrow>
          if gdm_session_settings_is_loaded st then Ret w
          else put_settings E (fst (gdm_session_settings_load (act_get_user E (log w)) name st)) w)"

section \<open>The PAM conversation\<close>

definition gdm_session_worker_get_username :: "wenv \<Rightarrow> worker \<Rightarrow> (worker \<times> cstr option) run" where
  "gdm_session_worker_get_username E w =
     (if \<not> pam_handle w then Stop ''get_username: pam_handle''
      else case pam_user E (log w) of
             None \<Rightarrow> Ret (w, None)
           | Some item \<Rightarrow> Ret (audit (AuditUsername item) w, Some item))"

definition gdm_session_worker_update_username :: "wenv \<Rightarrow> worker \<Rightarrow> worker run" where
  "gdm_session_worker_update_username E w =
     bindR (gdm_session_worker_get_username E w) (\<lambda>(w, res).
       case res of None \<Rightarrow> Ret w
       | Some name \<Rightarrow>
           let w = audit (AuditUsername (username w)) w
           in if username w = name then Ret w
              else
                let w = logged [Emitted (UsernameChanged name)] (w\<lparr>username := name\<rparr>)
                in if nonempty name then attempt_to_load_user_settings E name w else Ret w)"

definition manager_call :: "wenv \<Rightarrow> manager_query \<Rightarrow> worker \<Rightarrow> worker \<times> bool \<times> cstr" where
  "manager_call E q w = (logged [ManagerCall q] w, manager_answer E (log w) q)"

definition gdm_session_worker_ask_question :: "wenv \<Rightarrow> string \<Rightarrow> worker \<Rightarrow> worker \<times> bool \<times> cstr" where
  "gdm_session_worker_ask_question E question = manager_call E (InfoQuery question)"

definition gdm_session_worker_ask_for_secret :: "wenv \<Rightarrow> string \<Rightarrow> worker \<Rightarrow> worker \<times> bool \<times> cstr" where
  "gdm_session_worker_ask_for_secret E question = manager_call E (SecretInfoQuery question)"

definition gdm_session_worker_report_info :: "wenv \<Rightarrow> string \<Rightarrow> worker \<Rightarrow> worker \<times> bool \<times> cstr" where
  "gdm_session_worker_report_info E info w =
     (let (w, res, _) = manager_call E (Info info) w in (w, res, None))"

definition gdm_session_worker_report_problem :: "wenv \<Rightarrow> string \<Rightarrow> worker \<Rightarrow> worker \<times> bool \<times> cstr" where
  "gdm_session_worker_report_problem E problem w =
     (let (w, res, _) = manager_call E (Problem problem) w in (w, res, None))"

text \<open>The entries of the choice list up to the first one without a key.\<close>

fun choices_as_variant :: "(cstr \<times> string) list \<Rightarrow> (string \<times> string) list option" where
  "choices_as_variant [] = Some []"
| "choices_as_variant ((None, text) # items) = None"
| "choices_as_variant ((Some key, text) # items) =
     map_option ((#) (key, text)) (choices_as_variant items)"

definition gdm_session_worker_ask_list_of_choices ::
  "wenv \<Rightarrow> string \<Rightarrow> (cstr \<times> string) list \<Rightarrow> worker \<Rightarrow> worker \<times> bool \<times> cstr" where
  "gdm_session_worker_ask_list_of_choices E prompt items w =
     (case choices_as_variant items of None \<Rightarrow> (w, False, None)
      | Some choices \<Rightarrow> manager_call E (ChoiceListQuery prompt choices) w)"

definition gdm_session_worker_process_custom_json_protocol ::
  "wenv \<Rightarrow> ext_message \<Rightarrow> worker \<Rightarrow> worker \<times> bool \<times> cstr" where
  "gdm_session_worker_process_custom_json_protocol E m w =
     (case ext_json m of None \<Rightarrow> (w, False, None)
      | Some json \<Rightarrow>
          if \<not> json_is_valid E json then (w, False, None)
          else
            let (w, res, answer) =
                  manager_call E (CustomJsonRequest (ext_protocol m) (ext_version m) json) w
            in if \<not> res \<or> answer = None then (w, False, None) else (w, True, answer))"

definition sizeof_GdmPamExtensionMessage :: nat where
  "sizeof_GdmPamExtensionMessage = 8"

definition gdm_session_worker_process_extended_pam_message ::
  "wenv \<Rightarrow> ext_message \<Rightarrow> worker \<Rightarrow> (worker \<times> pam_reply option \<times> bool) run" where
  "gdm_session_worker_process_extended_pam_message E m w =
     (if ext_length m < sizeof_GdmPamExtensionMessage then Ret (w, None, False)
      else if invalid_type (ext_env w) (ext_type m) then Ret (w, None, False)
      else
        case message_match (extensions w) (ext_type m) GDM_PAM_EXTENSION_CHOICE_LIST of
          None \<Rightarrow> Stop ''extensions: out of bounds''
        | Some True \<Rightarrow>
            (let (w, res, key) =
                   gdm_session_worker_ask_list_of_choices E (ext_prompt m) (ext_items m) w
             in if \<not> res then Ret (w, None, False) else Ret (w, Some (ChoiceReply key), True))
        | Some False \<Rightarrow>
            if message_match (extensions w) (ext_type m) GDM_PAM_EXTENSION_CUSTOM_JSON = Some True
            then (let (w, res, json) = gdm_session_worker_process_custom_json_protocol E m w
                  in if \<not> res then Ret (w, None, False)
                     else Ret (w, Some (JsonReply (take 63 (ext_protocol m)) (ext_version m) (the json)),
                               True))
            else Ret (w, None, False))"

text \<open>
  \<^verbatim>\<open>convert_to_utf8\<close>: when the text cannot be converted from the locale, every byte
  that stops the UTF-8 validation becomes a question mark.
\<close>

function replace_invalid :: "(string \<Rightarrow> nat) \<Rightarrow> string \<Rightarrow> string" where
  "replace_invalid valid_length p =
     (if p = [] \<or> valid_length p \<ge> length p then p
      else take (valid_length p) p @ ''?'' @ replace_invalid valid_length (drop (valid_length p + 1) p))"
  by pat_completeness auto
termination
  by (relation "measure (\<lambda>(_, p). length p)") auto

declare replace_invalid.simps [simp del]

definition convert_to_utf8 :: "wenv \<Rightarrow> string \<Rightarrow> string" where
  "convert_to_utf8 E str =
     (case locale_to_utf8 E str of
        Some utf8 \<Rightarrow> utf8
      | None \<Rightarrow> replace_invalid (utf8_valid_length E) str)"

text \<open>Which call to the manager a message becomes, and what it answers.\<close>

definition deliver_pam_message ::
  "wenv \<Rightarrow> pam_message \<Rightarrow> worker \<Rightarrow> worker \<times> bool \<times> cstr" where
  "deliver_pam_message E query w =
     (case query of
        PAM_PROMPT_ECHO_ON msg \<Rightarrow> gdm_session_worker_ask_question E (convert_to_utf8 E msg) w
      | PAM_PROMPT_ECHO_OFF msg \<Rightarrow> gdm_session_worker_ask_for_secret E (convert_to_utf8 E msg) w
      | PAM_TEXT_INFO msg \<Rightarrow> gdm_session_worker_report_info E (convert_to_utf8 E msg) w
      | PAM_ERROR_MSG msg \<Rightarrow> gdm_session_worker_report_problem E (convert_to_utf8 E msg) w
      | PAM_RADIO_TYPE msg \<Rightarrow>
          gdm_session_worker_ask_question E (convert_to_utf8 E msg @ '' (yes/no)'') w
      | _ \<Rightarrow> (w, False, None))"

definition gdm_session_worker_process_pam_message ::
  "wenv \<Rightarrow> pam_message \<Rightarrow> worker \<Rightarrow> (worker \<times> pam_reply option \<times> bool) run" where
  "gdm_session_worker_process_pam_message E query w =
     bindR (gdm_session_worker_update_username E w) (\<lambda>w.
       case query of
         PAM_BINARY_PROMPT m \<Rightarrow> gdm_session_worker_process_extended_pam_message E m w
       | _ \<Rightarrow>
           let (w, res, user_answer) =
                 deliver_pam_message E query (w\<lparr>cancelled := False, timed_out := False\<rparr>);
               w = (if timed_out w
                    then (logged [Emitted CancelPendingQuery] w)\<lparr>timed_out := False\<rparr> else w)
           in case user_answer of
                None \<Rightarrow> Ret (w, None, res)
              | Some answer \<Rightarrow>
                  Ret (w, if res then Some (TextReply (take (PAM_MAX_RESP_SIZE - 1) answer)) else None,
                       True))"

text \<open>
  The replies to all messages, or \<open>None\<close> as soon as one message is not answered (the replies
  collected so far are wiped and freed).
\<close>

fun collect_replies ::
  "wenv \<Rightarrow> pam_message list \<Rightarrow> worker \<Rightarrow> (worker \<times> pam_reply option list option) run" where
  "collect_replies E [] w = Ret (w, Some [])"
| "collect_replies E (m # ms) w =
     bindR (gdm_session_worker_process_pam_message E m w) (\<lambda>(w, response, got_response).
       if \<not> got_response then Ret (w, None)
       else bindR (collect_replies E ms w) (\<lambda>(w, rest). Ret (w, map_option ((#) response) rest)))"

definition gdm_session_worker_pam_new_messages_handler ::
  "wenv \<Rightarrow> int \<Rightarrow> pam_message list \<Rightarrow> worker \<Rightarrow>
     (worker \<times> pam_code \<times> pam_reply option list option) run" where
  "gdm_session_worker_pam_new_messages_handler E number_of_messages messages w =
     (if number_of_messages < 0 then Ret (w, PAM_CONV_ERR, None)
      else if number_of_messages = 0 then Ret (w, PAM_SUCCESS, None)
      else
        bindR (collect_replies E (take (nat number_of_messages) messages) w) (\<lambda>(w, replies).
          Ret (w, if replies \<noteq> None then PAM_SUCCESS else PAM_CONV_ERR, replies)))"

text \<open>Running the modules of one PAM operation.\<close>

primrec run_pam :: "wenv \<Rightarrow> pam_prog \<Rightarrow> worker \<Rightarrow> (worker \<times> pam_code) run" where
  "run_pam E (PamDone code) = (\<lambda>w. Ret (w, code))"
| "run_pam E (PamConv n ms k) =
     (\<lambda>w. bindR (gdm_session_worker_pam_new_messages_handler E n ms w)
            (\<lambda>r. run_pam E (k (snd r)) (fst r)))"

definition pam_call :: "wenv \<Rightarrow> pam_op \<Rightarrow> worker \<Rightarrow> (worker \<times> pam_code) run" where
  "pam_call E op w =
     bindR (run_pam E (pam_op_prog E (log w) op) w) (\<lambda>(w, code). Ret (logged [PamOp op code] w, code))"

section \<open>Errors\<close>

definition service_kind_of :: "worker \<Rightarrow> service_kind" where
  "service_kind_of w =
     (if service w = Some ''gdm-password'' then Password
      else if service w = Some ''gdm-autologin'' then Autologin
      else if service w = Some ''gdm-fingerprint'' then Fingerprint
      else if service w = Some ''gdm-smartcard'' then Smartcard
      else OtherService)"

definition get_max_retries_error_message :: "worker \<Rightarrow> error_message" where
  "get_max_retries_error_message w = MaxRetries (service_kind_of w)"

definition get_generic_error_message :: "worker \<Rightarrow> error_message" where
  "get_generic_error_message w = DidNotWork (service_kind_of w)"

definition get_friendly_error_message :: "worker \<Rightarrow> pam_code \<Rightarrow> error_message" where
  "get_friendly_error_message w error_code =
     (case error_code of
        PAM_SUCCESS \<Rightarrow> NoMessage
      | PAM_IGNORE \<Rightarrow> NoMessage
      | PAM_ACCT_EXPIRED \<Rightarrow> TimeLimitPassed
      | PAM_AUTHTOK_EXPIRED \<Rightarrow> TimeLimitPassed
      | PAM_MAXTRIES \<Rightarrow> get_max_retries_error_message w
      | _ \<Rightarrow> get_generic_error_message w)"

section \<open>Setting PAM up and tearing it down\<close>

definition gdm_session_worker_start_auditor :: "worker \<Rightarrow> worker" where
  "gdm_session_worker_start_auditor w = w\<lparr>auditor := True\<rparr>"

definition gdm_session_worker_stop_auditor :: "worker \<Rightarrow> worker" where
  "gdm_session_worker_stop_auditor w = w\<lparr>auditor := False\<rparr>"

definition gdm_session_worker_uninitialize_pam :: "wenv \<Rightarrow> pam_code \<Rightarrow> worker \<Rightarrow> worker run" where
  "gdm_session_worker_uninitialize_pam E status w =
     (if \<not> pam_handle w then Ret w
      else
        bindR (gdm_session_worker_get_username E w) (\<lambda>(w, _).
        bindR (if state w \<ge> STATE_SESSION_OPENED
               then bindR (pam_call E CloseSession w) (\<lambda>(w, _). Ret (audit AuditLogout w))
               else Ret (audit (AuditLoginFailure status) w)) (\<lambda>w.
        bindR (if state w \<ge> STATE_ACCREDITED
               then bindR (pam_call E (Setcred PAM_DELETE_CRED) w) (\<lambda>(w, _). Ret w)
               else Ret w) (\<lambda>w.
        let w = (logged [PamEnd status] w)\<lparr>pam_handle := False\<rparr>
        in Ret (set_state STATE_NONE (gdm_session_worker_stop_auditor w))))))"

definition gdm_session_worker_set_environment_variable ::
  "wenv \<Rightarrow> string \<Rightarrow> cstr \<Rightarrow> worker \<Rightarrow> worker" where
  "gdm_session_worker_set_environment_variable E key value w =
     (let entry = (case value of Some v \<Rightarrow> key @ ''='' @ v | None \<Rightarrow> key)
      in logged [PamPutenv entry (pam_putenv_result E (log w) entry)] w)"

definition pam_set_item :: "wenv \<Rightarrow> pam_item \<Rightarrow> string \<Rightarrow> worker \<Rightarrow> worker \<times> pam_code" where
  "pam_set_item E item value w =
     (let code = pam_set_item_result E (log w) item value
      in (logged [PamSetItem item value code] w, code))"

text \<open>The two items that are set before the environment: the user prompt and the remote host.\<close>

definition set_initial_items :: "wenv \<Rightarrow> cstr \<Rightarrow> cstr \<Rightarrow> bool \<Rightarrow> worker \<Rightarrow> worker \<times> pam_code" where
  "set_initial_items E name host is_local w =
     (let (w, code) = (if name = None then pam_set_item E PAM_USER_PROMPT ''Username:'' w
                       else (w, PAM_SUCCESS))
      in if code \<noteq> PAM_SUCCESS then (w, code)
         else if \<not> is_local
         then pam_set_item E PAM_RHOST (if nonempty host then the host else ''0.0.0.0'') w
         else (w, PAM_SUCCESS))"

text \<open>What happens once PAM has accepted these items.\<close>

definition setup_complete :: "wenv \<Rightarrow> string \<Rightarrow> bool \<Rightarrow> cstr \<Rightarrow> worker \<Rightarrow> worker" where
  "setup_complete E srv is_local seat_id w =
     (let w = gdm_session_worker_set_environment_variable E ''XDG_SESSION_EXTRA_DEVICE_ACCESS''
                (Some ''render:accel'') w;
          w = (if nonempty seat_id
               then gdm_session_worker_set_environment_variable E ''XDG_SEAT'' seat_id w else w);
          w = (if srv = ''gdm-launch-environment''
               then gdm_session_worker_set_environment_variable E ''XDG_SESSION_CLASS'' (Some ''greeter'') w
               else w);
          w = set_state STATE_SETUP_COMPLETE w;
          w = (if seat_id = Some ''seat0'' \<and> seat0_has_vts w
               then fst (pam_set_item E PAM_TTY (''/dev/tty'' @ dec_of_nat (initial_vt E)) w) else w)
      in if \<not> is_local then w\<lparr>password_is_required := True\<rparr> else w)"

definition gdm_session_worker_initialize_pam ::
  "wenv \<Rightarrow> cstr \<Rightarrow> string list option \<Rightarrow> cstr \<Rightarrow> cstr \<Rightarrow> bool \<Rightarrow> cstr \<Rightarrow> worker \<Rightarrow>
     (worker \<times> worker_error option) run" where
  "gdm_session_worker_initialize_pam E srv exts name host is_local seat_id w =
     (case srv of None \<Rightarrow> Stop ''initialize_pam: service''
      | Some srv \<Rightarrow>
        if pam_handle w then Stop ''initialize_pam: pam_handle''
        else
          let w = (case exts of None \<Rightarrow> w
                   | Some es \<Rightarrow> w\<lparr>ext_env := advertise_supported_extensions (ext_env w) es\<rparr>);
              w = gdm_session_worker_start_auditor w;
              code = pam_start_result E (log w) srv name;
              w = (logged [PamStart srv name code] w)\<lparr>pam_handle := (code = PAM_SUCCESS)\<rparr>
          in if code \<noteq> PAM_SUCCESS
             then bindR (gdm_session_worker_uninitialize_pam E code w)
                    (\<lambda>w. Ret (w, Some (SERVICE_UNAVAILABLE NoMessage)))
             else
               let (w, code) = set_initial_items E name host is_local w
               in if code \<noteq> PAM_SUCCESS
                  then bindR (gdm_session_worker_uninitialize_pam E code w)
                         (\<lambda>w. Ret (w, Some (AUTHENTICATING NoMessage)))
                  else Ret (setup_complete E srv is_local seat_id w, None))"

section \<open>Authentication and authorization\<close>

definition authentication_error :: "worker \<Rightarrow> pam_code \<Rightarrow> worker_error" where
  "authentication_error w code =
     (if code = PAM_AUTHINFO_UNAVAIL \<or> code = PAM_MODULE_UNKNOWN then SERVICE_UNAVAILABLE NoMessage
      else if code = PAM_MAXTRIES then TOO_MANY_RETRIES (get_friendly_error_message w code)
      else AUTHENTICATING (get_friendly_error_message w
             (if code = PAM_USER_UNKNOWN then PAM_AUTH_ERR else code)))"

definition gdm_session_worker_authenticate_user ::
  "wenv \<Rightarrow> bool \<Rightarrow> worker \<Rightarrow> (worker \<times> worker_error option) run" where
  "gdm_session_worker_authenticate_user E required w =
     bindR (pam_call E (Authenticate required) w) (\<lambda>(w, code).
       if code = PAM_SUCCESS then Ret (set_state STATE_AUTHENTICATED w, None)
       else
         let error = authentication_error w code;
             code = (if code = PAM_USER_UNKNOWN then PAM_AUTH_ERR else code)
         in bindR (gdm_session_worker_uninitialize_pam E code w) (\<lambda>w. Ret (w, Some error)))"

definition gdm_session_worker_authorize_user ::
  "wenv \<Rightarrow> bool \<Rightarrow> worker \<Rightarrow> (worker \<times> worker_error option) run" where
  "gdm_session_worker_authorize_user E required w =
     bindR (pam_call E (AcctMgmt required) w) (\<lambda>(w, code).
     bindR (if code = PAM_NEW_AUTHTOK_REQD \<and> \<not> is_program_session w
            then bindR (pam_call E Chauthtok w) (\<lambda>(w, code).
                 bindR (gdm_session_worker_get_username E w) (\<lambda>(w, _).
                 Ret (audit (if code \<noteq> PAM_SUCCESS then AuditPasswordChangeFailure
                             else AuditPasswordChanged) w, code)))
            else Ret (w, code)) (\<lambda>(w, code).
     let code = (if is_reauth_session w then PAM_SUCCESS else code)
     in if code \<noteq> PAM_SUCCESS
        then let error = AUTHORIZING (get_friendly_error_message w code)
             in bindR (gdm_session_worker_uninitialize_pam E code w) (\<lambda>w. Ret (w, Some error))
        else Ret (set_state STATE_AUTHORIZED w, None)))"

section \<open>Credentials\<close>

definition gdm_session_worker_update_environment_from_passwd_info ::
  "wenv \<Rightarrow> string \<Rightarrow> string \<Rightarrow> worker \<Rightarrow> worker" where
  "gdm_session_worker_update_environment_from_passwd_info E home shell w =
     (let w = gdm_session_worker_set_environment_variable E ''LOGNAME'' (username w) w;
          w = gdm_session_worker_set_environment_variable E ''USER'' (username w) w;
          w = gdm_session_worker_set_environment_variable E ''USERNAME'' (username w) w;
          w = gdm_session_worker_set_environment_variable E ''HOME'' (Some home) w;
          w = gdm_session_worker_set_environment_variable E ''PWD'' (Some home) w
      in gdm_session_worker_set_environment_variable E ''SHELL'' (Some shell) w)"

definition change_user :: "wenv \<Rightarrow> u32 \<Rightarrow> u32 \<Rightarrow> worker \<Rightarrow> worker \<times> bool" where
  "change_user E u g w =
     (let w = w\<lparr>uid := u, gid := g\<rparr>;
          ok = (setgid_ok E (log w) g \<and> initgroups_ok E (log w) g)
      in (logged [ChangeUser u g ok] w, ok))"

text \<open>
  The loop over \<^verbatim>\<open>getpwnam_r\<close>: it starts again after an interruption. The result is
  \<open>OutOfFuel\<close> when every listed attempt was interrupted.
\<close>

fun lookup_again :: "pw_result list \<Rightarrow> (u32 \<times> u32 \<times> string \<times> string) option run" where
  "lookup_again [] = OutOfFuel"
| "lookup_again (PwInterrupted # rs) = lookup_again rs"
| "lookup_again (PwError # rs) = Ret None"
| "lookup_again (PwNotFound # rs) = Ret None"
| "lookup_again (PwFound pw # rs) =
     Ret (Some (pw_uid pw, pw_gid pw,
                if nonempty (pw_dir pw) then the (pw_dir pw) else ''/'',
                if nonempty (pw_shell pw) then the (pw_shell pw) else ''/bin/bash''))"

definition lookup_passwd_info ::
  "wenv \<Rightarrow> string \<Rightarrow> worker \<Rightarrow> (u32 \<times> u32 \<times> string \<times> string) option run" where
  "lookup_passwd_info E name w = lookup_again (getpwnam_r_results E (log w) name)"

definition GDM_SESSION_DEFAULT_PATH :: string where
  "GDM_SESSION_DEFAULT_PATH = ''/usr/local/bin:/usr/bin:/bin''"

definition set_default_path :: "wenv \<Rightarrow> worker \<Rightarrow> worker" where
  "set_default_path E w =
     (if pam_getenv E (log w) ''PATH'' \<noteq> None then w
      else if bindir E = ''/usr/bin''
      then gdm_session_worker_set_environment_variable E ''PATH'' (Some GDM_SESSION_DEFAULT_PATH) w
      else gdm_session_worker_set_environment_variable E ''PATH''
             (Some (bindir E @ '':'' @ GDM_SESSION_DEFAULT_PATH)) w)"

text \<open>
  The part of \<^verbatim>\<open>gdm_session_worker_accredit_user\<close> before its label \<open>out\<close>, first
  from the point where the account is known: the error code with the error, or \<open>None\<close>.
\<close>

definition set_credentials ::
  "wenv \<Rightarrow> u32 \<Rightarrow> u32 \<Rightarrow> string \<Rightarrow> string \<Rightarrow> worker \<Rightarrow> (worker \<times> (pam_code \<times> worker_error) option) run" where
  "set_credentials E u g home shell w =
     (let w = gdm_session_worker_update_environment_from_passwd_info E home shell w;
          w = set_default_path E w;
          (w, ok) = change_user E u g w
      in if \<not> ok then Ret (w, Some (PAM_SYSTEM_ERR, GIVING_CREDENTIALS UnableToChangeUser))
         else
           bindR (pam_call E (Setcred (cred_flags w)) w) (\<lambda>(w, code).
             let code = (if is_reauth_session w then PAM_SUCCESS else code)
             in Ret (w, if code \<noteq> PAM_SUCCESS
                        then Some (code, GIVING_CREDENTIALS (PamMessage code)) else None)))"

definition give_credentials ::
  "wenv \<Rightarrow> worker \<Rightarrow> (worker \<times> (pam_code \<times> worker_error) option) run" where
  "give_credentials E w =
     (case username w of
        None \<Rightarrow> Ret (w, Some (PAM_USER_UNKNOWN, GIVING_CREDENTIALS NoUserAccount))
      | Some name \<Rightarrow>
          bindR (lookup_passwd_info E name w) (\<lambda>res.
            case res of
              None \<Rightarrow> Ret (w, Some (PAM_AUTHINFO_UNAVAIL, GIVING_CREDENTIALS NoUserAccount))
            | Some (u, g, home, shell) \<Rightarrow> set_credentials E u g home shell w))"

definition gdm_session_worker_accredit_user ::
  "wenv \<Rightarrow> worker \<Rightarrow> (worker \<times> worker_error option) run" where
  "gdm_session_worker_accredit_user E w =
     bindR (give_credentials E w) (\<lambda>(w, res).
       case res of
         None \<Rightarrow>
           bindR (gdm_session_worker_get_username E w) (\<lambda>(w, _).
             Ret (set_state STATE_ACCREDITED (audit AuditUserAccredited w), None))
       | Some (code, error) \<Rightarrow>
           bindR (gdm_session_worker_uninitialize_pam E code w) (\<lambda>w. Ret (w, Some error)))"

section \<open>Virtual terminals\<close>

definition vt_ioctl :: "wenv \<Rightarrow> string \<Rightarrow> int \<Rightarrow> worker \<Rightarrow> worker \<times> int option" where
  "vt_ioctl E request arg w =
     (let r = ioctl_result E (log w) request in (logged [Ioctl request arg (r \<noteq> None)] w, r))"

definition handle_terminal_vt_switches :: "wenv \<Rightarrow> worker \<Rightarrow> worker \<times> bool" where
  "handle_terminal_vt_switches E w =
     (let (w, r) = vt_ioctl E ''VT_SETMODE'' 0 w in (w, r \<noteq> None))"

definition VT_AUTO :: int where
  "VT_AUTO = 0"

definition KD_TEXT :: int where
  "KD_TEXT = 0"

text \<open>A failed query leaves the zero that the variable was initialised with.\<close>

definition or_zero :: "int option \<Rightarrow> int" where
  "or_zero r = (case r of None \<Rightarrow> 0 | Some v \<Rightarrow> v)"

definition fix_terminal_vt_mode :: "wenv \<Rightarrow> worker \<Rightarrow> worker run" where
  "fix_terminal_vt_mode E w =
     (let (w, getmode) = vt_ioctl E ''VT_GETMODE'' 0 w;
          (w, succeeded) =
            (if or_zero getmode \<noteq> VT_AUTO then (w, getmode \<noteq> None)
             else
               let (w, kdmode) = vt_ioctl E ''KDGETMODE'' 0 w
               in if or_zero kdmode = KD_TEXT then (w, getmode \<noteq> None \<and> kdmode \<noteq> None)
                  else handle_terminal_vt_switches E w)
      in if \<not> succeeded then Stop ''could not set up terminal'' else Ret w)"

definition jump_to_vt :: "wenv \<Rightarrow> nat \<Rightarrow> worker \<Rightarrow> worker run" where
  "jump_to_vt E vt_number w =
     (let w = logged [OpenTty 0 (open_tty E (log w) 0 \<ge> 0)] w;
          w = (if session_tty_fd w \<noteq> -1
               then fst (vt_ioctl E ''KDSETMODE'' 1
                      (fst (handle_terminal_vt_switches E (logged [ClearScreen] w))))
               else w)
      in bindR (fix_terminal_vt_mode E w) (\<lambda>w.
           let (w, active) = vt_ioctl E ''VT_GETSTATE'' 0 w
           in if active \<noteq> Some (int vt_number)
              then let (w, r) = vt_ioctl E ''VT_ACTIVATE'' (int vt_number) w
                   in Ret (if r = None then w else fst (vt_ioctl E ''VT_WAITACTIVE'' (int vt_number) w))
              else Ret w))"

definition jump_back_to_initial_vt :: "wenv \<Rightarrow> worker \<Rightarrow> worker run" where
  "jump_back_to_initial_vt E w =
     (if session_vt w = 0 then Ret w
      else if session_vt w = initial_vt E then Ret w
      else if display_seat_id w \<noteq> Some ''seat0'' \<or> \<not> seat0_has_vts w then Ret w
      else bindR (jump_to_vt E (initial_vt E) w) (\<lambda>w. Ret (w\<lparr>session_vt := 0\<rparr>)))"

definition set_up_for_new_vt :: "wenv \<Rightarrow> worker \<Rightarrow> (worker \<times> bool) run" where
  "set_up_for_new_vt E w =
     (let initial_vt_fd = open_tty E (log w) (initial_vt E);
          w = logged [OpenTty (initial_vt E) (initial_vt_fd \<ge> 0)] w
      in if initial_vt_fd < 0 then Ret (w, False)
         else
           let (w, vt) = (if display_is_initial w then (w, Some (int (initial_vt E)))
                          else vt_ioctl E ''VT_OPENQRY'' 0 w)
           in case vt of None \<Rightarrow> Ret (w, False)
              | Some vt \<Rightarrow>
                  if \<not> vt > 0 then Stop ''set_up_for_new_vt: session_vt''
                  else
                    let w = w\<lparr>session_vt := nat vt\<rparr>;
                        w = gdm_session_worker_set_environment_variable E ''XDG_VTNR''
                              (Some (dec_of_nat (nat vt))) w;
                        (w, tty) =
                          (if display_is_initial w then (w\<lparr>session_tty_fd := initial_vt_fd\<rparr>, initial_vt E)
                           else let fd = open_tty E (log w) (nat vt)
                                in ((logged [OpenTty (nat vt) (fd \<ge> 0)] w)\<lparr>session_tty_fd := fd\<rparr>, nat vt))
                    in Ret (fst (pam_set_item E PAM_TTY (''/dev/tty'' @ dec_of_nat tty) w), True))"

section \<open>Opening and starting the session\<close>

definition uses_vts :: "worker \<Rightarrow> bool" where
  "uses_vts w = (display_seat_id w = Some ''seat0'' \<and> seat0_has_vts w)"

text \<open>From the call of \<^verbatim>\<open>pam_open_session\<close> on.\<close>

definition open_pam_session :: "wenv \<Rightarrow> worker \<Rightarrow> (worker \<times> worker_error option) run" where
  "open_pam_session E w =
     bindR (pam_call E (OpenSession (is_program_session w)) w) (\<lambda>(w, code).
       if code \<noteq> PAM_SUCCESS
       then bindR (gdm_session_worker_uninitialize_pam E code w)
              (\<lambda>w. Ret (w\<lparr>session_vt := 0\<rparr>, Some (OPENING_SESSION (PamMessage code))))
       else
         let w = set_state STATE_SESSION_OPENED w;
             w = (case pam_getenv E (log w) ''XDG_SESSION_ID'' of
                    None \<Rightarrow> w | Some i \<Rightarrow> w\<lparr>session_id := Some i\<rparr>)
         in bindR (gdm_session_worker_get_username E w) (\<lambda>(w, _). Ret (audit AuditLogin w, None)))"

definition gdm_session_worker_open_session ::
  "wenv \<Rightarrow> worker \<Rightarrow> (worker \<times> worker_error option) run" where
  "gdm_session_worker_open_session E w =
     (if state w \<noteq> STATE_ACCOUNT_DETAILS_SAVED then Stop ''open_session: state''
      else if \<not> geteuid_is_root E then Stop ''open_session: geteuid''
      else
        bindR (if uses_vts w then set_up_for_new_vt E w else Ret (w, True)) (\<lambda>(w, ok).
          if \<not> ok then Ret (w, Some (OPENING_SESSION UnableToOpenVt))
          else open_pam_session E w))"

text \<open>The parent's side after a successful \<^verbatim>\<open>fork\<close>.\<close>

definition session_started :: "int \<Rightarrow> worker \<Rightarrow> worker" where
  "session_started session_pid w =
     (let w = (if session_tty_fd w > 0 then w\<lparr>session_tty_fd := -1\<rparr> else w);
          w = set_state STATE_SESSION_STARTED (w\<lparr>child_pid := session_pid\<rparr>)
      in w\<lparr>child_watch_id := True\<rparr>)"

definition gdm_session_worker_start_session ::
  "wenv \<Rightarrow> worker \<Rightarrow> (worker \<times> worker_error option) run" where
  "gdm_session_worker_start_session E w =
     (if arguments w = None then Stop ''start_session: arguments''
      else
        bindR (if uses_vts w \<and> display_mode w = Some NEW_VT
               then jump_to_vt E (session_vt w) w else Ret w) (\<lambda>w.
          let session_pid = fork_result E (log w);
              w = logged [Fork session_pid] w
          in if session_pid < 0
             then bindR (gdm_session_worker_uninitialize_pam E PAM_ABORT w)
                    (\<lambda>w. Ret (w, Some (OPENING_SESSION OsMessage)))
             else Ret (session_started session_pid w, None)))"

definition session_worker_child_watch :: "wenv \<Rightarrow> int \<Rightarrow> int \<Rightarrow> worker \<Rightarrow> worker run" where
  "session_worker_child_watch E pid status w =
     bindR (gdm_session_worker_uninitialize_pam E PAM_SUCCESS w) (\<lambda>w.
       let w = w\<lparr>child_pid := -1, child_watch_id := False\<rparr>
       in jump_back_to_initial_vt E
            (logged [Emitted (SessionExited (service w) status), Killpg pid, PingManager] w))"

section \<open>The idle handler\<close>

text \<open>The answer to the pending method call.\<close>

definition reply_pending :: "wreply \<Rightarrow> worker \<Rightarrow> worker" where
  "reply_pending r w =
     (case pending_invocation w of None \<Rightarrow> w
      | Some i \<Rightarrow> (logged [Replied i r] w)\<lparr>pending_invocation := None\<rparr>)"

definition done_or_error :: "worker_error option \<Rightarrow> wreply" where
  "done_or_error error = (case error of None \<Rightarrow> Done | Some e \<Rightarrow> ErrorReply e)"

definition do_setup :: "wenv \<Rightarrow> worker \<Rightarrow> worker run" where
  "do_setup E w =
     bindR (gdm_session_worker_initialize_pam E (service w) (extensions w) (username w) (hostname w)
              (display_is_local w) (display_seat_id w) w) (\<lambda>(w, error).
       Ret (reply_pending (done_or_error error) w))"

definition do_authenticate :: "wenv \<Rightarrow> worker \<Rightarrow> worker run" where
  "do_authenticate E w =
     bindR (gdm_session_worker_authenticate_user E (password_is_required w) w) (\<lambda>(w, error).
       bindR (if error = None \<and> \<not> is_program_session w
              then gdm_session_worker_update_username E w else Ret w) (\<lambda>w.
         Ret (reply_pending (done_or_error error) w)))"

definition do_authorize :: "wenv \<Rightarrow> worker \<Rightarrow> worker run" where
  "do_authorize E w =
     bindR (gdm_session_worker_authorize_user E (password_is_required w) w) (\<lambda>(w, error).
       Ret (reply_pending (done_or_error error) w))"

definition do_accredit :: "wenv \<Rightarrow> worker \<Rightarrow> worker run" where
  "do_accredit E w =
     bindR (gdm_session_worker_accredit_user E w) (\<lambda>(w, error).
       Ret (reply_pending (done_or_error error) w))"

definition do_save_account_details_when_ready :: "wenv \<Rightarrow> worker \<Rightarrow> worker run" where
  "do_save_account_details_when_ready E w =
     (if state w \<noteq> STATE_ACCREDITED then Stop ''do_save_account_details_when_ready: state''
      else
        case user_settings w of
          Some st \<Rightarrow>
            if gdm_session_settings_is_loaded st then save_account_details_now E w
            else put_settings E (fst (gdm_session_settings_load (act_get_user E (log w)) (username w) st))
                   (w\<lparr>settings_waiting := True\<rparr>)
        | None \<Rightarrow> save_account_details_now E w)"

definition do_open_session :: "wenv \<Rightarrow> worker \<Rightarrow> worker run" where
  "do_open_session E w =
     bindR (gdm_session_worker_open_session E w) (\<lambda>(w, error).
       Ret (reply_pending
              (case error of None \<Rightarrow> SessionIdReply (case session_id w of None \<Rightarrow> [] | Some i \<Rightarrow> i)
               | Some e \<Rightarrow> ErrorReply e) w))"

definition do_start_session :: "wenv \<Rightarrow> worker \<Rightarrow> worker run" where
  "do_start_session E w =
     bindR (gdm_session_worker_start_session E w) (\<lambda>(w, error).
       Ret (reply_pending (case error of None \<Rightarrow> PidReply (child_pid w) | Some e \<Rightarrow> ErrorReply e) w))"

definition state_change_idle :: "wenv \<Rightarrow> worker \<Rightarrow> worker run" where
  "state_change_idle E w =
     bindR (get_state_name (state_num (state w) + 1)) (\<lambda>_.
       let w = w\<lparr>state_change_idle_id := False\<rparr>
       in case state w of
            STATE_NONE \<Rightarrow> do_setup E w
          | STATE_SETUP_COMPLETE \<Rightarrow> do_authenticate E w
          | STATE_AUTHENTICATED \<Rightarrow> do_authorize E w
          | STATE_AUTHORIZED \<Rightarrow> do_accredit E w
          | STATE_ACCREDITED \<Rightarrow> do_save_account_details_when_ready E w
          | STATE_ACCOUNT_DETAILS_SAVED \<Rightarrow> do_open_session E w
          | STATE_SESSION_OPENED \<Rightarrow> do_start_session E w
          | STATE_SESSION_STARTED \<Rightarrow> Stop ''state_change_idle: not reached'')"

section \<open>Method calls\<close>

definition validate_state_change ::
  "nat \<Rightarrow> worker_state \<Rightarrow> worker \<Rightarrow> (worker \<times> bool) run" where
  "validate_state_change invocation new_state w =
     (if pending_invocation w \<noteq> None
      then bindR (get_state_name (state_num new_state)) (\<lambda>new.
           bindR (get_state_name (state_num (state w) + 1)) (\<lambda>next.
           Ret (logged [Replied invocation
             (ErrorReply (OUTSTANDING_REQUEST (OutstandingMessage new next)))] w, False)))
      else if int (state_num (state w)) \<noteq> int (state_num new_state) - 1
      then bindR (get_state_name (state_num new_state)) (\<lambda>new.
           bindR (get_state_name (state_num (state w))) (\<lambda>cur.
           bindR (get_state_name (state_num new_state - 1)) (\<lambda>want.
           Ret (logged [Replied invocation
             (ErrorReply (WRONG_STATE (WrongStateMessage new cur want)))] w, False))))
      else Ret (w, True))"

definition validate_and_queue_state_change ::
  "nat \<Rightarrow> worker_state \<Rightarrow> worker \<Rightarrow> worker run" where
  "validate_and_queue_state_change invocation new_state w =
     bindR (validate_state_change invocation new_state w) (\<lambda>(w, ok).
       Ret (if ok then queue_state_change (w\<lparr>pending_invocation := Some invocation\<rparr>) else w))"

definition gdm_session_worker_handle_authenticate :: "nat \<Rightarrow> worker \<Rightarrow> worker run" where
  "gdm_session_worker_handle_authenticate i w = validate_and_queue_state_change i STATE_AUTHENTICATED w"

definition gdm_session_worker_handle_authorize :: "nat \<Rightarrow> worker \<Rightarrow> worker run" where
  "gdm_session_worker_handle_authorize i w = validate_and_queue_state_change i STATE_AUTHORIZED w"

definition gdm_session_worker_handle_establish_credentials :: "nat \<Rightarrow> worker \<Rightarrow> worker run" where
  "gdm_session_worker_handle_establish_credentials i w =
     bindR (validate_and_queue_state_change i STATE_ACCREDITED w) (\<lambda>w.
       Ret (w\<lparr>cred_flags := (if \<not> is_reauth_session w then PAM_ESTABLISH_CRED
                             else PAM_REINITIALIZE_CRED)\<rparr>))"

definition gdm_session_worker_handle_open :: "nat \<Rightarrow> worker \<Rightarrow> worker run" where
  "gdm_session_worker_handle_open i w = validate_and_queue_state_change i STATE_ACCOUNT_DETAILS_SAVED w"

text \<open>The values of the details of \<^verbatim>\<open>Initialize\<close>; a value of another type reads as nothing.\<close>

datatype variant = VString string | VBool bool | VStrv "string list"

fun variant_string :: "variant \<Rightarrow> cstr" where
  "variant_string (VString v) = Some v"
| "variant_string _ = None"

fun variant_bool :: "variant \<Rightarrow> bool" where
  "variant_bool (VBool b) = b"
| "variant_bool _ = False"

definition read_detail :: "string \<times> variant \<Rightarrow> worker \<Rightarrow> worker run" where
  "read_detail kv w =
     (let (key, v) = kv
      in if key = ''service'' then Ret (w\<lparr>service := variant_string v\<rparr>)
         else if key = ''extensions''
         then (case v of VStrv es \<Rightarrow> Ret (w\<lparr>extensions := Some (filter_extensions es)\<rparr>)
               | _ \<Rightarrow> Stop ''filter_extensions: NULL'')
         else if key = ''username'' then Ret (w\<lparr>username := variant_string v\<rparr>)
         else if key = ''is-program-session'' then Ret (w\<lparr>is_program_session := variant_bool v\<rparr>)
         else if key = ''log-file'' then Ret (w\<lparr>log_file := variant_string v\<rparr>)
         else if key = ''console'' then Ret (w\<lparr>display_device := variant_string v\<rparr>)
         else if key = ''seat-id'' then Ret (w\<lparr>display_seat_id := variant_string v\<rparr>)
         else if key = ''hostname'' then Ret (w\<lparr>hostname := variant_string v\<rparr>)
         else if key = ''display-is-local'' then Ret (w\<lparr>display_is_local := variant_bool v\<rparr>)
         else if key = ''display-is-initial'' then Ret (w\<lparr>display_is_initial := variant_bool v\<rparr>)
         else Ret w)"

text \<open>
  The settings part of \<^verbatim>\<open>Initialize\<close>: a new settings object with the readers
  connected, and whether to wait for it.
\<close>

definition initialize_settings :: "wenv \<Rightarrow> worker \<Rightarrow> (worker \<times> bool) run" where
  "initialize_settings E w =
     (if is_program_session w then Ret (w, False)
      else
        let w = w\<lparr>user_settings := Some gdm_session_settings_new, settings_readers := True,
                  settings_waiting := False\<rparr>
        in if username w = None then Ret (w, False)
           else
             let (r, loaded) = gdm_session_settings_load (act_get_user E (log w)) (username w)
                                 gdm_session_settings_new
             in bindR (put_settings E r w) (\<lambda>w. Ret (w, \<not> loaded)))"

definition gdm_session_worker_handle_initialize ::
  "wenv \<Rightarrow> nat \<Rightarrow> (string \<times> variant) list \<Rightarrow> worker \<Rightarrow> worker run" where
  "gdm_session_worker_handle_initialize E i details w =
     bindR (validate_state_change i STATE_SETUP_COMPLETE w) (\<lambda>(w, ok).
       if \<not> ok then Ret w
       else
         bindR (foldR read_detail details w) (\<lambda>w.
         let w = w\<lparr>seat0_has_vts := sd_seat_can_tty E (log w), pending_invocation := Some i\<rparr>
         in bindR (initialize_settings E w) (\<lambda>(w, wait_for_settings).
              if wait_for_settings then Ret (w\<lparr>settings_waiting := True\<rparr>)
              else Ret (queue_state_change w))))"

text \<open>The result of the validation is not used.\<close>

definition gdm_session_worker_handle_start_program ::
  "wenv \<Rightarrow> nat \<Rightarrow> string \<Rightarrow> worker \<Rightarrow> worker run" where
  "gdm_session_worker_handle_start_program E i text w =
     bindR (validate_state_change i STATE_SESSION_STARTED w) (\<lambda>(w, _).
       if is_reauth_session w
       then Ret (logged [Replied i (ErrorReply (IN_REAUTH_SESSION NoMessage))] w)
       else
         case shell_parse_argv E text of
           None \<Rightarrow> Ret (logged [Replied i (ErrorReply (SHELL_ERROR ParseMessage))] (w\<lparr>arguments := None\<rparr>))
         | Some argv \<Rightarrow>
             Ret (queue_state_change (w\<lparr>arguments := Some argv, pending_invocation := Some i\<rparr>)))"

definition gdm_session_worker_handle_set_environment_variable ::
  "wenv \<Rightarrow> nat \<Rightarrow> string \<Rightarrow> string \<Rightarrow> worker \<Rightarrow> worker" where
  "gdm_session_worker_handle_set_environment_variable E i key value w =
     logged [Replied i Done] (gdm_session_worker_set_environment_variable E key (Some value) w)"

definition gdm_session_worker_handle_set_session_name ::
  "wenv \<Rightarrow> nat \<Rightarrow> string \<Rightarrow> worker \<Rightarrow> worker run" where
  "gdm_session_worker_handle_set_session_name E i name w =
     bindR (case user_settings w of None \<Rightarrow> Ret w
            | Some st \<Rightarrow> put_settings E (gdm_session_settings_set_session_name (Some name) st) w)
       (\<lambda>w. Ret (logged [Replied i Done] w))"

definition gdm_session_worker_handle_set_language_name ::
  "wenv \<Rightarrow> nat \<Rightarrow> string \<Rightarrow> worker \<Rightarrow> worker run" where
  "gdm_session_worker_handle_set_language_name E i name w =
     bindR (case user_settings w of None \<Rightarrow> Ret w
            | Some st \<Rightarrow> put_settings E (gdm_session_settings_set_language_name (Some name) st) w)
       (\<lambda>w. Ret (logged [Replied i Done] w))"

definition gdm_session_display_mode_from_string :: "string \<Rightarrow> display_mode option" where
  "gdm_session_display_mode_from_string str =
     (if str = ''new-vt'' then Some NEW_VT
      else if str = ''logind-managed'' then Some LOGIND_MANAGED
      else None)"

definition gdm_session_worker_handle_set_session_display_mode :: "nat \<Rightarrow> string \<Rightarrow> worker \<Rightarrow> worker" where
  "gdm_session_worker_handle_set_session_display_mode i str w =
     logged [Replied i Done] (w\<lparr>display_mode := gdm_session_display_mode_from_string str\<rparr>)"

section \<open>Reauthentication\<close>

definition reauthentication_request_new ::
  "wenv \<Rightarrow> int \<Rightarrow> u32 \<Rightarrow> nat \<Rightarrow> worker \<Rightarrow> worker" where
  "reauthentication_request_new E pid_of_caller uid_of_caller i w =
     logged [NewReauthSession pid_of_caller uid_of_caller,
             Replied i (AddressReply (new_session_address E (log w)))] w"

definition gdm_session_worker_handle_start_reauthentication ::
  "wenv \<Rightarrow> nat \<Rightarrow> int \<Rightarrow> u32 \<Rightarrow> worker \<Rightarrow> worker run" where
  "gdm_session_worker_handle_start_reauthentication E i pid_of_caller uid_of_caller w =
     (if state w \<noteq> STATE_SESSION_STARTED
      then bindR (get_state_name (state_num (state w))) (\<lambda>name.
             Ret (logged [Replied i (ErrorReply (WRONG_STATE (ReauthMessage name)))] w))
      else
        let w = reauthentication_request_new E pid_of_caller uid_of_caller i w
        in Ret (w\<lparr>reauthentication_requests :=
                    ght_insert pid_of_caller uid_of_caller (reauthentication_requests w)\<rparr>))"

definition on_reauthentication_client_disconnected :: "int \<Rightarrow> worker \<Rightarrow> worker" where
  "on_reauthentication_client_disconnected pid_of_client w =
     w\<lparr>reauthentication_requests := ght_remove pid_of_client (reauthentication_requests w)\<rparr>"

definition on_reauthentication_verification_complete :: "string \<Rightarrow> int \<Rightarrow> worker \<Rightarrow> worker" where
  "on_reauthentication_verification_complete service_name pid_of_caller w =
     logged [Emitted (Reauthenticated service_name pid_of_caller)] w"

section \<open>Finalisation\<close>

definition gdm_session_worker_finalize :: "wenv \<Rightarrow> worker \<Rightarrow> worker run" where
  "gdm_session_worker_finalize E w =
     (let w = w\<lparr>child_watch_id := False\<rparr>;
          w = (if child_pid w > 0 then logged [Terminate (child_pid w)] w else w)
      in bindR (if pam_handle w then gdm_session_worker_uninitialize_pam E PAM_SUCCESS w else Ret w)
           (\<lambda>w. jump_back_to_initial_vt E w))"

section \<open>Running the worker\<close>

datatype wevent =
    EvInitialize nat "(string \<times> variant) list"
  | EvAuthenticate nat
  | EvAuthorize nat
  | EvEstablishCredentials nat
  | EvOpen nat
  | EvStartProgram nat string
  | EvSetEnvironmentVariable nat string string
  | EvSetSessionName nat string
  | EvSetLanguageName nat string
  | EvSetSessionDisplayMode nat string
  | EvStartReauthentication nat int u32
  | EvIdle
  | EvUserLoaded act_user
  | EvChildExited int int
  | EvReauthClientDisconnected int
  | EvReauthVerified string int

text \<open>One dispatch of the worker's main loop.\<close>

fun wstep :: "wenv \<Rightarrow> wevent \<Rightarrow> worker \<Rightarrow> worker run" where
  "wstep E (EvInitialize i details) w = gdm_session_worker_handle_initialize E i details w"
| "wstep E (EvAuthenticate i) w = gdm_session_worker_handle_authenticate i w"
| "wstep E (EvAuthorize i) w = gdm_session_worker_handle_authorize i w"
| "wstep E (EvEstablishCredentials i) w = gdm_session_worker_handle_establish_credentials i w"
| "wstep E (EvOpen i) w = gdm_session_worker_handle_open i w"
| "wstep E (EvStartProgram i text) w = gdm_session_worker_handle_start_program E i text w"
| "wstep E (EvSetEnvironmentVariable i k v) w =
     Ret (gdm_session_worker_handle_set_environment_variable E i k v w)"
| "wstep E (EvSetSessionName i name) w = gdm_session_worker_handle_set_session_name E i name w"
| "wstep E (EvSetLanguageName i name) w = gdm_session_worker_handle_set_language_name E i name w"
| "wstep E (EvSetSessionDisplayMode i str) w =
     Ret (gdm_session_worker_handle_set_session_display_mode i str w)"
| "wstep E (EvStartReauthentication i pid u) w =
     gdm_session_worker_handle_start_reauthentication E i pid u w"
| "wstep E EvIdle w = (if state_change_idle_id w then state_change_idle E w else Ret w)"
| "wstep E (EvUserLoaded u) w =
     (case user_settings w of None \<Rightarrow> Ret w
      | Some st \<Rightarrow> if ss_watching st then put_settings E (on_user_is_loaded_changed u st) w else Ret w)"
| "wstep E (EvChildExited pid status) w =
     (if child_watch_id w \<and> pid = child_pid w then session_worker_child_watch E pid status w else Ret w)"
| "wstep E (EvReauthClientDisconnected pid) w = Ret (on_reauthentication_client_disconnected pid w)"
| "wstep E (EvReauthVerified srv pid) w = Ret (on_reauthentication_verification_complete srv pid w)"

definition run_worker :: "wenv \<Rightarrow> bool \<Rightarrow> wevent list \<Rightarrow> worker run" where
  "run_worker E is_reauth evs = foldR (wstep E) evs (gdm_session_worker_new is_reauth)"

end
