(* ===== verification/Session_Worker_Safety.thy ===== *)
theory Session_Worker_Safety
  imports Session_Worker
begin

text \<open>
  What the session worker guarantees. The specification is an abstract machine for a PAM
  application (\<open>pam_step\<close>): which call is allowed when, and what is held between the calls.
  The worker refines it: whatever PAM, the manager and the user do, and in whatever order the
  methods are called, its log is a run of the machine and its state tells what it holds.
\<close>

section \<open>The protocol of a PAM application\<close>

record pam_client =
  pc_handle :: bool
  pc_authenticated :: bool
  pc_authorized :: bool
  pc_accredited :: bool
  pc_opened :: bool

definition idle_client :: pam_client where
  "idle_client = \<lparr>pc_handle = False, pc_authenticated = False, pc_authorized = False,
     pc_accredited = False, pc_opened = False\<rparr>"

text \<open>
  \<open>r\<close>: the worker reauthenticates a user who is logged in; then the outcome of the account
  check and of the credentials does not matter. \<open>None\<close>: the call is not allowed.
\<close>

fun pam_step :: "bool \<Rightarrow> wcall \<Rightarrow> pam_client \<Rightarrow> pam_client option" where
  "pam_step r (PamStart srv name code) m =
     (if \<not> pc_handle m then Some (m\<lparr>pc_handle := (code = PAM_SUCCESS)\<rparr>) else None)"
| "pam_step r (PamSetItem item v code) m = (if pc_handle m then Some m else None)"
| "pam_step r (PamOp (Authenticate req) code) m =
     (if pc_handle m \<and> \<not> pc_authenticated m then Some (m\<lparr>pc_authenticated := (code = PAM_SUCCESS)\<rparr>)
      else None)"
| "pam_step r (PamOp (AcctMgmt req) code) m =
     (if pc_authenticated m \<and> \<not> pc_authorized m
      then Some (m\<lparr>pc_authorized := (r \<or> code = PAM_SUCCESS)\<rparr>) else None)"
| "pam_step r (PamOp Chauthtok code) m =
     (if pc_authenticated m \<and> \<not> pc_accredited m
      then Some (m\<lparr>pc_authorized := (r \<or> code = PAM_SUCCESS)\<rparr>) else None)"
| "pam_step r (PamOp (Setcred flags) code) m =
     (if flags = PAM_DELETE_CRED
      then (if pc_accredited m \<and> \<not> pc_opened m then Some (m\<lparr>pc_accredited := False\<rparr>) else None)
      else (if pc_authorized m \<and> \<not> pc_accredited m
            then Some (m\<lparr>pc_accredited := (r \<or> code = PAM_SUCCESS)\<rparr>) else None))"
| "pam_step r (PamOp (OpenSession silent) code) m =
     (if pc_accredited m \<and> \<not> pc_opened m then Some (m\<lparr>pc_opened := (code = PAM_SUCCESS)\<rparr>) else None)"
| "pam_step r (PamOp CloseSession code) m =
     (if pc_opened m then Some (m\<lparr>pc_opened := False\<rparr>) else None)"
| "pam_step r (PamEnd code) m =
     (if pc_handle m \<and> \<not> pc_opened m \<and> \<not> pc_accredited m then Some idle_client else None)"
| "pam_step r (Fork pid) m = (if pc_opened m then Some m else None)"
| "pam_step r _ m = Some m"

fun pam_run :: "bool \<Rightarrow> wcall list \<Rightarrow> pam_client \<Rightarrow> pam_client option" where
  "pam_run r [] m = Some m"
| "pam_run r (c # cs) m = Option.bind (pam_step r c m) (pam_run r cs)"

lemma pam_run_append: "pam_run r (cs @ ds) m = Option.bind (pam_run r cs m) (pam_run r ds)"
  by (induction cs arbitrary: m) (auto split: bind_split)

text \<open>What the worker holds in each state.\<close>

definition client_of :: "worker \<Rightarrow> pam_client" where
  "client_of w =
     \<lparr>pc_handle = pam_handle w, pc_authenticated = (state w \<ge> STATE_AUTHENTICATED),
      pc_authorized = (state w \<ge> STATE_AUTHORIZED), pc_accredited = (state w \<ge> STATE_ACCREDITED),
      pc_opened = (state w \<ge> STATE_SESSION_OPENED)\<rparr>"

definition tracks :: "worker \<Rightarrow> bool" where
  "tracks w \<longleftrightarrow>
     pam_run (is_reauth_session w) (log w) idle_client = Some (client_of w) \<and>
     (pam_handle w \<longleftrightarrow> state w \<ge> STATE_SETUP_COMPLETE)"

section \<open>The conversation makes no PAM call\<close>

fun neutral :: "wcall \<Rightarrow> bool" where
  "neutral (ManagerCall q) = True"
| "neutral (Audit a) = True"
| "neutral (Emitted s) = True"
| "neutral (ActCalls cs) = True"
| "neutral _ = False"

text \<open>
  What may change while PAM modules talk to the user: the settings of the user can arrive, and
  a worker that waits for them before it saves the account details goes on then.
\<close>

definition quiet :: "worker \<Rightarrow> worker \<Rightarrow> bool" where
  "quiet w w' \<longleftrightarrow> (\<exists>cs. log w' = log w @ cs \<and> (\<forall>c \<in> set cs. neutral c))"

definition same_task :: "worker \<Rightarrow> worker \<Rightarrow> bool" where
  "same_task w w' \<longleftrightarrow>
     pam_handle w' = pam_handle w \<and> is_reauth_session w' = is_reauth_session w \<and>
     is_program_session w' = is_program_session w \<and> auditor w' = auditor w \<and>
     pending_invocation w' = pending_invocation w \<and> cred_flags w' = cred_flags w \<and>
     arguments w' = arguments w \<and> service w' = service w"

definition moved :: "worker \<Rightarrow> worker \<Rightarrow> bool" where
  "moved w w' \<longleftrightarrow>
     (state w' = state w \<or>
      settings_waiting w \<and> state w = STATE_ACCREDITED \<and> state w' = STATE_ACCOUNT_DETAILS_SAVED) \<and>
     (settings_waiting w' \<longrightarrow> settings_waiting w) \<and>
     (state_change_idle_id w' \<longleftrightarrow> state_change_idle_id w \<or> settings_waiting w \<and> \<not> settings_waiting w')"

definition calm :: "worker \<Rightarrow> worker \<Rightarrow> bool" where
  "calm w w' \<longleftrightarrow> quiet w w' \<and> same_task w w' \<and> moved w w'"

lemma quiet_trans: "quiet u v \<Longrightarrow> quiet v w \<Longrightarrow> quiet u w"
  unfolding quiet_def by (metis Un_iff append.assoc set_append)

lemma same_task_trans: "same_task u v \<Longrightarrow> same_task v w \<Longrightarrow> same_task u w"
  by (simp add: same_task_def)

lemma moved_trans: "moved u v \<Longrightarrow> moved v w \<Longrightarrow> moved u w"
  unfolding moved_def by (elim conjE disjE) auto

lemma calm_refl [simp]: "calm w w"
  by (auto simp: calm_def quiet_def same_task_def moved_def)

lemma calm_trans [trans]: "calm u v \<Longrightarrow> calm v w \<Longrightarrow> calm u w"
  unfolding calm_def by (blast intro: quiet_trans same_task_trans moved_trans)

lemma calm_logged [simp]: "neutral c \<Longrightarrow> calm w (logged [c] w)"
  by (auto simp: calm_def quiet_def same_task_def moved_def logged_def)

text \<open>A function that makes the worker no PAM call.\<close>

lemma calm_fields [simp]:
  "calm w (w\<lparr>username := a\<rparr>)" "calm w (w\<lparr>user_settings := b\<rparr>)" "calm w (w\<lparr>settings_readers := c\<rparr>)"
  "calm w (w\<lparr>cancelled := d, timed_out := e\<rparr>)" "calm w (w\<lparr>timed_out := e\<rparr>)"
  by (auto simp: calm_def quiet_def same_task_def moved_def)

lemma calm_audit [simp]: "calm w (audit a w)"
  by (simp add: audit_def)

lemma on_settings_is_loaded_changed_calm:
  assumes "on_settings_is_loaded_changed E w = Ret w'" "settings_waiting w"
  shows "calm w w'"
  using assms
  by (auto simp: on_settings_is_loaded_changed_def save_account_details_now_def set_state_def
      queue_state_change_def logged_def calm_def quiet_def same_task_def moved_def Let_def
      split: if_splits option.splits)

lemma on_settings_notify_calm:
  "on_settings_notify E n w = Ret w' \<Longrightarrow> calm w w'"
  by (auto simp: on_settings_notify_def on_settings_is_loaded_changed_calm split: ss_notify.splits if_splits)

lemma put_settings_calm:
  assumes "put_settings E r w = Ret w'"
  shows "calm w w'"
  using assms unfolding put_settings_def
  by (rule foldR_invariant) (auto dest: on_settings_notify_calm intro: calm_trans)

lemma attempt_to_load_user_settings_calm:
  "attempt_to_load_user_settings E name w = Ret w' \<Longrightarrow> calm w w'"
  by (auto simp: attempt_to_load_user_settings_def put_settings_calm split: option.splits if_splits)

lemma get_username_calm:
  "gdm_session_worker_get_username E w = Ret (w', r) \<Longrightarrow> calm w w'"
  by (auto simp: gdm_session_worker_get_username_def split: if_splits option.splits)

lemma update_username_calm:
  assumes "gdm_session_worker_update_username E w = Ret w'"
  shows "calm w w'"
proof -
  from assms obtain v r where v: "gdm_session_worker_get_username E w = Ret (v, r)"
    and rest: "(case r of None \<Rightarrow> Ret v
       | Some name \<Rightarrow>
           let w = audit (AuditUsername (username v)) v
           in if username w = name then Ret w
              else
                let w = logged [Emitted (UsernameChanged name)] (w\<lparr>username := name\<rparr>)
                in if nonempty name then attempt_to_load_user_settings E name w else Ret w) = Ret w'"
    by (auto simp: gdm_session_worker_update_username_def)
  have 1: "calm w v" using v by (rule get_username_calm)
  have 2: "calm v (logged [Emitted (UsernameChanged n)] ((audit a v)\<lparr>username := n\<rparr>))" for a n
    using calm_trans [OF calm_trans [OF calm_audit calm_fields(1)] calm_logged] by simp
  from rest 2 have "calm v w'"
    by (auto simp: Let_def split: option.splits if_splits
        intro: calm_trans dest: attempt_to_load_user_settings_calm)
  with 1 show ?thesis by (rule calm_trans)
qed

lemma manager_call_calm: "manager_call E q w = (w', x) \<Longrightarrow> calm w w'"
  by (auto simp: manager_call_def)

lemma process_extended_pam_message_calm:
  "gdm_session_worker_process_extended_pam_message E m w = Ret (w', x) \<Longrightarrow> calm w w'"
  by (auto simp: gdm_session_worker_process_extended_pam_message_def
      gdm_session_worker_ask_list_of_choices_def gdm_session_worker_process_custom_json_protocol_def
      Let_def manager_call_calm split: if_splits option.splits bool.splits prod.splits)

lemma deliver_pam_message_calm:
  "deliver_pam_message E q w = (w', x) \<Longrightarrow> calm w w'"
  by (auto simp: deliver_pam_message_def gdm_session_worker_ask_question_def
      gdm_session_worker_ask_for_secret_def gdm_session_worker_report_info_def
      gdm_session_worker_report_problem_def manager_call_calm split: pam_message.splits prod.splits)

lemma process_pam_message_calm:
  assumes "gdm_session_worker_process_pam_message E q w = Ret (w', x)"
  shows "calm w w'"
proof -
  from assms obtain v where v: "gdm_session_worker_update_username E w = Ret v"
    and rest: "(case q of
         PAM_BINARY_PROMPT m \<Rightarrow> gdm_session_worker_process_extended_pam_message E m v
       | _ \<Rightarrow>
           let (w, res, user_answer) =
                 deliver_pam_message E q (v\<lparr>cancelled := False, timed_out := False\<rparr>);
               w = (if timed_out w
                    then (logged [Emitted CancelPendingQuery] w)\<lparr>timed_out := False\<rparr> else w)
           in case user_answer of
                None \<Rightarrow> Ret (w, None, res)
              | Some answer \<Rightarrow>
                  Ret (w, if res then Some (TextReply (take (PAM_MAX_RESP_SIZE - 1) answer)) else None,
                       True)) = Ret (w', x)"
    unfolding gdm_session_worker_process_pam_message_def by blast
  have 1: "calm w v" using v by (rule update_username_calm)
  obtain u a b where u: "deliver_pam_message E q (v\<lparr>cancelled := False, timed_out := False\<rparr>) = (u, a, b)"
    by (cases "deliver_pam_message E q (v\<lparr>cancelled := False, timed_out := False\<rparr>)") auto
  have 2: "calm v u"
    by (rule calm_trans [OF calm_fields(4) deliver_pam_message_calm [OF u]])
  have 3: "calm u ((logged [Emitted CancelPendingQuery] u)\<lparr>timed_out := False\<rparr>)"
    using calm_trans [OF calm_logged calm_fields(5)] by simp
  have "calm v w'"
    using rest 2 calm_trans [OF 2 3] unfolding u Let_def
    by (auto simp: process_extended_pam_message_calm
        split: pam_message.splits option.splits if_splits)
  with 1 show ?thesis by (rule calm_trans)
qed

lemma collect_replies_calm:
  "collect_replies E ms w = Ret (w', x) \<Longrightarrow> calm w w'"
proof (induction ms arbitrary: w x)
  case (Cons m ms)
  then show ?case
    by (auto split: if_splits dest!: process_pam_message_calm) (blast intro: calm_trans)
qed simp

lemma new_messages_handler_calm:
  "gdm_session_worker_pam_new_messages_handler E n ms w = Ret (w', x) \<Longrightarrow> calm w w'"
  by (auto simp: gdm_session_worker_pam_new_messages_handler_def collect_replies_calm split: if_splits)

lemma run_pam_calm:
  "run_pam E p w = Ret (w', c) \<Longrightarrow> calm w w'"
proof (induction p arbitrary: w)
  case (PamConv n ms k)
  then obtain r where r: "gdm_session_worker_pam_new_messages_handler E n ms w = Ret r"
    and rest: "run_pam E (k (snd r)) (fst r) = Ret (w', c)"
    by auto
  from r have "calm w (fst r)" by (cases r) (auto dest: new_messages_handler_calm)
  also from PamConv.IH [OF _ rest] have "calm (fst r) w'" by simp
  finally show ?case .
qed simp

text \<open>A PAM operation: the conversation, then the entry in the log.\<close>

lemma pam_callE:
  assumes "pam_call E op w = Ret (w', code)"
  obtains v where "calm w v" "w' = logged [PamOp op code] v"
  using assms unfolding pam_call_def by (auto dest: run_pam_calm)

section \<open>The refinement\<close>

lemma pam_run_neutral: "\<forall>c \<in> set cs. neutral c \<Longrightarrow> pam_run r cs m = Some m"
proof (induction cs)
  case (Cons c cs)
  then show ?case by (cases c) auto
qed simp

lemma calm_task:
  assumes "calm w w'"
  shows "pam_handle w' = pam_handle w" "is_reauth_session w' = is_reauth_session w"
    "is_program_session w' = is_program_session w" "auditor w' = auditor w"
    "pending_invocation w' = pending_invocation w" "cred_flags w' = cred_flags w"
    "arguments w' = arguments w" "service w' = service w"
  using assms by (simp_all add: calm_def same_task_def)

lemma calm_state:
  assumes "calm w w'" "s \<noteq> STATE_ACCOUNT_DETAILS_SAVED"
  shows "s \<le> state w' \<longleftrightarrow> s \<le> state w"
  using assms by (cases s) (auto simp: calm_def moved_def worker_state_order)

lemma calm_client: "calm w w' \<Longrightarrow> client_of w' = client_of w"
  by (simp add: client_of_def calm_task calm_state)

lemma calm_tracks:
  assumes "calm w w'" "tracks w"
  shows "tracks w'"
proof -
  from assms obtain cs where "log w' = log w @ cs" "\<forall>c \<in> set cs. neutral c"
    by (auto simp: calm_def quiet_def)
  then show ?thesis
    using assms calm_client [OF assms(1)]
    by (simp add: tracks_def pam_run_append pam_run_neutral calm_task calm_state)
qed

text \<open>One call of the protocol, with the change of state the worker makes for it.\<close>

lemma tracks_logged:
  "tracks (logged [c] w) \<longleftrightarrow> pam_run (is_reauth_session w) (log w @ [c]) idle_client = Some (client_of w) \<and>
     (pam_handle w \<longleftrightarrow> state w \<ge> STATE_SETUP_COMPLETE)"
  by (simp add: tracks_def logged_def client_of_def)

lemma tracks_call:
  assumes "tracks w" "pam_step (is_reauth_session w) c (client_of w) = Some (client_of w')"
    and "log w' = log w @ [c]" "is_reauth_session w' = is_reauth_session w"
    and "pam_handle w' \<longleftrightarrow> state w' \<ge> STATE_SETUP_COMPLETE"
  shows "tracks w'"
  using assms by (auto simp: tracks_def pam_run_append)

definition at :: "pam_client \<Rightarrow> worker \<Rightarrow> bool" where
  "at m w \<longleftrightarrow> pam_run (is_reauth_session w) (log w) idle_client = Some m"

lemma tracks_at: "tracks w \<longleftrightarrow> at (client_of w) w \<and> (pam_handle w \<longleftrightarrow> state w \<ge> STATE_SETUP_COMPLETE)"
  by (simp add: tracks_def at_def)

lemma calm_at: "calm w w' \<Longrightarrow> at m w' \<longleftrightarrow> at m w"
  by (auto simp: at_def calm_task pam_run_append pam_run_neutral calm_def quiet_def split: bind_splits)

lemma at_logged: "at m w \<Longrightarrow> pam_step (is_reauth_session w) c m = Some m' \<Longrightarrow> at m' (logged [c] w)"
  by (simp add: at_def logged_def pam_run_append)

lemma at_cong:
  "log w' = log w \<Longrightarrow> is_reauth_session w' = is_reauth_session w \<Longrightarrow> at m w' \<longleftrightarrow> at m w"
  by (simp add: at_def)

lemma at_audit [simp]: "at m (audit a w) \<longleftrightarrow> at m w"
  by (simp add: audit_def at_def logged_def pam_run_append split: bind_split)

section \<open>Stages answer nothing themselves\<close>

fun is_reply :: "wcall \<Rightarrow> bool" where
  "is_reply (Replied i r) = True"
| "is_reply _ = False"

text \<open>
  What a stage leaves alone: it sends no reply, keeps the pending call, and an idle source is
  added only for a worker that has stopped waiting for settings.
\<close>

definition unanswered :: "worker \<Rightarrow> worker \<Rightarrow> bool" where
  "unanswered w w' \<longleftrightarrow> (\<exists>cs. log w' = log w @ cs \<and> (\<forall>c \<in> set cs. \<not> is_reply c))"

definition same_call :: "worker \<Rightarrow> worker \<Rightarrow> bool" where
  "same_call w w' \<longleftrightarrow>
     is_reauth_session w' = is_reauth_session w \<and> is_program_session w' = is_program_session w \<and>
     pending_invocation w' = pending_invocation w \<and> arguments w' = arguments w \<and>
     service w' = service w \<and> cred_flags w' = cred_flags w \<and> (settings_waiting w' \<longrightarrow> settings_waiting w) \<and>
     (state_change_idle_id w' \<longleftrightarrow> state_change_idle_id w \<or> settings_waiting w \<and> \<not> settings_waiting w')"

definition silent :: "worker \<Rightarrow> worker \<Rightarrow> bool" where
  "silent w w' \<longleftrightarrow> unanswered w w' \<and> same_call w w'"

lemma unanswered_trans: "unanswered u v \<Longrightarrow> unanswered v w \<Longrightarrow> unanswered u w"
  unfolding unanswered_def by (metis Un_iff append.assoc set_append)

lemma same_call_trans: "same_call u v \<Longrightarrow> same_call v w \<Longrightarrow> same_call u w"
  unfolding same_call_def by (elim conjE, intro conjI) (simp | blast)+

lemma silent_refl [simp]: "silent w w"
  by (auto simp: silent_def unanswered_def same_call_def)

lemma silent_trans [trans]: "silent u v \<Longrightarrow> silent v w \<Longrightarrow> silent u w"
  unfolding silent_def by (blast intro: unanswered_trans same_call_trans)

lemma neutral_not_reply: "neutral c \<Longrightarrow> \<not> is_reply c"
  by (cases c) auto

lemma calm_silent: "calm w w' \<Longrightarrow> silent w w'"
  by (auto simp: calm_def silent_def quiet_def unanswered_def same_task_def same_call_def moved_def
      neutral_not_reply)

lemma silent_logged [simp]: "\<forall>c \<in> set cs. \<not> is_reply c \<Longrightarrow> silent w (logged cs w)"
  by (auto simp: silent_def unanswered_def same_call_def logged_def)

lemma silent_fields [simp]:
  "silent w (w\<lparr>state := a\<rparr>)" "silent w (w\<lparr>pam_handle := b\<rparr>)" "silent w (w\<lparr>auditor := b\<rparr>)"
  "silent w (w\<lparr>session_vt := n\<rparr>)" "silent w (w\<lparr>uid := x, gid := y\<rparr>)" "silent w (w\<lparr>session_tty_fd := z\<rparr>)"
  "silent w (w\<lparr>session_id := s\<rparr>)" "silent w (w\<lparr>password_is_required := b\<rparr>)"
  "silent w (w\<lparr>ext_env := s\<rparr>)" "silent w (w\<lparr>child_pid := z\<rparr>)" "silent w (w\<lparr>child_watch_id := b\<rparr>)"
  "silent w (w\<lparr>child_pid := z, child_watch_id := b\<rparr>)"
  by (auto simp: silent_def unanswered_def same_call_def)

lemma pam_call_at:
  assumes "pam_call E op w = Ret (w', code)" "at m w"
    and "pam_step (is_reauth_session w) (PamOp op code) m = Some m'"
  shows "at m' w'" "silent w w'" "pam_handle w' = pam_handle w" "client_of w' = client_of w"
proof -
  from assms(1) obtain v where v: "calm w v" "w' = logged [PamOp op code] v" by (rule pam_callE)
  then show "at m' w'" using assms by (simp add: calm_at calm_task at_logged)
  show "silent w w'" using v by (auto intro: silent_trans calm_silent)
  show "pam_handle w' = pam_handle w" "client_of w' = client_of w"
    using v calm_client [OF v(1)] by (simp_all add: calm_task logged_def client_of_def)
qed

section \<open>Every stage follows the protocol\<close>

lemma client_of_simps [simp]:
  "pc_handle (client_of w) = pam_handle w"
  "pc_authenticated (client_of w) = (STATE_AUTHENTICATED \<le> state w)"
  "pc_authorized (client_of w) = (STATE_AUTHORIZED \<le> state w)"
  "pc_accredited (client_of w) = (STATE_ACCREDITED \<le> state w)"
  "pc_opened (client_of w) = (STATE_SESSION_OPENED \<le> state w)"
  by (simp_all add: client_of_def)

lemma client_ofD:
  assumes "client_of w' = client_of w"
  shows "pam_handle w' = pam_handle w" "STATE_ACCREDITED \<le> state w' \<longleftrightarrow> STATE_ACCREDITED \<le> state w"
    "STATE_SESSION_OPENED \<le> state w' \<longleftrightarrow> STATE_SESSION_OPENED \<le> state w"
  using assms by (metis client_of_simps)+

lemma silent_reauth: "silent w w' \<Longrightarrow> is_reauth_session w' = is_reauth_session w"
  by (simp add: silent_def same_call_def)

lemma state_order_simps [simp]:
  "STATE_NONE \<le> s" "STATE_SETUP_COMPLETE \<le> s \<longleftrightarrow> s \<noteq> STATE_NONE"
  by (cases s; simp add: worker_state_order)+

lemma audit_simps [simp]:
  "client_of (audit a w) = client_of w" "silent w (audit a w)" "state (audit a w) = state w"
  "is_reauth_session (audit a w) = is_reauth_session w" "pam_handle (audit a w) = pam_handle w"
  by (simp_all add: calm_client calm_silent) (simp_all add: audit_def logged_def)

lemma silent_audit: "silent w v \<Longrightarrow> silent w (audit a v)"
  by (erule silent_trans) simp

text \<open>Closing the session, when there is one.\<close>

lemma close_session_at:
  assumes "(if state w \<ge> STATE_SESSION_OPENED
            then bindR (pam_call E CloseSession w) (\<lambda>(w, _). Ret (audit AuditLogout w))
            else Ret (audit (AuditLoginFailure status) w)) = Ret w'"
    and "at (client_of w) w"
  shows "at (client_of w\<lparr>pc_opened := False\<rparr>) w' \<and> silent w w' \<and> client_of w' = client_of w"
proof (cases "state w \<ge> STATE_SESSION_OPENED")
  case True
  with assms(1) obtain v c where v: "pam_call E CloseSession w = Ret (v, c)" "w' = audit AuditLogout v"
    by auto
  have "pam_step (is_reauth_session w) (PamOp CloseSession c) (client_of w) =
      Some (client_of w\<lparr>pc_opened := False\<rparr>)" using True by simp
  from pam_call_at [OF v(1) assms(2) this] show ?thesis
    using v(2) by (simp add: silent_audit)
next
  case False
  then have "client_of w\<lparr>pc_opened := False\<rparr> = client_of w" by (simp add: client_of_def)
  with False assms show ?thesis by (metis at_audit audit_simps(1,2) run.inject(1))
qed

lemma delete_cred_at:
  assumes "(if state w \<ge> STATE_ACCREDITED
            then bindR (pam_call E (Setcred PAM_DELETE_CRED) w) (\<lambda>(w, _). Ret w)
            else Ret w) = Ret w'"
    and "at (client_of w\<lparr>pc_opened := False\<rparr>) w"
  shows "at (client_of w\<lparr>pc_opened := False, pc_accredited := False\<rparr>) w' \<and> silent w w' \<and>
         client_of w' = client_of w"
proof (cases "state w \<ge> STATE_ACCREDITED")
  case True
  with assms(1) obtain c where v: "pam_call E (Setcred PAM_DELETE_CRED) w = Ret (w', c)" by auto
  have "pam_step (is_reauth_session w) (PamOp (Setcred PAM_DELETE_CRED) c)
      (client_of w\<lparr>pc_opened := False\<rparr>) =
      Some (client_of w\<lparr>pc_opened := False, pc_accredited := False\<rparr>)" using True by simp
  from pam_call_at [OF v(1) assms(2) this] show ?thesis by simp
next
  case False
  then have "client_of w\<lparr>pc_opened := False, pc_accredited := False\<rparr> = client_of w\<lparr>pc_opened := False\<rparr>"
    by (simp add: client_of_def)
  with False assms show ?thesis by (metis run.inject(1) silent_refl)
qed

lemma uninitialize_pam_at:
  assumes "gdm_session_worker_uninitialize_pam E status w = Ret w'" "at (client_of w) w" "pam_handle w"
  shows "tracks w' \<and> silent w w' \<and> \<not> pam_handle w' \<and> state w' = STATE_NONE"
proof -
  from assms(1,3) obtain w1 x w2 w3 where
    1: "gdm_session_worker_get_username E w = Ret (w1, x)" and
    2: "(if state w1 \<ge> STATE_SESSION_OPENED
         then bindR (pam_call E CloseSession w1) (\<lambda>(w, _). Ret (audit AuditLogout w))
         else Ret (audit (AuditLoginFailure status) w1)) = Ret w2" and
    3: "(if state w2 \<ge> STATE_ACCREDITED
         then bindR (pam_call E (Setcred PAM_DELETE_CRED) w2) (\<lambda>(w, _). Ret w)
         else Ret w2) = Ret w3" and
    4: "w' = set_state STATE_NONE (gdm_session_worker_stop_auditor
               ((logged [PamEnd status] w3)\<lparr>pam_handle := False\<rparr>))"
    unfolding gdm_session_worker_uninitialize_pam_def Let_def by auto
  have c1: "calm w w1" by (rule get_username_calm [OF 1])
  then have "at (client_of w1) w1" using assms(2) by (simp add: calm_at calm_client)
  note c2 = close_session_at [OF 2 this]
  then have "at (client_of w2\<lparr>pc_opened := False\<rparr>) w2" by simp
  note c3 = delete_cred_at [OF 3 this]
  define w4 where "w4 = logged [PamEnd status] w3"
  have "at idle_client w4" unfolding w4_def
    by (rule at_logged [of "client_of w2\<lparr>pc_opened := False, pc_accredited := False\<rparr>"])
       (use c3 c2 c1 assms(3) in \<open>auto dest!: client_ofD simp: calm_task\<close>)
  moreover have w': "log w' = log w4" "is_reauth_session w' = is_reauth_session w4"
    "state w' = STATE_NONE" "\<not> pam_handle w'"
    by (simp_all add: 4 w4_def set_state_def gdm_session_worker_stop_auditor_def)
  moreover from w' have "client_of w' = idle_client"
    by (simp add: client_of_def idle_client_def worker_state_order)
  moreover have "silent w w4"
    unfolding w4_def using c1 c2 c3 by (auto intro!: silent_trans [OF _ silent_logged] intro: silent_trans calm_silent)
  moreover have "silent w4 w'"
    by (auto simp: 4 w4_def [symmetric] silent_def unanswered_def same_call_def set_state_def
        gdm_session_worker_stop_auditor_def)
  ultimately show ?thesis using at_cong [of w' w4] by (auto simp: tracks_at intro: silent_trans)
qed

lemma set_environment_variable_simps [simp]:
  "at m (gdm_session_worker_set_environment_variable E k v w) \<longleftrightarrow> at m w"
  "client_of (gdm_session_worker_set_environment_variable E k v w) = client_of w"
  "state (gdm_session_worker_set_environment_variable E k v w) = state w"
  "pam_handle (gdm_session_worker_set_environment_variable E k v w) = pam_handle w"
  "is_reauth_session (gdm_session_worker_set_environment_variable E k v w) = is_reauth_session w"
  "silent w (gdm_session_worker_set_environment_variable E k v w)"
  by (simp_all add: gdm_session_worker_set_environment_variable_def Let_def at_def client_of_def
      pam_run_append) (simp_all add: logged_def pam_run_append split: bind_splits)

lemma pam_set_item_simps [simp]:
  "pc_handle m \<Longrightarrow> at m w \<Longrightarrow> at m (fst (pam_set_item E item v w))"
  "client_of (fst (pam_set_item E item v w)) = client_of w"
  "state (fst (pam_set_item E item v w)) = state w"
  "pam_handle (fst (pam_set_item E item v w)) = pam_handle w"
  "is_reauth_session (fst (pam_set_item E item v w)) = is_reauth_session w"
  "silent w (fst (pam_set_item E item v w))"
  by (simp_all add: pam_set_item_def Let_def at_logged)
     (simp_all add: logged_def client_of_def)

text \<open>What a stage without PAM operations leaves alone.\<close>

definition same_client :: "worker \<Rightarrow> worker \<Rightarrow> bool" where
  "same_client w w' \<longleftrightarrow>
     silent w w' \<and> state w' = state w \<and> pam_handle w' = pam_handle w \<and>
     (\<forall>m. pc_handle m \<longrightarrow> at m w \<longrightarrow> at m w')"

lemma same_client_refl [simp]: "same_client w w"
  by (simp add: same_client_def)

lemma same_client_trans [trans]: "same_client u v \<Longrightarrow> same_client v w \<Longrightarrow> same_client u w"
  unfolding same_client_def by (blast intro: silent_trans trans)

lemma same_client_intros [simp]:
  "same_client w (gdm_session_worker_set_environment_variable E k v w)"
  "same_client w (fst (pam_set_item E item x w))"
  by (simp_all add: same_client_def)

lemma same_client_fields [simp]:
  "same_client w (w\<lparr>session_vt := n\<rparr>)" "same_client w (w\<lparr>session_tty_fd := z\<rparr>)"
  "same_client w (w\<lparr>uid := a, gid := b\<rparr>)" "same_client w (w\<lparr>session_id := i\<rparr>)"
  "same_client w (w\<lparr>password_is_required := p\<rparr>)"
  by (simp_all add: same_client_def at_def)

fun vt_call :: "wcall \<Rightarrow> bool" where
  "vt_call (OpenTty n b) = True"
| "vt_call (Ioctl r n b) = True"
| "vt_call ClearScreen = True"
| "vt_call (ChangeUser u g b) = True"
| "vt_call _ = False"

lemma same_client_logged [simp]: "vt_call c \<Longrightarrow> same_client w (logged [c] w)"
  by (cases c) (auto simp: same_client_def logged_def at_def pam_run_append silent_def unanswered_def
      same_call_def)

lemma same_client_tracks: "same_client w w' \<Longrightarrow> tracks w \<Longrightarrow> pam_handle w \<Longrightarrow> tracks w'"
  by (auto simp: same_client_def tracks_at client_of_def)

lemma same_client_steps [simp]:
  "same_client w v \<Longrightarrow> same_client w (gdm_session_worker_set_environment_variable E k x v)"
  "same_client w v \<Longrightarrow> same_client w (fst (pam_set_item E item y v))"
  "same_client w v \<Longrightarrow> vt_call c \<Longrightarrow> same_client w (logged [c] v)"
  "same_client w v \<Longrightarrow> same_client w (v\<lparr>session_vt := n\<rparr>)"
  "same_client w v \<Longrightarrow> same_client w (v\<lparr>session_tty_fd := z\<rparr>)"
  "same_client w v \<Longrightarrow> same_client w (v\<lparr>uid := a, gid := b\<rparr>)"
  by (auto intro: same_client_trans)

lemma vt_ioctl_client [simp]: "same_client w v \<Longrightarrow> same_client w (fst (vt_ioctl E r n v))"
  by (simp add: vt_ioctl_def Let_def)

lemma set_initial_items_client:
  "set_initial_items E name host is_local w = (w', code) \<Longrightarrow> same_client w w'"
  by (auto simp: set_initial_items_def Let_def split: prod.splits if_splits
      dest!: arg_cong [of _ _ fst])

text \<open>Switching terminals does not involve PAM at all.\<close>

definition vt_only :: "worker \<Rightarrow> worker \<Rightarrow> bool" where
  "vt_only w w' \<longleftrightarrow>
     silent w w' \<and> state w' = state w \<and> pam_handle w' = pam_handle w \<and> (\<forall>m. at m w \<longrightarrow> at m w')"

lemma vt_only_client: "vt_only w w' \<Longrightarrow> same_client w w'"
  by (simp add: vt_only_def same_client_def)

lemma vt_only_refl [simp]: "vt_only w w"
  by (simp add: vt_only_def)

lemma vt_only_trans [trans]: "vt_only u v \<Longrightarrow> vt_only v w \<Longrightarrow> vt_only u w"
  unfolding vt_only_def by (blast intro: silent_trans trans)

lemma vt_only_logged: "vt_call c \<Longrightarrow> vt_only w (logged [c] w)"
  by (cases c) (auto simp: vt_only_def logged_def at_def pam_run_append silent_def unanswered_def
      same_call_def)

lemma vt_only_steps [simp]:
  "vt_only w v \<Longrightarrow> vt_call c \<Longrightarrow> vt_only w (logged [c] v)"
  "vt_only w v \<Longrightarrow> vt_only w (fst (vt_ioctl E r n v))"
  by (auto simp: vt_ioctl_def Let_def intro!: vt_only_trans [OF _ vt_only_logged])

lemma vt_only_session_vt [simp]: "vt_only w (w\<lparr>session_vt := n\<rparr>)"
  by (simp add: vt_only_def at_def)

lemma fix_terminal_vt_mode_vt:
  "fix_terminal_vt_mode E w = Ret w' \<Longrightarrow> vt_only w w'"
  by (auto simp: fix_terminal_vt_mode_def handle_terminal_vt_switches_def Let_def case_prod_beta
      split: if_splits)

lemma jump_to_vt_vt:
  assumes "jump_to_vt E n w = Ret w'"
  shows "vt_only w w'"
proof -
  define v where "v = (let w = logged [OpenTty 0 (open_tty E (log w) 0 \<ge> 0)] w
    in if session_tty_fd w \<noteq> -1
       then fst (vt_ioctl E ''KDSETMODE'' 1
              (fst (handle_terminal_vt_switches E (logged [ClearScreen] w))))
       else w)"
  have "vt_only w v"
    by (simp add: v_def Let_def handle_terminal_vt_switches_def case_prod_beta)
  moreover from assms obtain u where u: "fix_terminal_vt_mode E v = Ret u"
    and w': "vt_only u w'"
    by (auto simp: jump_to_vt_def v_def Let_def case_prod_beta split: if_splits)
  ultimately show ?thesis using fix_terminal_vt_mode_vt [OF u] by (blast intro: vt_only_trans)
qed

lemma jump_back_to_initial_vt_vt:
  "jump_back_to_initial_vt E w = Ret w' \<Longrightarrow> vt_only w w'"
  by (auto simp: jump_back_to_initial_vt_def split: if_splits
      dest!: jump_to_vt_vt intro: vt_only_trans vt_only_session_vt)

lemma set_up_for_new_vt_client:
  "set_up_for_new_vt E w = Ret (w', ok) \<Longrightarrow> same_client w w'"
  by (auto simp: set_up_for_new_vt_def Let_def case_prod_beta split: if_splits option.splits)

section \<open>The stages\<close>

text \<open>
  The contract of a stage: it starts in state \<open>s\<close> of the machine, and ends in state \<open>s'\<close> or,
  with an error, without a PAM handle.
\<close>

definition stage :: "worker_state \<Rightarrow> worker_state \<Rightarrow> (worker \<Rightarrow> (worker \<times> worker_error option) run) \<Rightarrow> bool" where
  "stage s s' f \<longleftrightarrow>
     (\<forall>w w' e. f w = Ret (w', e) \<longrightarrow> tracks w \<longrightarrow> state w = s \<longrightarrow>
        tracks w' \<and> silent w w' \<and> (e = None \<longrightarrow> state w' = s') \<and>
        (e \<noteq> None \<longrightarrow> state w' = STATE_NONE \<and> \<not> pam_handle w'))"

lemma stageI:
  assumes "\<And>w w' e. f w = Ret (w', e) \<Longrightarrow> tracks w \<Longrightarrow> state w = s \<Longrightarrow>
    tracks w' \<and> silent w w' \<and> (e = None \<longrightarrow> state w' = s') \<and>
    (e \<noteq> None \<longrightarrow> state w' = STATE_NONE \<and> \<not> pam_handle w')"
  shows "stage s s' f"
  using assms by (simp add: stage_def)

text \<open>The error path that the stages share.\<close>

lemma fail_stage:
  assumes "gdm_session_worker_uninitialize_pam E code v = Ret w'" "at (client_of v) v" "pam_handle v"
    and "silent w v"
  shows "tracks w' \<and> silent w w' \<and> state w' = STATE_NONE \<and> \<not> pam_handle w'"
  using uninitialize_pam_at [OF assms(1-3)] assms(4) by (blast intro: silent_trans)

lemma tracks_handle: "tracks w \<Longrightarrow> pam_handle w \<longleftrightarrow> state w \<noteq> STATE_NONE"
  by (simp add: tracks_def)

lemma setup_complete_tracks:
  assumes "at (client_of w) w" "pam_handle w" "state w = STATE_NONE"
  shows "tracks (setup_complete E srv is_local seat_id w)" "silent w (setup_complete E srv is_local seat_id w)"
    "state (setup_complete E srv is_local seat_id w) = STATE_SETUP_COMPLETE"
proof -
  define v where "v = (let w = gdm_session_worker_set_environment_variable E
      ''XDG_SESSION_EXTRA_DEVICE_ACCESS'' (Some ''render:accel'') w;
      w = (if nonempty seat_id
               then gdm_session_worker_set_environment_variable E ''XDG_SEAT'' seat_id w else w)
    in if srv = ''gdm-launch-environment''
       then gdm_session_worker_set_environment_variable E ''XDG_SESSION_CLASS'' (Some ''greeter'') w
       else w)"
  have v: "same_client w v" by (simp add: v_def Let_def)
  define u where "u = set_state STATE_SETUP_COMPLETE v"
  have "at (client_of w) v" "pam_handle v" "silent w v"
    using v assms by (simp_all add: same_client_def)
  then have u: "tracks u" "silent w u" "state u = STATE_SETUP_COMPLETE" "pam_handle u"
    using assms by (auto simp: u_def set_state_def tracks_at client_of_def at_def worker_state_order
        intro: silent_trans)
  define t where "t = (if seat_id = Some ''seat0'' \<and> seat0_has_vts u
    then fst (pam_set_item E PAM_TTY (''/dev/tty'' @ dec_of_nat (initial_vt E)) u) else u)"
  have "same_client u t" by (simp add: t_def)
  moreover have eq: "setup_complete E srv is_local seat_id w =
      (if \<not> is_local then t\<lparr>password_is_required := True\<rparr> else t)"
    unfolding setup_complete_def v_def u_def t_def Let_def by (rule refl)
  ultimately have s: "same_client u (setup_complete E srv is_local seat_id w)"
    unfolding eq using same_client_trans [OF _ same_client_fields(5)] by simp
  then show "tracks (setup_complete E srv is_local seat_id w)"
    using u by (blast intro: same_client_tracks)
  show "silent w (setup_complete E srv is_local seat_id w)"
    "state (setup_complete E srv is_local seat_id w) = STATE_SETUP_COMPLETE"
    using s u unfolding same_client_def by (blast intro: silent_trans, simp)
qed

lemma initialize_pam_stage:
  "stage STATE_NONE STATE_SETUP_COMPLETE
     (gdm_session_worker_initialize_pam E srv exts name host is_local seat_id)"
proof (rule stageI)
  fix w w' e
  assume run: "gdm_session_worker_initialize_pam E srv exts name host is_local seat_id w = Ret (w', e)"
    and w: "tracks w" "state w = STATE_NONE"
  from run obtain s where s: "srv = Some s"
    by (cases srv) (simp_all add: gdm_session_worker_initialize_pam_def)
  define w1 where "w1 = gdm_session_worker_start_auditor (case exts of None \<Rightarrow> w
      | Some es \<Rightarrow> w\<lparr>ext_env := advertise_supported_extensions (ext_env w) es\<rparr>)"
  define code where "code = pam_start_result E (log w1) s name"
  define w2 where "w2 = (logged [PamStart s name code] w1)\<lparr>pam_handle := (code = PAM_SUCCESS)\<rparr>"
  have w1: "log w1 = log w" "state w1 = STATE_NONE" "\<not> pam_handle w1"
      "is_reauth_session w1 = is_reauth_session w" "silent w w1"
    using w tracks_handle [of w]
    by (auto simp: w1_def gdm_session_worker_start_auditor_def silent_def unanswered_def
        same_call_def split: option.splits)
  have "client_of w = idle_client"
    using w tracks_handle [of w] by (simp add: client_of_def idle_client_def worker_state_order)
  then have 2: "at (client_of w2) w2" "state w2 = STATE_NONE" "pam_handle w2 \<longleftrightarrow> code = PAM_SUCCESS"
    using w w1 by (auto simp: w2_def logged_def tracks_def at_def pam_run_append client_of_def
        idle_client_def worker_state_order)
  have "silent w1 w2"
    unfolding w2_def by (rule silent_trans [OF silent_logged silent_fields(2)]) simp
  with w1(5) have s2: "silent w w2" by (rule silent_trans)
  have rest: "(if code \<noteq> PAM_SUCCESS
             then bindR (gdm_session_worker_uninitialize_pam E code w2)
                    (\<lambda>w. Ret (w, Some (SERVICE_UNAVAILABLE NoMessage)))
             else
               let (w, code) = set_initial_items E name host is_local w2
               in if code \<noteq> PAM_SUCCESS
                  then bindR (gdm_session_worker_uninitialize_pam E code w)
                         (\<lambda>w. Ret (w, Some (AUTHENTICATING NoMessage)))
                  else Ret (setup_complete E s is_local seat_id w, None)) = Ret (w', e)"
    using run tracks_handle [OF w(1)] w(2)
    unfolding gdm_session_worker_initialize_pam_def s Let_def option.case
      w1_def [symmetric] code_def [symmetric] w2_def [symmetric]
    by (simp only: if_False simp_thms)
  show "tracks w' \<and> silent w w' \<and> (e = None \<longrightarrow> state w' = STATE_SETUP_COMPLETE) \<and>
      (e \<noteq> None \<longrightarrow> state w' = STATE_NONE \<and> \<not> pam_handle w')"
  proof (cases "code = PAM_SUCCESS")
    case False
    with rest 2 have "w' = w2" "e \<noteq> None"
      by (auto simp: gdm_session_worker_uninitialize_pam_def)
    with False 2 s2 show ?thesis by (simp add: tracks_at)
  next
    case True
    obtain w3 c where w3: "set_initial_items E name host is_local w2 = (w3, c)" by fastforce
    have c3: "same_client w2 w3" by (rule set_initial_items_client [OF w3])
    with 2 True have 3: "at (client_of w3) w3" "state w3 = STATE_NONE" "pam_handle w3" "silent w2 w3"
      by (auto simp: same_client_def client_of_def)
    show ?thesis
    proof (cases "c = PAM_SUCCESS")
      case True
      with rest w3 \<open>code = PAM_SUCCESS\<close> have "w' = setup_complete E s is_local seat_id w3" "e = None" by auto
      with setup_complete_tracks [OF 3(1,3,2)] show ?thesis
        using s2 3(4) by (blast intro: silent_trans)
    next
      case False
      from rest w3 \<open>code = PAM_SUCCESS\<close> False
      have u: "gdm_session_worker_uninitialize_pam E c w3 = Ret w'" "e \<noteq> None" by auto
      show ?thesis using fail_stage [OF u(1) 3(1,3) silent_trans [OF s2 3(4)]] u(2) by blast
    qed
  qed
qed

lemma calm_same_state: "calm w w' \<Longrightarrow> state w \<noteq> STATE_ACCREDITED \<Longrightarrow> state w' = state w"
  by (simp add: calm_def moved_def)

lemma calm_after:
  "calm u w' \<Longrightarrow> tracks u \<Longrightarrow> silent w u \<Longrightarrow> tracks w' \<and> silent w w'"
  by (blast intro: calm_tracks silent_trans calm_silent)

text \<open>A PAM call of a stage in which the worker has the state the protocol is in.\<close>

lemma pam_call_stage:
  assumes "pam_call E op w = Ret (v, code)" "tracks w" "state w \<noteq> STATE_NONE"
    and "state w \<noteq> STATE_ACCREDITED"
    and "pam_step (is_reauth_session w) (PamOp op code) (client_of w) = Some m"
  shows "at m v" "silent w v" "pam_handle v" "state v = state w"
proof -
  from pam_call_at [OF assms(1) _ assms(5)] assms show "at m v" "silent w v" "pam_handle v"
    by (simp_all add: tracks_at)
  from assms(1) obtain u where "calm w u" "v = logged [PamOp op code] u" by (rule pam_callE)
  with assms(4) show "state v = state w" by (simp add: logged_def calm_same_state)
qed

lemma client_of_state_eqI:
  "state v = state w \<Longrightarrow> pam_handle v = pam_handle w \<Longrightarrow> client_of v = client_of w"
  by (simp add: client_of_def)

lemma enter_state:
  assumes "at m v" "silent w v" "pam_handle v" "s \<noteq> STATE_NONE" "m = client_of (set_state s v)"
  shows "tracks (set_state s v) \<and> silent w (set_state s v) \<and> state (set_state s v) = s"
proof -
  have "silent v (set_state s v)" by (simp add: set_state_def)
  then have "silent w (set_state s v)" using assms(2) by (blast intro: silent_trans)
  moreover have "at m (set_state s v)" using assms(1) by (simp add: set_state_def at_def)
  ultimately show ?thesis using assms(3-5) by (simp add: tracks_at set_state_def)
qed

lemma authenticate_stage:
  "stage STATE_SETUP_COMPLETE STATE_AUTHENTICATED (gdm_session_worker_authenticate_user E required)"
proof (rule stageI)
  fix w w' e
  assume run: "gdm_session_worker_authenticate_user E required w = Ret (w', e)"
    and w: "tracks w" "state w = STATE_SETUP_COMPLETE"
  from run obtain v code where v: "pam_call E (Authenticate required) w = Ret (v, code)"
    and rest: "(if code = PAM_SUCCESS then Ret (set_state STATE_AUTHENTICATED v, None)
       else bindR (gdm_session_worker_uninitialize_pam E
           (if code = PAM_USER_UNKNOWN then PAM_AUTH_ERR else code) v)
           (\<lambda>w. Ret (w, Some (authentication_error v code)))) = Ret (w', e)"
    unfolding gdm_session_worker_authenticate_user_def Let_def by auto
  define m where "m = client_of w\<lparr>pc_authenticated := (code = PAM_SUCCESS)\<rparr>"
  have "pam_step (is_reauth_session w) (PamOp (Authenticate required) code) (client_of w) = Some m"
    using w tracks_handle [of w] by (simp add: m_def worker_state_order)
  note 1 = pam_call_stage [OF v w(1) _ _ this, unfolded w(2), simplified]
  show "tracks w' \<and> silent w w' \<and> (e = None \<longrightarrow> state w' = STATE_AUTHENTICATED) \<and>
      (e \<noteq> None \<longrightarrow> state w' = STATE_NONE \<and> \<not> pam_handle w')"
  proof (cases "code = PAM_SUCCESS")
    case True
    with rest have "w' = set_state STATE_AUTHENTICATED v" "e = None" by auto
    moreover have "m = client_of (set_state STATE_AUTHENTICATED v)"
      using True 1 w tracks_handle [of w]
      by (simp add: m_def client_of_def set_state_def worker_state_order)
    ultimately show ?thesis using enter_state [OF 1(1-3)] by simp
  next
    case False
    then have "m = client_of v"
      using 1 w tracks_handle [of w] by (simp add: m_def client_of_def worker_state_order)
    with False rest 1 show ?thesis using fail_stage [of E _ v w' w] by auto
  qed
qed

lemma open_pam_session_stage:
  "stage STATE_ACCOUNT_DETAILS_SAVED STATE_SESSION_OPENED (open_pam_session E)"
proof (rule stageI)
  fix w w' e
  assume run: "open_pam_session E w = Ret (w', e)"
    and w: "tracks w" "state w = STATE_ACCOUNT_DETAILS_SAVED"
  from run obtain v code where v: "pam_call E (OpenSession (is_program_session w)) w = Ret (v, code)"
    and rest: "(if code \<noteq> PAM_SUCCESS
       then bindR (gdm_session_worker_uninitialize_pam E code v)
              (\<lambda>w. Ret (w\<lparr>session_vt := 0\<rparr>, Some (OPENING_SESSION (PamMessage code))))
       else bindR (gdm_session_worker_get_username E
          (case pam_getenv E (log (set_state STATE_SESSION_OPENED v)) ''XDG_SESSION_ID'' of
             None \<Rightarrow> set_state STATE_SESSION_OPENED v
           | Some i \<Rightarrow> (set_state STATE_SESSION_OPENED v)\<lparr>session_id := Some i\<rparr>))
          (\<lambda>(w, _). Ret (audit AuditLogin w, None))) = Ret (w', e)"
    unfolding open_pam_session_def Let_def by auto
  define m where "m = client_of w\<lparr>pc_opened := (code = PAM_SUCCESS)\<rparr>"
  have "pam_step (is_reauth_session w) (PamOp (OpenSession (is_program_session w)) code) (client_of w) = Some m"
    using w by (simp add: m_def worker_state_order)
  note 1 = pam_call_stage [OF v w(1) _ _ this, unfolded w(2), simplified]
  show "tracks w' \<and> silent w w' \<and> (e = None \<longrightarrow> state w' = STATE_SESSION_OPENED) \<and>
      (e \<noteq> None \<longrightarrow> state w' = STATE_NONE \<and> \<not> pam_handle w')"
  proof (cases "code = PAM_SUCCESS")
    case False
    then have "m = client_of v"
      using 1 w tracks_handle [of w] by (simp add: m_def client_of_def worker_state_order)
    with False rest 1 obtain u where u: "gdm_session_worker_uninitialize_pam E code v = Ret u"
      "w' = u\<lparr>session_vt := 0\<rparr>" "e \<noteq> None" by auto
    have "tracks u \<and> silent w u \<and> state u = STATE_NONE \<and> \<not> pam_handle u"
      by (rule fail_stage [OF u(1)]) (use 1 \<open>m = client_of v\<close> in auto)
    with u show ?thesis
      by (auto simp: tracks_def client_of_def intro: silent_trans)
  next
    case True
    define u where "u = (case pam_getenv E (log (set_state STATE_SESSION_OPENED v)) ''XDG_SESSION_ID'' of
             None \<Rightarrow> set_state STATE_SESSION_OPENED v
           | Some i \<Rightarrow> (set_state STATE_SESSION_OPENED v)\<lparr>session_id := Some i\<rparr>)"
    have "m = client_of (set_state STATE_SESSION_OPENED v)"
      using True 1 w tracks_handle [of w]
      by (simp add: m_def client_of_def set_state_def worker_state_order)
    note o = enter_state [OF 1(1-3) _ this, simplified]
    have sc: "same_client (set_state STATE_SESSION_OPENED v) u" by (simp add: u_def split: option.split)
    with o have u: "silent w u" "state u = STATE_SESSION_OPENED"
      by (auto simp: same_client_def intro: silent_trans)
    have "tracks u"
      by (rule same_client_tracks [OF sc])
         (use o tracks_handle [of "set_state STATE_SESSION_OPENED v"] in auto)
    note u = this u
    from True rest obtain t x where t: "gdm_session_worker_get_username E u = Ret (t, x)"
      "w' = audit AuditLogin t" "e = None"
      unfolding u_def [symmetric] by auto
    have "calm u w'" unfolding t(2) by (rule calm_trans [OF get_username_calm [OF t(1)] calm_audit])
    then show ?thesis using u t(3) calm_after [of u w' w] calm_same_state [of u w'] by simp
  qed
qed

lemma authorize_stage:
  "stage STATE_AUTHENTICATED STATE_AUTHORIZED (gdm_session_worker_authorize_user E required)"
proof (rule stageI)
  fix w w' e
  assume run: "gdm_session_worker_authorize_user E required w = Ret (w', e)"
    and w: "tracks w" "state w = STATE_AUTHENTICATED"
  from run obtain v c u code where v: "pam_call E (AcctMgmt required) w = Ret (v, c)"
    and u: "(if c = PAM_NEW_AUTHTOK_REQD \<and> \<not> is_program_session v
            then bindR (pam_call E Chauthtok v) (\<lambda>(w, code).
                 bindR (gdm_session_worker_get_username E w) (\<lambda>(w, _).
                 Ret (audit (if code \<noteq> PAM_SUCCESS then AuditPasswordChangeFailure
                             else AuditPasswordChanged) w, code)))
            else Ret (v, c)) = Ret (u, code)"
    and rest: "(if (if is_reauth_session u then PAM_SUCCESS else code) \<noteq> PAM_SUCCESS
        then bindR (gdm_session_worker_uninitialize_pam E (if is_reauth_session u then PAM_SUCCESS else code) u)
               (\<lambda>w. Ret (w, Some (AUTHORIZING (get_friendly_error_message u
                  (if is_reauth_session u then PAM_SUCCESS else code)))))
        else Ret (set_state STATE_AUTHORIZED u, None)) = Ret (w', e)"
    unfolding gdm_session_worker_authorize_user_def Let_def by auto
  let ?m = "\<lambda>c. client_of w\<lparr>pc_authorized := (is_reauth_session w \<or> c = PAM_SUCCESS)\<rparr>"
  have "pam_step (is_reauth_session w) (PamOp (AcctMgmt required) c) (client_of w) = Some (?m c)"
    using w by (simp add: worker_state_order)
  note 1 = pam_call_stage [OF v w(1) _ _ this, unfolded w(2), simplified]
  have 2: "at (?m code) u \<and> silent w u \<and> pam_handle u \<and> state u = STATE_AUTHENTICATED"
  proof (cases "c = PAM_NEW_AUTHTOK_REQD \<and> \<not> is_program_session v")
    case True
    with u obtain t x y where t: "pam_call E Chauthtok v = Ret (t, code)"
      "gdm_session_worker_get_username E t = Ret (x, y)"
      "u = audit (if code \<noteq> PAM_SUCCESS then AuditPasswordChangeFailure else AuditPasswordChanged) x"
      by (auto split: if_splits)
    have "pam_step (is_reauth_session v) (PamOp Chauthtok code) (?m c) = Some (?m code)"
      using w 1 True by (simp add: worker_state_order silent_reauth)
    from pam_call_at [OF t(1) 1(1) this] 1 have 2: "at (?m code) t" "silent w t" "pam_handle t"
      by (auto intro: silent_trans)
    from t(1) obtain z where "calm v z" "t = logged [PamOp Chauthtok code] z" by (rule pam_callE)
    then have s: "state t = STATE_AUTHENTICATED"
      using 1(4) by (simp add: logged_def calm_same_state)
    have c: "calm t u" unfolding t(3) by (rule calm_trans [OF get_username_calm [OF t(2)] calm_audit])
    with s have "state u = STATE_AUTHENTICATED" by (simp add: calm_same_state)
    with 2 c show ?thesis by (auto simp: calm_at calm_task intro: silent_trans calm_silent)
  next
    case False
    then have "u = v" "c = code" using u by (simp_all split: if_splits)
    with 1 show ?thesis by simp
  qed
  have r: "is_reauth_session u = is_reauth_session w" using 2 by (simp add: silent_reauth)
  show "tracks w' \<and> silent w w' \<and> (e = None \<longrightarrow> state w' = STATE_AUTHORIZED) \<and>
      (e \<noteq> None \<longrightarrow> state w' = STATE_NONE \<and> \<not> pam_handle w')"
  proof (cases "is_reauth_session w \<or> code = PAM_SUCCESS")
    case True
    with rest r have "w' = set_state STATE_AUTHORIZED u" "e = None" by (auto split: if_splits)
    moreover have "?m code = client_of (set_state STATE_AUTHORIZED u)"
      using True 2 w tracks_handle [of w]
      by (simp add: client_of_def set_state_def worker_state_order)
    ultimately show ?thesis using enter_state [of "?m code" u w STATE_AUTHORIZED] 2 by simp
  next
    case False
    then have "?m code = client_of u"
      using 2 w tracks_handle [of w] by (simp add: client_of_def worker_state_order)
    with False rest 2 r show ?thesis using fail_stage [of E _ u w' w] by auto
  qed
qed

lemma change_user_client: "same_client w (fst (change_user E u g w))"
  by (simp add: change_user_def Let_def)

text \<open>What the worker looks like after the attempt to give credentials.\<close>

definition credentials_tried :: "worker \<Rightarrow> worker \<Rightarrow> bool \<Rightarrow> bool" where
  "credentials_tried w w' ok \<longleftrightarrow>
     silent w w' \<and> pam_handle w' \<and> state w' = STATE_AUTHORIZED \<and>
     at (client_of w\<lparr>pc_accredited := ok\<rparr>) w'"

lemma credentials_not_tried:
  assumes "same_client w v" "tracks w" "state w = STATE_AUTHORIZED"
  shows "credentials_tried w v False"
proof -
  have "client_of w\<lparr>pc_accredited := False\<rparr> = client_of w"
    using assms by (simp add: client_of_def worker_state_order)
  then show ?thesis
    using assms tracks_handle [of w] unfolding credentials_tried_def same_client_def tracks_at by simp
qed

lemma cred_flags_kept:
  "cred_flags (gdm_session_worker_set_environment_variable E k v w) = cred_flags w"
  "cred_flags (logged cs w) = cred_flags w"
  by (simp_all add: gdm_session_worker_set_environment_variable_def Let_def logged_def)

lemma set_credentials_at:
  assumes run: "set_credentials E u g home shell w = Ret (w', res)"
    and w: "tracks w" "state w = STATE_AUTHORIZED" and flags: "cred_flags w \<noteq> PAM_DELETE_CRED"
  shows "credentials_tried w w' (res = None)"
proof -
  have h: "pam_handle w" using w tracks_handle [of w] by simp
  define x where "x = set_default_path E
    (gdm_session_worker_update_environment_from_passwd_info E home shell w)"
  obtain v ok where v: "change_user E u g x = (v, ok)" by fastforce
  have "same_client w x"
    by (simp add: x_def set_default_path_def gdm_session_worker_update_environment_from_passwd_info_def Let_def)
  moreover have "same_client x v" using change_user_client [of x E u g] v by simp
  ultimately have wv: "same_client w v" by (rule same_client_trans)
  then have sv: "state v = STATE_AUTHORIZED" "pam_handle v" "silent w v" "client_of v = client_of w"
    using w h by (simp_all add: same_client_def client_of_def)
  have tv: "tracks v" using wv w(1) h by (rule same_client_tracks)
  have fl: "cred_flags v = cred_flags w"
    using v by (auto simp: x_def change_user_def set_default_path_def Let_def cred_flags_kept
        gdm_session_worker_update_environment_from_passwd_info_def)
  have rest: "(if \<not> ok then Ret (v, Some (PAM_SYSTEM_ERR, GIVING_CREDENTIALS UnableToChangeUser))
      else bindR (pam_call E (Setcred (cred_flags v)) v) (\<lambda>(w, code).
             let code = (if is_reauth_session w then PAM_SUCCESS else code)
             in Ret (w, if code \<noteq> PAM_SUCCESS
                        then Some (code, GIVING_CREDENTIALS (PamMessage code)) else None))) = Ret (w', res)"
    using run v unfolding set_credentials_def Let_def x_def [symmetric] by simp
  show ?thesis
  proof (cases ok)
    case False
    with rest credentials_not_tried [OF wv w] show ?thesis by auto
  next
    case True
    with rest obtain code where c: "pam_call E (Setcred (cred_flags v)) v = Ret (w', code)"
      and res: "res = None \<longleftrightarrow> is_reauth_session w' \<or> code = PAM_SUCCESS"
      by (auto simp: Let_def split: if_splits)
    define m where "m = client_of v\<lparr>pc_accredited := (is_reauth_session v \<or> code = PAM_SUCCESS)\<rparr>"
    have "pam_step (is_reauth_session v) (PamOp (Setcred (cred_flags v)) code) (client_of v) = Some m"
      using w(2) sv flags fl by (simp add: m_def worker_state_order)
    note 1 = pam_call_stage [OF c tv _ _ this, unfolded sv(1), simplified]
    have "m = client_of w\<lparr>pc_accredited := (res = None)\<rparr>"
      using 1(2) sv(4) by (simp add: m_def res silent_reauth)
    with 1 sv show ?thesis by (auto simp: credentials_tried_def intro: silent_trans)
  qed
qed

lemma give_credentials_at:
  assumes "give_credentials E w = Ret (w', res)"
    and "tracks w" "state w = STATE_AUTHORIZED" "cred_flags w \<noteq> PAM_DELETE_CRED"
  shows "credentials_tried w w' (res = None)"
  using assms credentials_not_tried [of w w] set_credentials_at
  by (auto simp: give_credentials_def split: option.splits)

lemma accredit_stage:
  assumes "gdm_session_worker_accredit_user E w = Ret (w', e)"
    and "tracks w" "state w = STATE_AUTHORIZED" "cred_flags w \<noteq> PAM_DELETE_CRED"
  shows "tracks w' \<and> silent w w' \<and> (e = None \<longrightarrow> state w' = STATE_ACCREDITED) \<and>
    (e \<noteq> None \<longrightarrow> state w' = STATE_NONE \<and> \<not> pam_handle w')"
proof -
  from assms(1) obtain v res where v: "give_credentials E w = Ret (v, res)"
    and rest: "(case res of
         None \<Rightarrow>
           bindR (gdm_session_worker_get_username E v) (\<lambda>(w, _).
             Ret (set_state STATE_ACCREDITED (audit AuditUserAccredited w), None))
       | Some (code, error) \<Rightarrow>
           bindR (gdm_session_worker_uninitialize_pam E code v) (\<lambda>w. Ret (w, Some error))) = Ret (w', e)"
    unfolding gdm_session_worker_accredit_user_def by auto
  note 1 = give_credentials_at [OF v assms(2-4), unfolded credentials_tried_def]
  show ?thesis
  proof (cases res)
    case None
    with rest obtain u y where u: "gdm_session_worker_get_username E v = Ret (u, y)"
      "w' = set_state STATE_ACCREDITED (audit AuditUserAccredited u)" "e = None" by auto
    have c: "calm v (audit AuditUserAccredited u)"
      by (rule calm_trans [OF get_username_calm [OF u(1)] calm_audit])
    have "client_of w\<lparr>pc_accredited := True\<rparr> =
        client_of (set_state STATE_ACCREDITED (audit AuditUserAccredited u))"
      using 1 assms tracks_handle [of w] calm_task(1) [OF c]
      by (simp add: client_of_def set_state_def worker_state_order)
    moreover have "at (client_of w\<lparr>pc_accredited := True\<rparr>) (audit AuditUserAccredited u)"
      using 1 None calm_at [OF c] by simp
    moreover have "silent w (audit AuditUserAccredited u)" "pam_handle (audit AuditUserAccredited u)"
      using 1 c calm_task(1) [OF c] by (auto intro: silent_trans calm_silent)
    ultimately show ?thesis
      using enter_state [of "client_of w\<lparr>pc_accredited := True\<rparr>" "audit AuditUserAccredited u" w STATE_ACCREDITED]
      by (simp add: u)
  next
    case (Some ce)
    with rest obtain c x where u: "gdm_session_worker_uninitialize_pam E c v = Ret w'" "e = Some x"
      by (cases ce) auto
    have "client_of w\<lparr>pc_accredited := False\<rparr> = client_of v"
      using 1 assms tracks_handle [of w] by (simp add: client_of_def worker_state_order)
    then show ?thesis using fail_stage [OF u(1), of w] 1 Some u(2) by simp
  qed
qed

lemma open_session_at:
  assumes run: "gdm_session_worker_open_session E w = Ret (w', e)" and w: "tracks w"
  shows "tracks w' \<and> silent w w' \<and> (e = None \<longrightarrow> state w' = STATE_SESSION_OPENED) \<and>
    (e \<noteq> None \<longrightarrow> state w' \<in> {STATE_NONE, STATE_ACCOUNT_DETAILS_SAVED})"
proof -
  from run have s: "state w = STATE_ACCOUNT_DETAILS_SAVED"
    by (auto simp: gdm_session_worker_open_session_def split: if_splits)
  from run obtain v ok where v: "(if uses_vts w then set_up_for_new_vt E w else Ret (w, True)) = Ret (v, ok)"
    and rest: "(if \<not> ok then Ret (v, Some (OPENING_SESSION UnableToOpenVt)) else open_pam_session E v) = Ret (w', e)"
    by (auto simp: gdm_session_worker_open_session_def split: if_splits)
  from v have sc: "same_client w v" by (auto dest: set_up_for_new_vt_client split: if_splits)
  then have tv: "tracks v" "silent w v" "state v = STATE_ACCOUNT_DETAILS_SAVED"
    using s w same_client_tracks [of w v] tracks_handle [of w] by (simp_all add: same_client_def)
  show ?thesis
  proof (cases ok)
    case False
    with rest tv show ?thesis by auto
  next
    case True
    with rest have "open_pam_session E v = Ret (w', e)" by simp
    with open_pam_session_stage [of E] tv show ?thesis
      unfolding stage_def by (blast intro: silent_trans)
  qed
qed

lemma session_started_tracks:
  assumes "tracks w" "state w = STATE_SESSION_OPENED"
  shows "tracks (session_started pid (logged [Fork p] w)) \<and>
    silent w (session_started pid (logged [Fork p] w)) \<and>
    state (session_started pid (logged [Fork p] w)) = STATE_SESSION_STARTED"
  using assms
  by (auto simp: session_started_def Let_def set_state_def tracks_def pam_run_append logged_def
      client_of_def worker_state_order silent_def unanswered_def same_call_def)

lemma start_session_stage:
  "stage STATE_SESSION_OPENED STATE_SESSION_STARTED (gdm_session_worker_start_session E)"
proof (rule stageI)
  fix w w' e
  assume run: "gdm_session_worker_start_session E w = Ret (w', e)"
    and w: "tracks w" "state w = STATE_SESSION_OPENED"
  from run obtain v where v: "(if uses_vts w \<and> display_mode w = Some NEW_VT
       then jump_to_vt E (session_vt w) w else Ret w) = Ret v"
    and rest: "(if fork_result E (log v) < 0
             then bindR (gdm_session_worker_uninitialize_pam E PAM_ABORT (logged [Fork (fork_result E (log v))] v))
                    (\<lambda>w. Ret (w, Some (OPENING_SESSION OsMessage)))
             else Ret (session_started (fork_result E (log v)) (logged [Fork (fork_result E (log v))] v), None)) = Ret (w', e)"
    unfolding gdm_session_worker_start_session_def Let_def by (auto split: if_splits)
  from v have sc: "same_client w v" by (auto dest: jump_to_vt_vt vt_only_client split: if_splits)
  then have tv: "tracks v" "silent w v" "state v = STATE_SESSION_OPENED" "pam_handle v"
    using w same_client_tracks [of w v] tracks_handle [of w] by (simp_all add: same_client_def)
  show "tracks w' \<and> silent w w' \<and> (e = None \<longrightarrow> state w' = STATE_SESSION_STARTED) \<and>
      (e \<noteq> None \<longrightarrow> state w' = STATE_NONE \<and> \<not> pam_handle w')"
  proof (cases "fork_result E (log v) < 0")
    case False
    with rest have "w' = session_started (fork_result E (log v)) (logged [Fork (fork_result E (log v))] v)"
      "e = None" by auto
    with session_started_tracks [OF tv(1,3)] tv(2) show ?thesis by (blast intro: silent_trans)
  next
    case True
    let ?u = "logged [Fork (fork_result E (log v))] v"
    from True rest have "gdm_session_worker_uninitialize_pam E PAM_ABORT ?u = Ret w'" "e \<noteq> None"
      by auto
    moreover have "at (client_of ?u) ?u" "pam_handle ?u"
      using tv by (simp_all add: at_def tracks_def logged_def pam_run_append client_of_def worker_state_order)
    moreover have "silent w ?u" using tv(2) by (rule silent_trans) simp
    ultimately show ?thesis using fail_stage [of E PAM_ABORT ?u w' w] by blast
  qed
qed

section \<open>Every dispatch keeps the refinement\<close>

text \<open>The invariant of a running worker.\<close>

definition worker_ok :: "worker \<Rightarrow> bool" where
  "worker_ok w \<longleftrightarrow> tracks w \<and> cred_flags w \<noteq> PAM_DELETE_CRED"

lemma silent_flags: "silent w w' \<Longrightarrow> cred_flags w' = cred_flags w"
  by (simp add: silent_def same_call_def)

lemma worker_okI: "tracks w' \<Longrightarrow> silent w w' \<Longrightarrow> worker_ok w \<Longrightarrow> worker_ok w'"
  by (simp add: worker_ok_def silent_flags)

lemma calm_ok: "calm w w' \<Longrightarrow> worker_ok w \<Longrightarrow> worker_ok w'"
  by (blast intro: worker_okI calm_tracks calm_silent dest: worker_ok_def [THEN iffD1])

lemma worker_ok_cong:
  "pam_handle w' = pam_handle w \<Longrightarrow> state w' = state w \<Longrightarrow> is_reauth_session w' = is_reauth_session w \<Longrightarrow>
     log w' = log w \<Longrightarrow> cred_flags w' = cred_flags w \<Longrightarrow> worker_ok w' \<longleftrightarrow> worker_ok w"
  by (simp add: worker_ok_def tracks_def client_of_def)

lemma worker_ok_fields [simp]:
  "worker_ok (w\<lparr>state_change_idle_id := b\<rparr>) = worker_ok w"
  "worker_ok (w\<lparr>pending_invocation := i\<rparr>) = worker_ok w"
  "worker_ok (w\<lparr>arguments := a\<rparr>) = worker_ok w"
  "worker_ok (w\<lparr>settings_waiting := b\<rparr>) = worker_ok w"
  "worker_ok (w\<lparr>display_mode := d\<rparr>) = worker_ok w"
  "worker_ok (w\<lparr>reauthentication_requests := t\<rparr>) = worker_ok w"
  "worker_ok (w\<lparr>user_settings := u\<rparr>) = worker_ok w"
  "worker_ok (queue_state_change w) = worker_ok w"
  by (simp_all add: queue_state_change_def worker_ok_def tracks_def client_of_def)

text \<open>Entries of the log that the protocol does not look at.\<close>

fun off_protocol :: "wcall \<Rightarrow> bool" where
  "off_protocol (Replied i r) = True"
| "off_protocol (PamPutenv s c) = True"
| "off_protocol (Emitted s) = True"
| "off_protocol (NewReauthSession p u) = True"
| "off_protocol (Killpg p) = True"
| "off_protocol (Terminate p) = True"
| "off_protocol PingManager = True"
| "off_protocol _ = False"

lemma pam_run_off_protocol: "\<forall>c \<in> set cs. off_protocol c \<Longrightarrow> pam_run r cs m = Some m"
proof (induction cs)
  case (Cons c cs)
  then show ?case by (cases c) auto
qed simp

lemma worker_ok_logged [simp]: "\<forall>c \<in> set cs. off_protocol c \<Longrightarrow> worker_ok (logged cs w) = worker_ok w"
  by (auto simp: worker_ok_def tracks_def logged_def client_of_def pam_run_append pam_run_off_protocol
      split: bind_splits)

lemma reply_pending_ok [simp]: "worker_ok (reply_pending r w) = worker_ok w"
  by (simp add: reply_pending_def split: option.split)

lemma save_account_details_now_ok:
  assumes "save_account_details_now E w = Ret w'" "worker_ok w"
  shows "worker_ok w'"
  using assms
  by (auto simp: save_account_details_now_def set_state_def logged_def worker_ok_def tracks_def
      queue_state_change_def client_of_def worker_state_order pam_run_append Let_def
      split: if_splits option.splits)

lemma stage_ok:
  assumes "stage s s' f" "f w = Ret (w', e)" "worker_ok w" "state w = s"
  shows "worker_ok w'" and "e = None \<Longrightarrow> state w' = s'" and "silent w w'"
proof -
  from assms have "tracks w' \<and> silent w w' \<and> (e = None \<longrightarrow> state w' = s')"
    unfolding stage_def worker_ok_def by blast
  then show "worker_ok w'" and "e = None \<Longrightarrow> state w' = s'" and "silent w w'"
    using assms(3) by (auto intro: worker_okI)
qed

lemma do_setup_ok: "do_setup E w = Ret w' \<Longrightarrow> worker_ok w \<Longrightarrow> state w = STATE_NONE \<Longrightarrow> worker_ok w'"
  by (auto simp: do_setup_def dest: stage_ok(1) [OF initialize_pam_stage])

lemma do_authenticate_ok:
  assumes "do_authenticate E w = Ret w'" "worker_ok w" "state w = STATE_SETUP_COMPLETE"
  shows "worker_ok w'"
proof -
  from assms(1) obtain v e u where
    v: "gdm_session_worker_authenticate_user E (password_is_required w) w = Ret (v, e)" and
    u: "(if e = None \<and> \<not> is_program_session v then gdm_session_worker_update_username E v else Ret v) = Ret u"
    and w': "w' = reply_pending (done_or_error e) u"
    unfolding do_authenticate_def by auto
  have "worker_ok v" using stage_ok(1) [OF authenticate_stage v assms(2,3)] .
  moreover have "calm v u" using u by (auto dest: update_username_calm split: if_splits)
  ultimately show ?thesis unfolding w' by (simp add: calm_ok)
qed

lemma do_authorize_ok:
  "do_authorize E w = Ret w' \<Longrightarrow> worker_ok w \<Longrightarrow> state w = STATE_AUTHENTICATED \<Longrightarrow> worker_ok w'"
  by (auto simp: do_authorize_def dest: stage_ok(1) [OF authorize_stage])

lemma do_accredit_ok:
  assumes "do_accredit E w = Ret w'" "worker_ok w" "state w = STATE_AUTHORIZED"
  shows "worker_ok w'"
proof -
  from assms(1) obtain v e where v: "gdm_session_worker_accredit_user E w = Ret (v, e)"
    and w': "w' = reply_pending (done_or_error e) v"
    unfolding do_accredit_def by auto
  from accredit_stage [OF v] assms(2,3) have "tracks v" "silent w v" by (simp_all add: worker_ok_def)
  then show ?thesis unfolding w' using assms(2) by (simp add: worker_okI [of v w])
qed

lemma put_settings_ok: "put_settings E r w = Ret w' \<Longrightarrow> worker_ok w \<Longrightarrow> worker_ok w'"
  by (blast intro: calm_ok put_settings_calm)

lemma do_save_account_details_when_ready_ok:
  "do_save_account_details_when_ready E w = Ret w' \<Longrightarrow> worker_ok w \<Longrightarrow> worker_ok w'"
  by (auto simp: do_save_account_details_when_ready_def save_account_details_now_ok
      dest: put_settings_ok split: if_splits option.splits)

lemma do_open_session_ok:
  assumes "do_open_session E w = Ret w'" "worker_ok w"
  shows "worker_ok w'"
proof -
  from assms(1) obtain v e r where v: "gdm_session_worker_open_session E w = Ret (v, e)"
    and w': "w' = reply_pending r v"
    unfolding do_open_session_def by auto
  from open_session_at [OF v] assms(2) show ?thesis
    unfolding w' worker_ok_def by (metis reply_pending_ok silent_flags worker_ok_def)
qed

lemma do_start_session_ok:
  assumes "do_start_session E w = Ret w'" "worker_ok w" "state w = STATE_SESSION_OPENED"
  shows "worker_ok w'"
proof -
  from assms(1) obtain v e r where v: "gdm_session_worker_start_session E w = Ret (v, e)"
    and w': "w' = reply_pending r v"
    unfolding do_start_session_def by auto
  from stage_ok(1) [OF start_session_stage v assms(2,3)] show ?thesis by (simp add: w')
qed

lemma state_change_idle_ok:
  assumes "state_change_idle E w = Ret w'" "worker_ok w"
  shows "worker_ok w'"
  using assms unfolding state_change_idle_def Let_def
  by (auto split: worker_state.splits
      dest: do_setup_ok do_authenticate_ok do_authorize_ok do_accredit_ok
        do_save_account_details_when_ready_ok do_open_session_ok do_start_session_ok)

lemma validate_state_change_ok:
  "validate_state_change i s w = Ret (w', b) \<Longrightarrow> worker_ok w' = worker_ok w"
  by (auto simp: validate_state_change_def split: if_splits)

lemma validate_and_queue_ok:
  "validate_and_queue_state_change i s w = Ret w' \<Longrightarrow> worker_ok w' = worker_ok w"
  by (auto simp: validate_and_queue_state_change_def dest!: validate_state_change_ok split: if_splits)

lemma read_detail_ok:
  "read_detail kv w = Ret w' \<Longrightarrow> worker_ok w' = worker_ok w"
  by (intro worker_ok_cong; cases kv)
     (auto simp: read_detail_def split: if_splits variant.splits)

lemma initialize_settings_ok:
  assumes "initialize_settings E w = Ret (w', b)" "worker_ok w"
  shows "worker_ok w'"
proof -
  have "worker_ok (w\<lparr>user_settings := u, settings_readers := c, settings_waiting := d\<rparr>)" for u c d
    using assms(2) by (simp add: worker_ok_def tracks_def client_of_def)
  with assms show ?thesis
    by (auto simp: initialize_settings_def Let_def case_prod_beta dest: put_settings_ok split: if_splits)
qed

lemma handle_initialize_ok:
  assumes "gdm_session_worker_handle_initialize E i details w = Ret w'" "worker_ok w"
  shows "worker_ok w'"
proof -
  from assms(1) obtain v ok where v: "validate_state_change i STATE_SETUP_COMPLETE w = Ret (v, ok)"
    and rest: "(if \<not> ok then Ret v
       else
         bindR (foldR read_detail details v) (\<lambda>w.
         bindR (initialize_settings E (w\<lparr>seat0_has_vts := sd_seat_can_tty E (log w), pending_invocation := Some i\<rparr>))
           (\<lambda>(w, wait_for_settings).
              if wait_for_settings then Ret (w\<lparr>settings_waiting := True\<rparr>)
              else Ret (queue_state_change w)))) = Ret w'"
    unfolding gdm_session_worker_handle_initialize_def Let_def by auto
  have vo: "worker_ok v" using validate_state_change_ok [OF v] assms(2) by simp
  show ?thesis
  proof (cases ok)
    case False
    with rest vo show ?thesis by simp
  next
    case True
    with rest obtain u t x where u: "foldR read_detail details v = Ret u"
      and t: "initialize_settings E (u\<lparr>seat0_has_vts := sd_seat_can_tty E (log u), pending_invocation := Some i\<rparr>) = Ret (t, x)"
      and w': "w' = (if x then t\<lparr>settings_waiting := True\<rparr> else queue_state_change t)"
      by (auto split: if_splits)
    have "worker_ok u" using u vo by (rule foldR_invariant) (simp add: read_detail_ok)
    then have "worker_ok (u\<lparr>seat0_has_vts := b, pending_invocation := Some i\<rparr>)" for b
      by (simp add: worker_ok_def tracks_def client_of_def)
    with initialize_settings_ok [OF t] show ?thesis by (simp add: w')
  qed
qed

lemma uninitialize_ok:
  assumes "gdm_session_worker_uninitialize_pam E c w = Ret w'" "worker_ok w"
  shows "worker_ok w' \<and> \<not> pam_handle w'"
proof (cases "pam_handle w")
  case True
  with uninitialize_pam_at [OF assms(1)] assms(2) show ?thesis
    by (auto simp: worker_ok_def tracks_at silent_flags)
next
  case False
  with assms show ?thesis by (simp add: gdm_session_worker_uninitialize_pam_def)
qed

lemma vt_only_ok: "vt_only w w' \<Longrightarrow> worker_ok w \<Longrightarrow> worker_ok w'"
  by (auto simp: vt_only_def worker_ok_def tracks_at client_of_def silent_flags)

lemma child_watch_ok:
  assumes "session_worker_child_watch E pid status w = Ret w'" "worker_ok w"
  shows "worker_ok w'"
proof -
  from assms(1) obtain v where v: "gdm_session_worker_uninitialize_pam E PAM_SUCCESS w = Ret v"
    and j: "jump_back_to_initial_vt E
            (logged [Emitted (SessionExited (service v) status), Killpg pid, PingManager]
              (v\<lparr>child_pid := -1, child_watch_id := False\<rparr>)) = Ret w'"
    unfolding session_worker_child_watch_def Let_def by auto
  have "worker_ok (v\<lparr>child_pid := -1, child_watch_id := False\<rparr>)"
    using uninitialize_ok [OF v assms(2)] by (simp add: worker_ok_def tracks_def client_of_def)
  with vt_only_ok [OF jump_back_to_initial_vt_vt [OF j]] show ?thesis by simp
qed

lemma handle_start_program_ok:
  "gdm_session_worker_handle_start_program E i cmd w = Ret w' \<Longrightarrow> worker_ok w \<Longrightarrow> worker_ok w'"
  by (auto simp: gdm_session_worker_handle_start_program_def split: if_splits option.splits
      dest!: validate_state_change_ok)

lemma wstep_ok:
  assumes "wstep E ev w = Ret w'" "worker_ok w"
  shows "worker_ok w'"
proof (cases ev)
  case (EvEstablishCredentials i)
  with assms obtain v where v: "validate_and_queue_state_change i STATE_ACCREDITED w = Ret v"
    and w': "w' = v\<lparr>cred_flags := (if \<not> is_reauth_session v then PAM_ESTABLISH_CRED
                             else PAM_REINITIALIZE_CRED)\<rparr>"
    by (auto simp: gdm_session_worker_handle_establish_credentials_def)
  with validate_and_queue_ok [OF v] assms(2) show ?thesis
    by (simp add: worker_ok_def tracks_def client_of_def)
next
  case (EvUserLoaded u)
  with assms show ?thesis by (auto dest: put_settings_ok split: option.splits if_splits)
next
  case (EvSetEnvironmentVariable i k v)
  with assms show ?thesis
    by (auto simp: gdm_session_worker_handle_set_environment_variable_def
        gdm_session_worker_set_environment_variable_def Let_def)
qed (use assms in \<open>auto simp: gdm_session_worker_handle_authenticate_def
    gdm_session_worker_handle_authorize_def gdm_session_worker_handle_open_def
    gdm_session_worker_handle_set_session_name_def gdm_session_worker_handle_set_language_name_def
    gdm_session_worker_handle_set_session_display_mode_def
    gdm_session_worker_handle_start_reauthentication_def reauthentication_request_new_def
    on_reauthentication_client_disconnected_def on_reauthentication_verification_complete_def Let_def
    dest: handle_initialize_ok handle_start_program_ok validate_and_queue_ok state_change_idle_ok put_settings_ok child_watch_ok
    split: if_splits option.splits\<close>)

lemma new_worker_ok: "worker_ok (gdm_session_worker_new r)"
  by (simp add: worker_ok_def tracks_def gdm_session_worker_new_def client_of_def idle_client_def
      worker_state_order)

lemma run_worker_ok:
  assumes "run_worker E r evs = Ret w"
  shows "worker_ok w"
  using assms unfolding run_worker_def
  by (rule foldR_invariant) (auto intro: new_worker_ok wstep_ok)

section \<open>Reading the protocol off the log\<close>

text \<open>
  What the calls since the last successful \<^verbatim>\<open>pam_start\<close> have established.
\<close>

fun auth_done :: "wcall \<Rightarrow> bool" where
  "auth_done (PamOp (Authenticate req) code) = (code = PAM_SUCCESS)"
| "auth_done _ = False"

fun acct_done :: "wcall \<Rightarrow> bool" where
  "acct_done (PamOp (AcctMgmt req) code) = (code = PAM_SUCCESS)"
| "acct_done (PamOp Chauthtok code) = (code = PAM_SUCCESS)"
| "acct_done _ = False"

fun cred_done :: "wcall \<Rightarrow> bool" where
  "cred_done (PamOp (Setcred flags) code) = (flags \<noteq> PAM_DELETE_CRED \<and> code = PAM_SUCCESS)"
| "cred_done _ = False"

definition established :: "bool \<Rightarrow> wcall list \<Rightarrow> pam_client \<Rightarrow> bool" where
  "established r cs m \<longleftrightarrow>
     (pc_authenticated m \<longrightarrow> list_ex auth_done cs) \<and>
     (pc_authorized m \<longrightarrow> pc_authenticated m \<and> (r \<or> list_ex acct_done cs)) \<and>
     (pc_accredited m \<longrightarrow> pc_authorized m \<and> (r \<or> list_ex cred_done cs)) \<and>
     (pc_opened m \<longrightarrow> pc_accredited m)"

definition grounded :: "bool \<Rightarrow> wcall list \<Rightarrow> pam_client \<Rightarrow> bool" where
  "grounded r cs m \<longleftrightarrow>
     (if pc_handle m
      then \<exists>as srv name bs. cs = as @ PamStart srv name PAM_SUCCESS # bs \<and>
             (\<forall>code. PamEnd code \<notin> set bs) \<and> established r bs m
      else m = idle_client)"

lemma established_snoc: "established r cs m \<Longrightarrow> established r (cs @ [c]) m"
  by (auto simp: established_def)

lemma pam_op_established:
  assumes "pam_step r (PamOp op code) m = Some m'" "established r cs m" "pc_handle m"
  shows "pc_handle m' \<and> established r (cs @ [PamOp op code]) m'"
  using assms by (cases op) (auto simp: established_def split: if_splits)

lemma pam_step_established:
  assumes "pam_step r c m = Some m'" "established r cs m" "pc_handle m" "\<nexists>code. c = PamEnd code"
  shows "pc_handle m' \<and> established r (cs @ [c]) m'"
proof (cases c)
  case (PamOp op code)
  with assms pam_op_established show ?thesis by blast
qed (use assms established_snoc in \<open>auto split: if_splits\<close>)

lemma pam_step_grounded:
  assumes "pam_step r c m = Some m'" "grounded r cs m"
  shows "grounded r (cs @ [c]) m'"
proof (cases "pc_handle m")
  case False
  then have m: "m = idle_client" using assms(2) by (simp add: grounded_def)
  have "grounded r (cs @ [PamStart srv name PAM_SUCCESS]) (idle_client\<lparr>pc_handle := True\<rparr>)" for srv name
    by (simp add: grounded_def idle_client_def established_def)
       (rule exI [of _ cs], rule exI [of _ srv], rule exI [of _ name], rule exI [of _ "[]"], simp)
  then show ?thesis
    using assms(1) m by (cases "(r, c, m)" rule: pam_step.cases)
      (auto simp: grounded_def idle_client_def split: if_splits)
next
  case True
  with assms(2) obtain as srv name bs where cs: "cs = as @ PamStart srv name PAM_SUCCESS # bs"
    and bs: "\<forall>code. PamEnd code \<notin> set bs" "established r bs m" by (auto simp: grounded_def)
  show ?thesis
  proof (cases "\<exists>code. c = PamEnd code")
    case True
    with assms(1) have "m' = idle_client" by (auto split: if_splits)
    then show ?thesis by (simp add: grounded_def idle_client_def)
  next
    case False
    have "pc_handle m' \<and> established r (bs @ [c]) m'"
      using pam_step_established [OF assms(1) bs(2) \<open>pc_handle m\<close>] False by simp
    then show ?thesis
      unfolding grounded_def cs using bs(1) False
      by (simp, intro exI [of _ as] exI [of _ srv] exI [of _ name] exI [of _ "bs @ [c]"]) auto
  qed
qed

lemma pam_run_grounded: "pam_run r cs idle_client = Some m \<Longrightarrow> grounded r cs m"
proof (induction cs arbitrary: m rule: rev_induct)
  case Nil
  then show ?case by (auto simp: grounded_def idle_client_def)
next
  case (snoc c cs)
  then show ?case by (auto simp: pam_run_append pam_step_grounded split: bind_splits)
qed

text \<open>Sessions and credentials are counted: what is held is what was opened and not closed.\<close>

fun opened_by :: "wcall \<Rightarrow> bool" where
  "opened_by (PamOp (OpenSession s) code) = (code = PAM_SUCCESS)"
| "opened_by _ = False"

fun closed_by :: "wcall \<Rightarrow> bool" where
  "closed_by (PamOp CloseSession code) = True"
| "closed_by _ = False"

fun started_by :: "wcall \<Rightarrow> bool" where
  "started_by (PamStart srv name code) = (code = PAM_SUCCESS)"
| "started_by _ = False"

fun ended_by :: "wcall \<Rightarrow> bool" where
  "ended_by (PamEnd code) = True"
| "ended_by _ = False"

definition opens :: "wcall list \<Rightarrow> nat" where
  "opens cs = length (filter opened_by cs)"

definition closes :: "wcall list \<Rightarrow> nat" where
  "closes cs = length (filter closed_by cs)"

definition starts :: "wcall list \<Rightarrow> nat" where
  "starts cs = length (filter started_by cs)"

definition ends :: "wcall list \<Rightarrow> nat" where
  "ends cs = length (filter ended_by cs)"

lemma pam_step_counts:
  assumes "pam_step r c m = Some m'"
  shows "opens [c] + of_bool (pc_opened m) = closes [c] + of_bool (pc_opened m')"
    and "starts [c] + of_bool (pc_handle m) = ends [c] + of_bool (pc_handle m')"
  using assms
  by (cases "(r, c, m)" rule: pam_step.cases;
      auto simp: opens_def closes_def starts_def ends_def idle_client_def split: if_splits)+

lemma counts_append:
  "opens (cs @ ds) = opens cs + opens ds" "closes (cs @ ds) = closes cs + closes ds"
  "starts (cs @ ds) = starts cs + starts ds" "ends (cs @ ds) = ends cs + ends ds"
  by (simp_all add: opens_def closes_def starts_def ends_def)

lemma pam_run_counts:
  "pam_run r cs idle_client = Some m \<Longrightarrow>
     opens cs = closes cs + of_bool (pc_opened m) \<and> starts cs = ends cs + of_bool (pc_handle m)"
proof (induction cs arbitrary: m rule: rev_induct)
  case Nil
  then show ?case by (auto simp: opens_def closes_def starts_def ends_def idle_client_def)
next
  case (snoc c cs)
  then obtain m0 where m0: "pam_run r cs idle_client = Some m0" "pam_step r c m0 = Some m"
    by (auto simp: pam_run_append split: bind_splits)
  from snoc.IH [OF m0(1)] pam_step_counts [OF m0(2)] show ?case
    by (simp add: counts_append)
qed

end
