(* ===== verification/Session_Worker_Calls.thy ===== *)
theory Session_Worker_Calls
  imports Session_Worker_Safety
begin

text \<open>
  Method calls of the session worker: every call is answered exactly once or still pending, a
  pending call is never forgotten, and the exceptions that \<^verbatim>\<open>StartProgram\<close> makes;
  the conversation function; the answer to a failed authentication.
\<close>

section \<open>A conservation law\<close>

fun replies_to :: "nat \<Rightarrow> wcall \<Rightarrow> bool" where
  "replies_to i (Replied j r) = (i = j)"
| "replies_to i _ = False"

definition replies :: "nat \<Rightarrow> wcall list \<Rightarrow> nat" where
  "replies i cs = length (filter (replies_to i) cs)"

text \<open>The answers sent to a call, and the one that is still owed.\<close>

definition account :: "worker \<Rightarrow> nat \<Rightarrow> nat" where
  "account w i = replies i (log w) + (if pending_invocation w = Some i then 1 else 0)"

fun invocation_of :: "wevent \<Rightarrow> nat option" where
  "invocation_of (EvInitialize i d) = Some i"
| "invocation_of (EvAuthenticate i) = Some i"
| "invocation_of (EvAuthorize i) = Some i"
| "invocation_of (EvEstablishCredentials i) = Some i"
| "invocation_of (EvOpen i) = Some i"
| "invocation_of (EvStartProgram i t) = Some i"
| "invocation_of (EvSetEnvironmentVariable i k v) = Some i"
| "invocation_of (EvSetSessionName i n) = Some i"
| "invocation_of (EvSetLanguageName i n) = Some i"
| "invocation_of (EvSetSessionDisplayMode i s) = Some i"
| "invocation_of (EvStartReauthentication i p u) = Some i"
| "invocation_of _ = None"

text \<open>
  A call of \<^verbatim>\<open>StartProgram\<close> that the validation accepts; the other events are
  unrestricted.
\<close>

fun polite :: "wevent \<Rightarrow> worker \<Rightarrow> bool" where
  "polite (EvStartProgram i t) w = (pending_invocation w = None \<and> state w = STATE_SESSION_OPENED)"
| "polite _ w = True"

fun polite_run :: "wenv \<Rightarrow> wevent list \<Rightarrow> worker \<Rightarrow> bool" where
  "polite_run E [] w = True"
| "polite_run E (ev # evs) w =
     (polite ev w \<and> (case wstep E ev w of Ret w' \<Rightarrow> polite_run E evs w' | _ \<Rightarrow> True))"

definition plus_call :: "nat option \<Rightarrow> nat \<Rightarrow> nat" where
  "plus_call i j = (if i = Some j then 1 else 0)"

text \<open>\<open>owed i w w'\<close>: exactly one more answer, for call \<open>i\<close>, is sent or owed afterwards.\<close>

definition owed :: "nat option \<Rightarrow> worker \<Rightarrow> worker \<Rightarrow> bool" where
  "owed i w w' \<longleftrightarrow> (\<forall>j. account w' j = account w j + plus_call i j)"

lemma replies_append: "replies i (cs @ ds) = replies i cs + replies i ds"
  by (simp add: replies_def)

lemma replies_none: "\<forall>c \<in> set cs. \<not> is_reply c \<Longrightarrow> replies i cs = 0"
  by (auto simp: replies_def filter_empty_conv elim!: replies_to.elims)

lemma owed_refl [simp]: "owed None w w"
  by (simp add: owed_def plus_call_def)

lemma owed_trans: "owed None u v \<Longrightarrow> owed i v w \<Longrightarrow> owed i u w"
  by (simp add: owed_def plus_call_def)

lemma owed_trans': "owed i u v \<Longrightarrow> owed None v w \<Longrightarrow> owed i u w"
  by (simp add: owed_def plus_call_def)

lemma silent_owed: "silent w w' \<Longrightarrow> owed None w w'"
  by (auto simp: silent_def unanswered_def same_call_def owed_def account_def plus_call_def
      replies_append replies_none)

lemma reply_pending_owed: "owed None w (reply_pending r w)"
  by (auto simp: owed_def account_def plus_call_def reply_pending_def logged_def replies_append
      replies_def split: option.split)

lemma replied_owed: "owed (Some i) w (logged [Replied i r] w)"
  by (auto simp: owed_def account_def plus_call_def logged_def replies_append replies_def)

lemma owed_cong:
  "log v = log w \<Longrightarrow> pending_invocation v = pending_invocation w \<Longrightarrow> owed i u v = owed i u w"
  by (simp add: owed_def account_def)

lemma accepted_owed:
  "log v = log w \<Longrightarrow> pending_invocation w = None \<Longrightarrow> pending_invocation v = Some i \<Longrightarrow> owed (Some i) w v"
  by (simp add: owed_def account_def plus_call_def)

section \<open>A pending call is never forgotten\<close>

text \<open>
  A pending call has an idle source queued for it or waits for the user's settings, not both,
  and a worker without a pending call has nothing of that sort left.
\<close>

definition attended :: "worker \<Rightarrow> bool" where
  "attended w \<longleftrightarrow>
     (pending_invocation w \<noteq> None \<longleftrightarrow> state_change_idle_id w \<or> settings_waiting w) \<and>
     \<not> (state_change_idle_id w \<and> settings_waiting w)"

lemma silent_attended: "silent w w' \<Longrightarrow> attended w \<Longrightarrow> attended w'"
  by (auto simp: silent_def same_call_def attended_def)

lemma attended_logged [simp]: "attended (logged cs w) = attended w"
  by (simp add: attended_def logged_def)

text \<open>What a step does to the accounts and to the pending call.\<close>

definition served :: "nat option \<Rightarrow> worker \<Rightarrow> worker \<Rightarrow> bool" where
  "served i w w' \<longleftrightarrow> owed i w w' \<and> attended w'"

lemma silent_served: "silent w w' \<Longrightarrow> attended w \<Longrightarrow> served None w w'"
  by (simp add: served_def silent_owed silent_attended)

text \<open>A stage that runs from the idle source: it sends the answer at its end.\<close>

lemma answered_served:
  assumes "silent w v" "pending_invocation w \<noteq> None" "\<not> state_change_idle_id w" "\<not> settings_waiting w"
  shows "served None w (reply_pending r v)"
proof -
  have "owed None w (reply_pending r v)"
    using silent_owed [OF assms(1)] reply_pending_owed by (rule owed_trans)
  moreover have "attended (reply_pending r v)"
    using assms by (auto simp: silent_def same_call_def attended_def reply_pending_def logged_def
        split: option.split)
  ultimately show ?thesis by (simp add: served_def)
qed

lemma validate_served:
  assumes "validate_state_change i s w = Ret (v, ok)" "attended w"
  shows "if ok then v = w \<and> pending_invocation w = None else served (Some i) w v"
  using assms
  by (auto simp: validate_state_change_def served_def replied_owed split: if_splits)

lemma validate_and_queue_served:
  assumes "validate_and_queue_state_change i s w = Ret w'" "attended w"
  shows "served (Some i) w w'"
proof -
  from assms(1) obtain v ok where v: "validate_state_change i s w = Ret (v, ok)"
    and w': "w' = (if ok then queue_state_change (v\<lparr>pending_invocation := Some i\<rparr>) else v)"
    unfolding validate_and_queue_state_change_def by auto
  show ?thesis
    using validate_served [OF v assms(2)] assms(2) unfolding w'
    by (auto simp: served_def accepted_owed queue_state_change_def attended_def split: if_splits)
qed

text \<open>The worker when its idle source runs.\<close>

definition running :: "worker \<Rightarrow> bool" where
  "running w \<longleftrightarrow> worker_ok w \<and> pending_invocation w \<noteq> None \<and> \<not> state_change_idle_id w \<and>
     \<not> settings_waiting w"

lemma runningD: "running w \<Longrightarrow> worker_ok w"
  by (simp add: running_def)

lemma running_served: "running w \<Longrightarrow> silent w v \<Longrightarrow> served None w (reply_pending r v)"
  by (simp add: running_def answered_served)

lemma do_setup_served:
  "do_setup E w = Ret w' \<Longrightarrow> running w \<Longrightarrow> state w = STATE_NONE \<Longrightarrow> served None w w'"
  by (auto simp: do_setup_def dest!: stage_ok(3) [OF initialize_pam_stage _ runningD]
      intro: running_served)

lemma do_authenticate_served:
  assumes "do_authenticate E w = Ret w'" "running w" "state w = STATE_SETUP_COMPLETE"
  shows "served None w w'"
proof -
  from assms(1) obtain v e u where
    v: "gdm_session_worker_authenticate_user E (password_is_required w) w = Ret (v, e)" and
    u: "(if e = None \<and> \<not> is_program_session v then gdm_session_worker_update_username E v else Ret v) = Ret u"
    and w': "w' = reply_pending (done_or_error e) u"
    unfolding do_authenticate_def by auto
  have "silent w v" using stage_ok(3) [OF authenticate_stage v runningD [OF assms(2)] assms(3)] .
  moreover have "calm v u" using u by (auto dest: update_username_calm split: if_splits)
  ultimately have "silent w u" by (blast intro: silent_trans calm_silent)
  then show ?thesis unfolding w' using assms(2) by (simp add: running_served)
qed

lemma do_authorize_served:
  "do_authorize E w = Ret w' \<Longrightarrow> running w \<Longrightarrow> state w = STATE_AUTHENTICATED \<Longrightarrow> served None w w'"
  by (auto simp: do_authorize_def dest!: stage_ok(3) [OF authorize_stage _ runningD]
      intro: running_served)

lemma do_accredit_served:
  "do_accredit E w = Ret w' \<Longrightarrow> running w \<Longrightarrow> state w = STATE_AUTHORIZED \<Longrightarrow> served None w w'"
  by (auto simp: do_accredit_def running_def worker_ok_def dest!: accredit_stage
      intro!: running_served)

lemma do_open_session_served:
  "do_open_session E w = Ret w' \<Longrightarrow> running w \<Longrightarrow> served None w w'"
  by (auto simp: do_open_session_def running_def worker_ok_def dest!: open_session_at
      intro!: running_served)

lemma do_start_session_served:
  "do_start_session E w = Ret w' \<Longrightarrow> running w \<Longrightarrow> state w = STATE_SESSION_OPENED \<Longrightarrow> served None w w'"
  by (auto simp: do_start_session_def dest!: stage_ok(3) [OF start_session_stage _ runningD]
      intro: running_served)

lemma save_account_details_now_served:
  "save_account_details_now E w = Ret w' \<Longrightarrow> running w \<Longrightarrow> served None w w'"
  by (auto simp: save_account_details_now_def running_def served_def attended_def owed_def account_def
      plus_call_def queue_state_change_def set_state_def logged_def replies_append replies_def Let_def
      split: if_splits option.splits)

lemma do_save_served:
  assumes "do_save_account_details_when_ready E w = Ret w'" "running w"
  shows "served None w w'"
proof (cases "\<exists>st. user_settings w = Some st \<and> \<not> gdm_session_settings_is_loaded st")
  case True
  then obtain r where c: "put_settings E r (w\<lparr>settings_waiting := True\<rparr>) = Ret w'"
    using assms(1) by (auto simp: do_save_account_details_when_ready_def split: if_splits)
  have "silent (w\<lparr>settings_waiting := True\<rparr>) w'" by (rule calm_silent [OF put_settings_calm [OF c]])
  moreover have "attended (w\<lparr>settings_waiting := True\<rparr>)"
    using assms(2) by (simp add: running_def attended_def)
  ultimately have "served None (w\<lparr>settings_waiting := True\<rparr>) w'" by (rule silent_served)
  then show ?thesis by (simp add: served_def owed_def account_def)
next
  case False
  then show ?thesis
    using assms save_account_details_now_served
    by (auto simp: do_save_account_details_when_ready_def split: if_splits option.splits)
qed

lemma state_change_idle_served:
  assumes "state_change_idle E w = Ret w'" "state_change_idle_id w" "attended w" "worker_ok w"
  shows "served None w w'"
proof -
  let ?v = "w\<lparr>state_change_idle_id := False\<rparr>"
  have r: "running ?v" using assms(2-4) by (simp add: running_def attended_def)
  have "served None ?v w'"
    using assms(1) r unfolding state_change_idle_def Let_def
    by (auto split: worker_state.splits dest: do_setup_served do_authenticate_served
        do_authorize_served do_accredit_served do_save_served do_open_session_served
        do_start_session_served)
  then show ?thesis by (simp add: served_def owed_def account_def)
qed

section \<open>The methods\<close>

lemma handle_initialize_served:
  assumes "gdm_session_worker_handle_initialize E i details w = Ret w'" "attended w"
  shows "served (Some i) w w'"
proof -
  from assms(1) obtain v ok where v: "validate_state_change i STATE_SETUP_COMPLETE w = Ret (v, ok)"
    and rest: "(if \<not> ok then Ret v
       else
         bindR (foldR read_detail details v) (\<lambda>w.
         bindR (initialize_settings E (w\<lparr>seat0_has_vts := sd_seat_can_tty E (log w), pending_invocation := Some i\<rparr>))
           (\<lambda>(w, wait_for_settings).
              if wait_for_settings then Ret (w\<lparr>settings_waiting := True\<rparr>)
              else Ret (queue_state_change w)))) = Ret w'"
    unfolding gdm_session_worker_handle_initialize_def Let_def by auto
  show ?thesis
  proof (cases ok)
    case False
    with rest validate_served [OF v assms(2)] show ?thesis by simp
  next
    case True
    with validate_served [OF v assms(2)] have vw: "v = w" "pending_invocation w = None" by simp_all
    from True rest obtain u t x where u: "foldR read_detail details v = Ret u"
      and t: "initialize_settings E (u\<lparr>seat0_has_vts := sd_seat_can_tty E (log u), pending_invocation := Some i\<rparr>) = Ret (t, x)"
      and w': "w' = (if x then t\<lparr>settings_waiting := True\<rparr> else queue_state_change t)"
      by (auto split: if_splits)
    let ?same = "\<lambda>u. log u = log w \<and> pending_invocation u = None \<and> \<not> state_change_idle_id u \<and> \<not> settings_waiting u"
    have "?same v" using vw assms(2) by (simp add: attended_def)
    with u have su: "?same u"
      by (rule foldR_invariant) (auto simp: read_detail_def split: if_splits variant.splits)
    let ?u = "u\<lparr>seat0_has_vts := sd_seat_can_tty E (log u), pending_invocation := Some i\<rparr>"
    have "calm ?u t \<or> (\<exists>a b. calm (?u\<lparr>user_settings := a, settings_readers := b, settings_waiting := False\<rparr>) t)"
      using t by (auto simp: initialize_settings_def Let_def case_prod_beta
          dest: put_settings_calm split: if_splits) (metis calm_refl)
    then obtain z where z: "calm z t" "?same (z\<lparr>pending_invocation := None\<rparr>)" "pending_invocation z = Some i"
      using su by fastforce
    have st: "silent z t" by (rule calm_silent [OF z(1)])
    have "owed (Some i) w z" using z vw by (simp add: accepted_owed)
    then have "owed (Some i) w t" using silent_owed [OF st] by (rule owed_trans')
    moreover have "pending_invocation t = Some i" "\<not> state_change_idle_id t" "\<not> settings_waiting t"
      using st z by (auto simp: silent_def same_call_def)
    ultimately show ?thesis
      by (auto simp: w' served_def attended_def queue_state_change_def owed_def account_def)
  qed
qed

lemma handle_start_program_served:
  assumes "gdm_session_worker_handle_start_program E i cmd w = Ret w'" "attended w"
    and "pending_invocation w = None" "state w = STATE_SESSION_OPENED"
  shows "served (Some i) w w'"
proof -
  have "validate_state_change i STATE_SESSION_STARTED w = Ret (w, True)"
    using assms(3,4) by (simp add: validate_state_change_def)
  with assms have "w' = logged [Replied i (ErrorReply (IN_REAUTH_SESSION NoMessage))] w \<or>
      w' = logged [Replied i (ErrorReply (SHELL_ERROR ParseMessage))] (w\<lparr>arguments := None\<rparr>) \<or>
      (\<exists>argv. w' = queue_state_change (w\<lparr>arguments := Some argv, pending_invocation := Some i\<rparr>))"
    by (auto simp: gdm_session_worker_handle_start_program_def split: if_splits option.splits)
  then show ?thesis
  proof (elim disjE exE)
    assume w': "w' = logged [Replied i (ErrorReply (IN_REAUTH_SESSION NoMessage))] w"
    show ?thesis using assms(2) by (simp add: w' served_def replied_owed)
  next
    assume w': "w' = logged [Replied i (ErrorReply (SHELL_ERROR ParseMessage))] (w\<lparr>arguments := None\<rparr>)"
    have "owed (Some i) (w\<lparr>arguments := None\<rparr>) w'" unfolding w' by (rule replied_owed)
    moreover have "attended w'" using assms(2) by (simp add: w' attended_def logged_def)
    ultimately show ?thesis by (simp add: served_def owed_def account_def)
  next
    fix argv
    assume "w' = queue_state_change (w\<lparr>arguments := Some argv, pending_invocation := Some i\<rparr>)"
    then show ?thesis
      using assms(2,3) by (auto simp: served_def accepted_owed queue_state_change_def attended_def)
  qed
qed

text \<open>A method that answers at once after an update of the settings.\<close>

lemma settings_method_served:
  assumes v: "(case user_settings w of None \<Rightarrow> Ret w | Some st \<Rightarrow> put_settings E (f st) w) = Ret v"
    and "attended w"
  shows "served (Some i) w (logged [Replied i r] v)"
proof -
  from v have c: "calm w v" by (cases "user_settings w") (auto dest: put_settings_calm)
  have "owed (Some i) w (logged [Replied i r] v)"
    by (rule owed_trans [OF silent_owed [OF calm_silent [OF c]] replied_owed])
  then show ?thesis using silent_attended [OF calm_silent [OF c] assms(2)] by (simp add: served_def)
qed

lemma child_watch_silent:
  assumes "session_worker_child_watch E pid status w = Ret w'" "worker_ok w"
  shows "silent w w'"
proof -
  from assms(1) obtain v where v: "gdm_session_worker_uninitialize_pam E PAM_SUCCESS w = Ret v"
    and j: "jump_back_to_initial_vt E
            (logged [Emitted (SessionExited (service v) status), Killpg pid, PingManager]
              (v\<lparr>child_pid := -1, child_watch_id := False\<rparr>)) = Ret w'"
    unfolding session_worker_child_watch_def Let_def by auto
  have "silent w v"
    using v assms(2) uninitialize_pam_at [OF v]
    by (cases "pam_handle w") (auto simp: worker_ok_def tracks_at gdm_session_worker_uninitialize_pam_def)
  also have "silent v (v\<lparr>child_pid := -1, child_watch_id := False\<rparr>)" by simp
  also have "silent \<dots> (logged [Emitted (SessionExited (service v) status), Killpg pid, PingManager] \<dots>)" by simp
  also have "silent \<dots> w'" using jump_back_to_initial_vt_vt [OF j] by (simp add: vt_only_def)
  finally show ?thesis .
qed

lemma wstep_served:
  assumes "wstep E ev w = Ret w'" "worker_ok w" "attended w" "polite ev w"
  shows "served (invocation_of ev) w w'"
proof (cases ev)
  case (EvEstablishCredentials i)
  with assms(1) obtain v where v: "validate_and_queue_state_change i STATE_ACCREDITED w = Ret v"
    and w': "w' = v\<lparr>cred_flags := (if \<not> is_reauth_session v then PAM_ESTABLISH_CRED
                             else PAM_REINITIALIZE_CRED)\<rparr>"
    by (auto simp: gdm_session_worker_handle_establish_credentials_def)
  from validate_and_queue_served [OF v assms(3)] EvEstablishCredentials show ?thesis
    by (simp add: w' served_def owed_def account_def attended_def)
next
  case (EvSetEnvironmentVariable i k x)
  then have w': "w' = logged [Replied i Done] (gdm_session_worker_set_environment_variable E k (Some x) w)"
    using assms(1) by (simp add: gdm_session_worker_handle_set_environment_variable_def)
  have s: "silent w (gdm_session_worker_set_environment_variable E k (Some x) w)" by simp
  have "owed (Some i) w w'" unfolding w' by (rule owed_trans [OF silent_owed [OF s] replied_owed])
  with EvSetEnvironmentVariable silent_attended [OF s assms(3)] show ?thesis
    by (simp add: w' served_def)
next
  case (EvSetSessionDisplayMode i str)
  then have w': "w' = logged [Replied i Done] (w\<lparr>display_mode := gdm_session_display_mode_from_string str\<rparr>)"
    using assms(1) by (simp add: gdm_session_worker_handle_set_session_display_mode_def)
  have "owed (Some i) (w\<lparr>display_mode := gdm_session_display_mode_from_string str\<rparr>) w'"
    unfolding w' by (rule replied_owed)
  with EvSetSessionDisplayMode assms(3) show ?thesis
    by (simp add: served_def owed_def account_def attended_def w' logged_def)
next
  case (EvStartReauthentication i pid u)
  with assms(1,3) show ?thesis
    by (auto simp: gdm_session_worker_handle_start_reauthentication_def reauthentication_request_new_def
        served_def replied_owed Let_def attended_def owed_def account_def plus_call_def logged_def
        replies_append replies_def split: if_splits)
next
  case EvIdle
  with assms show ?thesis
    by (auto simp: served_def state_change_idle_served [unfolded served_def] split: if_splits)
next
  case (EvUserLoaded u)
  with assms show ?thesis
    by (auto intro!: silent_served calm_silent dest: put_settings_calm split: option.splits if_splits)
next
  case (EvChildExited pid status)
  with assms show ?thesis
    by (auto intro!: silent_served dest: child_watch_silent split: if_splits)
next
  case (EvReauthClientDisconnected pid)
  with assms show ?thesis
    by (auto simp: on_reauthentication_client_disconnected_def served_def owed_def account_def
        plus_call_def attended_def)
next
  case (EvReauthVerified srv pid)
  with assms show ?thesis
    by (auto simp: on_reauthentication_verification_complete_def intro!: silent_served)
qed (use assms in \<open>auto simp: gdm_session_worker_handle_authenticate_def
    gdm_session_worker_handle_authorize_def gdm_session_worker_handle_open_def
    gdm_session_worker_handle_set_session_name_def gdm_session_worker_handle_set_language_name_def
    dest: handle_initialize_served handle_start_program_served validate_and_queue_served
      settings_method_served\<close>)

lemma polite_run_served:
  assumes "foldR (wstep E) evs w = Ret w'" "polite_run E evs w" "worker_ok w" "attended w"
  shows "attended w' \<and> (\<forall>i. account w' i = account w i + count_list (map invocation_of evs) (Some i))"
  using assms
proof (induction evs arbitrary: w)
  case (Cons ev evs)
  from Cons.prems(1) obtain v where v: "wstep E ev w = Ret v" "foldR (wstep E) evs v = Ret w'" by auto
  from Cons.prems(2) v(1) have p: "polite ev w" "polite_run E evs v" by auto
  have s: "served (invocation_of ev) w v" by (rule wstep_served [OF v(1) Cons.prems(3,4) p(1)])
  then have "attended v" by (simp add: served_def)
  from Cons.IH [OF v(2) p(2) wstep_ok [OF v(1) Cons.prems(3)] this] s show ?case
    by (auto simp: served_def owed_def plus_call_def)
qed simp

lemma new_worker_attended: "attended (gdm_session_worker_new r)" "account (gdm_session_worker_new r) i = 0"
  by (simp_all add: attended_def account_def replies_def gdm_session_worker_new_def)

lemma uninitialize_logs:
  assumes "gdm_session_worker_uninitialize_pam E status w = Ret w'" "pam_handle w"
  shows "PamEnd status \<in> set (log w')"
    and "\<not> STATE_SESSION_OPENED \<le> state w \<Longrightarrow> auditor w \<longrightarrow> Audit (AuditLoginFailure status) \<in> set (log w')"
proof -
  from assms obtain w1 x w2 w3 where
    1: "gdm_session_worker_get_username E w = Ret (w1, x)" and
    2: "(if state w1 \<ge> STATE_SESSION_OPENED
         then bindR (pam_call E CloseSession w1) (\<lambda>(w, _). Ret (audit AuditLogout w))
         else Ret (audit (AuditLoginFailure status) w1)) = Ret w2" and
    3: "(if state w2 \<ge> STATE_ACCREDITED
         then bindR (pam_call E (Setcred PAM_DELETE_CRED) w2) (\<lambda>(w, _). Ret w)
         else Ret w2) = Ret w3" and
    4: "w' = set_state STATE_NONE (gdm_session_worker_stop_auditor
               ((logged [PamEnd status] w3)\<lparr>pam_handle := False\<rparr>))"
    unfolding gdm_session_worker_uninitialize_pam_def Let_def by auto
  have w': "log w' = log w3 @ [PamEnd status]"
    by (simp add: 4 set_state_def gdm_session_worker_stop_auditor_def logged_def)
  then show "PamEnd status \<in> set (log w')" by simp
  assume s: "\<not> STATE_SESSION_OPENED \<le> state w"
  have c1: "calm w w1" by (rule get_username_calm [OF 1])
  then have w2: "w2 = audit (AuditLoginFailure status) w1" using 2 s by (simp add: calm_state)
  from 3 have "\<exists>cs. log w3 = log w2 @ cs"
    by (auto simp: logged_def calm_def quiet_def elim!: pam_callE split: if_splits)
  then show "auditor w \<longrightarrow> Audit (AuditLoginFailure status) \<in> set (log w')"
    using calm_task(4) [OF c1] by (auto simp: w' w2 audit_def logged_def)
qed

section \<open>The conversation function\<close>

fun short_reply :: "pam_reply option \<Rightarrow> bool" where
  "short_reply (Some (TextReply t)) = (length t < PAM_MAX_RESP_SIZE)"
| "short_reply _ = True"

lemma process_pam_message_short:
  "gdm_session_worker_process_pam_message E q w = Ret (w', r, b) \<Longrightarrow> short_reply r"
  by (auto simp: gdm_session_worker_process_pam_message_def PAM_MAX_RESP_SIZE_def Let_def
      gdm_session_worker_process_extended_pam_message_def case_prod_beta
      split: pam_message.splits option.splits bool.splits if_splits)

lemma collect_replies_complete:
  "collect_replies E ms w = Ret (w', Some rs) \<Longrightarrow> length rs = length ms \<and> list_all short_reply rs"
proof (induction ms arbitrary: w rs)
  case (Cons m ms)
  then show ?case
    by (auto split: if_splits dest!: process_pam_message_short)
qed simp

section \<open>Example runs\<close>

text \<open>
  A system in which everything works: PAM asks for a password once, the user \<open>ann\<close> exists and
  her settings are loaded.
\<close>

definition demo_pam :: "pam_op \<Rightarrow> pam_prog" where
  "demo_pam op =
     (case op of
        Authenticate req \<Rightarrow>
          PamConv 1 [PAM_PROMPT_ECHO_OFF ''Password: ''] (\<lambda>(code, reps).
            PamDone (if reps = Some [Some (TextReply ''secret'')] then PAM_SUCCESS else PAM_AUTH_ERR))
      | _ \<Rightarrow> PamDone PAM_SUCCESS)"

definition demo_wenv :: "string \<Rightarrow> bool \<Rightarrow> wenv" where
  "demo_wenv password loaded =
     \<lparr>pam_start_result = \<lambda>_ _ _. PAM_SUCCESS,
      pam_set_item_result = \<lambda>_ _ _. PAM_SUCCESS,
      pam_putenv_result = \<lambda>_ _. PAM_SUCCESS,
      pam_op_prog = \<lambda>_ op. demo_pam op,
      pam_user = \<lambda>_. Some (Some ''ann''),
      pam_getenv = \<lambda>_ k. if k = ''XDG_SESSION_ID'' then Some ''c1'' else None,
      manager_answer = \<lambda>_ q. (True, Some password),
      getpwnam_r_results = \<lambda>_ _. [PwInterrupted,
        PwFound \<lparr>pw_uid = 1000, pw_gid = 1000, pw_dir = Some ''/home/ann'', pw_shell = None\<rparr>],
      setgid_ok = \<lambda>_ _. True,
      initgroups_ok = \<lambda>_ _. True,
      open_tty = \<lambda>_ _. 5,
      ioctl_result = \<lambda>_ _. Some 2,
      fork_result = \<lambda>_. 4711,
      act_get_user = \<lambda>_ _. demo_act_user loaded,
      act_cache_ok = \<lambda>_. True,
      sd_seat_can_tty = \<lambda>_. True,
      shell_parse_argv = \<lambda>t. Some [t],
      locale_to_utf8 = Some,
      utf8_valid_length = length,
      json_is_valid = \<lambda>_. True,
      new_session_address = \<lambda>_. ''unix:abstract=x'',
      bindir = ''/usr/bin'',
      initial_vt = 1,
      geteuid_is_root = True\<rparr>"

definition demo_details :: "(string \<times> variant) list" where
  "demo_details = [(''service'', VString ''gdm-password''), (''username'', VString ''ann''),
     (''seat-id'', VString ''seat0''), (''display-is-local'', VBool True)]"

definition demo_login :: "wevent list" where
  "demo_login = [EvInitialize 1 demo_details, EvIdle, EvAuthenticate 2, EvIdle, EvAuthorize 3, EvIdle,
     EvEstablishCredentials 4, EvIdle, EvOpen 5, EvIdle, EvIdle, EvStartProgram 6 ''gnome-session'',
     EvIdle]"

definition demo_worker :: "string \<Rightarrow> wevent list \<Rightarrow> worker" where
  "demo_worker password evs =
     (case run_worker (demo_wenv password True) False evs of Ret w \<Rightarrow> w | _ \<Rightarrow> gdm_session_worker_new False)"

fun returns :: "'a run \<Rightarrow> bool" where
  "returns (Ret x) = True"
| "returns _ = False"

lemma demo_worker_run:
  "returns (run_worker (demo_wenv p True) False evs) \<Longrightarrow>
     run_worker (demo_wenv p True) False evs = Ret (demo_worker p evs)"
  by (cases "run_worker (demo_wenv p True) False evs") (simp_all add: demo_worker_def)

lemma demo_login_returns: "returns (run_worker (demo_wenv ''secret'' True) False demo_login)"
  by code_simp

lemma demo_login_state:
  "state (demo_worker ''secret'' demo_login) = STATE_SESSION_STARTED \<and>
   replies 6 (log (demo_worker ''secret'' demo_login)) = 1 \<and>
   opens (log (demo_worker ''secret'' demo_login)) = 1"
  by code_simp

section \<open>Properties\<close>





text \<open>
  C8. Nothing is leaked. After the worker object is finalised at any point of any run, its PAM
  handle is closed, every successfully opened PAM session has been closed, and every successful
  start of PAM has been ended, exactly once each.
\<close>

theorem finalize_releases:
  assumes "run_worker E r evs = Ret w" "gdm_session_worker_finalize E w = Ret w'"
  shows "\<not> pam_handle w' \<and> opens (log w') = closes (log w') \<and> starts (log w') = ends (log w')"
proof -
  define w0 where "w0 = (let w = w\<lparr>child_watch_id := False\<rparr>
    in if child_pid w > 0 then logged [Terminate (child_pid w)] w else w)"
  have "worker_ok (w\<lparr>child_watch_id := False\<rparr>)"
    using run_worker_ok [OF assms(1)] by (simp add: worker_ok_def tracks_def client_of_def)
  then have w0: "worker_ok w0" by (simp add: w0_def Let_def)
  from assms(2) obtain v where
    v: "(if pam_handle w0 then gdm_session_worker_uninitialize_pam E PAM_SUCCESS w0 else Ret w0) = Ret v"
    and j: "jump_back_to_initial_vt E v = Ret w'"
    unfolding gdm_session_worker_finalize_def Let_def w0_def by auto
  have "worker_ok v \<and> \<not> pam_handle v"
    using v w0 uninitialize_ok [of E PAM_SUCCESS w0 v] by (auto split: if_splits)
  then have w': "worker_ok w'" "\<not> pam_handle w'"
    using jump_back_to_initial_vt_vt [OF j] vt_only_ok by (auto simp: vt_only_def)
  then have "pam_run (is_reauth_session w') (log w') idle_client = Some (client_of w')"
    "state w' = STATE_NONE" using tracks_handle [of w'] by (auto simp: worker_ok_def tracks_def)
  with pam_run_counts [OF this(1)] w'(2) show ?thesis by (simp add: worker_state_order)
qed

theorem finalize_releases_witness:
  "\<exists>w. gdm_session_worker_finalize (demo_wenv ''secret'' True) (demo_worker ''secret'' demo_login) = Ret w \<and>
       opens (log w) = 1 \<and> closes (log w) = 1"
proof -
  have "case gdm_session_worker_finalize (demo_wenv ''secret'' True) (demo_worker ''secret'' demo_login) of
      Ret w \<Rightarrow> opens (log w) = 1 | _ \<Rightarrow> False"
    by code_simp
  then obtain w where w: "gdm_session_worker_finalize (demo_wenv ''secret'' True)
      (demo_worker ''secret'' demo_login) = Ret w" "opens (log w) = 1"
    by (auto split: run.splits)
  from finalize_releases [OF demo_worker_run [OF demo_login_returns] w(1)] w show ?thesis by simp
qed



text \<open>
  C14. The answer to a failed authentication does not tell whether the user exists. When
  \<^verbatim>\<open>pam_authenticate\<close> reports an unknown user the worker ends PAM, audits and answers
  as for a wrong password: the caller gets the generic error message of the service, in both
  cases the same, and the worker is back in its initial state without a PAM handle.
\<close>

theorem unknown_user_masked:
  assumes "pam_call E (Authenticate (password_is_required w)) w = Ret (v, code)"
    and "code \<in> {PAM_USER_UNKNOWN, PAM_AUTH_ERR}"
    and "worker_ok w" "state w = STATE_SETUP_COMPLETE" "pending_invocation w = Some i"
    and "do_authenticate E w = Ret w'"
  shows "last (log w') = Replied i (ErrorReply (AUTHENTICATING (DidNotWork (service_kind_of w)))) \<and>
         state w' = STATE_NONE \<and> \<not> pam_handle w' \<and>
         PamEnd PAM_AUTH_ERR \<in> set (log w') \<and> (auditor v \<longrightarrow> Audit (AuditLoginFailure PAM_AUTH_ERR) \<in> set (log w'))"
proof -
  from pam_callE [OF assms(1)] obtain u where u: "calm w u" "v = logged [PamOp (Authenticate (password_is_required w)) code] u"
    by blast
  have k: "service_kind_of v = service_kind_of w"
    using calm_task(8) [OF u(1)] by (simp add: u(2) service_kind_of_def logged_def)
  let ?e = "AUTHENTICATING (DidNotWork (service_kind_of w))"
  have err: "authentication_error v code = ?e"
    using assms(2) k by (auto simp: authentication_error_def get_friendly_error_message_def
        get_generic_error_message_def)
  from assms(1,2,6) obtain x where x: "gdm_session_worker_uninitialize_pam E PAM_AUTH_ERR v = Ret x"
    and w': "w' = reply_pending (ErrorReply ?e) x"
    by (auto simp: do_authenticate_def gdm_session_worker_authenticate_user_def Let_def err
        done_or_error_def split: if_splits)
  have tr: "tracks w" using assms(3) by (simp add: worker_ok_def)
  have "pam_step (is_reauth_session w) (PamOp (Authenticate (password_is_required w)) code) (client_of w)
      = Some (client_of w)"
    using assms(2,4) tr tracks_handle [OF tr] by (auto simp: client_of_def worker_state_order)
  note 1 = pam_call_stage [OF assms(1) tr _ _ this, unfolded assms(4), simplified]
  have cv: "client_of v = client_of w"
    by (rule client_of_state_eqI) (use 1 assms(4) tracks_handle [OF tr] in simp_all)
  have 2: "tracks x" "silent v x" "\<not> pam_handle x" "state x = STATE_NONE"
    using uninitialize_pam_at [OF x] 1 cv by simp_all
  have p: "pending_invocation x = Some i"
    using 1(2) 2(2) assms(5) by (simp add: silent_def same_call_def)
  from uninitialize_logs [OF x 1(3)] 1(4) assms(4)
  have 3: "PamEnd PAM_AUTH_ERR \<in> set (log x)"
    "auditor v \<longrightarrow> Audit (AuditLoginFailure PAM_AUTH_ERR) \<in> set (log x)"
    by (simp_all add: worker_state_order)
  show ?thesis
    using 2 3 p by (simp add: w' reply_pending_def logged_def)
qed

theorem unknown_user_masked_witness:
  "\<exists>w. do_authenticate (demo_wenv ''guess'' True)
        (demo_worker ''guess'' [EvInitialize 1 demo_details, EvIdle, EvAuthenticate 2]) = Ret w \<and>
       last (log w) = Replied 2 (ErrorReply (AUTHENTICATING (DidNotWork Password)))"
proof -
  let ?E = "demo_wenv ''guess'' True"
  let ?evs = "[EvInitialize 1 demo_details, EvIdle, EvAuthenticate 2]"
  let ?w = "demo_worker ''guess'' ?evs"
  have "returns (run_worker ?E False ?evs)" by code_simp
  then have ok: "worker_ok ?w" by (rule run_worker_ok [OF demo_worker_run])
  have w: "state ?w = STATE_SETUP_COMPLETE" "pending_invocation ?w = Some 2" "service_kind_of ?w = Password"
    by code_simp+
  have "case pam_call ?E (Authenticate (password_is_required ?w)) ?w of
      Ret (v, code) \<Rightarrow> code = PAM_AUTH_ERR | _ \<Rightarrow> False" by code_simp
  then obtain v where v: "pam_call ?E (Authenticate (password_is_required ?w)) ?w = Ret (v, PAM_AUTH_ERR)"
    by (auto split: run.splits)
  have "returns (do_authenticate ?E ?w)" by code_simp
  then obtain w' where w': "do_authenticate ?E ?w = Ret w'" by (cases "do_authenticate ?E ?w") auto
  show ?thesis using unknown_user_masked [OF v _ ok w(1,2) w'] w' w(3) by simp
qed

text \<open>
  C15. The PAM conversation is all or nothing. For a positive number of messages the
  conversation function returns success with exactly one reply for each message, in their
  order, every text short enough for PAM with its terminating zero, or the conversation error
  with no replies at all; and it makes no PAM call and answers no method call meanwhile.
\<close>

theorem conversation_all_or_nothing:
  assumes "gdm_session_worker_pam_new_messages_handler E (int (length ms)) ms w = Ret (w', code, reps)"
    and "ms \<noteq> []"
  shows "(case reps of
            Some rs \<Rightarrow> code = PAM_SUCCESS \<and> length rs = length ms \<and> list_all short_reply rs
          | None \<Rightarrow> code = PAM_CONV_ERR) \<and>
         (\<exists>cs. log w' = log w @ cs \<and> list_all neutral cs) \<and>
         pam_handle w' = pam_handle w \<and> pending_invocation w' = pending_invocation w"
proof -
  from assms have c: "collect_replies E ms w = Ret (w', reps)"
    and code: "code = (if reps \<noteq> None then PAM_SUCCESS else PAM_CONV_ERR)"
    by (auto simp: gdm_session_worker_pam_new_messages_handler_def)
  have "calm w w'" by (rule collect_replies_calm [OF c])
  then show ?thesis
    using collect_replies_complete [of E ms w w'] c code
    by (auto simp: calm_def quiet_def same_task_def list_all_iff split: option.split)
qed

theorem conversation_all_or_nothing_witness:
  "\<exists>w reps. gdm_session_worker_pam_new_messages_handler (demo_wenv ''secret'' True) 2
       [PAM_PROMPT_ECHO_OFF ''Password: '', PAM_TEXT_INFO ''ok'']
       (demo_worker ''secret'' [EvInitialize 1 demo_details, EvIdle]) = Ret (w, PAM_SUCCESS, Some reps) \<and>
     length reps = 2"
proof -
  let ?ms = "[PAM_PROMPT_ECHO_OFF ''Password: '', PAM_TEXT_INFO ''ok'']"
  let ?r = "gdm_session_worker_pam_new_messages_handler (demo_wenv ''secret'' True) (int (length ?ms))
      ?ms (demo_worker ''secret'' [EvInitialize 1 demo_details, EvIdle])"
  have "case ?r of Ret (w, c, Some reps) \<Rightarrow> True | _ \<Rightarrow> False" by code_simp
  then obtain w c reps where r: "?r = Ret (w, c, Some reps)"
    by (auto split: run.splits prod.splits option.splits)
  from conversation_all_or_nothing [OF r] r show ?thesis by auto
qed


text \<open>
  The saved settings are announced when they should not be. When the settings of the user
  are available at once, the handlers that announce saved settings stay connected, so that
  choosing a language for the session is reported as a saved language; when the settings
  arrive later, the handlers are gone and the same call reports nothing.
\<close>

theorem language_choice_announced:
  "(\<exists>cs. log (demo_worker ''secret'' [EvInitialize 1 demo_details, EvSetLanguageName 2 ''fr'']) =
      log (demo_worker ''secret'' [EvInitialize 1 demo_details]) @ cs \<and>
      Emitted (SavedLanguageNameRead (Some ''fr'')) \<in> set cs) \<and>
   (case run_worker (demo_wenv ''secret'' False) False
        [EvInitialize 1 demo_details, EvUserLoaded (demo_act_user True), EvSetLanguageName 2 ''fr''] of
      Ret w \<Rightarrow> Emitted (SavedLanguageNameRead (Some ''fr'')) \<notin> set (log w)
    | _ \<Rightarrow> False)"
proof -
  let ?w = "demo_worker ''secret'' [EvInitialize 1 demo_details]"
  let ?v = "demo_worker ''secret'' [EvInitialize 1 demo_details, EvSetLanguageName 2 ''fr'']"
  have "take (length (log ?w)) (log ?v) = log ?w \<and>
      Emitted (SavedLanguageNameRead (Some ''fr'')) \<in> set (drop (length (log ?w)) (log ?v))"
    by code_simp
  then have 1: "\<exists>cs. log ?v = log ?w @ cs \<and> Emitted (SavedLanguageNameRead (Some ''fr'')) \<in> set cs"
    by (metis append_take_drop_id)
  have 2: "case run_worker (demo_wenv ''secret'' False) False
        [EvInitialize 1 demo_details, EvUserLoaded (demo_act_user True), EvSetLanguageName 2 ''fr''] of
      Ret w \<Rightarrow> Emitted (SavedLanguageNameRead (Some ''fr'')) \<notin> set (log w)
    | _ \<Rightarrow> False"
    by code_simp
  from 1 2 show ?thesis by blast
qed

end
