(* ===== verification/Gdm_Common.thy ===== *)
theory Gdm_Common
  imports Gdm_Prelude "HOL-Library.List_Lexorder" "HOL-Library.Char_ord"
begin

text \<open>
  The helpers of \<^verbatim>\<open>common/gdm-common.c\<close> that sessions, workers and greeters share: the
  files of environment variables with their shell-like expansion, waiting for a process,
  and random bytes.
\<close>

section \<open>Shell-like expansion\<close>

definition gdm_shell_var_is_valid_char :: "char \<Rightarrow> bool \<Rightarrow> bool" where
  "gdm_shell_var_is_valid_char c first =
     (\<not> first \<and> g_ascii_isdigit c \<or> c = CHR ''_'' \<or> g_ascii_isalpha c)"

text \<open>The longest name at the beginning of a string.\<close>

fun var_prefix :: "string \<Rightarrow> string" where
  "var_prefix [] = []"
| "var_prefix (c # cs) =
     (if gdm_shell_var_is_valid_char c True
      then c # takeWhile (\<lambda>c. gdm_shell_var_is_valid_char c False) cs else [])"

lemma var_prefix_length [termination_simp]: "length (var_prefix s) \<le> length s"
  by (cases s) (auto simp: length_takeWhile_le)

text \<open>
  The loop of \<^verbatim>\<open>gdm_shell_expand\<close> from the current position on; \<open>at_new_word\<close> is
  only updated by ordinary characters. The backslash has the code 92.
\<close>

function (sequential) shell_expand_loop :: "(string \<Rightarrow> cstr) \<Rightarrow> bool \<Rightarrow> string \<Rightarrow> string" where
  "shell_expand_loop ev at_new_word [] = []"
| "shell_expand_loop ev at_new_word (c # p) =
     (if c = CHR 92 then
        (case p of
           [] \<Rightarrow> []
         | d # q \<Rightarrow>
             (if d = CHR 92 \<or> d = CHR ''$'' \<or> d = CHR ''#'' then [d] else [CHR 92, d]) @
             shell_expand_loop ev at_new_word q)
      else if c = CHR ''#'' \<and> at_new_word then []
      else if c = CHR ''$'' then
        (let brackets = (p \<noteq> [] \<and> hd p = CHR ''{'');
             start = (if brackets then tl p else p);
             var = var_prefix start;
             rest = drop (length var) start
         in if var = [] \<or> (brackets \<and> (rest = [] \<or> hd rest \<noteq> CHR ''}''))
            then CHR ''$'' # (if brackets then ''{'' else []) @ var @
                 shell_expand_loop ev at_new_word rest
            else (case ev var of None \<Rightarrow> [] | Some v \<Rightarrow> v) @
                 shell_expand_loop ev at_new_word (if brackets then tl rest else rest))
      else c # shell_expand_loop ev (g_ascii_isspace c) p)"
  by pat_completeness auto

termination
  by (relation "measure (\<lambda>(ev, w, s). length s)")
     (auto simp: Let_def)

definition gdm_shell_expand :: "string \<Rightarrow> (string \<Rightarrow> cstr) \<Rightarrow> string" where
  "gdm_shell_expand str expand_var_func = shell_expand_loop expand_var_func True str"

section \<open>Files of environment variables\<close>

text \<open>\<^verbatim>\<open>g_strsplit (s, sep, -1)\<close> for a one-character separator.\<close>

fun split_at :: "char \<Rightarrow> string \<Rightarrow> string list" where
  "split_at sep [] = [[]]"
| "split_at sep (c # cs) =
     (if c = sep then [] # split_at sep cs
      else case split_at sep cs of [] \<Rightarrow> [[c]] | l # ls \<Rightarrow> (c # l) # ls)"

definition g_strsplit :: "string \<Rightarrow> char \<Rightarrow> string list" where
  "g_strsplit s sep = (if s = [] then [] else split_at sep s)"

datatype env_line = Skipped | InvalidLine | Assignment string string

text \<open>A line up to the point where its value begins.\<close>

definition parse_env_line :: "string \<Rightarrow> env_line" where
  "parse_env_line line =
     (let p = dropWhile g_ascii_isspace line
      in if p = [] \<or> hd p = CHR ''#'' then Skipped
         else
           let var = var_prefix p;
               p1 = dropWhile g_ascii_isspace (drop (length var) p)
           in if var = [] \<or> p1 = [] \<or> hd p1 \<noteq> CHR ''='' then InvalidLine
              else Assignment var (dropWhile g_ascii_isspace (tl p1)))"

text \<open>
  \<open>load\<close> is the callback that takes a variable, \<open>expand\<close> the one that reads a variable;
  both work on the state of the caller. The file is read as a C string.
\<close>

definition load_env_line ::
  "(string \<Rightarrow> string \<Rightarrow> 's \<Rightarrow> 's) \<Rightarrow> ('s \<Rightarrow> string \<Rightarrow> cstr) \<Rightarrow> string \<Rightarrow> 's \<Rightarrow> 's" where
  "load_env_line load expand line s =
     (case parse_env_line line of
        Assignment var p \<Rightarrow> load var (g_strchomp (gdm_shell_expand p (expand s))) s
      | _ \<Rightarrow> s)"

definition load_env_file ::
  "(string \<Rightarrow> string \<Rightarrow> 's \<Rightarrow> 's) \<Rightarrow> ('s \<Rightarrow> string \<Rightarrow> cstr) \<Rightarrow> string option \<Rightarrow> 's \<Rightarrow> 's" where
  "load_env_file load expand contents s =
     (case contents of
        None \<Rightarrow> s
      | Some text \<Rightarrow>
          fold (load_env_line load expand)
            (g_strsplit (takeWhile (\<lambda>c. c \<noteq> CHR 0x00) text) (CHR 0x0A)) s)"

text \<open>A directory entry: its name, whether it is a regular file, whether it is hidden, its contents.\<close>

type_synonym env_entry = "string \<times> bool \<times> bool \<times> string option"

definition gdm_load_env_dir ::
  "(string \<Rightarrow> string \<Rightarrow> 's \<Rightarrow> 's) \<Rightarrow> ('s \<Rightarrow> string \<Rightarrow> cstr) \<Rightarrow> env_entry list option \<Rightarrow> 's \<Rightarrow> 's" where
  "gdm_load_env_dir load expand dir s =
     (case dir of
        None \<Rightarrow> s
      | Some entries \<Rightarrow>
          let names = sort (map fst (filter (\<lambda>(n, regular, hidden, c).
                regular \<and> \<not> hidden \<and> g_str_has_suffix n ''.env'') entries))
          in fold (\<lambda>n. load_env_file load expand
                     (case map_of entries n of None \<Rightarrow> None | Some (r, h, c) \<Rightarrow> c)) names s)"

definition gdm_load_env_d ::
  "(string \<Rightarrow> string \<Rightarrow> 's \<Rightarrow> 's) \<Rightarrow> ('s \<Rightarrow> string \<Rightarrow> cstr) \<Rightarrow> (string \<Rightarrow> env_entry list option) \<Rightarrow>
     string \<Rightarrow> string \<Rightarrow> 's \<Rightarrow> 's" where
  "gdm_load_env_d load expand dirs DATADIR GDMCONFDIR s =
     gdm_load_env_dir load expand (dirs (GDMCONFDIR @ ''/env.d''))
       (gdm_load_env_dir load expand (dirs (DATADIR @ ''/gdm/env.d'')) s)"

section \<open>Processes\<close>

text \<open>The results of \<^verbatim>\<open>waitpid\<close>.\<close>

datatype wait_result =
    WaitInterrupted
  | WaitNoChild
  | WaitFailed
  | WaitRunning
  | WaitStatus int

text \<open>
  What the wait returns: the status of the process, 0 after giving up, or the value of a
  variable that was never written.
\<close>

datatype wait_outcome = WaitReturned int | GaveUp | UninitialisedStatus

text \<open>
  The loop over the results of the successive calls; it counts its sleeps of a tenth of a
  second. \<open>None\<close>: it is still waiting when the results are used up.
\<close>

fun wait_again :: "int \<Rightarrow> nat \<Rightarrow> wait_result list \<Rightarrow> (wait_outcome \<times> nat) option" where
  "wait_again num_tries sleeps [] = None"
| "wait_again num_tries sleeps (r # rs) =
     (case r of
        WaitInterrupted \<Rightarrow> wait_again num_tries sleeps rs
      | WaitNoChild \<Rightarrow> Some (UninitialisedStatus, sleeps)
      | WaitFailed \<Rightarrow> Some (UninitialisedStatus, sleeps)
      | WaitRunning \<Rightarrow>
          if num_tries - 1 > 0 then wait_again (num_tries - 1) (Suc sleeps) rs
          else Some (GaveUp, sleeps)
      | WaitStatus s \<Rightarrow> Some (WaitReturned s, sleeps))"

definition gdm_wait_on_and_disown_pid :: "int \<Rightarrow> wait_result list \<Rightarrow> (wait_outcome \<times> nat) option" where
  "gdm_wait_on_and_disown_pid timeout rs =
     wait_again (if timeout > 0 then 10 * timeout else 0) 0 rs"

definition FD_CLOEXEC :: "32 word" where
  "FD_CLOEXEC = 1"

unbundle bit_operations_syntax

text \<open>
  \<open>getfd\<close> is the result of reading the descriptor flags, \<open>setfd\<close> of writing them. The
  result is the return value and the flags that were written.
\<close>

definition gdm_clear_close_on_exec_flag ::
  "int \<Rightarrow> (32 word) option \<Rightarrow> (32 word \<Rightarrow> bool) \<Rightarrow> bool \<times> (32 word) option" where
  "gdm_clear_close_on_exec_flag fd getfd setfd =
     (if fd < 0 then (False, None)
      else
        case getfd of
          None \<Rightarrow> (False, None)
        | Some flags \<Rightarrow>
            if flags AND FD_CLOEXEC \<noteq> 0
            then (setfd (flags AND NOT FD_CLOEXEC), Some (flags AND NOT FD_CLOEXEC))
            else (True, None))"

section \<open>Random bytes\<close>

datatype read_result = ReadFailed int | ReadBytes "8 word list"

datatype read_outcome = ReadComplete | PrematureEof | ReadErrno

text \<open>
  \<^verbatim>\<open>bytes_read\<close> has the unsigned type \<^verbatim>\<open>size_t\<close>: the \<open>-1\<close> of a failed
  call becomes the largest value, so the last branch of the chain is never taken.
\<close>

fun bytes_read :: "read_result \<Rightarrow> 64 word" where
  "bytes_read (ReadFailed e) = -1"
| "bytes_read (ReadBytes bs) = of_nat (length bs)"

text \<open>
  The loop over the results of the successive calls of \<^verbatim>\<open>read\<close>: the offset into the buffer
  and the length that each call got, and how the loop ended (\<open>None\<close>: not yet).
\<close>

fun read_loop ::
  "64 word \<Rightarrow> 64 word \<Rightarrow> read_result list \<Rightarrow> (64 word \<times> 64 word) list \<times> read_outcome option" where
  "read_loop tot left [] = ([], None)"
| "read_loop tot left (r # rs) =
     (let n = bytes_read r in
      if n > 0
      then (if left - n > 0
            then let (calls, out) = read_loop (tot + n) (left - n) rs
                 in ((tot, left) # calls, out)
            else ([(tot, left)], Some ReadComplete))
      else ([(tot, left)], Some PrematureEof))"

definition read_bytes ::
  "64 word \<Rightarrow> read_result list \<Rightarrow> (64 word \<times> 64 word) list \<times> read_outcome option" where
  "read_bytes number_of_bytes rs = read_loop 0 number_of_bytes rs"

datatype random_error = OpenFailed | NotACharacterDevice | NoData

text \<open>\<open>None\<close> in the result is the error, \<open>Some\<close> the offsets and lengths that filled the buffer.\<close>

definition gdm_generate_random_bytes ::
  "bool \<Rightarrow> bool \<Rightarrow> 64 word \<Rightarrow> read_result list \<Rightarrow> random_error + (64 word \<times> 64 word) list option" where
  "gdm_generate_random_bytes opened is_character_device n rs =
     (if \<not> opened then Inl OpenFailed
      else if \<not> is_character_device then Inl NotACharacterDevice
      else
        case read_bytes n rs of
          (calls, None) \<Rightarrow> Inr None
        | (calls, Some ReadComplete) \<Rightarrow> Inr (Some calls)
        | (calls, Some e) \<Rightarrow> Inl NoData)"

section \<open>The X server\<close>

definition gdm_find_x_server :: "cstr \<Rightarrow> (string \<Rightarrow> bool) \<Rightarrow> cstr" where
  "gdm_find_x_server override is_executable =
     (case override of
        Some p \<Rightarrow> Some p
      | None \<Rightarrow> find is_executable [''/usr/bin/Xorg'', ''/usr/bin/X''])"

section \<open>Round trip of files of environment variables\<close>

definition shell_escape :: "string \<Rightarrow> string" where
  "shell_escape s = concat (map (\<lambda>c. if c = CHR 92 \<or> c = CHR ''$'' \<or> c = CHR ''#''
     then [CHR 92, c] else [c]) s)"

definition print_env :: "(string \<times> string) list \<Rightarrow> string" where
  "print_env vs = concat (map (\<lambda>(v, x). v @ ''='' @ shell_escape x @ [CHR 0x0A]) vs)"

definition printable_var :: "string \<times> string \<Rightarrow> bool" where
  "printable_var vx =
     (let (v, x) = vx
      in v \<noteq> [] \<and> var_prefix v = v \<and> CHR 0x0A \<notin> set x \<and> CHR 0x00 \<notin> set x \<and>
         (x \<noteq> [] \<longrightarrow> \<not> g_ascii_isspace (hd x) \<and> \<not> g_ascii_isspace (last x)))"

lemma shell_expand_escape: "shell_expand_loop ev w (shell_escape s) = s"
  unfolding shell_escape_def by (induction s arbitrary: w) auto

lemma shell_escape_Nil [simp]: "shell_escape [] = []"
  by (simp add: shell_escape_def)

lemma shell_escape_Nil_iff [simp]: "shell_escape s = [] \<longleftrightarrow> s = []"
  by (cases s) (auto simp: shell_escape_def)

lemma set_shell_escape: "set (shell_escape s) \<subseteq> insert (CHR 92) (set s)"
  by (induction s) (auto simp: shell_escape_def)

lemma hd_shell_escape: "s \<noteq> [] \<Longrightarrow> \<not> g_ascii_isspace (hd s) \<Longrightarrow> \<not> g_ascii_isspace (hd (shell_escape s))"
  by (cases s) (auto simp: shell_escape_def g_ascii_isspace_def)

lemma valid_char_cases:
  "gdm_shell_var_is_valid_char c first \<Longrightarrow>
     \<not> g_ascii_isspace c \<and> c \<noteq> CHR ''#'' \<and> c \<noteq> CHR ''='' \<and> c \<noteq> CHR 0x0A \<and> c \<noteq> CHR 0x00"
  by (auto simp: gdm_shell_var_is_valid_char_def g_ascii_isspace_def g_ascii_isdigit_def
      g_ascii_isalpha_def)

lemma var_prefix_valid:
  "var_prefix v = v \<Longrightarrow> c \<in> set v \<Longrightarrow> \<exists>first. gdm_shell_var_is_valid_char c first"
  by (cases v) (auto split: if_splits dest: set_takeWhileD)

lemma var_prefix_stops:
  assumes "var_prefix v = v" "v \<noteq> []" "\<not> gdm_shell_var_is_valid_char c False"
  shows "var_prefix (v @ c # r) = v"
proof -
  obtain d ds where v: "v = d # ds" using assms(2) by (cases v) auto
  then have "takeWhile (\<lambda>c. gdm_shell_var_is_valid_char c False) ds = ds"
    and d: "gdm_shell_var_is_valid_char d True"
    using assms(1) by (auto split: if_splits)
  then have "takeWhile (\<lambda>c. gdm_shell_var_is_valid_char c False) (ds @ c # r) = ds"
    using assms(3) by (simp add: takeWhile_eq_all_conv takeWhile_append2)
  with v d show ?thesis by simp
qed

lemma equals_no_var: "\<not> gdm_shell_var_is_valid_char (CHR ''='') b"
  by (simp add: gdm_shell_var_is_valid_char_def g_ascii_isdigit_def g_ascii_isalpha_def)

lemma dropWhile_space: "x = [] \<or> \<not> g_ascii_isspace (hd x) \<Longrightarrow> dropWhile g_ascii_isspace x = x"
  by (cases x) auto

lemma parse_printed_line:
  assumes "printable_var (v, x)"
  shows "parse_env_line (v @ ''='' @ shell_escape x) = Assignment v (shell_escape x)"
proof -
  have v: "v \<noteq> []" "var_prefix v = v" and x: "x \<noteq> [] \<longrightarrow> \<not> g_ascii_isspace (hd x)"
    using assms by (auto simp: printable_var_def)
  from v have "hd v \<in> set v" by simp
  then have h: "\<not> g_ascii_isspace (hd v)" "hd v \<noteq> CHR ''#''"
    using var_prefix_valid [OF v(2)] valid_char_cases by blast+
  have "var_prefix (v @ ''='' @ shell_escape x) = v"
    using var_prefix_stops [OF v(2,1) equals_no_var] by simp
  moreover have "dropWhile g_ascii_isspace (v @ ''='' @ shell_escape x) = v @ ''='' @ shell_escape x"
    using h v by (intro dropWhile_space) (simp add: hd_append)
  moreover have "dropWhile g_ascii_isspace (shell_escape x) = shell_escape x"
    using x hd_shell_escape by (intro dropWhile_space) auto
  moreover have "\<not> g_ascii_isspace (CHR ''='')" by (simp add: g_ascii_isspace_def)
  ultimately show ?thesis
    using h v by (simp add: parse_env_line_def Let_def hd_append)
qed

lemma load_printed_line:
  assumes "printable_var (v, x)"
  shows "load_env_line load expand (v @ ''='' @ shell_escape x) s = load v x s"
proof -
  have "g_strchomp x = x"
    using assms by (intro g_strchomp_id) (auto simp: printable_var_def)
  then show ?thesis
    unfolding load_env_line_def parse_printed_line [OF assms]
    by (simp add: gdm_shell_expand_def shell_expand_escape)
qed

lemma split_at_line: "c \<notin> set l \<Longrightarrow> split_at c (l @ c # r) = l # split_at c r"
  by (induction l) auto

lemma printed_line_chars:
  assumes "printable_var (v, x)" "c = CHR 0x0A \<or> c = CHR 0x00"
  shows "c \<notin> set (v @ ''='' @ shell_escape x)"
proof -
  have v: "var_prefix v = v" and x: "c \<notin> set x" using assms by (auto simp: printable_var_def)
  have "c \<notin> set v" using assms(2) var_prefix_valid [OF v] valid_char_cases by blast
  with x assms(2) show ?thesis using set_shell_escape [of x] by auto
qed

lemma split_printed:
  assumes "\<forall>vx \<in> set vs. printable_var vx"
  shows "split_at (CHR 0x0A) (print_env vs) = map (\<lambda>(v, x). v @ ''='' @ shell_escape x) vs @ [[]]"
  using assms
proof (induction vs)
  case (Cons vx vs)
  obtain v x where vx: "vx = (v, x)" by fastforce
  have "CHR 0x0A \<notin> set (v @ ''='' @ shell_escape x)"
    using Cons.prems vx by (intro printed_line_chars) auto
  from split_at_line [OF this] Cons show ?case by (simp add: print_env_def vx)
qed (simp add: print_env_def)

lemma print_env_no_NUL: "\<forall>vx \<in> set vs. printable_var vx \<Longrightarrow> CHR 0x00 \<notin> set (print_env vs)"
  using printed_line_chars by (fastforce simp: print_env_def)

text \<open>
  C24. Files of environment variables mean what they say. A file that assigns any list of
  variables, one line each with the special characters of the value escaped, hands exactly
  these variables with exactly these values to the loader, in the order of the lines and
  whatever the values of other variables are.
\<close>

theorem env_file_roundtrip:
  assumes "\<forall>vx \<in> set vs. printable_var vx"
  shows "load_env_file load expand (Some (print_env vs)) s = fold (\<lambda>(v, x). load v x) vs s"
proof -
  have lines: "fold (load_env_line load expand) (map (\<lambda>(v, x). v @ ''='' @ shell_escape x) vs) s =
      fold (\<lambda>(v, x). load v x) vs s"
    using assms
  proof (induction vs arbitrary: s)
    case (Cons vx vs)
    obtain v x where "vx = (v, x)" by fastforce
    with Cons load_printed_line [of v x load expand s] show ?case by simp
  qed simp
  have last: "load_env_line load expand [] t = t" for t
    by (simp add: load_env_line_def parse_env_line_def)
  have nul: "takeWhile (\<lambda>c. c \<noteq> CHR 0x00) (print_env vs) = print_env vs"
    using print_env_no_NUL [OF assms] by (subst takeWhile_eq_all_conv) blast
  show ?thesis
  proof (cases "vs = []")
    case True
    then show ?thesis by (simp add: load_env_file_def g_strsplit_def print_env_def)
  next
    case False
    then have "print_env vs \<noteq> []" by (cases vs) (auto simp: print_env_def)
    then have "load_env_file load expand (Some (print_env vs)) s =
        fold (load_env_line load expand) (map (\<lambda>(v, x). v @ ''='' @ shell_escape x) vs @ [[]]) s"
      by (simp only: load_env_file_def option.case nul g_strsplit_def if_False split_printed [OF assms])
    also have "\<dots> = fold (\<lambda>(v, x). load v x) vs s"
      by (simp only: fold_append comp_def lines fold_simps last)
    finally show ?thesis .
  qed
qed

theorem env_file_roundtrip_witness:
  "load_env_file (\<lambda>v x m. m(v \<mapsto> x)) (\<lambda>m. m) (Some (print_env [(''A'', ''x $y #z''), (''B'', [])]))
     Map.empty = [''A'' \<mapsto> ''x $y #z'', ''B'' \<mapsto> []]"
proof -
  have "\<forall>vx \<in> set [(''A'', ''x $y #z''), (''B'', [])]. printable_var vx" by code_simp
  from env_file_roundtrip [OF this, of "\<lambda>v x m. m(v \<mapsto> x)" "\<lambda>m. m" Map.empty]
  show ?thesis by (simp add: fold.simps)
qed

section \<open>Expansion\<close>

text \<open>The cases of the test suite of the repository, \<^verbatim>\<open>tests/s-common.c\<close>.\<close>

definition test_expand :: "string \<Rightarrow> cstr" where
  "test_expand = map_of [(''FOO'', ''BAR''), (''FOO9'', ''XXX''), (''_FOO'', ''YYY''), (''FOO_FOO'', ''ZZZ'')]"

lemma shell_expand_tests:
  "list_all (\<lambda>(str, expanded). gdm_shell_expand str test_expand = expanded)
     [(''foo#bar'', ''foo#bar''), (''foo #bar gazonk'', ''foo ''), (''#bar'', []), (''$FOO'', ''BAR''),
      (''$9FOO'', ''$9FOO''), (''$FOO9'', ''XXX''), (''${FOO}9'', ''BAR9''), (''$_FOO'', ''YYY''),
      (''$FOO_FOO'', ''ZZZ''), (''$FOO${FOO}'', ''BARBAR''), (''$foo'', []), (''$FOO/BAR'', ''BAR/BAR''),
      (''$/BAR'', ''$/BAR''), (''${FOO BAR}BAR'', ''${FOO BAR}BAR''), (''${}BAR'', ''${}BAR''),
      (''${$FOO}BAR'', ''${BAR}BAR''), (CHR 92 # ''$foo'', ''$foo''),
      (''a'' @ [CHR 92, CHR 92] @ ''b'', ''a'' @ [CHR 92] @ ''b''),
      (''a'' @ [CHR 92] @ ''b'', ''a'' @ [CHR 92] @ ''b''), (''a'' @ [CHR 92] @ ''#b'', ''a#b'')]"
  by code_simp

definition var_value :: "(string \<Rightarrow> cstr) \<Rightarrow> string \<Rightarrow> string" where
  "var_value ev v = (case ev v of None \<Rightarrow> [] | Some x \<Rightarrow> x)"

lemma expand_var:
  assumes "var_prefix v = v" "v \<noteq> []" "\<not> gdm_shell_var_is_valid_char c False"
  shows "shell_expand_loop ev w (CHR ''$'' # v @ c # r) = var_value ev v @ shell_expand_loop ev w (c # r)"
proof -
  have "hd v \<in> set v" using assms(2) by simp
  then have "hd v \<noteq> CHR ''{''"
    using var_prefix_valid [OF assms(1)]
    by (force simp: gdm_shell_var_is_valid_char_def g_ascii_isdigit_def g_ascii_isalpha_def)
  then show ?thesis
    using var_prefix_stops [OF assms] assms(2)
    by (simp add: Let_def hd_append var_value_def del: shell_expand_loop.simps(1))
qed

text \<open>
  A number sign right after a variable is not treated alike. Inside a word that starts
  with ordinary characters it is an ordinary character; after a variable at the very beginning
  of the value it starts a comment, although it does not begin a word, and the rest of the
  value is lost.
\<close>

theorem comment_after_variable:
  assumes "var_prefix v = v" "v \<noteq> []"
  shows "gdm_shell_expand (''x$'' @ v @ ''#'' @ r) ev =
           ''x'' @ var_value ev v @ ''#'' @ shell_expand_loop ev False r \<and>
         gdm_shell_expand (''$'' @ v @ ''#'' @ r) ev = var_value ev v"
proof -
  have h: "\<not> gdm_shell_var_is_valid_char (CHR ''#'') False"
    by (simp add: gdm_shell_var_is_valid_char_def g_ascii_isdigit_def g_ascii_isalpha_def)
  have x: "\<not> g_ascii_isspace (CHR ''x'')" "\<not> g_ascii_isspace (CHR ''#'')"
    by (simp_all add: g_ascii_isspace_def)
  show ?thesis
    using expand_var [OF assms h, of ev False r] expand_var [OF assms h, of ev True r] x
    by (simp add: gdm_shell_expand_def)
qed

theorem comment_after_variable_witness:
  "gdm_shell_expand ''x$A#b'' (\<lambda>v. Some ''1'') = ''x1#b'' \<and>
   gdm_shell_expand ''$A#b'' (\<lambda>v. Some ''1'') = ''1''"
proof -
  have v: "var_prefix ''A'' = ''A''" "''A'' \<noteq> []" by code_simp+
  have "shell_expand_loop (\<lambda>v. Some ''1'') False ''b'' = ''b''" by code_simp
  then show ?thesis
    using comment_after_variable [OF v, of "''b''" "\<lambda>v. Some ''1''"] by (simp add: var_value_def)
qed

section \<open>Waiting for a process\<close>

definition polls :: "wait_result list \<Rightarrow> wait_result list" where
  "polls rs = filter (\<lambda>r. r \<noteq> WaitInterrupted) rs"

lemma wait_again_ends:
  "Suc k \<le> length (polls rs) \<Longrightarrow>
     \<exists>out m. wait_again (int (Suc k)) n rs = Some (out, n + m) \<and> m \<le> k \<and>
       (\<forall>i < m. polls rs ! i = WaitRunning) \<and>
       (out = GaveUp \<longleftrightarrow> (\<forall>r \<in> set (take (Suc k) (polls rs)). r = WaitRunning)) \<and>
       (out \<noteq> GaveUp \<longrightarrow> polls rs ! m \<noteq> WaitRunning)"
proof (induction rs arbitrary: k n)
  case (Cons r rs)
  show ?case
  proof (cases r)
    case WaitInterrupted
    with Cons show ?thesis by (simp add: polls_def)
  next
    case WaitRunning
    show ?thesis
    proof (cases k)
      case (Suc j)
      then have "Suc j \<le> length (polls rs)" using Cons.prems WaitRunning by (simp add: polls_def)
      from Cons.IH [OF this, of "Suc n"] obtain out m where
        m: "wait_again (int (Suc j)) (Suc n) rs = Some (out, Suc n + m)" "m \<le> j"
          "\<forall>i < m. polls rs ! i = WaitRunning"
          "out = GaveUp \<longleftrightarrow> (\<forall>r \<in> set (take (Suc j) (polls rs)). r = WaitRunning)"
          "out \<noteq> GaveUp \<longrightarrow> polls rs ! m \<noteq> WaitRunning" by blast
      have p: "polls (r # rs) = WaitRunning # polls rs" using WaitRunning by (simp add: polls_def)
      have "wait_again (int (Suc k)) n (r # rs) = Some (out, n + Suc m)"
        using m(1) WaitRunning Suc by simp
      then show ?thesis
        using m(2-) Suc unfolding p by (intro exI [of _ out] exI [of _ "Suc m"])
          (auto simp: nth_Cons split: nat.split)
    qed (simp add: WaitRunning polls_def)
  qed (auto simp: polls_def)
qed (simp add: polls_def)



section \<open>Reading random bytes\<close>

definition good_reads :: "nat \<Rightarrow> read_result list \<Rightarrow> bool" where
  "good_reads n rs =
     ((\<forall>r \<in> set rs. \<exists>bs. r = ReadBytes bs \<and> bs \<noteq> []) \<and>
      sum_list (map (\<lambda>r. case r of ReadBytes bs \<Rightarrow> length bs | _ \<Rightarrow> 0) rs) = n)"

lemma unat_of_nat_len: "n < 2 ^ 64 \<Longrightarrow> unat (of_nat n :: 64 word) = n"
  by (simp add: unat_of_nat)

lemma word_pos_of_nat: "0 < n \<Longrightarrow> n < 2 ^ 64 \<Longrightarrow> (0 :: 64 word) < of_nat n"
  by (simp add: word_less_nat_alt unat_of_nat_len)

lemma read_loop_good:
  assumes "good_reads n rs" "0 < n" "m + n < 2 ^ 64"
  shows "snd (read_loop (of_nat m) (of_nat n) rs) = Some ReadComplete \<and>
         (\<forall>(off, len) \<in> set (fst (read_loop (of_nat m) (of_nat n) rs)).
            m \<le> unat off \<and> unat off + unat len = m + n)"
  using assms
proof (induction rs arbitrary: m n)
  case (Cons r rs)
  from Cons.prems(1) obtain bs where bs: "r = ReadBytes bs" "bs \<noteq> []"
    and rest: "good_reads (n - length bs) rs" "length bs \<le> n"
    by (auto simp: good_reads_def)
  have small: "length bs < 2 ^ 64" "n < 2 ^ 64" "m < 2 ^ 64" using rest Cons.prems by linarith+
  have pos: "(0 :: 64 word) < of_nat (length bs)"
    using bs small by (intro word_pos_of_nat) auto
  have diff: "(of_nat n :: 64 word) - of_nat (length bs) = of_nat (n - length bs)"
    using rest by simp
  have here: "unat (of_nat m :: 64 word) = m" "unat (of_nat n :: 64 word) = n"
    using small by (simp_all add: unat_of_nat_len)
  show ?case
  proof (cases "n = length bs")
    case True
    then show ?thesis using bs pos here by (simp add: Let_def)
  next
    case False
    then have n': "0 < n - length bs" "m + length bs + (n - length bs) < 2 ^ 64"
      using rest Cons.prems by auto
    have more: "(0 :: 64 word) < of_nat (n - length bs)" using n' by (intro word_pos_of_nat) auto
    obtain calls out where t:
      "read_loop (of_nat (m + length bs)) (of_nat (n - length bs)) rs = (calls, out)" by fastforce
    have IH: "out = Some ReadComplete"
      "\<forall>(off, len) \<in> set calls. m + length bs \<le> unat off \<and> unat off + unat len = m + n"
      using Cons.IH [OF rest(1) n'] rest(2) unfolding t by simp_all
    have "read_loop (of_nat m) (of_nat n) (r # rs) = ((of_nat m, of_nat n) # calls, out)"
      using pos more t unfolding of_nat_add diff [symmetric] by (simp add: bs)
    with IH here show ?thesis by fastforce
  qed
qed (simp add: good_reads_def)

text \<open>
  Reading random bytes fills the buffer and stays inside it as long as no read fails:
  every call of \<^verbatim>\<open>read\<close> is given a place inside the buffer and at most the space behind
  it.
\<close>

theorem random_bytes_in_bounds:
  assumes "good_reads n rs" "0 < n" "n < 2 ^ 64"
  shows "\<exists>calls. gdm_generate_random_bytes True True (of_nat n) rs = Inr (Some calls) \<and>
           (\<forall>(off, len) \<in> set calls. unat off + unat len = n)"
proof -
  obtain calls out where r: "read_loop 0 (of_nat n) rs = (calls, out)" by fastforce
  then show ?thesis
    using read_loop_good [OF assms(1,2), of 0] assms(3)
    by (auto simp: gdm_generate_random_bytes_def read_bytes_def)
qed

theorem random_bytes_in_bounds_witness:
  "\<exists>calls. gdm_generate_random_bytes True True (of_nat 3) [ReadBytes [7, 8], ReadBytes [9]] =
     Inr (Some calls)"
proof -
  have "good_reads 3 [ReadBytes [7, 8], ReadBytes [9]]" by (simp add: good_reads_def)
  from random_bytes_in_bounds [OF this] show ?thesis by auto
qed

text \<open>
  A failed read is not noticed. The result of \<^verbatim>\<open>read\<close> is kept in an unsigned
  variable, so a failure counts as progress: the next read is given the place before the
  buffer and one byte more than the buffer has, and a source that keeps failing keeps the
  function in its loop, each time further in front of the buffer.
\<close>

lemma read_loop_keeps_failing:
  "unat n + k < 2 ^ 64 \<Longrightarrow> snd (read_loop tot n (replicate k (ReadFailed e))) = None"
proof (induction k arbitrary: tot n)
  case (Suc k)
  have "unat (n + 1) = unat n + unat (1 :: 64 word)"
    using Suc.prems by (intro unat_add_lem [THEN iffD1]) simp
  then have "0 < n + 1" and "unat (n + 1) + k < 2 ^ 64"
    using Suc.prems by (simp_all add: word_less_nat_alt)
  with Suc.IH [of "n + 1"] word_greater_zero_iff [of "-1 :: 64 word"] show ?case
    by (simp add: Let_def case_prod_unfold)
qed simp

theorem failed_read_leaves_buffer:
  assumes "n \<noteq> -1"
  shows "(\<exists>calls out. read_bytes n (ReadFailed e # r # rs) = ((0, n) # (-1, n + 1) # calls, out)) \<and>
         (unat n + k < 2 ^ 64 \<longrightarrow> snd (read_bytes n (replicate k (ReadFailed e))) = None)"
proof -
  have "0 < n + 1" using assms by (metis add_eq_0_iff2 word_neq_0_conv)
  then show ?thesis
    using word_greater_zero_iff [of "-1 :: 64 word"]
    by (auto simp: read_bytes_def Let_def case_prod_unfold intro: read_loop_keeps_failing)
qed

theorem failed_read_leaves_buffer_witness:
  "\<exists>calls out. read_bytes 16 [ReadFailed 4, ReadBytes [1]] = ((0, 16) # (-1, 17) # calls, out)"
  using failed_read_leaves_buffer [of 16 4 "ReadBytes [1]" "[]"] by auto

end
