(* ===== verification/Session_Worker_Job.thy ===== *)
theory Session_Worker_Job
  imports Gdm_Common
begin

text \<open>
  \<^verbatim>\<open>daemon/gdm-session-worker-job.c\<close>: the process of a session worker, its arguments and
  environment, its end, and the two ways to stop it.
\<close>

section \<open>Wait statuses\<close>

text \<open>The macros of \<^verbatim>\<open>sys/wait.h\<close> on a wait status.\<close>

definition WIFEXITED :: "nat \<Rightarrow> bool" where
  "WIFEXITED status = (status mod 128 = 0)"

definition WEXITSTATUS :: "nat \<Rightarrow> nat" where
  "WEXITSTATUS status = status div 256 mod 256"

definition WIFSIGNALED :: "nat \<Rightarrow> bool" where
  "WIFSIGNALED status = (status mod 128 \<noteq> 0 \<and> status mod 128 \<noteq> 127)"

definition WTERMSIG :: "nat \<Rightarrow> nat" where
  "WTERMSIG status = status mod 128"

section \<open>The job\<close>

text \<open>\<open>job_child_watch_id\<close> is the source of the child watch, 0 for none.\<close>

record job =
  job_command :: string
  job_pid :: int
  job_for_reauth :: bool
  job_child_watch_id :: nat
  job_server_address :: cstr
  job_environment :: "string list option"

datatype job_signal = EXITED nat | DIED nat

definition gdm_session_worker_job_new :: "string \<Rightarrow> job" where
  "gdm_session_worker_job_new LIBEXECDIR =
     \<lparr>job_command = LIBEXECDIR @ ''/gdm-session-worker'', job_pid = -1, job_for_reauth = False,
      job_child_watch_id = 0, job_server_address = None, job_environment = None\<rparr>"

definition gdm_session_worker_job_set_server_address :: "cstr \<Rightarrow> job \<Rightarrow> job" where
  "gdm_session_worker_job_set_server_address address j = j\<lparr>job_server_address := address\<rparr>"

definition gdm_session_worker_job_set_for_reauth :: "bool \<Rightarrow> job \<Rightarrow> job" where
  "gdm_session_worker_job_set_for_reauth for_reauth j = j\<lparr>job_for_reauth := for_reauth\<rparr>"

definition gdm_session_worker_job_set_environment :: "string list \<Rightarrow> job \<Rightarrow> job" where
  "gdm_session_worker_job_set_environment environment j = j\<lparr>job_environment := Some environment\<rparr>"

section \<open>Arguments and environment\<close>

text \<open>The arguments: the program, the name of the process, the rest of the command line.\<close>

definition get_job_arguments ::
  "(string \<Rightarrow> string list option) \<Rightarrow> job \<Rightarrow> string \<Rightarrow> string list option" where
  "get_job_arguments shell_parse_argv j name =
     (case shell_parse_argv (job_command j) of
        None \<Rightarrow> None
      | Some [] \<Rightarrow> None
      | Some (arg0 # args) \<Rightarrow> Some (arg0 # name # args))"

text \<open>\<^verbatim>\<open>g_strsplit (s, "=", 2)\<close>, when it has two parts.\<close>

definition split_assignment :: "string \<Rightarrow> (string \<times> string) option" where
  "split_assignment s =
     (case dropWhile (\<lambda>c. c \<noteq> CHR ''='') s of
        [] \<Rightarrow> None
      | _ # value \<Rightarrow> Some (takeWhile (\<lambda>c. c \<noteq> CHR ''='') s, value))"

definition copy_environment_to_hash :: "string list \<Rightarrow> job \<Rightarrow> (string, cstr) ghash" where
  "copy_environment_to_hash process_environment j =
     fold (\<lambda>s h. case split_assignment s of None \<Rightarrow> h | Some (k, v) \<Rightarrow> ght_insert k (Some v) h)
       (case job_environment j of Some e \<Rightarrow> e | None \<Rightarrow> process_environment) []"

definition listify_hash :: "string \<times> cstr \<Rightarrow> string" where
  "listify_hash kv = (let (key, value) = kv in key @ ''='' @ (case value of None \<Rightarrow> [] | Some v \<Rightarrow> v))"

definition job_hash :: "string list \<Rightarrow> job \<Rightarrow> (string, cstr) ghash" where
  "job_hash process_environment j =
     (let h = ght_insert ''GDM_SESSION_DBUS_ADDRESS'' (job_server_address j)
                (copy_environment_to_hash process_environment j)
      in if job_for_reauth j then ght_insert ''GDM_SESSION_FOR_REAUTH'' (Some ''1'') h else h)"

definition get_job_environment :: "string list \<Rightarrow> job \<Rightarrow> string list" where
  "get_job_environment process_environment j = map listify_hash (job_hash process_environment j)"

section \<open>Start and end of the process\<close>

text \<open>
  \<open>spawn\<close> is the result of \<^verbatim>\<open>g_spawn_async_with_pipes\<close> for arguments and environment;
  \<open>watch_id\<close> is the identifier the new source would get. The watch is added even when
  spawning failed; GLib refuses the negative process number then.
\<close>

definition gdm_session_worker_job_spawn ::
  "(string \<Rightarrow> string list option) \<Rightarrow> string list \<Rightarrow> (string list \<Rightarrow> string list \<Rightarrow> int option) \<Rightarrow> nat \<Rightarrow>
     string \<Rightarrow> job \<Rightarrow> bool \<times> job" where
  "gdm_session_worker_job_spawn shell_parse_argv process_environment spawn watch_id name j =
     (case get_job_arguments shell_parse_argv j name of
        None \<Rightarrow> (False, j)
      | Some args \<Rightarrow>
          (case spawn args (get_job_environment process_environment j) of
             None \<Rightarrow> (False, j\<lparr>job_child_watch_id := (if job_pid j > 0 then watch_id else 0)\<rparr>)
           | Some pid \<Rightarrow> (True, j\<lparr>job_pid := pid, job_child_watch_id := (if pid > 0 then watch_id else 0)\<rparr>)))"

definition gdm_session_worker_job_start ::
  "(string \<Rightarrow> string list option) \<Rightarrow> string list \<Rightarrow> (string list \<Rightarrow> string list \<Rightarrow> int option) \<Rightarrow> nat \<Rightarrow>
     string \<Rightarrow> job \<Rightarrow> bool \<times> job" where
  "gdm_session_worker_job_start = gdm_session_worker_job_spawn"

definition session_worker_job_child_watch :: "nat \<Rightarrow> job \<Rightarrow> job \<times> job_signal option" where
  "session_worker_job_child_watch status j =
     (j\<lparr>job_pid := -1\<rparr>,
      if WIFEXITED status then Some (EXITED (WEXITSTATUS status))
      else if WIFSIGNALED status then Some (DIED (WTERMSIG status))
      else None)"

text \<open>What stopping does outside the job.\<close>

datatype job_effect = Sigterm int | RemoveWatch nat | WaitFor int

definition gdm_session_worker_job_stop :: "job \<Rightarrow> job_effect list" where
  "gdm_session_worker_job_stop j = (if job_pid j \<le> 1 then [] else [Sigterm (job_pid j)])"

definition handle_session_worker_job_death :: "job \<Rightarrow> job \<times> job_effect list" where
  "handle_session_worker_job_death j = (j\<lparr>job_pid := -1\<rparr>, [WaitFor (job_pid j)])"

definition gdm_session_worker_job_stop_now :: "job \<Rightarrow> job \<times> job_effect list" where
  "gdm_session_worker_job_stop_now j =
     (if job_pid j \<le> 1 then (j, [])
      else
        let watch = (if job_child_watch_id j = 0 then [] else [RemoveWatch (job_child_watch_id j)]);
            j1 = j\<lparr>job_child_watch_id := 0\<rparr>;
            (j2, waited) = handle_session_worker_job_death j1
        in (j2, watch @ gdm_session_worker_job_stop j1 @ waited))"

definition gdm_session_worker_job_finalize :: "job \<Rightarrow> job_effect list" where
  "gdm_session_worker_job_finalize j = gdm_session_worker_job_stop j"

section \<open>Properties\<close>

definition insert_assignment :: "string \<Rightarrow> (string, cstr) ghash \<Rightarrow> (string, cstr) ghash" where
  "insert_assignment s h =
     (case split_assignment s of None \<Rightarrow> h | Some (k, v) \<Rightarrow> ght_insert k (Some v) h)"

lemma copy_environment_fold:
  "copy_environment_to_hash e j =
     fold insert_assignment (case job_environment j of Some e \<Rightarrow> e | None \<Rightarrow> e) []"
  by (simp add: copy_environment_to_hash_def insert_assignment_def [abs_def])

definition good_keys :: "(string, cstr) ghash \<Rightarrow> bool" where
  "good_keys h = (ght_wf h \<and> (\<forall>(k, v) \<in> set h. CHR ''='' \<notin> set k))"

lemma good_keys_insert: "good_keys h \<Longrightarrow> CHR ''='' \<notin> set k \<Longrightarrow> good_keys (ght_insert k v h)"
proof -
  assume h: "good_keys h" and k: "CHR ''='' \<notin> set k"
  have "\<forall>(k', v') \<in> set (ght_insert k v h). CHR ''='' \<notin> set k'"
    using h k unfolding good_keys_def ght_insert_def by (induction h) (auto simp: ght_wf_def)
  with h show ?thesis by (simp add: good_keys_def ght.wf_insert)
qed

lemma split_assignment_key: "split_assignment s = Some (k, v) \<Longrightarrow> CHR ''='' \<notin> set k"
  by (auto simp: split_assignment_def split: list.splits dest: set_takeWhileD)

lemma good_keys_assignment: "good_keys h \<Longrightarrow> good_keys (insert_assignment s h)"
  by (auto simp: insert_assignment_def split: option.split intro: good_keys_insert dest: split_assignment_key)

lemma good_keys_fold: "good_keys h \<Longrightarrow> good_keys (fold insert_assignment xs h)"
  by (induction xs arbitrary: h) (auto intro: good_keys_assignment)

lemma good_keys_copy: "good_keys (copy_environment_to_hash e j)"
  unfolding copy_environment_fold by (rule good_keys_fold) (simp add: good_keys_def ght.wf_empty)

lemma good_keys_job: "good_keys (job_hash e j)"
  by (simp add: job_hash_def Let_def good_keys_insert good_keys_copy)

lemma split_listify:
  "CHR ''='' \<notin> set k \<Longrightarrow>
     split_assignment (listify_hash (k, v)) = Some (k, case v of None \<Rightarrow> [] | Some x \<Rightarrow> x)"
proof -
  assume k: "CHR ''='' \<notin> set k"
  then have "dropWhile (\<lambda>c. c \<noteq> CHR ''='') (k @ CHR ''='' # r) = CHR ''='' # r"
    and "takeWhile (\<lambda>c. c \<noteq> CHR ''='') (k @ CHR ''='' # r) = k" for r
    by (induction k) auto
  then show ?thesis by (simp add: split_assignment_def listify_hash_def)
qed

text \<open>The variable that a process finds in its environment: the first assignment to the name.\<close>

definition env_lookup :: "string list \<Rightarrow> string \<Rightarrow> cstr" where
  "env_lookup env k = map_of (List.map_filter split_assignment env) k"

lemma env_lookup_Cons:
  "env_lookup (s # env) k =
     (case split_assignment s of
        None \<Rightarrow> env_lookup env k
      | Some (k', v) \<Rightarrow> if k = k' then Some v else env_lookup env k)"
  by (auto simp: env_lookup_def map_filter_simps split: option.split)

lemma env_lookup_append:
  "env_lookup (xs @ ys) k = (case env_lookup xs k of None \<Rightarrow> env_lookup ys k | Some v \<Rightarrow> Some v)"
  by (induction xs) (auto simp: env_lookup_Cons env_lookup_def map_filter_simps split: option.splits)

lemma env_lookup_listify:
  "good_keys h \<Longrightarrow>
     env_lookup (map listify_hash h) k = map_option (\<lambda>v. case v of None \<Rightarrow> [] | Some x \<Rightarrow> x) (ght_lookup h k)"
proof (induction h)
  case (Cons kv h)
  obtain k' v where kv: "kv = (k', v)" by fastforce
  with Cons have "good_keys h" "CHR ''='' \<notin> set k'" by (auto simp: good_keys_def ght_wf_def)
  with Cons kv show ?case by (simp add: env_lookup_Cons split_listify ght_lookup_def)
qed (simp add: env_lookup_def map_filter_simps ght_lookup_def)

lemma lookup_fold_assignments:
  "good_keys h \<Longrightarrow>
     ght_lookup (fold insert_assignment xs h) k =
       (case env_lookup (rev xs) k of None \<Rightarrow> ght_lookup h k | Some v \<Rightarrow> Some (Some v))"
proof (induction xs arbitrary: h)
  case (Cons s xs)
  have wf: "ght_wf h" using Cons.prems by (simp add: good_keys_def)
  have s: "ght_lookup (insert_assignment s h) k =
      (case env_lookup [s] k of None \<Rightarrow> ght_lookup h k | Some v \<Rightarrow> Some (Some v))"
    by (auto simp: insert_assignment_def env_lookup_Cons env_lookup_def map_filter_simps
        ght.lookup_insert [OF wf] split: option.split)
  show ?case
    using Cons.IH [OF good_keys_assignment [OF Cons.prems]] s
    by (auto simp: env_lookup_append split: option.split)
qed (simp add: env_lookup_def map_filter_simps)

lemma lookup_copy:
  "ght_lookup (copy_environment_to_hash e j) k =
     map_option Some (env_lookup (rev (case job_environment j of Some e \<Rightarrow> e | None \<Rightarrow> e)) k)"
  unfolding copy_environment_fold
  by (subst lookup_fold_assignments)
     (auto simp: good_keys_def ght.wf_empty ght.lookup_empty split: option.split)

text \<open>
  A worker process finds what the daemon tells it. Whatever the inherited or configured
  environment holds, the environment of the worker has the address of the session's server and
  no other one, marks a reauthentication exactly when the job is for one (or the given
  environment already had the mark), and has every other variable as given, the last
  assignment to a name winning.
\<close>

theorem job_environment_correct:
  "env_lookup (get_job_environment e j) ''GDM_SESSION_DBUS_ADDRESS'' =
     Some (case job_server_address j of None \<Rightarrow> [] | Some a \<Rightarrow> a) \<and>
   (job_for_reauth j \<longrightarrow> env_lookup (get_job_environment e j) ''GDM_SESSION_FOR_REAUTH'' = Some ''1'') \<and>
   (k \<noteq> ''GDM_SESSION_DBUS_ADDRESS'' \<and> (k \<noteq> ''GDM_SESSION_FOR_REAUTH'' \<or> \<not> job_for_reauth j) \<longrightarrow>
    env_lookup (get_job_environment e j) k =
      env_lookup (rev (case job_environment j of Some e \<Rightarrow> e | None \<Rightarrow> e)) k)"
proof -
  let ?c = "copy_environment_to_hash e j"
  have wf: "ght_wf ?c" using good_keys_copy [of e j] by (simp add: good_keys_def)
  have "ght_lookup (job_hash e j) =
      (if job_for_reauth j
       then (ght_lookup ?c)(''GDM_SESSION_DBUS_ADDRESS'' \<mapsto> job_server_address j,
              ''GDM_SESSION_FOR_REAUTH'' \<mapsto> Some ''1'')
       else (ght_lookup ?c)(''GDM_SESSION_DBUS_ADDRESS'' \<mapsto> job_server_address j))"
    by (simp add: job_hash_def Let_def ght.lookup_insert ght.wf_insert wf)
  then show ?thesis
    unfolding get_job_environment_def env_lookup_listify [OF good_keys_job]
    by (auto simp: lookup_copy option.map_comp comp_def option.map_ident)
qed

theorem job_environment_correct_witness:
  "let j = (gdm_session_worker_job_new ''/usr/libexec'')
             \<lparr>job_for_reauth := True, job_server_address := Some ''unix:path=/a'',
              job_environment := Some [''A=1'', ''A=2'', ''GDM_SESSION_DBUS_ADDRESS=x'']\<rparr>;
       env = get_job_environment [''B=3''] j
   in job_for_reauth j \<and> env_lookup env ''GDM_SESSION_FOR_REAUTH'' = Some ''1'' \<and>
      env_lookup env ''GDM_SESSION_DBUS_ADDRESS'' = Some ''unix:path=/a'' \<and>
      env_lookup env ''A'' = Some ''2'' \<and> env_lookup env ''B'' = None"
proof -
  define j where "j = (gdm_session_worker_job_new ''/usr/libexec'')
      \<lparr>job_for_reauth := True, job_server_address := Some ''unix:path=/a'',
       job_environment := Some [''A=1'', ''A=2'', ''GDM_SESSION_DBUS_ADDRESS=x'']\<rparr>"
  have j: "job_for_reauth j" "job_server_address j = Some ''unix:path=/a''"
    "job_environment j = Some [''A=1'', ''A=2'', ''GDM_SESSION_DBUS_ADDRESS=x'']"
    by (simp_all add: j_def)
  have "env_lookup (rev [''A=1'', ''A=2'', ''GDM_SESSION_DBUS_ADDRESS=x'']) ''A'' = Some ''2''"
    "env_lookup (rev [''A=1'', ''A=2'', ''GDM_SESSION_DBUS_ADDRESS=x'']) ''B'' = None"
    by code_simp+
  then show ?thesis
    using job_environment_correct [of "[''B=3'']" j "''A''"]
      job_environment_correct [of "[''B=3'']" j "''B''"] j
    unfolding Let_def j_def [symmetric] by simp
qed

text \<open>
  Stopping a worker. \<^verbatim>\<open>stop\<close> only asks the process to end, so that its end is still
  reported by the watch; \<^verbatim>\<open>stop_now\<close> first removes the watch, then asks, then waits, so
  that the end of the process is reported nowhere else; both leave a job without a process
  alone, and neither ever signals process 1, a process group or every process.
\<close>

theorem stopping_a_worker:
  "(job_pid j \<le> 1 \<longrightarrow> gdm_session_worker_job_stop j = [] \<and> gdm_session_worker_job_stop_now j = (j, [])) \<and>
   (1 < job_pid j \<longrightarrow> gdm_session_worker_job_stop j = [Sigterm (job_pid j)] \<and>
      (\<exists>j'. gdm_session_worker_job_stop_now j =
         (j', (if job_child_watch_id j = 0 then [] else [RemoveWatch (job_child_watch_id j)]) @
              [Sigterm (job_pid j), WaitFor (job_pid j)]) \<and>
         job_pid j' = -1 \<and> job_child_watch_id j' = 0)) \<and>
   (\<forall>p. Sigterm p \<in> set (gdm_session_worker_job_stop j @ snd (gdm_session_worker_job_stop_now j) @
        gdm_session_worker_job_finalize j) \<longrightarrow> 1 < p)"
  by (auto simp: gdm_session_worker_job_stop_def gdm_session_worker_job_stop_now_def Let_def
      handle_session_worker_job_death_def gdm_session_worker_job_finalize_def)

theorem stopping_a_worker_witness:
  "let j = (gdm_session_worker_job_new ''/x'')\<lparr>job_pid := 42, job_child_watch_id := 7\<rparr>
   in gdm_session_worker_job_stop j = [Sigterm 42] \<and>
      snd (gdm_session_worker_job_stop_now j) = [RemoveWatch 7, Sigterm 42, WaitFor 42]"
  using stopping_a_worker [of "(gdm_session_worker_job_new ''/x'')\<lparr>job_pid := 42, job_child_watch_id := 7\<rparr>"]
  by auto

end
