(* ===== verification/Session_Files.thy ===== *)
theory Session_Files
  imports Gdm_Common
begin

text \<open>
  The files that \<^verbatim>\<open>daemon/gdm-session.c\<close> reads: the desktop files that describe sessions,
  the choice of the session to fall back to, and the system's language settings.
\<close>

section \<open>Desktop files\<close>

text \<open>
  The keys of a desktop file that the code asks for; \<open>None\<close> is a missing or malformed key.
\<close>

record keyfile =
  kf_hidden :: "bool option"
  kf_can_run_headless :: "bool option"
  kf_try_exec :: cstr
  kf_exec :: cstr
  kf_desktop_names :: "string list option"
  kf_registers :: "bool option"

text \<open>
  The system. \<open>open_in_dir\<close> is what GLib finds for a file name in one directory: its path and
  its contents, \<open>None\<close> for a file that is no key file. \<open>dir_names\<close> lists a directory.
\<close>

record filesystem =
  DATADIR :: string
  DMCONFDIR :: string
  system_data_dirs :: "string list"
  open_in_dir :: "string \<Rightarrow> string \<Rightarrow> (string \<times> keyfile option) option"
  dir_names :: "string \<Rightarrow> string list option"
  program_in_path :: "string \<Rightarrow> bool"
  fallback_setting :: cstr

definition supports_session_type :: "string list \<Rightarrow> cstr \<Rightarrow> bool" where
  "supports_session_type types session_type =
     (case session_type of None \<Rightarrow> True | Some t \<Rightarrow> t \<in> set types)"

text \<open>\<^verbatim>\<open>g_build_filename\<close> for a directory and a name without slashes at the seam.\<close>

definition join_path :: "string \<Rightarrow> string \<Rightarrow> string" where
  "join_path dir name = rev (dropWhile (\<lambda>c. c = CHR ''/'') (rev dir)) @ ''/'' @ name"

definition dirs_for_type :: "filesystem \<Rightarrow> cstr \<Rightarrow> string \<Rightarrow> string list" where
  "dirs_for_type F type supported_type =
     (if supported_type = ''x11'' \<and> (type = None \<or> type = Some supported_type)
      then map (\<lambda>d. join_path d ''xsessions'') (system_data_dirs F) @
           [''/etc/X11/sessions/'', DMCONFDIR F @ ''/Sessions/'', DATADIR F @ ''/gdm/BuiltInSessions/'',
            DATADIR F @ ''/xsessions/'']
      else []) @
     (if supported_type = ''wayland'' \<and> (type = None \<or> type = Some supported_type)
      then [DATADIR F @ ''/gdm/greeter/wayland-sessions/''] @
           map (\<lambda>d. join_path d ''wayland-sessions'') (system_data_dirs F) @
           [DATADIR F @ ''/wayland-sessions/'']
      else [])"

definition get_system_session_dirs :: "filesystem \<Rightarrow> string list \<Rightarrow> cstr \<Rightarrow> string list" where
  "get_system_session_dirs F types type = concat (map (dirs_for_type F type) types)"

text \<open>
  \<^verbatim>\<open>g_key_file_load_from_dirs\<close>: the first file found decides; if it does not parse, the
  search has failed.
\<close>

fun load_from_dirs :: "filesystem \<Rightarrow> string \<Rightarrow> string list \<Rightarrow> (string \<times> keyfile) option" where
  "load_from_dirs F file [] = None"
| "load_from_dirs F file (d # ds) =
     (case open_in_dir F d file of
        None \<Rightarrow> load_from_dirs F file ds
      | Some (path, None) \<Rightarrow> None
      | Some (path, Some k) \<Rightarrow> Some (path, k))"

definition load_key_file_for_file ::
  "filesystem \<Rightarrow> string list \<Rightarrow> string \<Rightarrow> cstr \<Rightarrow> (string \<times> keyfile) option" where
  "load_key_file_for_file F types file type = load_from_dirs F file (get_system_session_dirs F types type)"

text \<open>The command of a session file; \<open>headless\<close> is \<^verbatim>\<open>is_wayland_headless\<close>.\<close>

definition get_session_command_for_file ::
  "filesystem \<Rightarrow> string list \<Rightarrow> bool \<Rightarrow> string \<Rightarrow> cstr \<Rightarrow> cstr" where
  "get_session_command_for_file F types headless file type =
     (if \<not> supports_session_type types type then None
      else
        case load_key_file_for_file F types file type of
          None \<Rightarrow> None
        | Some (path, k) \<Rightarrow>
            if kf_hidden k = Some True then None
            else if headless \<and> kf_can_run_headless k \<noteq> Some True then None
            else if (case kf_try_exec k of None \<Rightarrow> False | Some prog \<Rightarrow> \<not> program_in_path F prog) then None
            else kf_exec k)"

definition desktop_file :: "string \<Rightarrow> string" where
  "desktop_file name = name @ ''.desktop''"

definition get_session_command_for_name ::
  "filesystem \<Rightarrow> string list \<Rightarrow> bool \<Rightarrow> string \<Rightarrow> cstr \<Rightarrow> cstr" where
  "get_session_command_for_name F types headless name type =
     get_session_command_for_file F types headless (desktop_file name) type"

section \<open>The fallback session\<close>

definition strip_desktop :: "string \<Rightarrow> string" where
  "strip_desktop file = take (length file - length ''.desktop'') file"

text \<open>The sessions of one directory, inserted in order into the sorted sequence.\<close>

definition add_dir_sessions ::
  "filesystem \<Rightarrow> string list \<Rightarrow> bool \<Rightarrow> string \<Rightarrow> string list \<Rightarrow> string list" where
  "add_dir_sessions F types headless dir sessions =
     (case dir_names F dir of
        None \<Rightarrow> sessions
      | Some names \<Rightarrow>
          fold (\<lambda>file seq.
            if \<not> g_str_has_suffix file ''.desktop'' then seq
            else if get_session_command_for_file F types headless file None \<noteq> None
            then insort (strip_desktop file) seq else seq) names sessions)"

definition all_sessions :: "filesystem \<Rightarrow> string list \<Rightarrow> bool \<Rightarrow> string list" where
  "all_sessions F types headless =
     fold (add_dir_sessions F types headless) (get_system_session_dirs F types None) []"

definition configured_fallback :: "filesystem \<Rightarrow> string" where
  "configured_fallback F =
     (case fallback_setting F of None \<Rightarrow> ''gnome'' | Some s \<Rightarrow> if s = [] then ''gnome'' else s)"

text \<open>
  \<open>cached\<close> is the field \<^verbatim>\<open>fallback_session_name\<close>, which the result replaces. Without
  any session the daemon ends (\<^verbatim>\<open>g_error\<close>).
\<close>

definition get_fallback_session_name ::
  "filesystem \<Rightarrow> string list \<Rightarrow> bool \<Rightarrow> cstr \<Rightarrow> string run" where
  "get_fallback_session_name F types headless cached =
     (if (case cached of None \<Rightarrow> False | Some n \<Rightarrow> get_session_command_for_name F types headless n None \<noteq> None)
      then Ret (the cached)
      else if get_session_command_for_name F types headless (configured_fallback F) None \<noteq> None
      then Ret (configured_fallback F)
      else
        case all_sessions F types headless of
          [] \<Rightarrow> Stop ''no session desktop files installed''
        | name # _ \<Rightarrow> Ret name)"

section \<open>The language of the system\<close>

definition lang_keys :: "string list" where
  "lang_keys =
     [''LANG'', ''LANGUAGE'', ''LC_CTYPE'', ''LC_NUMERIC'', ''LC_TIME'', ''LC_COLLATE'', ''LC_MONETARY'',
      ''LC_MESSAGES'', ''LC_PAPER'', ''LC_NAME'', ''LC_ADDRESS'', ''LC_TELEPHONE'', ''LC_MEASUREMENT'',
      ''LC_IDENTIFICATION'', ''LC_ALL'']"

text \<open>
  The regular expression
  \<^verbatim>\<open>KEY=(")?(?P<value>[^"]*)?(")?\<close>, matched at one place of the line: the first key that an
  equals sign follows, an optional quote, and everything up to the next quote.
\<close>

definition match_here :: "string \<Rightarrow> (string \<times> string) option" where
  "match_here s =
     (case find (\<lambda>k. take (length k + 1) s = k @ ''='') lang_keys of
        None \<Rightarrow> None
      | Some k \<Rightarrow>
          let r = drop (length k + 1) s;
              r1 = (if r \<noteq> [] \<and> hd r = CHR 34 then tl r else r)
          in Some (k, takeWhile (\<lambda>c. c \<noteq> CHR 34) r1))"

text \<open>The leftmost match in a line.\<close>

fun match_line :: "string \<Rightarrow> (string \<times> string) option" where
  "match_line [] = None"
| "match_line (c # cs) =
     (case match_here (c # cs) of Some m \<Rightarrow> Some m | None \<Rightarrow> match_line cs)"

definition lang_line :: "string \<Rightarrow> (string \<times> string) option" where
  "lang_line line =
     (if line \<noteq> [] \<and> hd line = CHR ''#'' then None
      else case match_line line of Some (k, v) \<Rightarrow> if v = [] then None else Some (k, v) | None \<Rightarrow> None)"

text \<open>
  The loop over the contents of the file: a line is looked at when the newline behind it is
  reached. The result is the list of the variables that are set.
\<close>

fun lang_loop :: "string \<Rightarrow> string \<Rightarrow> (string \<times> string) list" where
  "lang_loop line [] = []"
| "lang_loop line (ch # p) =
     (if ch \<noteq> CHR 0x0A then lang_loop (line @ [ch]) p
      else (case lang_line line of None \<Rightarrow> [] | Some kv \<Rightarrow> [kv]) @ lang_loop [] p)"

text \<open>\<open>contents\<close> is \<open>None\<close> for a file that cannot be read or is no valid text.\<close>

definition load_lang_config_file :: "string option \<Rightarrow> (string \<times> string) list" where
  "load_lang_config_file contents =
     (case contents of None \<Rightarrow> [] | Some s \<Rightarrow> lang_loop [] (takeWhile (\<lambda>c. c \<noteq> CHR 0x00) s))"

section \<open>Properties\<close>

text \<open>The names of the sessions that the search directories hold and that can be started.\<close>

definition startable_names :: "filesystem \<Rightarrow> string list \<Rightarrow> bool \<Rightarrow> string set" where
  "startable_names F types headless =
     {strip_desktop file | d names file. d \<in> set (get_system_session_dirs F types None) \<and>
        dir_names F d = Some names \<and> file \<in> set names \<and> g_str_has_suffix file ''.desktop'' \<and>
        get_session_command_for_file F types headless file None \<noteq> None}"

lemma fold_insort:
  "sorted s \<Longrightarrow>
   sorted (fold (\<lambda>x seq. if P x then seq else if Q x then insort (f x) seq else seq) xs s) \<and>
   set (fold (\<lambda>x seq. if P x then seq else if Q x then insort (f x) seq else seq) xs s) =
     set s \<union> {f x | x. x \<in> set xs \<and> \<not> P x \<and> Q x}"
proof (induction xs arbitrary: s)
  case (Cons x xs)
  let ?s = "if P x then s else if Q x then insort (f x) s else s"
  have "sorted ?s" using Cons.prems by (simp add: sorted_insort)
  from Cons.IH [OF this] show ?case by (auto simp: set_insort_key)
qed simp

lemma all_sessions_sorted:
  "sorted (all_sessions F types headless) \<and>
   set (all_sessions F types headless) = startable_names F types headless"
proof -
  have "sorted (fold (add_dir_sessions F types headless) ds s) \<and>
      set (fold (add_dir_sessions F types headless) ds s) =
        set s \<union> {strip_desktop file | d names file. d \<in> set ds \<and> dir_names F d = Some names \<and>
           file \<in> set names \<and> g_str_has_suffix file ''.desktop'' \<and>
           get_session_command_for_file F types headless file None \<noteq> None}"
    if "sorted s" for ds s
    using that
  proof (induction ds arbitrary: s)
    case (Cons d ds)
    have d: "sorted (add_dir_sessions F types headless d s) \<and>
        set (add_dir_sessions F types headless d s) =
          set s \<union> {strip_desktop file | names file. dir_names F d = Some names \<and>
             file \<in> set names \<and> g_str_has_suffix file ''.desktop'' \<and>
             get_session_command_for_file F types headless file None \<noteq> None}"
    proof (cases "dir_names F d")
      case (Some names)
      with fold_insort [OF Cons.prems, of "\<lambda>file. \<not> g_str_has_suffix file ''.desktop''"
          "\<lambda>file. get_session_command_for_file F types headless file None \<noteq> None" strip_desktop names]
      show ?thesis by (simp add: add_dir_sessions_def)
    qed (simp add: add_dir_sessions_def Cons.prems)
    with Cons.IH [of "add_dir_sessions F types headless d s"] show ?case by auto
  qed simp
  from this [of "[]"] show ?thesis by (simp add: all_sessions_def startable_names_def)
qed

lemma strip_desktop_file: "g_str_has_suffix file ''.desktop'' \<Longrightarrow> desktop_file (strip_desktop file) = file"
  by (auto simp: g_str_has_suffix_iff desktop_file_def strip_desktop_def)

text \<open>
  C26. The session to fall back to exists. When a name is returned, the session of this
  name can be started; it is the cached one or the configured one where these can be started,
  and otherwise the alphabetically first of all sessions that can. The daemon gives up
  exactly when there is no session at all that it could start.
\<close>

theorem fallback_session_correct:
  "case get_fallback_session_name F types headless cached of
     Ret name \<Rightarrow>
       get_session_command_for_name F types headless name None \<noteq> None \<and>
       (name = configured_fallback F \<or> cached = Some name \<or>
        name \<in> startable_names F types headless \<and> (\<forall>n \<in> startable_names F types headless. name \<le> n))
   | Stop m \<Rightarrow>
       startable_names F types headless = {} \<and>
       get_session_command_for_name F types headless (configured_fallback F) None = None \<and>
       (\<forall>n. cached = Some n \<longrightarrow> get_session_command_for_name F types headless n None = None)
   | OutOfFuel \<Rightarrow> False"
proof -
  have startable: "get_session_command_for_name F types headless n None \<noteq> None"
    if "n \<in> startable_names F types headless" for n
    using that unfolding startable_names_def get_session_command_for_name_def
    by (auto simp: strip_desktop_file)
  show ?thesis
  proof (cases "all_sessions F types headless")
    case Nil
    then have "startable_names F types headless = {}"
      using all_sessions_sorted [of F types headless] by auto
    then show ?thesis
      using Nil by (auto simp: get_fallback_session_name_def split: option.splits)
  next
    case (Cons n ns)
    then have "n \<in> startable_names F types headless" "\<forall>m \<in> startable_names F types headless. n \<le> m"
      using all_sessions_sorted [of F types headless] by auto
    then show ?thesis
      using Cons startable by (auto simp: get_fallback_session_name_def split: option.splits)
  qed
qed

definition demo_files :: filesystem where
  "demo_files =
     \<lparr>DATADIR = ''/usr/share'', DMCONFDIR = ''/etc/dm'', system_data_dirs = [''/usr/share/''],
      open_in_dir = (\<lambda>d f. if d = ''/usr/share/wayland-sessions/''
        then Some (d @ f, Some \<lparr>kf_hidden = None, kf_can_run_headless = None, kf_try_exec = None,
               kf_exec = Some f, kf_desktop_names = None, kf_registers = None\<rparr>) else None),
      dir_names = (\<lambda>d. if d = ''/usr/share/wayland-sessions/''
        then Some [''sway.desktop'', ''README'', ''plasma.desktop''] else None),
      program_in_path = (\<lambda>p. True), fallback_setting = None\<rparr>"

definition demo_files_no_gnome :: filesystem where
  "demo_files_no_gnome = demo_files\<lparr>open_in_dir := \<lambda>d f.
     if f = ''gnome.desktop'' then None else open_in_dir demo_files d f\<rparr>"

theorem fallback_session_correct_witness:
  "get_fallback_session_name demo_files_no_gnome [''wayland''] False None = Ret ''plasma'' \<and>
   ''plasma'' \<in> startable_names demo_files_no_gnome [''wayland''] False"
proof -
  have r: "get_fallback_session_name demo_files_no_gnome [''wayland''] False None = Ret ''plasma''"
    by code_simp
  have c: "configured_fallback demo_files_no_gnome \<noteq> ''plasma''" by code_simp
  from fallback_session_correct [of demo_files_no_gnome "[''wayland'']" False None] r c
  show ?thesis by auto
qed

lemma lang_loop_no_newline: "CHR 0x0A \<notin> set l \<Longrightarrow> lang_loop acc l = []"
  by (induction l arbitrary: acc) auto

lemma lang_loop_line:
  "CHR 0x0A \<notin> set l \<Longrightarrow>
     lang_loop acc (l @ [CHR 0x0A]) = (case lang_line (acc @ l) of None \<Rightarrow> [] | Some kv \<Rightarrow> [kv])"
  by (induction l arbitrary: acc) auto

lemma lang_loop_append:
  "lang_loop acc (s @ CHR 0x0A # r) = lang_loop acc (s @ [CHR 0x0A]) @ lang_loop [] r"
  by (induction s arbitrary: acc) auto

text \<open>
  The last line of the language settings counts only if a newline ends it: a last line
  without one changes nothing, whatever it says, while with the newline it is the last
  assignment.
\<close>

theorem lang_config_last_line:
  assumes "CHR 0x0A \<notin> set l" "CHR 0x00 \<notin> set l" "CHR 0x00 \<notin> set s"
  shows "load_lang_config_file (Some (s @ CHR 0x0A # l)) = load_lang_config_file (Some (s @ [CHR 0x0A])) \<and>
         load_lang_config_file (Some (s @ CHR 0x0A # l @ [CHR 0x0A])) =
           load_lang_config_file (Some (s @ [CHR 0x0A])) @ (case lang_line l of None \<Rightarrow> [] | Some kv \<Rightarrow> [kv])"
proof -
  have nul: "takeWhile (\<lambda>c. c \<noteq> CHR 0x00) x = x" if "CHR 0x00 \<notin> set x" for x
    using that by (subst takeWhile_eq_all_conv) blast
  have whole: "takeWhile (\<lambda>c. c \<noteq> CHR 0x00) (s @ CHR 0x0A # l) = s @ CHR 0x0A # l"
    "takeWhile (\<lambda>c. c \<noteq> CHR 0x00) (s @ [CHR 0x0A]) = s @ [CHR 0x0A]"
    "takeWhile (\<lambda>c. c \<noteq> CHR 0x00) (s @ CHR 0x0A # l @ [CHR 0x0A]) = s @ CHR 0x0A # l @ [CHR 0x0A]"
    using assms by (auto intro!: nul)
  show ?thesis
    unfolding load_lang_config_file_def option.case whole
    using lang_loop_append [of "[]" s l] lang_loop_append [of "[]" s "l @ [CHR 0x0A]"]
      lang_loop_no_newline [OF assms(1), of "[]"] lang_loop_line [OF assms(1), of "[]"]
    by simp
qed

theorem lang_config_last_line_witness:
  "load_lang_config_file (Some (''LC_TIME=C'' @ CHR 0x0A # ''LANG=de_DE'')) = [(''LC_TIME'', ''C'')] \<and>
   load_lang_config_file (Some (''LC_TIME=C'' @ CHR 0x0A # ''LANG=de_DE'' @ [CHR 0x0A])) =
     [(''LC_TIME'', ''C''), (''LANG'', ''de_DE'')]"
proof -
  have "CHR 0x0A \<notin> set ''LANG=de_DE''" "CHR 0x00 \<notin> set ''LANG=de_DE''" "CHR 0x00 \<notin> set ''LC_TIME=C''"
    by code_simp+
  moreover have "load_lang_config_file (Some (''LC_TIME=C'' @ [CHR 0x0A])) = [(''LC_TIME'', ''C'')]"
    "lang_line ''LANG=de_DE'' = Some (''LANG'', ''de_DE'')"
    by code_simp+
  ultimately show ?thesis
    using lang_config_last_line [of "''LANG=de_DE''" "''LC_TIME=C''"] by simp
qed

end
