(* ===== verification/Gdm_Session.thy ===== *)
theory Gdm_Session
  imports Session_Worker Session_Worker_Job Session_Files
begin

text \<open>
  \<^verbatim>\<open>daemon/gdm-session.c\<close>: the daemon's side of a session. A session runs a conversation
  for every PAM service in use, each with a worker process of its own. It drives the workers
  through authentication and opening with asynchronous method calls, passes the questions of
  PAM to the greeter and the answers back, and follows the session program to its end.

  Conversations are objects with an address. The table of conversations, the calls in flight
  and the child watches hold addresses; using one after the object was freed is
  \<open>Stop freed_conversation\<close>. The owner of a session (the manager, or a launch environment)
  listens to its signals and may call back into the session from the handler; the listener is
  the parameter \<open>R\<close>: for every signal the calls that its handler makes.
\<close>

section \<open>Data\<close>

datatype worker_call =
    CallInitialize "(string \<times> variant) list"
  | CallAuthenticate
  | CallAuthorize
  | CallEstablishCredentials
  | CallOpen
  | CallStartProgram string
  | CallStartReauthentication int u32
  | CallSetEnvironmentVariable string string
  | CallSetSessionName string
  | CallSetSessionDisplayMode string

datatype verification_mode = LOGIN | REAUTHENTICATE

text \<open>Errors that a call to a worker ends with: those of the worker and those of D-Bus.\<close>

datatype call_error = WorkerError worker_error | DBusError string

datatype call_result = CallReturned wreply | CallFailed call_error | CallClosed

text \<open>
  A conversation. \<open>worker_proxy\<close> and \<open>worker_manager_interface\<close> say whether these
  objects exist; \<open>worker_cancellable\<close> is the identity of the cancellable.
\<close>

record conversation =
  job :: "job option"
  worker_pid :: int
  service_name :: string
  starting_invocation :: "nat option"
  starting_username :: cstr
  pending_invocation :: "nat option"
  worker_manager_interface :: bool
  worker_proxy :: bool
  worker_cancellable :: "nat option"
  session_id :: cstr
  is_stopping :: bool
  reauth_pid_of_caller :: int

datatype session_signal =
    CONVERSATION_STARTED string
  | CONVERSATION_STOPPED string
  | SETUP_COMPLETE string
  | CANCELLED
  | CLIENT_REJECTED int
  | CLIENT_CONNECTED int
  | CLIENT_DISCONNECTED int
  | CLIENT_READY_FOR_SESSION_TO_START string bool
  | AUTHENTICATION_FAILED string int
  | CREDENTIALS_ESTABLISHED string int
  | VERIFICATION_COMPLETE string
  | SESSION_OPENED string string
  | SESSION_OPENED_FAILED string
  | SESSION_STARTED string int
  | SESSION_START_FAILED string
  | SESSION_EXITED nat
  | SESSION_DIED nat
  | REAUTHENTICATION_STARTED int string
  | REAUTHENTICATED string int
  | STOP_CONFLICTING_SESSION cstr

text \<open>Signals of the interfaces that greeters connect to.\<close>

datatype verifier_signal =
    UvInfoQuery string string
  | UvSecretInfoQuery string string
  | UvInfo string string
  | UvProblem string call_error
  | UvProblemText string string
  | UvServiceUnavailable string call_error
  | UvVerificationFailed string
  | UvVerificationComplete string
  | UvReset
  | UvConversationStarted string
  | UvConversationStopped string
  | UvChoiceQuery string string "(string \<times> string) list"
  | UvCustomJsonRequest string string nat string

datatype greeter_signal =
    DefaultLanguageNameChanged cstr
  | DefaultSessionNameChanged string
  | GreeterSessionOpened string string
  | TimedLoginRequested string int

datatype session_reply =
    Completed
  | AnswerText string
  | TimedLoginDetails bool string int
  | ErrorCancelled
  | ErrorText string
  | ErrorFromWorker call_error
  | NotHandled

datatype session_call =
    SendCall nat worker_call
  | CallSucceeded nat worker_call
  | Answer nat session_reply
  | Verifier verifier_signal
  | Greeter greeter_signal
  | Emit session_signal
  | JobEffect job_effect
  | CloseConnection nat
  | ClosePeer nat
  | SignalSession int
  | SetProcessEnvironment string string
  | Critical string

text \<open>\<^verbatim>\<open>struct _GdmSession\<close>, with the objects that point to conversations.\<close>

record session =
  convs :: "nat \<Rightarrow> conversation option"
  next_conv :: nat
  next_cancellable :: nat
  next_call :: nat
  next_watch :: nat
  inflight :: "(nat \<times> nat \<times> nat \<times> worker_call) list"
  cancelled_ids :: "nat list"
  child_watches :: "(nat \<times> nat) list"
  selected_session :: cstr
  saved_session :: cstr
  saved_session_type :: cstr
  saved_language :: cstr
  selected_user :: cstr
  timed_login_username :: cstr
  timed_login_delay :: int
  conversations :: "(string, nat option) ghash"
  session_conversation :: "nat option"
  conversation_environment :: "string list option"
  user_verifier_interface :: bool
  user_verifier_extensions :: "string list"
  greeter_interface :: bool
  pending_worker_connections :: "(nat \<times> int) list"
  outside_connections :: "nat list"
  session_pid :: int
  session_type :: cstr
  display_hostname :: cstr
  display_device :: cstr
  display_seat_id :: cstr
  display_is_local :: bool
  verification_mode :: verification_mode
  allowed_user :: u32
  fallback_session_name :: cstr
  worker_server :: cstr
  outside_server :: cstr
  environment :: "(string, string) ghash"
  supported_session_types :: "string list"
  is_program_session :: bool
  display_is_initial :: bool
  is_opened :: bool
  session_opened :: cstr
  log :: "session_call list"

record senv =
  files :: filesystem
  LIBEXECDIR :: string
  parse_command :: "string \<Rightarrow> string list option"
  spawn_worker :: "session_call list \<Rightarrow> string list \<Rightarrow> string list \<Rightarrow> int option"
  process_environ :: "(string \<times> string) list"
  locale_messages :: cstr
  json_parses :: "string \<Rightarrow> bool"

definition freed_conversation :: string where
  "freed_conversation = ''use of a freed conversation''"

definition null_conversation :: string where
  "null_conversation = ''NULL conversation''"

definition freed_job :: string where
  "freed_job = ''use of a freed job''"

definition stale_session_conversation :: string where
  "stale_session_conversation = ''use of a freed session conversation''"

definition logS :: "session_call list \<Rightarrow> session \<Rightarrow> session" where
  "logS cs s = s\<lparr>log := log s @ cs\<rparr>"

definition with_conv :: "nat \<Rightarrow> session \<Rightarrow> (conversation \<Rightarrow> 'a run) \<Rightarrow> 'a run" where
  "with_conv c s f = (case convs s c of None \<Rightarrow> Stop freed_conversation | Some v \<Rightarrow> f v)"

definition put_conv :: "nat \<Rightarrow> conversation \<Rightarrow> session \<Rightarrow> session" where
  "put_conv c v s = s\<lparr>convs := (convs s)(c \<mapsto> v)\<rparr>"

text \<open>A signal of the interfaces is only sent where the interface is exported.\<close>

definition verifier :: "verifier_signal \<Rightarrow> session \<Rightarrow> session" where
  "verifier g s = (if user_verifier_interface s then logS [Verifier g] s else s)"

definition greeter :: "greeter_signal \<Rightarrow> session \<Rightarrow> session" where
  "greeter g s = (if greeter_interface s then logS [Greeter g] s else s)"

text \<open>\<open>x11\<close> is whether the program was built with X11 support.\<close>

definition gdm_session_set_supported_session_types :: "bool \<Rightarrow> string list option \<Rightarrow> session \<Rightarrow> session" where
  "gdm_session_set_supported_session_types x11 types s =
     s\<lparr>supported_session_types :=
         (case types of None \<Rightarrow> ''wayland'' # (if x11 then [''x11''] else []) | Some ts \<Rightarrow> ts)\<rparr>"

text \<open>
  A new session: its two servers (whose addresses are arguments, \<open>None\<close> for a server that could
  not be set up), the language settings of the system, and the construct properties.
\<close>

definition gdm_session_init :: "cstr \<Rightarrow> cstr \<Rightarrow> string option \<Rightarrow> session" where
  "gdm_session_init worker_addr outside_addr lang_config =
     logS (map (\<lambda>(k, v). SetProcessEnvironment k v) (load_lang_config_file lang_config))
     \<lparr>convs = (\<lambda>c. None), next_conv = 1, next_cancellable = 1, next_call = 1, next_watch = 1,
      inflight = [], cancelled_ids = [], child_watches = [], selected_session = None,
      saved_session = None, saved_session_type = None, saved_language = None, selected_user = None,
      timed_login_username = None, timed_login_delay = 0, conversations = [],
      session_conversation = None, conversation_environment = None, user_verifier_interface = False,
      user_verifier_extensions = [], greeter_interface = False, pending_worker_connections = [],
      outside_connections = [], session_pid = 0, session_type = None, display_hostname = None,
      display_device = None, display_seat_id = None, display_is_local = True,
      verification_mode = LOGIN, allowed_user = 0, fallback_session_name = None,
      worker_server = worker_addr, outside_server = outside_addr, environment = [],
      supported_session_types = [], is_program_session = False,
      display_is_initial = False, is_opened = False, session_opened = None, log = []\<rparr>"

definition gdm_session_new ::
  "bool \<Rightarrow> cstr \<Rightarrow> cstr \<Rightarrow> string option \<Rightarrow> verification_mode \<Rightarrow> u32 \<Rightarrow> cstr \<Rightarrow> cstr \<Rightarrow> cstr \<Rightarrow> bool \<Rightarrow>
     string list option \<Rightarrow> session" where
  "gdm_session_new x11 worker_addr outside_addr lang_config mode allowed host device seat is_local env =
     (gdm_session_set_supported_session_types x11 None (gdm_session_init worker_addr outside_addr lang_config))
       \<lparr>verification_mode := mode, allowed_user := allowed, display_hostname := host,
        display_device := device, display_seat_id := seat, display_is_local := is_local,
        conversation_environment := env\<rparr>"

section \<open>Session files\<close>

definition is_wayland_headless :: "session \<Rightarrow> bool" where
  "is_wayland_headless s = (session_type s = Some ''wayland'' \<and> \<not> display_is_local s)"

definition session_command :: "senv \<Rightarrow> string \<Rightarrow> cstr \<Rightarrow> session \<Rightarrow> cstr" where
  "session_command E name type s =
     get_session_command_for_name (files E) (supported_session_types s) (is_wayland_headless s) name type"

definition get_default_language_name :: "senv \<Rightarrow> session \<Rightarrow> cstr" where
  "get_default_language_name E s =
     (case saved_language s of
        Some l \<Rightarrow> Some l
      | None \<Rightarrow>
          (case ght_lookup (environment s) ''LANG'' of
             Some l \<Rightarrow> Some l
           | None \<Rightarrow> locale_messages E))"

text \<open>The search for the fallback leaves its result in the session.\<close>

definition get_default_session_name :: "senv \<Rightarrow> session \<Rightarrow> (string \<times> session) run" where
  "get_default_session_name E s =
     (case saved_session s of
        Some n \<Rightarrow> Ret (n, s)
      | None \<Rightarrow>
          bindR (get_fallback_session_name (files E) (supported_session_types s) (is_wayland_headless s)
                   (fallback_session_name s)) (\<lambda>n. Ret (n, s\<lparr>fallback_session_name := Some n\<rparr>)))"

definition get_session_name :: "senv \<Rightarrow> session \<Rightarrow> (string \<times> session) run" where
  "get_session_name E s =
     (case selected_session s of Some n \<Rightarrow> Ret (n, s) | None \<Rightarrow> get_default_session_name E s)"

definition contains_string :: "string \<Rightarrow> string \<Rightarrow> bool" where
  "contains_string s sub =
     list_ex (\<lambda>i. take (length sub) (drop i s) = sub) [0 ..< Suc (length s)]"

definition gdm_session_is_wayland_session :: "senv \<Rightarrow> session \<Rightarrow> (bool \<times> session) run" where
  "gdm_session_is_wayland_session E s =
     bindR (get_session_name E s) (\<lambda>(n, s).
       Ret (case load_key_file_for_file (files E) (supported_session_types s) (desktop_file n) None of
              None \<Rightarrow> False
            | Some (path, k) \<Rightarrow> contains_string path ''/wayland-sessions/'', s))"

definition set_session_type :: "cstr \<Rightarrow> session \<Rightarrow> session" where
  "set_session_type t s = (if session_type s \<noteq> t then s\<lparr>session_type := t\<rparr> else s)"

definition update_session_type :: "senv \<Rightarrow> session \<Rightarrow> session run" where
  "update_session_type E s =
     bindR (if supports_session_type (supported_session_types s) (Some ''wayland'')
            then gdm_session_is_wayland_session E s else Ret (False, s)) (\<lambda>(w, s).
       Ret (set_session_type (Some (if w then ''wayland'' else ''x11'')) s))"

definition gdm_session_session_registers :: "senv \<Rightarrow> session \<Rightarrow> (bool \<times> session) run" where
  "gdm_session_session_registers E s =
     bindR (get_session_name E s) (\<lambda>(n, s).
       Ret (case load_key_file_for_file (files E) (supported_session_types s) (desktop_file n) None of
              None \<Rightarrow> False
            | Some (path, k) \<Rightarrow> kf_registers k = Some True, s))"

definition gdm_session_defaults_changed :: "senv \<Rightarrow> session \<Rightarrow> session run" where
  "gdm_session_defaults_changed E s =
     bindR (update_session_type E s) (\<lambda>s.
       if \<not> greeter_interface s then Ret s
       else bindR (get_default_session_name E
                     (greeter (DefaultLanguageNameChanged (get_default_language_name E s)) s)) (\<lambda>(n, s).
              Ret (greeter (DefaultSessionNameChanged n) s)))"

definition gdm_session_select_user :: "cstr \<Rightarrow> session \<Rightarrow> session" where
  "gdm_session_select_user name s =
     (case name of
        None \<Rightarrow> logS [Critical ''gdm_session_select_user''] s
      | Some u \<Rightarrow> s\<lparr>selected_user := Some u, saved_session := None, saved_session_type := None,
                    saved_language := None\<rparr>)"

section \<open>Conversations\<close>

text \<open>The entry of the table may be \<^verbatim>\<open>NULL\<close>.\<close>

definition find_conversation_by_name :: "string \<Rightarrow> session \<Rightarrow> nat option" where
  "find_conversation_by_name name s =
     (case ght_lookup (conversations s) name of None \<Rightarrow> None | Some v \<Rightarrow> v)"

definition perform_job_effect :: "job_effect \<Rightarrow> session \<Rightarrow> session" where
  "perform_job_effect e s =
     logS [JobEffect e]
       (case e of RemoveWatch i \<Rightarrow> s\<lparr>child_watches := filter (\<lambda>(j, c). j \<noteq> i) (child_watches s)\<rparr> | _ \<Rightarrow> s)"

definition close_conversation :: "nat \<Rightarrow> session \<Rightarrow> session run" where
  "close_conversation c s =
     with_conv c s (\<lambda>v.
       let s1 = put_conv c (v\<lparr>worker_manager_interface := False\<rparr>) s
       in Ret (if worker_proxy v then logS [CloseConnection c] s1 else s1))"

text \<open>A job that the conversation still has is leaked with a warning.\<close>

definition free_conversation :: "nat \<Rightarrow> session \<Rightarrow> session run" where
  "free_conversation c s =
     bindR (close_conversation c s) (\<lambda>s.
       with_conv c s (\<lambda>v.
         let s1 = (case worker_cancellable v of
                     None \<Rightarrow> s | Some k \<Rightarrow> s\<lparr>cancelled_ids := k # cancelled_ids s\<rparr>)
         in Ret (s1\<lparr>convs := (convs s1)(c := None)\<rparr>)))"

definition stop_conversation :: "nat \<Rightarrow> session \<Rightarrow> session run" where
  "stop_conversation c s =
     bindR (close_conversation c s) (\<lambda>s.
       with_conv c s (\<lambda>v.
         let s1 = put_conv c (v\<lparr>is_stopping := True\<rparr>) s
         in Ret (case job v of
                   None \<Rightarrow> logS [Critical ''gdm_session_worker_job_stop''] s1
                 | Some j \<Rightarrow> fold perform_job_effect (gdm_session_worker_job_stop j) s1)))"

text \<open>Stopping a job at once and dropping the reference to it.\<close>

definition drop_job_now :: "nat \<Rightarrow> session \<Rightarrow> session run" where
  "drop_job_now c s =
     with_conv c s (\<lambda>v.
       Ret (case job v of
              None \<Rightarrow> logS [Critical ''gdm_session_worker_job_stop_now''] s
            | Some j \<Rightarrow>
                let (j1, effects) = gdm_session_worker_job_stop_now j
                in fold perform_job_effect (effects @ gdm_session_worker_job_finalize j1)
                     (put_conv c (v\<lparr>job := None\<rparr>) s)))"

definition stop_conversation_now :: "nat \<Rightarrow> session \<Rightarrow> session run" where
  "stop_conversation_now c s = bindR (close_conversation c s) (drop_job_now c)"

definition job_name :: "string \<Rightarrow> string" where
  "job_name svc = ''gdm-session-worker [pam/'' @ svc @ '']''"

definition env_strings :: "(string \<times> string) list \<Rightarrow> string list" where
  "env_strings vs = map (\<lambda>(k, v). k @ ''='' @ v) vs"

text \<open>A new conversation; \<open>None\<close> when its worker could not be started.\<close>

definition start_conversation :: "senv \<Rightarrow> string \<Rightarrow> session \<Rightarrow> nat option \<times> session" where
  "start_conversation E svc s =
     (let j0 = gdm_session_worker_job_set_for_reauth (verification_mode s = REAUTHENTICATE)
                 (gdm_session_worker_job_set_server_address (worker_server s)
                   (gdm_session_worker_job_new (LIBEXECDIR E)));
          j1 = (case conversation_environment s of
                  None \<Rightarrow> j0 | Some env \<Rightarrow> gdm_session_worker_job_set_environment env j0);
          (started, j2) = gdm_session_worker_job_start (parse_command E) (env_strings (process_environ E))
                            (spawn_worker E (log s)) (next_watch s) (job_name svc) j1;
          s1 = s\<lparr>next_watch := Suc (next_watch s)\<rparr>
      in if \<not> started then (None, s1)
         else
           let c = next_conv s1;
               v = \<lparr>job = Some j2, worker_pid = job_pid j2, service_name = svc,
                    starting_invocation = None, starting_username = None, pending_invocation = None,
                    worker_manager_interface = False, worker_proxy = False, worker_cancellable = None,
                    session_id = None, is_stopping = False, reauth_pid_of_caller = 0\<rparr>
           in (Some c, (put_conv c v s1)
                 \<lparr>next_conv := Suc c,
                  child_watches := (if job_child_watch_id j2 = 0 then child_watches s1
                                    else (job_child_watch_id j2, c) # child_watches s1)\<rparr>))"

text \<open>
  \<^verbatim>\<open>g_hash_table_insert\<close> frees the value it replaces; a \<^verbatim>\<open>NULL\<close> value is dereferenced
  then.
\<close>

definition insert_conversation :: "string \<Rightarrow> nat option \<Rightarrow> session \<Rightarrow> session run" where
  "insert_conversation svc v s =
     (let s1 = s\<lparr>conversations := ght_insert svc v (conversations s)\<rparr>
      in case ght_lookup (conversations s) svc of
           None \<Rightarrow> Ret s1
         | Some None \<Rightarrow> Stop null_conversation
         | Some (Some old) \<Rightarrow> free_conversation old s1)"

definition gdm_session_start_conversation :: "senv \<Rightarrow> string \<Rightarrow> session \<Rightarrow> (bool \<times> session) run" where
  "gdm_session_start_conversation E svc s =
     (let begin = (\<lambda>s. let (v, s) = start_conversation E svc s
                      in bindR (insert_conversation svc v s) (\<lambda>s. Ret (True, s)))
      in case find_conversation_by_name svc s of
           None \<Rightarrow> begin s
         | Some c \<Rightarrow>
             with_conv c s (\<lambda>v.
               if \<not> is_stopping v then Ret (False, s)
               else bindR (drop_job_now c s) begin))"

definition gdm_session_stop_conversation :: "string \<Rightarrow> session \<Rightarrow> session run" where
  "gdm_session_stop_conversation svc s =
     (case find_conversation_by_name svc s of None \<Rightarrow> Ret s | Some c \<Rightarrow> stop_conversation c s)"

section \<open>Calls to workers\<close>

text \<open>
  A call with a callback is in flight until it is completed. Without a proxy GLib refuses the
  call.
\<close>

definition call_worker :: "nat \<Rightarrow> worker_call \<Rightarrow> session \<Rightarrow> session run" where
  "call_worker c m s =
     with_conv c s (\<lambda>v.
       Ret (if \<not> worker_proxy v then logS [Critical ''g_dbus_proxy_call''] s
            else
              let s1 = logS [SendCall c m] s
              in s1\<lparr>inflight := inflight s1 @ [(next_call s1, c,
                       case worker_cancellable v of None \<Rightarrow> 0 | Some k \<Rightarrow> k, m)],
                    next_call := Suc (next_call s1)\<rparr>))"

definition call_worker_no_reply :: "nat \<Rightarrow> worker_call \<Rightarrow> session \<Rightarrow> session run" where
  "call_worker_no_reply c m s =
     with_conv c s (\<lambda>v.
       Ret (if \<not> worker_proxy v then logS [Critical ''g_dbus_proxy_call''] s else logS [SendCall c m] s))"

definition on_conversation :: "string \<Rightarrow> (nat \<Rightarrow> session \<Rightarrow> session run) \<Rightarrow> session \<Rightarrow> session run" where
  "on_conversation svc f s =
     (case find_conversation_by_name svc s of None \<Rightarrow> Ret s | Some c \<Rightarrow> f c s)"

definition gdm_session_authenticate :: "string \<Rightarrow> session \<Rightarrow> session run" where
  "gdm_session_authenticate svc = on_conversation svc (\<lambda>c. call_worker c CallAuthenticate)"

definition gdm_session_authorize :: "string \<Rightarrow> session \<Rightarrow> session run" where
  "gdm_session_authorize svc = on_conversation svc (\<lambda>c. call_worker c CallAuthorize)"

definition gdm_session_accredit :: "string \<Rightarrow> session \<Rightarrow> session run" where
  "gdm_session_accredit svc = on_conversation svc (\<lambda>c. call_worker c CallEstablishCredentials)"

definition initialize_details :: "string \<Rightarrow> cstr \<Rightarrow> cstr \<Rightarrow> session \<Rightarrow> (string \<times> variant) list" where
  "initialize_details svc user logf s =
     [(''service'', VString svc), (''extensions'', VStrv (user_verifier_extensions s))] @
     (case user of None \<Rightarrow> [] | Some u \<Rightarrow> [(''username'', VString u)]) @
     (case logf of None \<Rightarrow> [] | Some f \<Rightarrow> [(''log-file'', VString f)]) @
     (if is_program_session s then [(''is-program-session'', VBool True)] else []) @
     (case display_hostname s of None \<Rightarrow> [] | Some h \<Rightarrow> [(''hostname'', VString h)]) @
     (if display_is_local s then [(''display-is-local'', VBool True)] else []) @
     (if display_is_initial s then [(''display-is-initial'', VBool True)] else []) @
     (case display_device s of None \<Rightarrow> [] | Some d \<Rightarrow> [(''console'', VString d)]) @
     (case display_seat_id s of None \<Rightarrow> [] | Some d \<Rightarrow> [(''seat-id'', VString d)])"

definition initialize :: "string \<Rightarrow> cstr \<Rightarrow> cstr \<Rightarrow> session \<Rightarrow> session run" where
  "initialize svc user logf s =
     on_conversation svc
       (\<lambda>c. call_worker c (CallInitialize (initialize_details svc user logf s))) s"

definition gdm_session_setup :: "senv \<Rightarrow> string \<Rightarrow> session \<Rightarrow> session run" where
  "gdm_session_setup E svc s =
     bindR (update_session_type E s) (\<lambda>s.
     bindR (initialize svc None None s) (gdm_session_defaults_changed E))"

definition gdm_session_setup_for_user :: "senv \<Rightarrow> string \<Rightarrow> string \<Rightarrow> session \<Rightarrow> session run" where
  "gdm_session_setup_for_user E svc user s =
     bindR (update_session_type E s) (\<lambda>s.
       let s = (gdm_session_select_user (Some user) s)\<lparr>is_program_session := False\<rparr>
       in bindR (initialize svc (selected_user s) None s) (gdm_session_defaults_changed E))"

definition gdm_session_setup_for_program :: "string \<Rightarrow> cstr \<Rightarrow> cstr \<Rightarrow> session \<Rightarrow> session run" where
  "gdm_session_setup_for_program svc user logf s =
     initialize svc user logf (s\<lparr>is_program_session := True\<rparr>)"

definition send_environment :: "nat \<Rightarrow> session \<Rightarrow> session run" where
  "send_environment c s =
     foldR (\<lambda>(k, v). call_worker_no_reply c (CallSetEnvironmentVariable k v)) (environment s) s"

definition gdm_session_send_environment :: "string \<Rightarrow> session \<Rightarrow> session run" where
  "gdm_session_send_environment svc = on_conversation svc send_environment"

definition gdm_session_set_environment_variable :: "string \<Rightarrow> string \<Rightarrow> session \<Rightarrow> session" where
  "gdm_session_set_environment_variable key value s =
     s\<lparr>environment := ght_insert key value (environment s)\<rparr>"

definition gdm_session_get_display_mode :: "session \<Rightarrow> display_mode" where
  "gdm_session_get_display_mode s =
     (if display_seat_id s \<noteq> Some ''seat0'' then LOGIND_MANAGED else NEW_VT)"

fun gdm_session_display_mode_to_string :: "display_mode \<Rightarrow> string" where
  "gdm_session_display_mode_to_string NEW_VT = ''new-vt''"
| "gdm_session_display_mode_to_string LOGIND_MANAGED = ''logind-managed''"

definition send_display_mode :: "nat \<Rightarrow> session \<Rightarrow> session run" where
  "send_display_mode c s =
     call_worker_no_reply c
       (CallSetSessionDisplayMode (gdm_session_display_mode_to_string (gdm_session_get_display_mode s))) s"

definition send_session_type :: "nat \<Rightarrow> session \<Rightarrow> session run" where
  "send_session_type c s =
     call_worker_no_reply c (CallSetEnvironmentVariable ''XDG_SESSION_TYPE''
       (case session_type s of None \<Rightarrow> ''wayland'' | Some t \<Rightarrow> t)) s"

definition gdm_session_open_session :: "string \<Rightarrow> session \<Rightarrow> session run" where
  "gdm_session_open_session svc =
     on_conversation svc (\<lambda>c s.
       bindR (send_display_mode c s) (\<lambda>s. bindR (send_session_type c s) (call_worker c CallOpen)))"

section \<open>Starting the session program\<close>

text \<open>
  \<^verbatim>\<open>stop_all_other_conversations\<close> without \<open>now\<close>, as \<^verbatim>\<open>gdm_session_start_session\<close> uses it:
  all other conversations are asked to stop.
\<close>

definition stop_entry :: "nat \<Rightarrow> string \<times> nat option \<Rightarrow> session \<Rightarrow> session run" where
  "stop_entry keep entry s =
     (case snd entry of
        None \<Rightarrow> Stop null_conversation
      | Some c \<Rightarrow> if c = keep then Ret s else stop_conversation c s)"

definition stop_all_other_conversations :: "nat \<Rightarrow> session \<Rightarrow> session run" where
  "stop_all_other_conversations keep s = foldR (stop_entry keep) (conversations s) s"

text \<open>With \<open>now\<close> and no conversation to keep: all are stopped at once and freed.\<close>

definition stop_entry_now :: "string \<times> nat option \<Rightarrow> session \<Rightarrow> session run" where
  "stop_entry_now entry s =
     (case snd entry of None \<Rightarrow> Stop null_conversation | Some c \<Rightarrow> stop_conversation_now c s)"

definition free_entry :: "string \<times> nat option \<Rightarrow> session \<Rightarrow> session run" where
  "free_entry entry s =
     (case snd entry of None \<Rightarrow> Stop null_conversation | Some c \<Rightarrow> free_conversation c s)"

definition stop_all_conversations :: "session \<Rightarrow> session run" where
  "stop_all_conversations s =
     bindR (foldR stop_entry_now (conversations s) s) (\<lambda>s.
     bindR (foldR free_entry (conversations s) (s\<lparr>conversations := []\<rparr>)) (\<lambda>s.
       Ret (s\<lparr>session_conversation := None\<rparr>)))"

definition get_session_command :: "senv \<Rightarrow> session \<Rightarrow> (string \<times> session) run" where
  "get_session_command E s =
     bindR (get_session_name E s) (\<lambda>(n, s).
       case session_command E n None s of
         None \<Rightarrow> Stop ''Cannot find a command for specified session''
       | Some cmd \<Rightarrow> Ret (cmd, s))"

definition join_names :: "string list \<Rightarrow> string" where
  "join_names names = (case names of [] \<Rightarrow> [] | n # ns \<Rightarrow> n @ concat (map (\<lambda>m. '':'' @ m) ns))"

definition get_session_desktop_names :: "senv \<Rightarrow> session \<Rightarrow> (cstr \<times> session) run" where
  "get_session_desktop_names E s =
     bindR (get_session_name E s) (\<lambda>(n, s).
       Ret (case load_key_file_for_file (files E) (supported_session_types s) (desktop_file n) None of
              None \<Rightarrow> None
            | Some (path, k) \<Rightarrow> map_option join_names (kf_desktop_names k), s))"

definition is_language_variable :: "string \<Rightarrow> bool" where
  "is_language_variable k = (k = ''LANG'' \<or> k = ''LANGUAGE'' \<or> take 3 k = ''LC_'')"

definition set_up_session_language :: "senv \<Rightarrow> session \<Rightarrow> session" where
  "set_up_session_language E s =
     fold (\<lambda>(k, v). gdm_session_set_environment_variable k v)
       (filter (\<lambda>(k, v). is_language_variable k) (process_environ E)) s"

definition set_up_session_environment :: "senv \<Rightarrow> session \<Rightarrow> session run" where
  "set_up_session_environment E s =
     bindR (get_session_name E s) (\<lambda>(n, s).
       let s = gdm_session_set_environment_variable ''XDG_SESSION_DESKTOP'' n
                 (gdm_session_set_environment_variable ''DESKTOP_SESSION'' n
                   (gdm_session_set_environment_variable ''GDMSESSION'' n s))
       in bindR (get_session_desktop_names E s) (\<lambda>(names, s).
            let s = (case names of
                       None \<Rightarrow> s
                     | Some d \<Rightarrow> gdm_session_set_environment_variable ''XDG_CURRENT_DESKTOP'' d s);
                s = set_up_session_language E s;
                s = (case get_default_language_name E s of
                       None \<Rightarrow> s
                     | Some l \<Rightarrow>
                         if l = [] then s
                         else gdm_session_set_environment_variable ''GDM_LANG'' l
                                (gdm_session_set_environment_variable ''LANG'' l s))
            in Ret (case map_of (process_environ E) ''WINDOWPATH'' of
                      None \<Rightarrow> s
                    | Some p \<Rightarrow> gdm_session_set_environment_variable ''WINDOWPATH'' p s)))"

definition session_program :: "senv \<Rightarrow> session \<Rightarrow> (string \<times> session) run" where
  "session_program E s =
     bindR (get_session_command E s) (\<lambda>(cmd, s).
       if session_type s = Some ''wayland''
       then bindR (gdm_session_session_registers E s) (\<lambda>(registers, s).
              Ret (LIBEXECDIR E @ ''/gdm-wayland-session '' @
                   (if registers then [] else ''--handle-registration '') @ [CHR 34] @ cmd @ [CHR 34], s))
       else Ret (LIBEXECDIR E @ ''/gdm-x-session '' @ [CHR 34] @ cmd @ [CHR 34], s))"

definition gdm_session_start_session :: "senv \<Rightarrow> string \<Rightarrow> session \<Rightarrow> session run" where
  "gdm_session_start_session E svc s =
     (if session_conversation s \<noteq> None then Ret (logS [Critical ''gdm_session_start_session''] s)
      else
        on_conversation svc (\<lambda>c s.
          bindR (stop_all_other_conversations c s) (\<lambda>s.
          bindR (session_program E s) (\<lambda>(program, s).
          bindR (set_up_session_environment E s) (\<lambda>s.
          bindR (send_environment c s) (call_worker c (CallStartProgram program)))))) s)"

section \<open>Ending and resetting\<close>

definition do_reset :: "session \<Rightarrow> session run" where
  "do_reset s =
     bindR (stop_all_conversations s) (\<lambda>s.
       Ret (s\<lparr>pending_worker_connections := [], selected_user := None, selected_session := None,
              saved_session := None, saved_language := None, environment := [], session_opened := None,
              session_pid := -1, session_conversation := None\<rparr>))"

definition gdm_session_close :: "session \<Rightarrow> session run" where
  "gdm_session_close s = bindR (do_reset s) (\<lambda>s. Ret (s\<lparr>outside_connections := []\<rparr>))"

definition gdm_session_reset :: "session \<Rightarrow> session run" where
  "gdm_session_reset s = do_reset (verifier UvReset s)"

definition gdm_session_set_timed_login_details :: "string \<Rightarrow> int \<Rightarrow> session \<Rightarrow> session" where
  "gdm_session_set_timed_login_details user delay s =
     s\<lparr>timed_login_username := Some user, timed_login_delay := delay\<rparr>"

definition gdm_session_is_running :: "session \<Rightarrow> bool" where
  "gdm_session_is_running s = (session_pid s > 0)"

definition gdm_session_client_is_connected :: "session \<Rightarrow> bool" where
  "gdm_session_client_is_connected s = (outside_connections s \<noteq> [])"

definition gdm_session_get_session_id :: "session \<Rightarrow> cstr run" where
  "gdm_session_get_session_id s =
     (case session_conversation s of
        None \<Rightarrow> Ret None
      | Some c \<Rightarrow>
          (case convs s c of
             None \<Rightarrow> Stop stale_session_conversation
           | Some v \<Rightarrow> Ret (session_id v)))"

definition gdm_session_get_conversation_session_id :: "string \<Rightarrow> session \<Rightarrow> cstr run" where
  "gdm_session_get_conversation_session_id svc s =
     (case find_conversation_by_name svc s of
        None \<Rightarrow> Ret None
      | Some c \<Rightarrow> with_conv c s (\<lambda>v. Ret (session_id v)))"

definition gdm_session_start_reauthentication :: "int \<Rightarrow> u32 \<Rightarrow> session \<Rightarrow> session run" where
  "gdm_session_start_reauthentication pid_of_caller uid_of_caller s =
     (case session_conversation s of
        None \<Rightarrow> Ret (logS [Critical ''gdm_session_start_reauthentication''] s)
      | Some c \<Rightarrow>
          (case convs s c of
             None \<Rightarrow> Stop stale_session_conversation
           | Some v \<Rightarrow>
               call_worker c (CallStartReauthentication pid_of_caller uid_of_caller)
                 (put_conv c (v\<lparr>reauth_pid_of_caller := pid_of_caller\<rparr>) s)))"

definition select_session_entry :: "senv \<Rightarrow> string \<times> nat option \<Rightarrow> session \<Rightarrow> session run" where
  "select_session_entry E entry s =
     (case snd entry of
        None \<Rightarrow> Stop null_conversation
      | Some c \<Rightarrow>
          with_conv c s (\<lambda>v.
            if \<not> worker_proxy v then Ret s
            else bindR (get_session_name E s) (\<lambda>(n, s). call_worker_no_reply c (CallSetSessionName n) s)))"

definition gdm_session_select_session :: "senv \<Rightarrow> string \<Rightarrow> session \<Rightarrow> session run" where
  "gdm_session_select_session E name s =
     bindR (update_session_type E (s\<lparr>selected_session := Some name\<rparr>)) (\<lambda>s.
       foldR (select_session_entry E) (conversations s) s)"

section \<open>Answers to the questions of PAM\<close>

definition cancel_pending_query :: "nat \<Rightarrow> session \<Rightarrow> session run" where
  "cancel_pending_query c s =
     with_conv c s (\<lambda>v.
       case pending_invocation v of
         None \<Rightarrow> Ret s
       | Some i \<Rightarrow> Ret (logS [Answer i ErrorCancelled] (put_conv c (v\<lparr>pending_invocation := None\<rparr>) s)))"

text \<open>Without a pending invocation GLib only warns.\<close>

definition finish_pending_query :: "session_reply \<Rightarrow> nat \<Rightarrow> session \<Rightarrow> session run" where
  "finish_pending_query r c s =
     with_conv c s (\<lambda>v.
       case pending_invocation v of
         None \<Rightarrow> Ret (logS [Critical ''g_dbus_method_invocation_return''] s)
       | Some i \<Rightarrow> Ret (logS [Answer i r] (put_conv c (v\<lparr>pending_invocation := None\<rparr>) s)))"

definition gdm_session_answer_query :: "string \<Rightarrow> string \<Rightarrow> session \<Rightarrow> session run" where
  "gdm_session_answer_query svc answer =
     on_conversation svc (finish_pending_query (AnswerText answer))"

definition gdm_session_report_error :: "string \<Rightarrow> string \<Rightarrow> session \<Rightarrow> session run" where
  "gdm_session_report_error svc message =
     on_conversation svc (finish_pending_query (ErrorText message))"

definition set_pending_query :: "nat \<Rightarrow> nat \<Rightarrow> session \<Rightarrow> session run" where
  "set_pending_query i c s =
     with_conv c s (\<lambda>v.
       if pending_invocation v \<noteq> None then Stop ''set_pending_query: pending_invocation''
       else Ret (put_conv c (v\<lparr>pending_invocation := Some i\<rparr>) s))"

text \<open>A query of a worker is kept until the greeter answers; its interface gets the signal.\<close>

definition pass_query :: "nat \<Rightarrow> string \<Rightarrow> verifier_signal \<Rightarrow> session \<Rightarrow> session run" where
  "pass_query i svc g =
     on_conversation svc (\<lambda>c s. bindR (set_pending_query i c s) (\<lambda>s. Ret (logS [Verifier g] s)))"

definition choice_list_interface :: string where
  "choice_list_interface = ''org.gnome.DisplayManager.UserVerifier.ChoiceList''"

definition custom_json_interface :: string where
  "custom_json_interface = ''org.gnome.DisplayManager.UserVerifier.CustomJSON''"

definition gdm_session_handle_info_query :: "nat \<Rightarrow> string \<Rightarrow> string \<Rightarrow> session \<Rightarrow> session run" where
  "gdm_session_handle_info_query i svc q s =
     (if \<not> user_verifier_interface s then Ret (logS [Critical ''user_verifier_interface'', Answer i NotHandled] s)
      else pass_query i svc (UvInfoQuery svc q) s)"

definition gdm_session_handle_secret_info_query :: "nat \<Rightarrow> string \<Rightarrow> string \<Rightarrow> session \<Rightarrow> session run" where
  "gdm_session_handle_secret_info_query i svc q s =
     (if \<not> user_verifier_interface s then Ret (logS [Critical ''user_verifier_interface'', Answer i NotHandled] s)
      else pass_query i svc (UvSecretInfoQuery svc q) s)"

definition gdm_session_handle_info :: "nat \<Rightarrow> string \<Rightarrow> string \<Rightarrow> session \<Rightarrow> session" where
  "gdm_session_handle_info i svc info s = verifier (UvInfo svc info) (logS [Answer i Completed] s)"

definition gdm_session_handle_problem :: "nat \<Rightarrow> string \<Rightarrow> string \<Rightarrow> session \<Rightarrow> session" where
  "gdm_session_handle_problem i svc problem s =
     verifier (UvProblemText svc problem) (logS [Answer i Completed] s)"

definition gdm_session_handle_choice_list_query ::
  "nat \<Rightarrow> string \<Rightarrow> string \<Rightarrow> (string \<times> string) list \<Rightarrow> session \<Rightarrow> session run" where
  "gdm_session_handle_choice_list_query i svc prompt choices s =
     (if choice_list_interface \<notin> set (user_verifier_extensions s)
      then Ret (logS [Answer i (ErrorText ''ChoiceList interface not supported by client'')] s)
      else pass_query i svc (UvChoiceQuery svc prompt choices) s)"

definition gdm_session_handle_custom_json_request ::
  "nat \<Rightarrow> string \<Rightarrow> string \<Rightarrow> nat \<Rightarrow> string \<Rightarrow> session \<Rightarrow> session run" where
  "gdm_session_handle_custom_json_request i svc protocol version request s =
     (if custom_json_interface \<notin> set (user_verifier_extensions s)
      then Ret (logS [Answer i (ErrorText ''custom JSON interface not supported by client'')] s)
      else pass_query i svc (UvCustomJsonRequest svc protocol version request) s)"

text \<open>The methods of the interface that workers call.\<close>

fun worker_manager_call :: "nat \<Rightarrow> string \<Rightarrow> manager_query \<Rightarrow> session \<Rightarrow> session run" where
  "worker_manager_call i svc (InfoQuery q) s = gdm_session_handle_info_query i svc q s"
| "worker_manager_call i svc (SecretInfoQuery q) s = gdm_session_handle_secret_info_query i svc q s"
| "worker_manager_call i svc (Info q) s = Ret (gdm_session_handle_info i svc q s)"
| "worker_manager_call i svc (Problem q) s = Ret (gdm_session_handle_problem i svc q s)"
| "worker_manager_call i svc (ChoiceListQuery prompt choices) s =
     gdm_session_handle_choice_list_query i svc prompt choices s"
| "worker_manager_call i svc (CustomJsonRequest protocol version request) s =
     gdm_session_handle_custom_json_request i svc protocol version request s"

section \<open>The interface to the owner\<close>

datatype session_prop =
    PROP_SESSION_TYPE cstr
  | PROP_DISPLAY_HOSTNAME cstr
  | PROP_DISPLAY_DEVICE cstr
  | PROP_DISPLAY_SEAT_ID cstr
  | PROP_DISPLAY_IS_LOCAL bool
  | PROP_DISPLAY_IS_INITIAL bool
  | PROP_ALLOWED_USER u32
  | PROP_CONVERSATION_ENVIRONMENT "string list option"
  | PROP_SUPPORTED_SESSION_TYPES bool "string list option"

fun gdm_session_set_property :: "session_prop \<Rightarrow> session \<Rightarrow> session" where
  "gdm_session_set_property (PROP_SESSION_TYPE t) s = set_session_type t s"
| "gdm_session_set_property (PROP_DISPLAY_HOSTNAME h) s = s\<lparr>display_hostname := h\<rparr>"
| "gdm_session_set_property (PROP_DISPLAY_DEVICE d) s = s\<lparr>display_device := d\<rparr>"
| "gdm_session_set_property (PROP_DISPLAY_SEAT_ID d) s = s\<lparr>display_seat_id := d\<rparr>"
| "gdm_session_set_property (PROP_DISPLAY_IS_LOCAL b) s = s\<lparr>display_is_local := b\<rparr>"
| "gdm_session_set_property (PROP_DISPLAY_IS_INITIAL b) s = s\<lparr>display_is_initial := b\<rparr>"
| "gdm_session_set_property (PROP_ALLOWED_USER u) s = s\<lparr>allowed_user := u\<rparr>"
| "gdm_session_set_property (PROP_CONVERSATION_ENVIRONMENT e) s = s\<lparr>conversation_environment := e\<rparr>"
| "gdm_session_set_property (PROP_SUPPORTED_SESSION_TYPES x11 ts) s =
     gdm_session_set_supported_session_types x11 ts s"

text \<open>What the owner calls.\<close>

datatype session_api =
    StartConversation string
  | StopConversation string
  | Setup string
  | SetupForUser string string
  | SetupForProgram string cstr cstr
  | SendEnvironment string
  | SetEnvironmentVariable string string
  | StartSession string
  | Close
  | Reset
  | SelectSession string
  | SelectUser string
  | SetTimedLoginDetails string int
  | StartReauthentication int u32
  | SetProperty session_prop

fun api_call :: "senv \<Rightarrow> session_api \<Rightarrow> session \<Rightarrow> session run" where
  "api_call E (StartConversation svc) s = bindR (gdm_session_start_conversation E svc s) (\<lambda>(_, s). Ret s)"
| "api_call E (StopConversation svc) s = gdm_session_stop_conversation svc s"
| "api_call E (Setup svc) s = gdm_session_setup E svc s"
| "api_call E (SetupForUser svc user) s = gdm_session_setup_for_user E svc user s"
| "api_call E (SetupForProgram svc user logf) s = gdm_session_setup_for_program svc user logf s"
| "api_call E (SendEnvironment svc) s = gdm_session_send_environment svc s"
| "api_call E (SetEnvironmentVariable k v) s = Ret (gdm_session_set_environment_variable k v s)"
| "api_call E (StartSession svc) s = gdm_session_start_session E svc s"
| "api_call E Close s = gdm_session_close s"
| "api_call E Reset s = gdm_session_reset s"
| "api_call E (SelectSession n) s = gdm_session_select_session E n s"
| "api_call E (SelectUser u) s = Ret (gdm_session_select_user (Some u) s)"
| "api_call E (SetTimedLoginDetails u d) s = Ret (gdm_session_set_timed_login_details u d s)"
| "api_call E (StartReauthentication pid u) s = gdm_session_start_reauthentication pid u s"
| "api_call E (SetProperty p) s = Ret (gdm_session_set_property p s)"

type_synonym listener = "session_signal \<Rightarrow> session \<Rightarrow> session_api list"

text \<open>\<^verbatim>\<open>g_signal_emit\<close>: the handler runs before the emission returns.\<close>

definition emit :: "senv \<Rightarrow> listener \<Rightarrow> session_signal \<Rightarrow> session \<Rightarrow> session run" where
  "emit E R g s = (let s1 = logS [Emit g] s in foldR (api_call E) (R g s1) s1)"

section \<open>Completed calls\<close>

fun service_gone :: "call_error \<Rightarrow> bool" where
  "service_gone (WorkerError (SERVICE_UNAVAILABLE m)) = True"
| "service_gone (WorkerError (TOO_MANY_RETRIES m)) = True"
| "service_gone _ = False"

definition report_and_stop_conversation :: "string \<Rightarrow> call_error \<Rightarrow> session \<Rightarrow> session run" where
  "report_and_stop_conversation svc error s =
     gdm_session_stop_conversation svc
       (verifier (UvVerificationFailed svc)
         (verifier (if service_gone error then UvServiceUnavailable svc error else UvProblem svc error) s))"

fun is_service_unavailable :: "call_error \<Rightarrow> bool" where
  "is_service_unavailable (WorkerError (SERVICE_UNAVAILABLE m)) = True"
| "is_service_unavailable _ = False"

text \<open>
  The callbacks get the conversation that made the call and the error, if any. Where the code
  reads the conversation again after a signal, so does the model.
\<close>

definition on_initialization_complete_cb ::
  "senv \<Rightarrow> listener \<Rightarrow> nat \<Rightarrow> call_error option \<Rightarrow> session \<Rightarrow> session run" where
  "on_initialization_complete_cb E R c error s =
     bindR (with_conv c s (\<lambda>v.
       case error of
         None \<Rightarrow>
           let s = (case starting_invocation v of None \<Rightarrow> s | Some i \<Rightarrow> logS [Answer i Completed] s)
           in bindR (emit E R (SETUP_COMPLETE (service_name v)) s) (\<lambda>s.
                with_conv c s (\<lambda>v. gdm_session_authenticate (service_name v) s))
       | Some e \<Rightarrow>
           let s = (case starting_invocation v of
                      None \<Rightarrow> logS [Critical ''g_dbus_method_invocation_return''] s
                    | Some i \<Rightarrow> logS [Answer i (ErrorFromWorker e)] s)
           in report_and_stop_conversation (service_name v) e s)) (\<lambda>s.
     with_conv c s (\<lambda>v. Ret (put_conv c (v\<lparr>starting_invocation := None\<rparr>) s)))"

definition on_authenticate_cb ::
  "senv \<Rightarrow> listener \<Rightarrow> nat \<Rightarrow> call_error option \<Rightarrow> session \<Rightarrow> session run" where
  "on_authenticate_cb E R c error s =
     with_conv c s (\<lambda>v.
       case error of
         None \<Rightarrow> gdm_session_authorize (service_name v) s
       | Some e \<Rightarrow>
           bindR (if is_service_unavailable e then Ret s
                  else emit E R (AUTHENTICATION_FAILED (service_name v) (worker_pid v)) s) (\<lambda>s.
             with_conv c s (\<lambda>v. report_and_stop_conversation (service_name v) e s)))"

definition on_authorize_cb :: "nat \<Rightarrow> call_error option \<Rightarrow> session \<Rightarrow> session run" where
  "on_authorize_cb c error s =
     with_conv c s (\<lambda>v.
       case error of
         None \<Rightarrow> gdm_session_accredit (service_name v) s
       | Some e \<Rightarrow> report_and_stop_conversation (service_name v) e s)"

definition on_establish_credentials_cb ::
  "senv \<Rightarrow> listener \<Rightarrow> nat \<Rightarrow> call_error option \<Rightarrow> session \<Rightarrow> session run" where
  "on_establish_credentials_cb E R c error s =
     with_conv c s (\<lambda>v.
       let svc = service_name v
       in case error of
            None \<Rightarrow>
              bindR (emit E R (CREDENTIALS_ESTABLISHED svc (worker_pid v)) s) (\<lambda>s.
                case verification_mode s of
                  LOGIN \<Rightarrow> gdm_session_open_session svc s
                | REAUTHENTICATE \<Rightarrow>
                    if user_verifier_interface s
                    then emit E R (VERIFICATION_COMPLETE svc) (verifier (UvVerificationComplete svc) s)
                    else Ret s)
          | Some e \<Rightarrow> report_and_stop_conversation svc e s)"

definition on_opened ::
  "senv \<Rightarrow> listener \<Rightarrow> nat \<Rightarrow> call_error + string \<Rightarrow> session \<Rightarrow> session run" where
  "on_opened E R c result s =
     with_conv c s (\<lambda>v.
       case result of
         Inr sid \<Rightarrow>
           let s = (put_conv c (v\<lparr>session_id := Some sid\<rparr>) s)\<lparr>session_opened := Some sid\<rparr>
           in bindR (if user_verifier_interface s
                     then emit E R (VERIFICATION_COMPLETE (service_name v))
                            (verifier (UvVerificationComplete (service_name v)) s)
                     else Ret s) (\<lambda>s.
              with_conv c s (\<lambda>v.
                bindR (emit E R (SESSION_OPENED (service_name v) sid)
                         (greeter (GreeterSessionOpened (service_name v) sid) s)) (\<lambda>s.
                  Ret (s\<lparr>is_opened := True\<rparr>))))
       | Inl e \<Rightarrow>
           bindR (report_and_stop_conversation (service_name v) e s) (\<lambda>s.
             with_conv c s (\<lambda>v. emit E R (SESSION_OPENED_FAILED (service_name v)) s)))"

definition on_start_program_cb ::
  "senv \<Rightarrow> listener \<Rightarrow> nat \<Rightarrow> call_error + int \<Rightarrow> session \<Rightarrow> session run" where
  "on_start_program_cb E R c result s =
     with_conv c s (\<lambda>v.
       case result of
         Inr pid \<Rightarrow>
           emit E R (SESSION_STARTED (service_name v) pid)
             (s\<lparr>session_pid := pid, session_conversation := Some c\<rparr>)
       | Inl e \<Rightarrow>
           bindR (gdm_session_stop_conversation (service_name v) s) (\<lambda>s.
             with_conv c s (\<lambda>v. emit E R (SESSION_START_FAILED (service_name v)) s)))"

definition on_reauthentication_started_cb ::
  "senv \<Rightarrow> listener \<Rightarrow> nat \<Rightarrow> call_error + string \<Rightarrow> session \<Rightarrow> session run" where
  "on_reauthentication_started_cb E R c result s =
     with_conv c s (\<lambda>v.
       bindR (case result of
                Inr address \<Rightarrow> emit E R (REAUTHENTICATION_STARTED (reauth_pid_of_caller v) address) s
              | Inl e \<Rightarrow> Ret s) (\<lambda>s.
         with_conv c s (\<lambda>v. Ret (put_conv c (v\<lparr>reauth_pid_of_caller := 0\<rparr>) s))))"

fun reply_error :: "call_result \<Rightarrow> call_error option" where
  "reply_error (CallReturned (ErrorReply e)) = Some (WorkerError e)"
| "reply_error (CallReturned _) = None"
| "reply_error (CallFailed e) = Some e"
| "reply_error CallClosed = None"

fun reply_string :: "call_result \<Rightarrow> call_error + string" where
  "reply_string (CallReturned (SessionIdReply i)) = Inr i"
| "reply_string (CallReturned (AddressReply a)) = Inr a"
| "reply_string (CallReturned (ErrorReply e)) = Inl (WorkerError e)"
| "reply_string (CallFailed e) = Inl e"
| "reply_string _ = Inl (DBusError ''unexpected reply'')"

fun reply_pid :: "call_result \<Rightarrow> call_error + int" where
  "reply_pid (CallReturned (PidReply p)) = Inr p"
| "reply_pid (CallReturned (ErrorReply e)) = Inl (WorkerError e)"
| "reply_pid (CallFailed e) = Inl e"
| "reply_pid _ = Inl (DBusError ''unexpected reply'')"

definition call_callback ::
  "senv \<Rightarrow> listener \<Rightarrow> nat \<Rightarrow> worker_call \<Rightarrow> call_result \<Rightarrow> session \<Rightarrow> session run" where
  "call_callback E R c m r s =
     (case m of
        CallInitialize d \<Rightarrow> on_initialization_complete_cb E R c (reply_error r) s
      | CallAuthenticate \<Rightarrow> on_authenticate_cb E R c (reply_error r) s
      | CallAuthorize \<Rightarrow> on_authorize_cb c (reply_error r) s
      | CallEstablishCredentials \<Rightarrow> on_establish_credentials_cb E R c (reply_error r) s
      | CallOpen \<Rightarrow> on_opened E R c (reply_string r) s
      | CallStartProgram p \<Rightarrow> on_start_program_cb E R c (reply_pid r) s
      | CallStartReauthentication p u \<Rightarrow> on_reauthentication_started_cb E R c (reply_string r) s
      | _ \<Rightarrow> Ret s)"

text \<open>
  A call completes. If its cancellable was cancelled meanwhile, or the connection was closed,
  the callback returns at once without touching the conversation.
\<close>

definition call_done :: "senv \<Rightarrow> listener \<Rightarrow> nat \<Rightarrow> call_result \<Rightarrow> session \<Rightarrow> session run" where
  "call_done E R i r s =
     (case map_of (inflight s) i of
        None \<Rightarrow> Ret s
      | Some (c, k, m) \<Rightarrow>
          let s = s\<lparr>inflight := filter (\<lambda>(j, x). j \<noteq> i) (inflight s)\<rparr>
          in if k \<in> set (cancelled_ids s) \<or> r = CallClosed then Ret s
             else call_callback E R c m r
                    (if reply_error r = None then logS [CallSucceeded c m] s else s))"

section \<open>Signals of the workers\<close>

definition string_of :: "cstr \<Rightarrow> string" where
  "string_of x = (case x of None \<Rightarrow> [] | Some y \<Rightarrow> y)"

definition worker_on_username_changed :: "senv \<Rightarrow> string \<Rightarrow> session \<Rightarrow> session run" where
  "worker_on_username_changed E name s =
     gdm_session_defaults_changed E (gdm_session_select_user (if name = [] then None else Some name) s)"

definition worker_on_session_exited :: "senv \<Rightarrow> listener \<Rightarrow> nat \<Rightarrow> session \<Rightarrow> session run" where
  "worker_on_session_exited E R wait_status s =
     (let s = s\<lparr>session_conversation := None\<rparr>
      in if WIFEXITED wait_status then emit E R (SESSION_EXITED (WEXITSTATUS wait_status)) s
         else if WIFSIGNALED wait_status then emit E R (SESSION_DIED (WTERMSIG wait_status)) s
         else Ret s)"

definition worker_on_saved_language_name_read :: "string \<Rightarrow> session \<Rightarrow> session" where
  "worker_on_saved_language_name_read name s =
     (if name = [] then s
      else greeter (DefaultLanguageNameChanged (Some name)) (s\<lparr>saved_language := Some name\<rparr>))"

definition worker_on_saved_session_name_read :: "senv \<Rightarrow> string \<Rightarrow> session \<Rightarrow> session run" where
  "worker_on_saved_session_name_read E name s =
     (if session_command E name (saved_session_type s) s = None
      then update_session_type E (s\<lparr>saved_session := None\<rparr>)
      else
        bindR (get_default_session_name E s) (\<lambda>(n, s).
          let s = (if name \<noteq> n
                   then greeter (DefaultSessionNameChanged name) (s\<lparr>saved_session := Some name\<rparr>) else s)
          in case saved_session_type s of
               Some t \<Rightarrow> Ret (set_session_type (Some t) s)
             | None \<Rightarrow> update_session_type E s))"

definition worker_on_saved_session_type_read :: "string \<Rightarrow> session \<Rightarrow> session" where
  "worker_on_saved_session_type_read t s = s\<lparr>saved_session_type := Some t\<rparr>"

definition worker_on_cancel_pending_query :: "nat \<Rightarrow> session \<Rightarrow> session run" where
  "worker_on_cancel_pending_query c s = cancel_pending_query c s"

definition worker_on_reauthenticated :: "senv \<Rightarrow> listener \<Rightarrow> string \<Rightarrow> int \<Rightarrow> session \<Rightarrow> session run" where
  "worker_on_reauthenticated E R svc pid s = emit E R (REAUTHENTICATED svc pid) s"

definition worker_signal :: "senv \<Rightarrow> listener \<Rightarrow> nat \<Rightarrow> wsignal \<Rightarrow> session \<Rightarrow> session run" where
  "worker_signal E R c g s =
     (case g of
        UsernameChanged u \<Rightarrow> worker_on_username_changed E (string_of u) s
      | SessionExited svc wait_status \<Rightarrow> worker_on_session_exited E R (nat wait_status) s
      | SavedLanguageNameRead n \<Rightarrow> Ret (worker_on_saved_language_name_read (string_of n) s)
      | SavedSessionNameRead n \<Rightarrow> worker_on_saved_session_name_read E (string_of n) s
      | SavedSessionTypeRead n \<Rightarrow> Ret (worker_on_saved_session_type_read (string_of n) s)
      | CancelPendingQuery \<Rightarrow> worker_on_cancel_pending_query c s
      | Reauthenticated svc pid \<Rightarrow> worker_on_reauthenticated E R svc pid s)"

section \<open>Connections of the workers\<close>

definition allow_worker_function :: "u32 \<Rightarrow> session \<Rightarrow> bool" where
  "allow_worker_function connecting_user s = (connecting_user = 0 \<or> connecting_user = allowed_user s)"

definition handle_connection_from_worker :: "nat \<Rightarrow> int \<Rightarrow> session \<Rightarrow> session" where
  "handle_connection_from_worker conn pid s =
     s\<lparr>pending_worker_connections := (conn, pid) # pending_worker_connections s\<rparr>"

definition on_worker_connection_closed :: "nat \<Rightarrow> session \<Rightarrow> session" where
  "on_worker_connection_closed conn s =
     s\<lparr>pending_worker_connections := filter (\<lambda>(n, p). n \<noteq> conn) (pending_worker_connections s)\<rparr>"

fun find_by_pid :: "int \<Rightarrow> session \<Rightarrow> (string \<times> nat option) list \<Rightarrow> nat option run" where
  "find_by_pid pid s [] = Ret None"
| "find_by_pid pid s (entry # entries) =
     (case snd entry of
        None \<Rightarrow> Stop null_conversation
      | Some c \<Rightarrow>
          with_conv c s (\<lambda>v. if worker_pid v = pid then Ret (Some c) else find_by_pid pid s entries))"

definition find_conversation_by_pid :: "int \<Rightarrow> session \<Rightarrow> nat option run" where
  "find_conversation_by_pid pid s = find_by_pid pid s (conversations s)"

text \<open>The client of the conversation waits for it to start: the worker is set up.\<close>

definition set_up_started :: "senv \<Rightarrow> nat \<Rightarrow> session \<Rightarrow> session run" where
  "set_up_started E c s =
     with_conv c s (\<lambda>v.
       let s = verifier (UvConversationStarted (service_name v)) s
       in if starting_invocation v = None then Ret s
          else
            (case starting_username v of
               Some u \<Rightarrow>
                 bindR (gdm_session_setup_for_user E (service_name v) u s) (\<lambda>s.
                   with_conv c s (\<lambda>v. Ret (put_conv c (v\<lparr>starting_username := None\<rparr>) s)))
             | None \<Rightarrow> gdm_session_setup E (service_name v) s))"

definition register_worker :: "senv \<Rightarrow> listener \<Rightarrow> nat \<Rightarrow> nat \<Rightarrow> session \<Rightarrow> session run" where
  "register_worker E R i conn s =
     (case map_of (pending_worker_connections s) conn of
        None \<Rightarrow> Ret (logS [Answer i NotHandled] s)
      | Some pid \<Rightarrow>
          let s = on_worker_connection_closed conn s
          in bindR (find_conversation_by_pid pid s) (\<lambda>found.
               case found of
                 None \<Rightarrow>
                   Ret (logS [Answer i (ErrorText ''Connection is not from a known conversation''),
                              ClosePeer conn] s)
               | Some c \<Rightarrow>
                   with_conv c s (\<lambda>v.
                     let k = next_cancellable s;
                         s = (put_conv c (v\<lparr>worker_proxy := True, worker_cancellable := Some k,
                                worker_manager_interface := True\<rparr>)
                                (logS [Answer i Completed] s))\<lparr>next_cancellable := Suc k\<rparr>
                     in bindR (emit E R (CONVERSATION_STARTED (service_name v)) s) (set_up_started E c))))"

section \<open>The end of a worker\<close>

text \<open>
  What \<^verbatim>\<open>worker_exited\<close> and \<^verbatim>\<open>worker_died\<close> share: the conversation leaves the table, and
  in the end it is freed.
\<close>

definition conversation_stopped :: "senv \<Rightarrow> listener \<Rightarrow> nat \<Rightarrow> session \<Rightarrow> session run" where
  "conversation_stopped E R c s =
     with_conv c s (\<lambda>v.
       bindR (emit E R (CONVERSATION_STOPPED (service_name v)) s) (\<lambda>s.
         with_conv c s (\<lambda>v.
           let s = verifier (UvConversationStopped (service_name v)) s;
               s = (if is_stopping v
                    then (case job v of
                            None \<Rightarrow> s
                          | Some j \<Rightarrow> fold perform_job_effect (gdm_session_worker_job_finalize j)
                                        (put_conv c (v\<lparr>job := None\<rparr>) s))
                    else s)
           in free_conversation c s)))"

definition worker_exited :: "senv \<Rightarrow> listener \<Rightarrow> nat \<Rightarrow> nat \<Rightarrow> session \<Rightarrow> session run" where
  "worker_exited E R c code s =
     with_conv c s (\<lambda>v.
       let s = s\<lparr>conversations := ght_remove (service_name v) (conversations s)\<rparr>
       in bindR (if session_conversation s = Some c
                 then bindR (emit E R (SESSION_EXITED code) s) (\<lambda>s. Ret (s\<lparr>session_conversation := None\<rparr>))
                 else Ret s)
            (conversation_stopped E R c))"

definition worker_died :: "senv \<Rightarrow> listener \<Rightarrow> nat \<Rightarrow> nat \<Rightarrow> session \<Rightarrow> session run" where
  "worker_died E R c signum s =
     with_conv c s (\<lambda>v.
       let s = s\<lparr>conversations := ght_remove (service_name v) (conversations s)\<rparr>
       in bindR (if session_conversation s = Some c
                 then bindR (emit E R (SESSION_DIED signum)
                               (if session_pid s \<noteq> -1 then logS [SignalSession (session_pid s)] s else s))
                        (\<lambda>s. Ret (s\<lparr>session_conversation := None\<rparr>))
                 else Ret s)
            (conversation_stopped E R c))"

text \<open>A child watch fires; its source is gone then.\<close>

definition child_done :: "senv \<Rightarrow> listener \<Rightarrow> nat \<Rightarrow> nat \<Rightarrow> session \<Rightarrow> session run" where
  "child_done E R i wait_status s =
     (case map_of (child_watches s) i of
        None \<Rightarrow> Ret s
      | Some c \<Rightarrow>
          let s = s\<lparr>child_watches := filter (\<lambda>(j, d). j \<noteq> i) (child_watches s)\<rparr>
          in with_conv c s (\<lambda>v.
               case job v of
                 None \<Rightarrow> Stop freed_job
               | Some j \<Rightarrow>
                   let (j1, g) = session_worker_job_child_watch wait_status j;
                       s = put_conv c (v\<lparr>job := Some j1\<rparr>) s
                   in case g of
                        None \<Rightarrow> Ret s
                      | Some (EXITED code) \<Rightarrow> worker_exited E R c code s
                      | Some (DIED signum) \<Rightarrow> worker_died E R c signum s))"

section \<open>Clients\<close>

datatype client_call =
    EnableExtensions "string list"
  | BeginVerification string
  | BeginVerificationForUser string string
  | AnswerQuery string string
  | Cancel
  | SelectChoice string string
  | CustomJsonReply string string
  | CustomJsonReportError string string
  | ClientSelectSession string
  | ClientSelectUser string
  | StartSessionWhenReady string bool
  | GetTimedLoginDetails
  | StopConflictingSession
  | BeginAutoLogin string

fun of_greeter :: "client_call \<Rightarrow> bool" where
  "of_greeter (ClientSelectSession n) = True"
| "of_greeter (ClientSelectUser u) = True"
| "of_greeter (StartSessionWhenReady svc b) = True"
| "of_greeter GetTimedLoginDetails = True"
| "of_greeter StopConflictingSession = True"
| "of_greeter (BeginAutoLogin u) = True"
| "of_greeter _ = False"

definition enable_extension :: "string \<Rightarrow> string list \<Rightarrow> string list" where
  "enable_extension e es =
     (if e \<in> set es then es
      else if e = choice_list_interface \<or> e = custom_json_interface then es @ [e] else es)"

definition begin_verification_conversation ::
  "senv \<Rightarrow> nat \<Rightarrow> string \<Rightarrow> session \<Rightarrow> (nat option \<times> session) run" where
  "begin_verification_conversation E i svc s =
     bindR (gdm_session_start_conversation E svc s) (\<lambda>(ok, s).
       let found = (if ok then find_conversation_by_name svc s else None)
       in Ret (found, if found = None
            then logS [Answer i (ErrorText ''Could not create authentication helper process'')] s else s))"

text \<open>A greeter call that is refused while the session runs.\<close>

definition unless_running :: "nat \<Rightarrow> (session \<Rightarrow> session run) \<Rightarrow> session \<Rightarrow> session run" where
  "unless_running i f s =
     (if gdm_session_is_running s
      then Ret (logS [Answer i (ErrorText (''Session already running for user '' @ string_of (selected_user s)))] s)
      else f s)"

definition gdm_session_handle_client_enable_extensions :: "nat \<Rightarrow> string list \<Rightarrow> session \<Rightarrow> session" where
  "gdm_session_handle_client_enable_extensions i es s =
     logS [Answer i Completed] (s\<lparr>user_verifier_extensions := fold enable_extension es []\<rparr>)"

definition gdm_session_handle_client_begin_verification ::
  "senv \<Rightarrow> nat \<Rightarrow> string \<Rightarrow> session \<Rightarrow> session run" where
  "gdm_session_handle_client_begin_verification E i svc s =
     bindR (begin_verification_conversation E i svc s) (\<lambda>(found, s).
       case found of
         None \<Rightarrow> Ret s
       | Some c \<Rightarrow>
           with_conv c s (\<lambda>v. Ret (put_conv c (v\<lparr>starting_invocation := Some i, starting_username := None\<rparr>) s)))"

definition gdm_session_handle_client_begin_verification_for_user ::
  "senv \<Rightarrow> nat \<Rightarrow> string \<Rightarrow> string \<Rightarrow> session \<Rightarrow> session run" where
  "gdm_session_handle_client_begin_verification_for_user E i svc user s =
     bindR (begin_verification_conversation E i svc s) (\<lambda>(found, s).
       case found of
         None \<Rightarrow> Ret s
       | Some c \<Rightarrow>
           with_conv c s (\<lambda>v.
             Ret (put_conv c (v\<lparr>starting_invocation := Some i, starting_username := Some user\<rparr>) s)))"

definition gdm_session_handle_client_answer_query :: "nat \<Rightarrow> string \<Rightarrow> string \<Rightarrow> session \<Rightarrow> session run" where
  "gdm_session_handle_client_answer_query i svc answer s =
     gdm_session_answer_query svc answer (logS [Answer i Completed] s)"

definition gdm_session_cancel :: "senv \<Rightarrow> listener \<Rightarrow> session \<Rightarrow> session run" where
  "gdm_session_cancel E R s = emit E R CANCELLED s"

definition gdm_session_handle_client_cancel :: "senv \<Rightarrow> listener \<Rightarrow> nat \<Rightarrow> session \<Rightarrow> session run" where
  "gdm_session_handle_client_cancel E R i s = gdm_session_cancel E R (logS [Answer i Completed] s)"

definition gdm_session_handle_client_select_choice :: "nat \<Rightarrow> string \<Rightarrow> string \<Rightarrow> session \<Rightarrow> session run" where
  "gdm_session_handle_client_select_choice i svc answer s =
     gdm_session_answer_query svc answer (logS [Answer i Completed] s)"

definition gdm_session_handle_client_custom_json_reply ::
  "senv \<Rightarrow> nat \<Rightarrow> string \<Rightarrow> string \<Rightarrow> session \<Rightarrow> session run" where
  "gdm_session_handle_client_custom_json_reply E i svc json s =
     (if json_parses E json then gdm_session_answer_query svc json (logS [Answer i Completed] s)
      else gdm_session_report_error svc ''JSON reply is not valid''
             (logS [Answer i (ErrorText ''JSON reply is not valid'')] s))"

definition gdm_session_handle_client_custom_json_report_error ::
  "nat \<Rightarrow> string \<Rightarrow> string \<Rightarrow> session \<Rightarrow> session run" where
  "gdm_session_handle_client_custom_json_report_error i svc message s =
     gdm_session_report_error svc message (logS [Answer i Completed] s)"

definition gdm_session_handle_client_select_session ::
  "senv \<Rightarrow> nat \<Rightarrow> string \<Rightarrow> session \<Rightarrow> session run" where
  "gdm_session_handle_client_select_session E i n =
     unless_running i (\<lambda>s. gdm_session_select_session E n
       (if greeter_interface s then logS [Answer i Completed] s else s))"

definition gdm_session_handle_client_select_user :: "nat \<Rightarrow> string \<Rightarrow> session \<Rightarrow> session run" where
  "gdm_session_handle_client_select_user i user =
     unless_running i (\<lambda>s. Ret (gdm_session_select_user (Some user)
       (if greeter_interface s then logS [Answer i Completed] s else s)))"

definition gdm_session_handle_client_start_session_when_ready ::
  "senv \<Rightarrow> listener \<Rightarrow> nat \<Rightarrow> string \<Rightarrow> bool \<Rightarrow> session \<Rightarrow> session run" where
  "gdm_session_handle_client_start_session_when_ready E R i svc client_is_ready =
     unless_running i (\<lambda>s. emit E R (CLIENT_READY_FOR_SESSION_TO_START svc client_is_ready)
       (if greeter_interface s then logS [Answer i Completed] s else s))"

definition gdm_session_handle_get_timed_login_details :: "nat \<Rightarrow> session \<Rightarrow> session run" where
  "gdm_session_handle_get_timed_login_details i =
     unless_running i (\<lambda>s.
       Ret (if \<not> greeter_interface s then s
            else
              case timed_login_username s of
                None \<Rightarrow> logS [Answer i (TimedLoginDetails False [] (timed_login_delay s))] s
              | Some u \<Rightarrow> greeter (TimedLoginRequested u (timed_login_delay s))
                            (logS [Answer i (TimedLoginDetails True u (timed_login_delay s))] s)))"

definition gdm_session_handle_client_stop_conflicting_session ::
  "senv \<Rightarrow> listener \<Rightarrow> nat \<Rightarrow> session \<Rightarrow> session run" where
  "gdm_session_handle_client_stop_conflicting_session E R i s =
     (if \<not> is_opened s
      then Ret (logS [Answer i (ErrorText ''Can't stop conflicting session if this session is not opened yet'')] s)
      else bindR (emit E R (STOP_CONFLICTING_SESSION (session_opened s)) s) (\<lambda>s.
             Ret (if greeter_interface s then logS [Answer i Completed] s else s)))"

definition gdm_session_handle_client_begin_auto_login ::
  "senv \<Rightarrow> nat \<Rightarrow> string \<Rightarrow> session \<Rightarrow> session run" where
  "gdm_session_handle_client_begin_auto_login E i user =
     unless_running i (\<lambda>s. gdm_session_setup_for_user E ''gdm-autologin'' user
       (if greeter_interface s then logS [Answer i Completed] s else s))"

text \<open>The methods of the interfaces that clients call.\<close>

fun exported_method :: "senv \<Rightarrow> listener \<Rightarrow> nat \<Rightarrow> client_call \<Rightarrow> session \<Rightarrow> session run" where
  "exported_method E R i (EnableExtensions es) s = Ret (gdm_session_handle_client_enable_extensions i es s)"
| "exported_method E R i (BeginVerification svc) s = gdm_session_handle_client_begin_verification E i svc s"
| "exported_method E R i (BeginVerificationForUser svc user) s =
     gdm_session_handle_client_begin_verification_for_user E i svc user s"
| "exported_method E R i (AnswerQuery svc answer) s = gdm_session_handle_client_answer_query i svc answer s"
| "exported_method E R i Cancel s = gdm_session_handle_client_cancel E R i s"
| "exported_method E R i (SelectChoice svc answer) s = gdm_session_handle_client_select_choice i svc answer s"
| "exported_method E R i (CustomJsonReply svc json) s =
     gdm_session_handle_client_custom_json_reply E i svc json s"
| "exported_method E R i (CustomJsonReportError svc message) s =
     gdm_session_handle_client_custom_json_report_error i svc message s"
| "exported_method E R i (ClientSelectSession n) s = gdm_session_handle_client_select_session E i n s"
| "exported_method E R i (ClientSelectUser u) s = gdm_session_handle_client_select_user i u s"
| "exported_method E R i (StartSessionWhenReady svc ready) s =
     gdm_session_handle_client_start_session_when_ready E R i svc ready s"
| "exported_method E R i GetTimedLoginDetails s = gdm_session_handle_get_timed_login_details i s"
| "exported_method E R i StopConflictingSession s = gdm_session_handle_client_stop_conflicting_session E R i s"
| "exported_method E R i (BeginAutoLogin user) s = gdm_session_handle_client_begin_auto_login E i user s"

text \<open>A method is there once its interface has been exported.\<close>

definition handle_client :: "senv \<Rightarrow> listener \<Rightarrow> nat \<Rightarrow> client_call \<Rightarrow> session \<Rightarrow> session run" where
  "handle_client E R i m s =
     (if (if of_greeter m then greeter_interface s else user_verifier_interface s)
      then exported_method E R i m s else Ret (logS [Answer i NotHandled] s))"

definition allow_user_function ::
  "senv \<Rightarrow> listener \<Rightarrow> u32 \<Rightarrow> int \<Rightarrow> session \<Rightarrow> (bool \<times> session) run" where
  "allow_user_function E R client_uid pid_of_client s =
     (if client_uid = allowed_user s then Ret (True, s)
      else bindR (emit E R (CLIENT_REJECTED pid_of_client) s) (\<lambda>s. Ret (False, s)))"

definition handle_connection_from_outside :: "senv \<Rightarrow> listener \<Rightarrow> nat \<Rightarrow> int \<Rightarrow> session \<Rightarrow> session run" where
  "handle_connection_from_outside E R conn pid s =
     emit E R (CLIENT_CONNECTED pid)
       (s\<lparr>outside_connections := conn # outside_connections s, user_verifier_interface := True,
          greeter_interface := greeter_interface s \<or> verification_mode s = LOGIN\<rparr>)"

definition on_outside_connection_closed :: "senv \<Rightarrow> listener \<Rightarrow> nat \<Rightarrow> int \<Rightarrow> session \<Rightarrow> session run" where
  "on_outside_connection_closed E R conn pid s =
     emit E R (CLIENT_DISCONNECTED pid) (s\<lparr>outside_connections := remove1 conn (outside_connections s)\<rparr>)"

section \<open>Running a session\<close>

datatype session_event =
    OwnerCalls session_api
  | CallDone nat call_result
  | WorkerSignals nat wsignal
  | WorkerConnects nat u32 int
  | WorkerDisconnects nat
  | WorkerHello nat nat
  | WorkerAsks nat string manager_query
  | ClientCalls nat client_call
  | ClientConnects nat u32 int
  | ClientDisconnects nat int
  | ChildDone nat nat

text \<open>
  One dispatch of the main loop. The handlers of a worker's signals are connected as long as
  its conversation has the proxy.
\<close>

fun session_step :: "senv \<Rightarrow> listener \<Rightarrow> session_event \<Rightarrow> session \<Rightarrow> session run" where
  "session_step E R (OwnerCalls a) s = api_call E a s"
| "session_step E R (CallDone i r) s = call_done E R i r s"
| "session_step E R (WorkerSignals c g) s =
     (case convs s c of
        None \<Rightarrow> Ret s
      | Some v \<Rightarrow> if worker_proxy v then worker_signal E R c g s else Ret s)"
| "session_step E R (WorkerConnects conn u pid) s =
     Ret (if allow_worker_function u s then handle_connection_from_worker conn pid s else s)"
| "session_step E R (WorkerDisconnects conn) s = Ret (on_worker_connection_closed conn s)"
| "session_step E R (WorkerHello i conn) s = register_worker E R i conn s"
| "session_step E R (WorkerAsks i svc q) s = worker_manager_call i svc q s"
| "session_step E R (ClientCalls i m) s = handle_client E R i m s"
| "session_step E R (ClientConnects conn u pid) s =
     bindR (allow_user_function E R u pid s) (\<lambda>(ok, s).
       if ok then handle_connection_from_outside E R conn pid s else Ret s)"
| "session_step E R (ClientDisconnects conn pid) s =
     on_outside_connection_closed E R conn pid s"
| "session_step E R (ChildDone i wait_status) s = child_done E R i wait_status s"

definition run_session :: "senv \<Rightarrow> listener \<Rightarrow> session_event list \<Rightarrow> session \<Rightarrow> session run" where
  "run_session E R es s = foldR (session_step E R) es s"

end
