(* ===== verification/Gdm_Session_Safety.thy ===== *)
theory Gdm_Session_Safety
  imports Gdm_Session
begin

text \<open>
  Safety of \<^verbatim>\<open>daemon/gdm-session.c\<close>. The invariant \<open>sgood\<close> says which conversations are
  alive, who may still point to them and in which order calls went to the workers. Every
  operation keeps it and uses no freed conversation; what a listener of the session must not do
  inside a signal for this to hold is the locale \<open>gentle_listener\<close>, interpreted for the four
  owners that a session has.
\<close>

named_theorems sess_safe \<open>operations of a session keep the invariant\<close>

section \<open>Safe runs\<close>

definition memory_errors :: "string set" where
  "memory_errors = {freed_conversation, null_conversation, freed_job}"

definition run_safe :: "('a \<Rightarrow> bool) \<Rightarrow> 'a run \<Rightarrow> bool" where
  "run_safe Q m = (case m of Ret x \<Rightarrow> Q x | Stop e \<Rightarrow> e \<notin> memory_errors | OutOfFuel \<Rightarrow> False)"

lemma run_safe_simps [simp]:
  "run_safe Q (Ret x) = Q x" "run_safe Q (Stop e) = (e \<notin> memory_errors)" "\<not> run_safe Q OutOfFuel"
  by (simp_all add: run_safe_def)

lemma run_safe_bind:
  "run_safe P m \<Longrightarrow> (\<And>x. P x \<Longrightarrow> run_safe Q (f x)) \<Longrightarrow> run_safe Q (bindR m f)"
  by (cases m) auto

lemma run_safe_mono: "run_safe P m \<Longrightarrow> (\<And>x. P x \<Longrightarrow> Q x) \<Longrightarrow> run_safe Q m"
  by (cases m) auto

lemma run_safe_foldR:
  "P s \<Longrightarrow> (\<And>x t. x \<in> set xs \<Longrightarrow> P t \<Longrightarrow> run_safe P (f x t)) \<Longrightarrow> run_safe P (foldR f xs s)"
  by (induction xs arbitrary: s) (auto intro!: run_safe_bind)

lemma errors_differ [simp]:
  "stale_session_conversation \<notin> memory_errors"
  "''Cannot find a command for specified session'' \<notin> memory_errors"
  "''set_pending_query: pending_invocation'' \<notin> memory_errors"
  by (simp_all add: memory_errors_def stale_session_conversation_def freed_conversation_def
      null_conversation_def freed_job_def)

section \<open>The order of the calls\<close>

text \<open>
  What a call needs before it: a call to a worker follows the success of the step before, on
  the same conversation, and only a sent call succeeds.
\<close>

fun call_allowed :: "session_call set \<Rightarrow> session_call \<Rightarrow> bool" where
  "call_allowed C (SendCall c CallAuthenticate) = (\<exists>d. CallSucceeded c (CallInitialize d) \<in> C)"
| "call_allowed C (SendCall c CallAuthorize) = (CallSucceeded c CallAuthenticate \<in> C)"
| "call_allowed C (SendCall c CallEstablishCredentials) = (CallSucceeded c CallAuthorize \<in> C)"
| "call_allowed C (SendCall c CallOpen) = (CallSucceeded c CallEstablishCredentials \<in> C)"
| "call_allowed C (CallSucceeded c m) = (SendCall c m \<in> C)"
| "call_allowed C _ = True"

fun call_order :: "session_call set \<Rightarrow> session_call list \<Rightarrow> bool" where
  "call_order C [] = True"
| "call_order C (x # xs) = (call_allowed C x \<and> call_order (insert x C) xs)"

lemma call_order_append: "call_order C (xs @ ys) \<longleftrightarrow> call_order C xs \<and> call_order (C \<union> set xs) ys"
  by (induction xs arbitrary: C) auto

lemma call_order_snoc:
  "call_order C (xs @ [x]) \<longleftrightarrow> call_order C xs \<and> call_allowed (C \<union> set xs) x"
  by (simp add: call_order_append)

text \<open>Entries of the log that are no calls to workers need nothing.\<close>

fun is_worker_call :: "session_call \<Rightarrow> bool" where
  "is_worker_call (SendCall c m) = True"
| "is_worker_call (CallSucceeded c m) = True"
| "is_worker_call _ = False"

lemma other_entries_allowed: "\<not> is_worker_call x \<Longrightarrow> call_allowed C x"
  by (cases x) auto

lemma other_entries_order: "\<forall>x \<in> set xs. \<not> is_worker_call x \<Longrightarrow> call_order C xs"
  by (induction xs arbitrary: C) (auto simp: other_entries_allowed)

section \<open>The invariant\<close>

text \<open>
  \<open>X\<close> are the conversations that have left the table and are not freed yet, \<open>L\<close> conversations
  that must stay alive, \<open>C\<close> entries that are in the log, \<open>m\<close> the mode of the session.
\<close>

definition table_good :: "nat set \<Rightarrow> session \<Rightarrow> bool" where
  "table_good X s =
     (ght_wf (conversations s) \<and>
      (\<forall>(n, v) \<in> set (conversations s). \<exists>c w. v = Some c \<and> convs s c = Some w \<and> service_name w = n \<and> c \<notin> X) \<and>
      (\<forall>c w. convs s c = Some w \<longrightarrow> c < next_conv s \<and> (c \<in> X \<or> (service_name w, Some c) \<in> set (conversations s))))"

fun initialized_service :: "(string \<times> variant) list \<Rightarrow> string option" where
  "initialized_service ((k, VString svc) # d) = (if k = ''service'' then Some svc else None)"
| "initialized_service _ = None"

definition calls_good :: "session \<Rightarrow> bool" where
  "calls_good s =
     ((\<forall>(i, c, k, m) \<in> set (inflight s).
         SendCall c m \<in> set (log s) \<and>
         (k \<notin> set (cancelled_ids s) \<longrightarrow> (\<exists>w. convs s c = Some w \<and> worker_cancellable w = Some k))) \<and>
      (\<forall>c w. convs s c = Some w \<longrightarrow> (worker_proxy w \<longleftrightarrow> worker_cancellable w \<noteq> None)) \<and>
      call_order {} (log s) \<and>
      (\<forall>c d. SendCall c (CallInitialize d) \<in> set (log s) \<longrightarrow> c < next_conv s \<and>
         (\<forall>w. convs s c = Some w \<longrightarrow> initialized_service d = Some (service_name w))) \<and>
      ((\<exists>c. SendCall c CallOpen \<in> set (log s)) \<longrightarrow> verification_mode s = LOGIN))"

definition watches_good :: "session \<Rightarrow> bool" where
  "watches_good s =
     (0 < next_watch s \<and>
      (\<forall>(i, c) \<in> set (child_watches s). \<exists>w j. convs s c = Some w \<and> job w = Some j \<and>
         job_child_watch_id j = i \<and> 0 < i \<and> 1 < job_pid j \<and> (service_name w, Some c) \<in> set (conversations s)))"

definition sgood :: "nat set \<Rightarrow> nat set \<Rightarrow> session_call set \<Rightarrow> verification_mode \<Rightarrow> session \<Rightarrow> bool" where
  "sgood X L C m s =
     (table_good X s \<and> calls_good s \<and> watches_good s \<and> X \<union> L \<subseteq> dom (convs s) \<and> C \<subseteq> set (log s) \<and>
      verification_mode s = m)"

lemmas sgood_defs = sgood_def table_good_def calls_good_def watches_good_def

text \<open>Log entries that are no calls to workers, and the fields that the invariant does not read.\<close>

lemma sgood_logS:
  assumes "sgood X L C m s" "\<forall>x \<in> set cs. \<not> is_worker_call x"
  shows "sgood X L C m (logS cs s)"
proof -
  from assms(2) have no: "SendCall c k \<notin> set cs" for c k by force
  show ?thesis
    using assms no
    by (auto simp: logS_def sgood_defs call_order_append other_entries_order split: prod.splits)
qed

lemma sgood_log [simp]:
  "sgood X L C m s \<Longrightarrow> sgood X L C m (logS [Answer i r] s)"
  "sgood X L C m s \<Longrightarrow> sgood X L C m (logS [Emit g] s)"
  "sgood X L C m s \<Longrightarrow> sgood X L C m (logS [JobEffect e] s)"
  "sgood X L C m s \<Longrightarrow> sgood X L C m (logS [CloseConnection c] s)"
  "sgood X L C m s \<Longrightarrow> sgood X L C m (logS [Critical t] s)"
  "sgood X L C m s \<Longrightarrow> sgood X L C m (logS [Verifier h] s)"
  "sgood X L C m s \<Longrightarrow> sgood X L C m (logS [SignalSession p] s)"
  "sgood X L C m s \<Longrightarrow> sgood X L C m (logS [Critical t, Answer i r] s)"
  "sgood X L C m s \<Longrightarrow> sgood X L C m (logS [Answer i r, ClosePeer n] s)"
  "sgood X L C m s \<Longrightarrow> sgood X L C m (verifier h s)"
  "sgood X L C m s \<Longrightarrow> sgood X L C m (greeter d s)"
  by (simp_all add: sgood_logS verifier_def greeter_def)

lemma sgood_fields [simp]:
  "sgood X L C m (s\<lparr>selected_session := a0\<rparr>) = sgood X L C m s"
  "sgood X L C m (s\<lparr>saved_session := a1\<rparr>) = sgood X L C m s"
  "sgood X L C m (s\<lparr>saved_session_type := a2\<rparr>) = sgood X L C m s"
  "sgood X L C m (s\<lparr>saved_language := a3\<rparr>) = sgood X L C m s"
  "sgood X L C m (s\<lparr>selected_user := a4\<rparr>) = sgood X L C m s"
  "sgood X L C m (s\<lparr>timed_login_username := a5\<rparr>) = sgood X L C m s"
  "sgood X L C m (s\<lparr>timed_login_delay := a6\<rparr>) = sgood X L C m s"
  "sgood X L C m (s\<lparr>session_conversation := a7\<rparr>) = sgood X L C m s"
  "sgood X L C m (s\<lparr>conversation_environment := a8\<rparr>) = sgood X L C m s"
  "sgood X L C m (s\<lparr>user_verifier_interface := a9\<rparr>) = sgood X L C m s"
  "sgood X L C m (s\<lparr>user_verifier_extensions := a10\<rparr>) = sgood X L C m s"
  "sgood X L C m (s\<lparr>greeter_interface := a11\<rparr>) = sgood X L C m s"
  "sgood X L C m (s\<lparr>pending_worker_connections := a12\<rparr>) = sgood X L C m s"
  "sgood X L C m (s\<lparr>outside_connections := a13\<rparr>) = sgood X L C m s"
  "sgood X L C m (s\<lparr>session_pid := a14\<rparr>) = sgood X L C m s"
  "sgood X L C m (s\<lparr>session_type := a15\<rparr>) = sgood X L C m s"
  "sgood X L C m (s\<lparr>display_hostname := a16\<rparr>) = sgood X L C m s"
  "sgood X L C m (s\<lparr>display_device := a17\<rparr>) = sgood X L C m s"
  "sgood X L C m (s\<lparr>display_seat_id := a18\<rparr>) = sgood X L C m s"
  "sgood X L C m (s\<lparr>display_is_local := a19\<rparr>) = sgood X L C m s"
  "sgood X L C m (s\<lparr>allowed_user := a20\<rparr>) = sgood X L C m s"
  "sgood X L C m (s\<lparr>fallback_session_name := a21\<rparr>) = sgood X L C m s"
  "sgood X L C m (s\<lparr>environment := a22\<rparr>) = sgood X L C m s"
  "sgood X L C m (s\<lparr>supported_session_types := a23\<rparr>) = sgood X L C m s"
  "sgood X L C m (s\<lparr>is_program_session := a24\<rparr>) = sgood X L C m s"
  "sgood X L C m (s\<lparr>display_is_initial := a25\<rparr>) = sgood X L C m s"
  "sgood X L C m (s\<lparr>is_opened := a26\<rparr>) = sgood X L C m s"
  "sgood X L C m (s\<lparr>session_opened := a27\<rparr>) = sgood X L C m s"
  "sgood X L C m (s\<lparr>next_cancellable := a28\<rparr>) = sgood X L C m s"
  "sgood X L C m (s\<lparr>next_call := a29\<rparr>) = sgood X L C m s"
  by (simp_all add: sgood_defs)

lemma sgood_weaken: "sgood X L C m s \<Longrightarrow> L' \<subseteq> L \<Longrightarrow> C' \<subseteq> C \<Longrightarrow> sgood X L' C' m s"
  by (auto simp: sgood_def)

lemma sgood_mode: "sgood X L C m s \<Longrightarrow> verification_mode s = m"
  by (simp add: sgood_def)

section \<open>Operations that only read conversations\<close>

definition with_state :: "nat set \<Rightarrow> nat set \<Rightarrow> session_call set \<Rightarrow> verification_mode \<Rightarrow> 'a \<times> session \<Rightarrow> bool" where
  "with_state X L C m = (\<lambda>(a, s). sgood X L C m s)"

lemma with_state_pair [simp]: "with_state X L C m (a, s) = sgood X L C m s"
  by (simp add: with_state_def)

lemma run_safe_bind_state:
  "run_safe (with_state X L C m) r \<Longrightarrow> (\<And>a s. sgood X L C m s \<Longrightarrow> run_safe Q (f (a, s))) \<Longrightarrow> run_safe Q (bindR r f)"
  by (cases r) (auto simp: with_state_def)

lemma fallback_safe: "run_safe (\<lambda>n. True) (get_fallback_session_name F types headless cached)"
  by (auto simp: get_fallback_session_name_def memory_errors_def freed_conversation_def
      null_conversation_def freed_job_def split: option.split list.split)

lemma session_name_safe [sess_safe]:
  assumes "sgood X L C m s"
  shows "run_safe (with_state X L C m) (get_default_session_name E s)"
    and "run_safe (with_state X L C m) (get_session_name E s)"
  using assms
  by (auto simp: get_default_session_name_def get_session_name_def
      intro!: run_safe_bind [OF fallback_safe] split: option.split)

lemma session_query_safe [sess_safe]:
  assumes "sgood X L C m s"
  shows "run_safe (with_state X L C m) (gdm_session_is_wayland_session E s)"
    and "run_safe (with_state X L C m) (gdm_session_session_registers E s)"
    and "run_safe (with_state X L C m) (get_session_command E s)"
    and "run_safe (with_state X L C m) (get_session_desktop_names E s)"
  using assms
  unfolding gdm_session_is_wayland_session_def gdm_session_session_registers_def
    get_session_command_def get_session_desktop_names_def
  by (auto intro!: run_safe_bind_state [OF session_name_safe(2)] split: option.split)

lemma set_session_type_good [simp]: "sgood X L C m s \<Longrightarrow> sgood X L C m (set_session_type t s)"
  by (simp add: set_session_type_def)

lemma update_session_type_safe [sess_safe]:
  "sgood X L C m s \<Longrightarrow> run_safe (sgood X L C m) (update_session_type E s)"
  unfolding update_session_type_def
  by (rule run_safe_bind_state [where X = X and L = L and C = C and m = m]) (auto intro: session_query_safe)

lemma defaults_changed_safe [sess_safe]:
  "sgood X L C m s \<Longrightarrow> run_safe (sgood X L C m) (gdm_session_defaults_changed E s)"
  unfolding gdm_session_defaults_changed_def
  by (rule run_safe_bind [OF update_session_type_safe])
     (auto intro!: run_safe_bind_state [where X = X and L = L and C = C and m = m] session_name_safe)

lemma select_user_good [simp]: "sgood X L C m s \<Longrightarrow> sgood X L C m (gdm_session_select_user u s)"
  by (simp add: gdm_session_select_user_def split: option.split)

lemma set_property_good [simp]: "sgood X L C m s \<Longrightarrow> sgood X L C m (gdm_session_set_property p s)"
  by (cases p) (simp_all add: gdm_session_set_supported_session_types_def)

lemma set_environment_good [simp]:
  "sgood X L C m (gdm_session_set_environment_variable k v s) = sgood X L C m s"
  by (simp add: gdm_session_set_environment_variable_def)

lemma set_language_good [simp]: "sgood X L C m s \<Longrightarrow> sgood X L C m (set_up_session_language E s)"
proof -
  have "sgood X L C m s \<Longrightarrow> sgood X L C m (fold (\<lambda>(k, v). gdm_session_set_environment_variable k v) xs s)" for xs
    by (induction xs arbitrary: s) auto
  then show "sgood X L C m s \<Longrightarrow> sgood X L C m (set_up_session_language E s)"
    by (simp add: set_up_session_language_def)
qed

lemma set_up_session_environment_safe [sess_safe]:
  "sgood X L C m s \<Longrightarrow> run_safe (sgood X L C m) (set_up_session_environment E s)"
  unfolding set_up_session_environment_def Let_def
  by (rule run_safe_bind_state [OF session_name_safe(2)], assumption)
     (auto intro!: run_safe_bind_state [where X = X and L = L and C = C and m = m] session_query_safe
       split: option.split)

lemma session_program_safe [sess_safe]:
  "sgood X L C m s \<Longrightarrow> run_safe (with_state X L C m) (session_program E s)"
  unfolding session_program_def
  by (rule run_safe_bind_state [OF session_query_safe(3)], assumption)
     (auto intro!: run_safe_bind_state [where X = X and L = L and C = C and m = m] session_query_safe)

section \<open>Operations on conversations that free none\<close>

lemma sgood_live: "sgood X L C m s \<Longrightarrow> c \<in> X \<union> L \<Longrightarrow> \<exists>v. convs s c = Some v"
  by (auto simp: sgood_def)

lemma sgood_keep: "sgood X L C m s \<Longrightarrow> convs s c = Some v \<Longrightarrow> sgood X (insert c L) C m s"
  by (auto simp: sgood_def)

lemma with_conv_live:
  "sgood X L C m s \<Longrightarrow> c \<in> X \<union> L \<Longrightarrow> (\<And>v. convs s c = Some v \<Longrightarrow> run_safe Q (f v)) \<Longrightarrow>
     run_safe Q (with_conv c s f)"
  using sgood_live [of X L C m s c] by (auto simp: with_conv_def)

lemma sgood_find:
  assumes "sgood X L C m s" "find_conversation_by_name n s = Some c"
  shows "\<exists>v. convs s c = Some v \<and> service_name v = n \<and> (n, Some c) \<in> set (conversations s) \<and> c \<notin> X"
  using assms
  by (fastforce simp: find_conversation_by_name_def sgood_def table_good_def dest: ght_lookup_SomeD
      split: option.splits)

lemma sgood_entry:
  assumes "sgood X L C m s" "entry \<in> set (conversations s)"
  shows "\<exists>c. snd entry = Some c \<and> (\<exists>v. convs s c = Some v \<and> service_name v = fst entry) \<and> c \<notin> X"
  using assms by (cases entry) (fastforce simp: sgood_def table_good_def)

text \<open>A conversation of the table keeps its name, its proxy, its cancellable and its job.\<close>

lemma sgood_put_watched:
  assumes "sgood X L C m s" "convs s c = Some v" "service_name v' = service_name v"
    "worker_proxy v' = worker_proxy v" "worker_cancellable v' = worker_cancellable v"
    "watches_good (put_conv c v' s)"
  shows "sgood X L C m (put_conv c v' s)"
proof -
  have "table_good X (put_conv c v' s)"
    using assms by (fastforce simp: sgood_def table_good_def put_conv_def)
  moreover have "calls_good (put_conv c v' s)"
    using assms by (fastforce simp: sgood_def calls_good_def put_conv_def)
  ultimately show ?thesis
    using assms by (auto simp: sgood_def put_conv_def)
qed

lemma sgood_put:
  assumes "sgood X L C m s" "convs s c = Some v" "service_name v' = service_name v"
    "worker_proxy v' = worker_proxy v" "worker_cancellable v' = worker_cancellable v" "job v' = job v"
  shows "sgood X L C m (put_conv c v' s)"
  using assms by (intro sgood_put_watched [OF assms(1,2)]) (fastforce simp: sgood_def watches_good_def put_conv_def)+

lemma close_conversation_safe [sess_safe]:
  "sgood X L C m s \<Longrightarrow> c \<in> X \<union> L \<Longrightarrow> run_safe (sgood X L C m) (close_conversation c s)"
  unfolding close_conversation_def
  by (rule with_conv_live) (auto simp: Let_def intro!: sgood_put sgood_log)

lemma perform_job_effect_good [simp]:
  "sgood X L C m s \<Longrightarrow> sgood X L C m (perform_job_effect e s)"
proof -
  assume s: "sgood X L C m s"
  have "sgood X L C m (s\<lparr>child_watches := filter P (child_watches s)\<rparr>)" for P
    using s by (auto simp: sgood_defs)
  with s show ?thesis by (cases e) (simp_all add: perform_job_effect_def)
qed

lemma perform_job_effects_good [simp]:
  "sgood X L C m s \<Longrightarrow> sgood X L C m (fold perform_job_effect es s)"
  by (induction es arbitrary: s) auto

lemma stop_conversation_safe [sess_safe]:
  assumes "sgood X L C m s" "c \<in> X \<union> L"
  shows "run_safe (sgood X L C m) (stop_conversation c s)"
  unfolding stop_conversation_def
  by (rule run_safe_bind [OF close_conversation_safe [OF assms]])
     (rule with_conv_live [OF _ assms(2)],
      auto intro!: sgood_put sgood_log perform_job_effects_good simp: Let_def split: option.split)

text \<open>Entries of the table may be stopped one after the other: none of them is freed.\<close>

definition entries :: "session \<Rightarrow> nat set" where
  "entries s = {c. \<exists>n. (n, Some c) \<in> set (conversations s)}"

lemma sgood_entries: "sgood X L C m s \<Longrightarrow> sgood X (L \<union> entries s) C m s"
  by (fastforce simp: sgood_def table_good_def entries_def)

lemma foldR_entries_safe:
  assumes "sgood X L C m s"
    and "\<And>e c t. snd e = Some c \<Longrightarrow> c \<in> entries s \<Longrightarrow> sgood X (L \<union> entries s) C m t \<Longrightarrow>
           run_safe (sgood X (L \<union> entries s) C m) (f e t)"
  shows "run_safe (sgood X L C m) (foldR f (conversations s) s)"
proof (rule run_safe_mono [OF run_safe_foldR [where P = "sgood X (L \<union> entries s) C m"]])
  show "sgood X (L \<union> entries s) C m s" by (rule sgood_entries [OF assms(1)])
next
  fix e t
  assume e: "e \<in> set (conversations s)" and t: "sgood X (L \<union> entries s) C m t"
  from sgood_entry [OF assms(1) e] obtain c where c: "snd e = Some c" by blast
  with e have "c \<in> entries s" by (metis (mono_tags) entries_def mem_Collect_eq prod.collapse)
  then show "run_safe (sgood X (L \<union> entries s) C m) (f e t)" by (rule assms(2) [OF c _ t])
qed (auto intro: sgood_weaken)

lemma stop_all_other_safe [sess_safe]:
  "sgood X L C m s \<Longrightarrow> run_safe (sgood X L C m) (stop_all_other_conversations keep s)"
  unfolding stop_all_other_conversations_def
  by (rule foldR_entries_safe) (auto simp: stop_entry_def intro: stop_conversation_safe)

lemma on_conversation_safe:
  assumes "sgood X L C m s"
    and "\<And>c v. convs s c = Some v \<Longrightarrow> service_name v = svc \<Longrightarrow> sgood X (insert c L) C m s \<Longrightarrow>
           run_safe (sgood X (insert c L) C m) (f c s)"
  shows "run_safe (sgood X L C m) (on_conversation svc f s)"
proof (cases "find_conversation_by_name svc s")
  case (Some c)
  from sgood_find [OF assms(1) Some] obtain v where "convs s c = Some v" "service_name v = svc" by blast
  then have "run_safe (sgood X (insert c L) C m) (f c s)"
    using assms(2) sgood_keep [OF assms(1)] by blast
  then show ?thesis
    using Some by (auto simp: on_conversation_def elim!: run_safe_mono intro: sgood_weaken)
qed (simp add: on_conversation_def assms)

lemma gdm_session_stop_conversation_safe [sess_safe]:
  "sgood X L C m s \<Longrightarrow> run_safe (sgood X L C m) (gdm_session_stop_conversation svc s)"
proof -
  assume s: "sgood X L C m s"
  have "run_safe (sgood X L C m) (on_conversation svc stop_conversation s)"
    by (rule on_conversation_safe [OF s]) (auto intro: stop_conversation_safe)
  then show ?thesis by (simp add: on_conversation_def gdm_session_stop_conversation_def)
qed

section \<open>Operations that free conversations\<close>

definition unwatched :: "nat set \<Rightarrow> session \<Rightarrow> bool" where
  "unwatched D s = (\<forall>(i, c) \<in> set (child_watches s). c \<notin> D)"

text \<open>The job of a conversation that is not watched may change.\<close>

lemma sgood_put_job:
  assumes "sgood X L C m s" "unwatched {c} s" "convs s c = Some v" "service_name v' = service_name v"
    "worker_proxy v' = worker_proxy v" "worker_cancellable v' = worker_cancellable v"
  shows "sgood X L C m (put_conv c v' s)"
  using assms by (intro sgood_put_watched [OF assms(1,3)])
    (force simp: sgood_def watches_good_def put_conv_def unwatched_def)+

lemma unwatched_put [simp]: "unwatched D (put_conv c v s) = unwatched D s"
  by (simp add: unwatched_def put_conv_def)

lemma unwatched_logS [simp]: "unwatched D (logS cs s) = unwatched D s"
  by (simp add: unwatched_def logS_def)

lemma conversations_put [simp]: "conversations (put_conv c v s) = conversations s"
  by (simp add: put_conv_def)

lemma convs_logS [simp]: "convs (logS cs s) = convs s"
  by (simp add: logS_def)

lemma conversations_logS [simp]: "conversations (logS cs s) = conversations s"
  by (simp add: logS_def)

lemma fold_job_effects:
  "fold perform_job_effect es s =
     s\<lparr>log := log s @ map JobEffect es, child_watches := filter (\<lambda>(i, c). RemoveWatch i \<notin> set es) (child_watches s)\<rparr>"
proof (induction es arbitrary: s)
  case (Cons e es)
  have one: "perform_job_effect e s =
      s\<lparr>log := log s @ [JobEffect e], child_watches := filter (\<lambda>(i, c). RemoveWatch i \<noteq> e) (child_watches s)\<rparr>"
    by (cases e) (auto simp: perform_job_effect_def logS_def intro!: filter_cong)
  show ?case
    unfolding fold.simps comp_def Cons.IH one
    by (auto simp: conj_commute case_prod_unfold intro!: filter_cong)
qed simp

text \<open>Stopping a job at once removes the watch of its conversation.\<close>

lemma drop_job_now_safe:
  assumes s: "sgood X L C m s" and c: "c \<in> X \<union> L" and d: "unwatched D s"
  shows "run_safe (\<lambda>t. sgood X L C m t \<and> unwatched (insert c D) t \<and> conversations t = conversations s)
           (drop_job_now c s)"
  unfolding drop_job_now_def
proof (rule with_conv_live [OF s c])
  fix v
  assume v: "convs s c = Some v"
  show "run_safe (\<lambda>t. sgood X L C m t \<and> unwatched (insert c D) t \<and> conversations t = conversations s)
      (Ret (case job v of
          None \<Rightarrow> logS [Critical ''gdm_session_worker_job_stop_now''] s
        | Some j \<Rightarrow>
            let (j1, effects) = gdm_session_worker_job_stop_now j
            in fold perform_job_effect (effects @ gdm_session_worker_job_finalize j1)
                 (put_conv c (v\<lparr>job := None\<rparr>) s)))"
  proof (cases "job v")
    case None
    with s v have "unwatched {c} s" by (force simp: sgood_def watches_good_def unwatched_def)
    with d have "unwatched (insert c D) s" by (fastforce simp: unwatched_def)
    with None s show ?thesis by simp
  next
    case (Some j)
    define es where "es = snd (gdm_session_worker_job_stop_now j) @
      gdm_session_worker_job_finalize (fst (gdm_session_worker_job_stop_now j))"
    have w: "RemoveWatch i \<in> set es" if "(i, c) \<in> set (child_watches s)" for i
    proof -
      have "job_child_watch_id j = i" "0 < i" "1 < job_pid j"
        using s that v Some by (force simp: sgood_def watches_good_def)+
      then show ?thesis by (simp add: es_def gdm_session_worker_job_stop_now_def Let_def
          handle_session_worker_job_death_def)
    qed
    define t where "t = fold perform_job_effect es s"
    have t: "sgood X L C m t" "convs t c = Some v" "conversations t = conversations s"
      using s v by (simp_all add: t_def) (simp_all add: fold_job_effects)
    have u: "unwatched (insert c D) t"
      using w d by (auto simp: t_def fold_job_effects unwatched_def)
    then have "unwatched {c} t" by (auto simp: unwatched_def)
    then have "sgood X L C m (put_conv c (v\<lparr>job := None\<rparr>) t)"
      using t by (intro sgood_put_job) auto
    moreover have "fold perform_job_effect es (put_conv c (v\<lparr>job := None\<rparr>) s) = put_conv c (v\<lparr>job := None\<rparr>) t"
      by (simp add: t_def fold_job_effects put_conv_def)
    ultimately show ?thesis
      using Some t(3) u by (simp add: es_def case_prod_unfold Let_def)
  qed
qed

text \<open>A conversation that has left the table can be freed: its calls are cancelled.\<close>

lemma free_conversation_safe:
  assumes "sgood X L C m s" "c \<in> X" "c \<notin> L"
  shows "run_safe (sgood (X - {c}) L C m) (free_conversation c s)"
  unfolding free_conversation_def
proof (rule run_safe_bind [OF close_conversation_safe [OF assms(1)]])
  show "c \<in> X \<union> L" using assms(2) by simp
next
  fix t
  assume t: "sgood X L C m t"
  show "run_safe (sgood (X - {c}) L C m) (with_conv c t (\<lambda>v.
      let s1 = (case worker_cancellable v of None \<Rightarrow> t | Some k \<Rightarrow> t\<lparr>cancelled_ids := k # cancelled_ids t\<rparr>)
      in Ret (s1\<lparr>convs := (convs s1)(c := None)\<rparr>)))"
  proof (rule with_conv_live [OF t])
    show "c \<in> X \<union> L" using assms(2) by simp
    fix v
    assume v: "convs t c = Some v"
    define ks where "ks = (case worker_cancellable v of None \<Rightarrow> [] | Some k \<Rightarrow> [k])"
    define u where "u = t\<lparr>cancelled_ids := ks @ cancelled_ids t, convs := (convs t)(c := None)\<rparr>"
    have tab: "(n, Some c) \<notin> set (conversations t)" for n
      using t assms(2) by (fastforce simp: sgood_def table_good_def)
    have "table_good (X - {c}) u"
      using t v tab by (fastforce simp: sgood_def table_good_def u_def)
    moreover have "calls_good u"
      using t v by (fastforce simp: sgood_def calls_good_def u_def ks_def)
    moreover have "watches_good u"
      using t v tab by (fastforce simp: sgood_def watches_good_def u_def)
    ultimately have "sgood (X - {c}) L C m u"
      using t assms(3) by (auto simp: sgood_def u_def)
    then show "run_safe (sgood (X - {c}) L C m)
        (let s1 = (case worker_cancellable v of None \<Rightarrow> t | Some k \<Rightarrow> t\<lparr>cancelled_ids := k # cancelled_ids t\<rparr>)
         in Ret (s1\<lparr>convs := (convs s1)(c := None)\<rparr>))"
      by (simp add: Let_def u_def ks_def split: option.splits)
  qed
qed

lemma set_ght_insert: "ght_wf t \<Longrightarrow> set (ght_insert k v t) = insert (k, v) {(j, w) \<in> set t. j \<noteq> k}"
  by (induction t) (auto simp: ght_insert_def ght_wf_def image_iff)

text \<open>Conversations that nothing watches may leave the table.\<close>

lemma sgood_detach:
  assumes "sgood X L C m s" "unwatched D s" "ght_wf T"
    and "set T \<subseteq> set (conversations s)"
    and "\<And>n c. (n, Some c) \<in> set (conversations s) \<Longrightarrow> (n, Some c) \<in> set T \<longleftrightarrow> c \<notin> D"
    and "D \<subseteq> entries s"
  shows "sgood (X \<union> D) L C m (s\<lparr>conversations := T\<rparr>)"
proof -
  have entry: "\<exists>w. convs s c = Some w \<and> service_name w = n \<and> c \<notin> X" if "(n, Some c) \<in> set (conversations s)" for n c
    using sgood_entry [OF assms(1) that] by auto
  have live: "\<exists>w. convs s c = Some w" if "c \<in> D" for c
  proof -
    from that assms(6) obtain n where "(n, Some c) \<in> set (conversations s)" by (auto simp: entries_def)
    from entry [OF this] show ?thesis by blast
  qed
  have "\<exists>c w. v = Some c \<and> convs s c = Some w \<and> service_name w = n \<and> c \<notin> X \<union> D" if "(n, v) \<in> set T" for n v
  proof -
    have e: "(n, v) \<in> set (conversations s)" using that assms(4) by blast
    then obtain c where "v = Some c" using sgood_entry [OF assms(1) e] by auto
    with e entry [of n c] assms(5) [of n c] that show ?thesis by auto
  qed
  moreover have "c < next_conv s \<and> (c \<in> X \<union> D \<or> (service_name w, Some c) \<in> set T)" if "convs s c = Some w" for c w
    using that assms(1) assms(5) [of "service_name w" c] by (auto simp: sgood_def table_good_def)
  ultimately have "table_good (X \<union> D) (s\<lparr>conversations := T\<rparr>)"
    using assms(3) by (auto simp: table_good_def)
  moreover have "watches_good (s\<lparr>conversations := T\<rparr>)"
    using assms(1,2,5) by (fastforce simp: sgood_def watches_good_def unwatched_def)
  ultimately show ?thesis
    using assms(1) live by (auto simp: sgood_def calls_good_def)
qed

text \<open>
  The system starts every worker that the session asks for: the command of the worker has at
  least one word, and the new process has a number above 1.
\<close>

definition workers_start :: "senv \<Rightarrow> bool" where
  "workers_start E =
     ((\<forall>cmd. \<exists>a args. parse_command E cmd = Some (a # args)) \<and>
      (\<forall>l args env. \<exists>p. spawn_worker E l args env = Some p \<and> 1 < p))"

lemma start_conversation_started:
  assumes "workers_start E" "0 < next_watch s"
  obtains j where "start_conversation E svc s =
      (Some (next_conv s), (put_conv (next_conv s)
         \<lparr>job = Some j, worker_pid = job_pid j, service_name = svc,
          starting_invocation = None, starting_username = None, pending_invocation = None,
          worker_manager_interface = False, worker_proxy = False, worker_cancellable = None,
          session_id = None, is_stopping = False, reauth_pid_of_caller = 0\<rparr> s)
         \<lparr>next_watch := Suc (next_watch s), next_conv := Suc (next_conv s),
          child_watches := (next_watch s, next_conv s) # child_watches s\<rparr>)"
    and "1 < job_pid j" "job_child_watch_id j = next_watch s"
proof -
  define j0 where "j0 = (case conversation_environment s of
      None \<Rightarrow> gdm_session_worker_job_set_for_reauth (verification_mode s = REAUTHENTICATE)
                 (gdm_session_worker_job_set_server_address (worker_server s)
                   (gdm_session_worker_job_new (LIBEXECDIR E)))
    | Some env \<Rightarrow> gdm_session_worker_job_set_environment env
        (gdm_session_worker_job_set_for_reauth (verification_mode s = REAUTHENTICATE)
                 (gdm_session_worker_job_set_server_address (worker_server s)
                   (gdm_session_worker_job_new (LIBEXECDIR E)))))"
  from assms(1) obtain a args where args: "get_job_arguments (parse_command E) j0 (job_name svc) = Some (a # args)"
    unfolding workers_start_def get_job_arguments_def by (metis (no_types, lifting) list.simps(5) option.simps(5))
  from assms(1) obtain p where p: "spawn_worker E (log s) (a # args)
      (get_job_environment (env_strings (process_environ E)) j0) = Some p" "1 < p"
    unfolding workers_start_def by blast
  define j where "j = j0\<lparr>job_pid := p, job_child_watch_id := next_watch s\<rparr>"
  have started: "gdm_session_worker_job_start (parse_command E) (env_strings (process_environ E))
      (spawn_worker E (log s)) (next_watch s) (job_name svc) j0 = (True, j)"
    using args p by (simp add: gdm_session_worker_job_start_def gdm_session_worker_job_spawn_def j_def)
  have "1 < job_pid j" "job_child_watch_id j = next_watch s"
    using p by (simp_all add: j_def)
  with started assms(2) show thesis
    by (intro that [of j]) (simp_all add: start_conversation_def j0_def [symmetric] Let_def put_conv_def)
qed

lemma sgood_install:
  assumes s: "sgood X L C m s" and v: "service_name v = svc" "job v = Some j" "\<not> worker_proxy v" "worker_cancellable v = None"
    and j: "1 < job_pid j" "job_child_watch_id j = next_watch s"
    and t: "convs t = (convs s)(next_conv s \<mapsto> v)" "next_conv t = Suc (next_conv s)" "next_watch t = Suc (next_watch s)"
      "child_watches t = (next_watch s, next_conv s) # child_watches s" "inflight t = inflight s"
      "cancelled_ids t = cancelled_ids s" "log t = log s" "verification_mode t = verification_mode s"
    and tab: "ght_wf (conversations t)" "set (conversations t) = insert (svc, Some (next_conv s)) (set (conversations s))"
  shows "sgood X L C m t"
proof -
  have lt: "c < next_conv s" if "convs s c = Some w" for c w
    using s that by (auto simp: sgood_def table_good_def)
  then have fresh: "convs s (next_conv s) = None" by (meson less_irrefl not_None_eq)
  then have X: "next_conv s \<notin> X" using s by (auto simp: sgood_def)
  have entry: "\<exists>c w. u = Some c \<and> convs s c = Some w \<and> service_name w = n \<and> c \<notin> X"
    if "(n, u) \<in> set (conversations s)" for n u
    using sgood_entry [OF s that] by auto
  have "\<exists>c w. u = Some c \<and> convs t c = Some w \<and> service_name w = n \<and> c \<notin> X"
    if "(n, u) \<in> set (conversations t)" for n u
    using that entry [of n u] v X fresh by (fastforce simp: t tab)
  moreover have "c < next_conv t \<and> (c \<in> X \<or> (service_name w, Some c) \<in> set (conversations t))"
    if "convs t c = Some w" for c w
    using that s v by (auto simp: t tab sgood_def table_good_def less_Suc_eq split: if_splits)
  ultimately have "table_good X t"
    using tab(1) by (auto simp: table_good_def)
  moreover have "calls_good t"
    using s v fresh by (fastforce simp: sgood_def calls_good_def t)
  moreover have "watches_good t"
    using s v j fresh by (fastforce simp: sgood_def watches_good_def t tab)
  ultimately show ?thesis
    using s by (auto simp: sgood_def t)
qed

text \<open>A new conversation takes the place of one that nothing watches.\<close>

lemma insert_conversation_safe:
  assumes s: "sgood X {} C m s" and E: "workers_start E"
    and old: "\<And>c. find_conversation_by_name svc s = Some c \<Longrightarrow> unwatched {c} s"
  shows "run_safe (sgood X {} C m)
    (let (v, s) = start_conversation E svc s in insert_conversation svc v s)"
proof -
  have w: "0 < next_watch s" using s by (simp add: sgood_def watches_good_def)
  have wf: "ght_wf (conversations s)" using s by (simp add: sgood_def table_good_def)
  define D where "D = {c. find_conversation_by_name svc s = Some c}"
  define T where "T = ght_remove svc (conversations s)"
  have entry: "(n, v) \<in> set (conversations s) \<Longrightarrow>
      \<exists>c w. v = Some c \<and> convs s c = Some w \<and> service_name w = n \<and> c \<notin> X" for n v
    using sgood_entry [OF s, of "(n, v)"] by auto
  have D: "c \<in> D \<longleftrightarrow> (svc, Some c) \<in> set (conversations s)" for c
    using wf by (auto simp: D_def find_conversation_by_name_def ght_lookup_set [OF wf, symmetric] split: option.splits)
  have d: "sgood (X \<union> D) {} C m (s\<lparr>conversations := T\<rparr>)"
  proof (rule sgood_detach [OF s])
    show "unwatched D s" using old by (auto simp: D_def unwatched_def)
    show "ght_wf T" using wf by (simp add: T_def ght.wf_remove)
    show "set T \<subseteq> set (conversations s)" by (auto simp: T_def ght_remove_set)
    show "D \<subseteq> entries s" by (auto simp: D entries_def)
    fix n c
    assume nc: "(n, Some c) \<in> set (conversations s)"
    then show "(n, Some c) \<in> set T \<longleftrightarrow> c \<notin> D"
      using entry [OF nc] entry [of svc "Some c"] by (auto simp: T_def ght_remove_set D)
  qed
  obtain j where start: "start_conversation E svc s = (Some (next_conv s), (put_conv (next_conv s)
         \<lparr>job = Some j, worker_pid = job_pid j, service_name = svc,
          starting_invocation = None, starting_username = None, pending_invocation = None,
          worker_manager_interface = False, worker_proxy = False, worker_cancellable = None,
          session_id = None, is_stopping = False, reauth_pid_of_caller = 0\<rparr> s)
         \<lparr>next_watch := Suc (next_watch s), next_conv := Suc (next_conv s),
          child_watches := (next_watch s, next_conv s) # child_watches s\<rparr>)"
    and j: "1 < job_pid j" "job_child_watch_id j = next_watch s"
    by (rule start_conversation_started [OF E w])
  define t where "t = (snd (start_conversation E svc s))
    \<lparr>conversations := ght_insert svc (Some (next_conv s)) (conversations s)\<rparr>"
  have t: "sgood (X \<union> D) {} C m t"
    by (rule sgood_install [OF d, where v = "the (convs t (next_conv s))" and j = j and svc = svc])
       (simp_all add: t_def start put_conv_def j ght.wf_insert wf set_ght_insert T_def ght_remove_set)
  have ins: "(let (v, s) = start_conversation E svc s in insert_conversation svc v s) =
      (case ght_lookup (conversations s) svc of
         None \<Rightarrow> Ret t | Some None \<Rightarrow> Stop null_conversation | Some (Some old) \<Rightarrow> free_conversation old t)"
    by (simp add: t_def start insert_conversation_def Let_def put_conv_def split: option.split)
  consider (new) "ght_lookup (conversations s) svc = None" "D = {}"
    | (old) c where "ght_lookup (conversations s) svc = Some (Some c)" "D = {c}" "c \<notin> X"
  proof (cases "ght_lookup (conversations s) svc")
    case (Some v)
    with entry obtain c where "v = Some c" "c \<notin> X" by (blast dest: ght_lookup_SomeD)
    with Some old show thesis by (auto simp: D_def find_conversation_by_name_def)
  qed (use new in \<open>simp add: D_def find_conversation_by_name_def\<close>)
  then show ?thesis
  proof cases
    case (old c)
    with free_conversation_safe [OF t, of c] ins show ?thesis by simp
  qed (use t ins in simp)
qed

text \<open>Starting a conversation for a service that is being stopped frees the old one.\<close>

lemma start_conversation_safe [sess_safe]:
  assumes s: "sgood X {} C m s" and E: "workers_start E"
  shows "run_safe (with_state X {} C m) (gdm_session_start_conversation E svc s)"
proof -
  have install: "run_safe (with_state X {} C m)
      (let (v, s) = start_conversation E svc t in bindR (insert_conversation svc v s) (\<lambda>s. Ret (True, s)))"
    if "sgood X {} C m t" "\<And>c. find_conversation_by_name svc t = Some c \<Longrightarrow> unwatched {c} t" for t
    using run_safe_bind [OF insert_conversation_safe [OF that(1) E that(2)],
        where Q = "with_state X {} C m" and f = "\<lambda>s. Ret (True, s)"]
    by (simp add: case_prod_unfold Let_def)
  show ?thesis
  proof (cases "find_conversation_by_name svc s")
    case None
    then show ?thesis using install [OF s] by (simp add: gdm_session_start_conversation_def)
  next
    case (Some c)
    with sgood_find [OF s] obtain v where v: "convs s c = Some v" by blast
    have "run_safe (with_state X {} C m) (bindR (drop_job_now c s)
        (\<lambda>s. let (v, s) = start_conversation E svc s in bindR (insert_conversation svc v s) (\<lambda>s. Ret (True, s))))"
    proof (rule run_safe_bind [OF drop_job_now_safe [OF sgood_keep [OF s v], where D = "{}"]])
      fix t
      assume t: "sgood X {c} C m t \<and> unwatched {c} t \<and> conversations t = conversations s"
      with Some have "find_conversation_by_name svc t = Some c" by (simp add: find_conversation_by_name_def)
      with t show "run_safe (with_state X {} C m)
          (let (v, s) = start_conversation E svc t in bindR (insert_conversation svc v s) (\<lambda>s. Ret (True, s)))"
        by (intro install) (auto intro: sgood_weaken)
    qed (simp_all add: unwatched_def)
    with Some v s show ?thesis
      by (simp add: gdm_session_start_conversation_def with_conv_def Let_def)
  qed
qed

text \<open>Stopping all conversations at once: first their jobs, then the conversations themselves.\<close>

lemma close_conversation_keeps:
  assumes "close_conversation c s = Ret t"
  shows "conversations t = conversations s" "unwatched D t = unwatched D s"
  using assms by (auto simp: close_conversation_def with_conv_def Let_def split: option.splits if_splits)

lemma stop_conversation_now_safe:
  assumes "sgood X L C m s" "c \<in> X \<union> L" "unwatched D s"
  shows "run_safe (\<lambda>t. sgood X L C m t \<and> unwatched (insert c D) t \<and> conversations t = conversations s)
           (stop_conversation_now c s)"
proof (cases "close_conversation c s")
  case (Ret t)
  with close_conversation_safe [OF assms(1,2)] close_conversation_keeps [OF Ret] assms
  show ?thesis using drop_job_now_safe [of X L C m t c D] by (simp add: stop_conversation_now_def)
qed (use close_conversation_safe [OF assms(1,2)] in \<open>simp_all add: stop_conversation_now_def\<close>)

definition entry_convs :: "(string \<times> nat option) list \<Rightarrow> nat set" where
  "entry_convs es = {c. \<exists>n. (n, Some c) \<in> set es}"

lemma entry_convs_simps [simp]:
  "entry_convs [] = {}" "entry_convs ((n, Some c) # es) = insert c (entry_convs es)"
  by (auto simp: entry_convs_def)

lemma stop_entries_now_safe:
  "sgood X L C m s \<Longrightarrow> unwatched D s \<Longrightarrow> \<forall>e \<in> set es. \<exists>c \<in> L. snd e = Some c \<Longrightarrow>
     run_safe (\<lambda>t. sgood X L C m t \<and> unwatched (D \<union> entry_convs es) t \<and> conversations t = conversations s)
       (foldR stop_entry_now es s)"
proof (induction es arbitrary: s D)
  case (Cons e es)
  from Cons.prems(3) obtain n c where e: "e = (n, Some c)" "c \<in> L" by (cases e) auto
  then have "run_safe (\<lambda>t. sgood X L C m t \<and> unwatched (insert c D) t \<and> conversations t = conversations s)
      (stop_entry_now e s)"
    using stop_conversation_now_safe [OF Cons.prems(1) _ Cons.prems(2), of c] by (simp add: stop_entry_now_def)
  then show ?case
    unfolding foldR.simps
  proof (rule run_safe_bind)
    fix t
    assume "sgood X L C m t \<and> unwatched (insert c D) t \<and> conversations t = conversations s"
    then show "run_safe (\<lambda>t. sgood X L C m t \<and> unwatched (D \<union> entry_convs (e # es)) t \<and>
        conversations t = conversations s) (foldR stop_entry_now es t)"
      using Cons.IH [of t "insert c D"] Cons.prems(3) e by simp
  qed
qed simp

lemma free_entries_safe:
  "sgood (X \<union> entry_convs es) {} C m s \<Longrightarrow> entry_convs es \<inter> X = {} \<Longrightarrow>
     distinct (map snd es) \<Longrightarrow> \<forall>e \<in> set es. snd e \<noteq> None \<Longrightarrow>
     run_safe (sgood X {} C m) (foldR free_entry es s)"
proof (induction es arbitrary: s)
  case (Cons e es)
  from Cons.prems(4) obtain n c where e: "e = (n, Some c)" by (cases e) auto
  with Cons.prems have "c \<notin> entry_convs es" "c \<notin> X" by (force simp: entry_convs_def)+
  then have "X \<union> entry_convs (e # es) - {c} = X \<union> entry_convs es" by (auto simp: e)
  then have "run_safe (sgood (X \<union> entry_convs es) {} C m) (free_entry e s)"
    using free_conversation_safe [OF Cons.prems(1), of c] by (simp add: free_entry_def e)
  then show ?case
    unfolding foldR.simps by (rule run_safe_bind) (use Cons e in auto)
qed simp

lemma table_distinct:
  assumes "sgood X L C m s"
  shows "distinct (map snd (conversations s))"
proof -
  have "inj_on snd (set (conversations s))"
  proof (rule inj_onI)
    fix e e'
    assume "e \<in> set (conversations s)" "e' \<in> set (conversations s)" "snd e = snd e'"
    with sgood_entry [OF assms, of e] sgood_entry [OF assms, of e'] show "e = e'"
      by (cases e; cases e') auto
  qed
  moreover have "distinct (conversations s)"
    using assms by (auto simp: sgood_def table_good_def ght_wf_def distinct_map)
  ultimately show ?thesis by (simp add: distinct_map)
qed

lemma stop_all_conversations_safe [sess_safe]:
  assumes s: "sgood X {} C m s"
  shows "run_safe (sgood X {} C m) (stop_all_conversations s)"
proof -
  let ?T = "conversations s"
  have es: "\<forall>e \<in> set ?T. \<exists>c \<in> entries s. snd e = Some c"
  proof
    fix e
    assume e: "e \<in> set ?T"
    with sgood_entry [OF s e] show "\<exists>c \<in> entries s. snd e = Some c"
      by (cases e) (auto simp: entries_def)
  qed
  then have some: "\<forall>e \<in> set ?T. snd e \<noteq> None" by force
  have disjoint: "entry_convs ?T \<inter> X = {}"
    using sgood_entry [OF s] by (fastforce simp: entry_convs_def)
  have "run_safe (\<lambda>t. sgood X (entries s) C m t \<and> unwatched (entry_convs ?T) t \<and> conversations t = ?T)
      (foldR stop_entry_now ?T s)"
    using stop_entries_now_safe [OF _ _ es, of X C m s "{}"] sgood_entries [OF s] by (simp add: unwatched_def)
  then show ?thesis
    unfolding stop_all_conversations_def
  proof (rule run_safe_bind, goal_cases)
    case (1 t)
    then have "sgood X {} C m t" by (auto intro: sgood_weaken)
    then have "sgood (X \<union> entry_convs ?T) {} C m (t\<lparr>conversations := []\<rparr>)"
      by (rule sgood_detach) (use 1 in \<open>auto simp: entry_convs_def entries_def ght.wf_empty\<close>)
    moreover have "distinct (map snd ?T)" by (rule table_distinct [OF s])
    ultimately have "run_safe (sgood X {} C m) (foldR free_entry ?T (t\<lparr>conversations := []\<rparr>))"
      using disjoint some by (intro free_entries_safe)
    then have "run_safe (sgood X {} C m) (bindR (foldR free_entry ?T (t\<lparr>conversations := []\<rparr>))
        (\<lambda>s. Ret (s\<lparr>session_conversation := None\<rparr>)))"
      by (rule run_safe_bind) simp
    then show ?case using 1 by simp
  qed
qed

lemma do_reset_safe [sess_safe]: "sgood X {} C m s \<Longrightarrow> run_safe (sgood X {} C m) (do_reset s)"
  unfolding do_reset_def by (rule run_safe_bind [OF stop_all_conversations_safe]) auto

lemma close_reset_safe [sess_safe]:
  assumes "sgood X {} C m s"
  shows "run_safe (sgood X {} C m) (gdm_session_close s)" "run_safe (sgood X {} C m) (gdm_session_reset s)"
  using assms unfolding gdm_session_close_def gdm_session_reset_def
  by (auto intro!: run_safe_bind [OF do_reset_safe] do_reset_safe)

section \<open>Calls to workers\<close>

lemma call_allowed_mono: "call_allowed C x \<Longrightarrow> C \<subseteq> C' \<Longrightarrow> call_allowed C' x"
  by (induction C x rule: call_allowed.induct) auto

definition may_send :: "session_call set \<Rightarrow> verification_mode \<Rightarrow> nat \<Rightarrow> worker_call \<Rightarrow> bool" where
  "may_send C m c q = (call_allowed C (SendCall c q) \<and> (q = CallOpen \<longrightarrow> m = LOGIN))"

definition service_fits :: "worker_call \<Rightarrow> conversation \<Rightarrow> bool" where
  "service_fits q v = (case q of CallInitialize d \<Rightarrow> initialized_service d = Some (service_name v) | _ \<Rightarrow> True)"

lemma sgood_send:
  assumes "sgood X L C m s" "may_send C m c q" "convs s c = Some v" "service_fits q v"
  shows "sgood X L (insert (SendCall c q) C) m (logS [SendCall c q] s)"
proof -
  have "call_allowed (set (log s)) (SendCall c q)"
    using assms call_allowed_mono by (auto simp: may_send_def sgood_def)
  moreover have "c < next_conv s"
    using assms by (auto simp: sgood_def table_good_def)
  ultimately show ?thesis
    using assms by (auto simp: may_send_def service_fits_def sgood_defs logS_def call_order_snoc)
qed

lemma call_worker_no_reply_safe [sess_safe]:
  assumes s: "sgood X L C m s" and c: "c \<in> X \<union> L" and q: "may_send C m c q"
    and fits: "\<And>v. convs s c = Some v \<Longrightarrow> service_fits q v"
  shows "run_safe (sgood X L C m) (call_worker_no_reply c q s)"
  unfolding call_worker_no_reply_def
  by (rule with_conv_live [OF s c]) (auto simp: s intro: sgood_weaken [OF sgood_send [OF s q _ fits]])

lemma call_worker_safe [sess_safe]:
  assumes s: "sgood X L C m s" and c: "c \<in> X \<union> L" and q: "may_send C m c q"
    and fits: "\<And>v. convs s c = Some v \<Longrightarrow> service_fits q v"
  shows "run_safe (sgood X L C m) (call_worker c q s)"
  unfolding call_worker_def
proof (rule with_conv_live [OF s c])
  fix v
  assume v: "convs s c = Some v"
  define t where "t = logS [SendCall c q] s"
  have t: "sgood X L (insert (SendCall c q) C) m t" "convs t c = Some v"
    using sgood_send [OF s q v fits] v by (simp_all add: t_def logS_def)
  have "worker_cancellable v = Some k \<Longrightarrow> sgood X L C m (t\<lparr>inflight := inflight t @ [(i, c, k, q)], next_call := j\<rparr>)" for i j k
    using t by (auto simp: sgood_defs)
  moreover have "worker_proxy v \<Longrightarrow> worker_cancellable v \<noteq> None"
    using s v by (auto simp: sgood_def calls_good_def)
  ultimately show "run_safe (sgood X L C m)
      (Ret (if \<not> worker_proxy v then logS [Critical ''g_dbus_proxy_call''] s
        else let s1 = logS [SendCall c q] s
             in s1\<lparr>inflight := inflight s1 @ [(next_call s1, c, case worker_cancellable v of None \<Rightarrow> 0 | Some k \<Rightarrow> k, q)],
                   next_call := Suc (next_call s1)\<rparr>))"
    using s by (auto simp: Let_def t_def)
qed

lemma may_send_free [simp]:
  "may_send C m c (CallInitialize d)" "may_send C m c (CallStartProgram p)"
  "may_send C m c (CallStartReauthentication i u)" "may_send C m c (CallSetEnvironmentVariable k x)"
  "may_send C m c (CallSetSessionName n)" "may_send C m c (CallSetSessionDisplayMode n)"
  by (simp_all add: may_send_def)

lemma service_fits_free [simp]:
  "service_fits (CallStartProgram p) v" "service_fits (CallStartReauthentication i u) v"
  "service_fits (CallSetEnvironmentVariable k x) v" "service_fits (CallSetSessionName n) v"
  "service_fits (CallSetSessionDisplayMode n) v" "service_fits CallAuthenticate v"
  "service_fits CallAuthorize v" "service_fits CallEstablishCredentials v" "service_fits CallOpen v"
  by (simp_all add: service_fits_def)

lemma initialize_service: "initialized_service (initialize_details svc user logf s) = Some svc"
  by (simp add: initialize_details_def)

lemma initialize_safe [sess_safe]:
  "sgood X L C m s \<Longrightarrow> run_safe (sgood X L C m) (initialize svc user logf s)"
  unfolding initialize_def
  by (rule on_conversation_safe) (auto simp: service_fits_def initialize_service intro: call_worker_safe)

lemma setup_safe [sess_safe]:
  assumes "sgood X L C m s"
  shows "run_safe (sgood X L C m) (gdm_session_setup E svc s)"
    and "run_safe (sgood X L C m) (gdm_session_setup_for_user E svc u s)"
    and "run_safe (sgood X L C m) (gdm_session_setup_for_program svc x logf s)"
  using assms unfolding gdm_session_setup_def gdm_session_setup_for_user_def gdm_session_setup_for_program_def
  by (auto simp: Let_def intro!: run_safe_bind [OF update_session_type_safe] run_safe_bind [OF initialize_safe]
      defaults_changed_safe initialize_safe)

lemma send_environment_safe [sess_safe]:
  "sgood X L C m s \<Longrightarrow> c \<in> X \<union> L \<Longrightarrow> run_safe (sgood X L C m) (send_environment c s)"
  unfolding send_environment_def by (rule run_safe_foldR) (auto intro: call_worker_no_reply_safe)

lemma gdm_session_send_environment_safe [sess_safe]:
  "sgood X L C m s \<Longrightarrow> run_safe (sgood X L C m) (gdm_session_send_environment svc s)"
  unfolding gdm_session_send_environment_def by (rule on_conversation_safe) (auto intro: send_environment_safe)

lemma open_session_safe:
  assumes s: "sgood X L C m s" and ok: "\<And>c w. convs s c = Some w \<Longrightarrow> service_name w = svc \<Longrightarrow> may_send C m c CallOpen"
  shows "run_safe (sgood X L C m) (gdm_session_open_session svc s)"
  unfolding gdm_session_open_session_def
proof (rule on_conversation_safe [OF s], goal_cases)
  case (1 c v)
  then have "run_safe (sgood X (insert c L) C m) (send_display_mode c s)"
    unfolding send_display_mode_def by (intro call_worker_no_reply_safe) auto
  then show ?case
  proof (rule run_safe_bind)
    fix t
    assume "sgood X (insert c L) C m t"
    then have "run_safe (sgood X (insert c L) C m) (send_session_type c t)"
      unfolding send_session_type_def by (intro call_worker_no_reply_safe) auto
    then show "run_safe (sgood X (insert c L) C m) (bindR (send_session_type c t) (call_worker c CallOpen))"
      using ok 1 by (intro run_safe_bind [OF _ call_worker_safe]) auto
  qed
qed

lemma start_session_safe [sess_safe]:
  assumes "sgood X L C m s"
  shows "run_safe (sgood X L C m) (gdm_session_start_session E svc s)"
proof (cases "session_conversation s")
  case None
  have "run_safe (sgood X L C m) (on_conversation svc (\<lambda>c s.
      bindR (stop_all_other_conversations c s) (\<lambda>s.
      bindR (session_program E s) (\<lambda>(program, s).
      bindR (set_up_session_environment E s) (\<lambda>s.
      bindR (send_environment c s) (call_worker c (CallStartProgram program)))))) s)"
  proof (rule on_conversation_safe [OF assms], goal_cases)
    case (1 c v)
    have I: "run_safe (sgood X (insert c L) C m) (bindR (set_up_session_environment E t) (\<lambda>s.
        bindR (send_environment c s) (call_worker c (CallStartProgram program))))"
      if "sgood X (insert c L) C m t" for program t
      by (rule run_safe_bind [OF set_up_session_environment_safe [OF that]],
          rule run_safe_bind [OF send_environment_safe]) (auto intro: call_worker_safe)
    show ?case
      by (rule run_safe_bind [OF stop_all_other_safe [OF 1(3)]], rule run_safe_bind_state [OF session_program_safe])
         (auto intro: I)
  qed
  with None show ?thesis by (simp add: gdm_session_start_session_def)
qed (simp add: gdm_session_start_session_def assms)

lemma start_reauthentication_safe [sess_safe]:
  assumes "sgood X L C m s"
  shows "run_safe (sgood X L C m) (gdm_session_start_reauthentication p u s)"
proof (cases "session_conversation s")
  case (Some c)
  show ?thesis
  proof (cases "convs s c")
    case v: (Some v)
    then have "sgood X (insert c L) C m (put_conv c (v\<lparr>reauth_pid_of_caller := p\<rparr>) s)"
      by (intro sgood_put [OF sgood_keep [OF assms]]) auto
    then have "run_safe (sgood X (insert c L) C m) (call_worker c (CallStartReauthentication p u)
        (put_conv c (v\<lparr>reauth_pid_of_caller := p\<rparr>) s))"
      by (rule call_worker_safe) simp_all
    then show ?thesis
      using Some v by (auto simp: gdm_session_start_reauthentication_def elim!: run_safe_mono intro: sgood_weaken)
  qed (simp add: gdm_session_start_reauthentication_def Some)
qed (simp add: gdm_session_start_reauthentication_def assms)

lemma select_session_safe [sess_safe]:
  assumes "sgood X L C m s"
  shows "run_safe (sgood X L C m) (gdm_session_select_session E n s)"
  unfolding gdm_session_select_session_def
proof (rule run_safe_bind [OF update_session_type_safe [of X L C m]])
  fix t
  assume "sgood X L C m t"
  then show "run_safe (sgood X L C m) (foldR (select_session_entry E) (conversations t) t)"
  proof (rule foldR_entries_safe)
    fix e :: "string \<times> nat option" and c u
    assume e: "snd e = Some c" "c \<in> entries t" and u: "sgood X (L \<union> entries t) C m u"
    show "run_safe (sgood X (L \<union> entries t) C m) (select_session_entry E e u)"
      unfolding select_session_entry_def e option.case
      by (rule with_conv_live [OF u])
         (use e u in \<open>auto intro!: run_safe_bind_state [OF session_name_safe(2)] call_worker_no_reply_safe\<close>)
  qed
qed (use assms in simp)

section \<open>What the owner may do\<close>

fun frees :: "session_api \<Rightarrow> bool" where
  "frees (StartConversation svc) = True"
| "frees Close = True"
| "frees Reset = True"
| "frees _ = False"

lemma api_call_keeps:
  assumes "sgood X L C m s" "\<not> frees a"
  shows "run_safe (sgood X L C m) (api_call E a s)"
  using assms
  by (cases a) (auto intro: sess_safe simp: gdm_session_set_timed_login_details_def)

lemma api_call_safe [sess_safe]:
  assumes "sgood X {} C m s" "workers_start E"
  shows "run_safe (sgood X {} C m) (api_call E a s)"
proof (cases "frees a")
  case True
  with assms show ?thesis
    by (cases a) (auto intro!: run_safe_bind_state [OF start_conversation_safe] close_reset_safe)
qed (auto intro: api_call_keeps assms)

lemma emit_safe [sess_safe]:
  assumes "sgood X {} C m s" "workers_start E"
  shows "run_safe (sgood X {} C m) (emit E R g s)"
  unfolding emit_def Let_def by (rule run_safe_foldR) (auto simp: assms intro: api_call_safe)

text \<open>
  After these signals the session goes on with the conversation that the signal is about. A
  session that is only for reauthentication does nothing more after the last one.
\<close>

fun must_keep :: "session_signal \<Rightarrow> verification_mode \<Rightarrow> bool" where
  "must_keep (CONVERSATION_STARTED svc) m = True"
| "must_keep (SETUP_COMPLETE svc) m = True"
| "must_keep (AUTHENTICATION_FAILED svc p) m = True"
| "must_keep (CREDENTIALS_ESTABLISHED svc p) m = True"
| "must_keep (REAUTHENTICATION_STARTED p a) m = True"
| "must_keep (VERIFICATION_COMPLETE svc) m = (m = LOGIN)"
| "must_keep _ m = False"

text \<open>
  The contract of a listener of a session in mode \<open>m\<close>: inside of these signals it makes no
  call that frees conversations. It may call whatever it likes at any other time.
\<close>

locale gentle_listener =
  fixes R :: listener and m :: verification_mode
  assumes gentle: "verification_mode s = m \<Longrightarrow> must_keep g m \<Longrightarrow> a \<in> set (R g s) \<Longrightarrow> \<not> frees a"
begin

lemma emit_keeps:
  assumes "sgood X L C m s" "must_keep g m"
  shows "run_safe (sgood X L C m) (emit E R g s)"
  unfolding emit_def Let_def
proof (rule run_safe_foldR)
  show "sgood X L C m (logS [Emit g] s)" using assms(1) by simp
  then have "verification_mode (logS [Emit g] s) = m" by (rule sgood_mode)
  then show "run_safe (sgood X L C m) (api_call E a t)"
    if "a \<in> set (R g (logS [Emit g] s))" "sgood X L C m t" for a t
    using that assms(2) gentle by (blast intro: api_call_keeps)
qed

end

section \<open>Callbacks\<close>

lemma report_and_stop_safe [sess_safe]:
  "sgood X L C m s \<Longrightarrow> run_safe (sgood X L C m) (report_and_stop_conversation svc e s)"
  unfolding report_and_stop_conversation_def by (rule gdm_session_stop_conversation_safe) simp

lemma sgood_succeeded:
  assumes "sgood X L C m s" "SendCall c q \<in> set (log s)"
  shows "sgood X L (insert (CallSucceeded c q) C) m (logS [CallSucceeded c q] s)"
  using assms by (auto simp: sgood_defs logS_def call_order_snoc)

text \<open>A conversation that is alive is the one that its name finds.\<close>

lemma sgood_unique:
  assumes "sgood {} L C m s" "convs s c = Some v" "convs s d = Some w" "service_name w = service_name v"
  shows "d = c"
proof -
  have "ght_wf (conversations s)" "(service_name v, Some c) \<in> set (conversations s)"
    "(service_name v, Some d) \<in> set (conversations s)"
    using assms by (auto simp: sgood_def table_good_def) (metis assms(4))
  then show ?thesis by (metis ght_lookup_set option.inject)
qed

text \<open>The next call on a conversation goes to its own worker.\<close>

lemma next_call_safe:
  assumes "sgood {} L C m s" "convs s c = Some v" "may_send C m c q" "service_fits q v"
  shows "run_safe (sgood {} L C m) (on_conversation (service_name v) (\<lambda>c. call_worker c q) s)"
proof (rule on_conversation_safe [OF assms(1)])
  fix d w
  assume d: "convs s d = Some w" "service_name w = service_name v" "sgood {} (insert d L) C m s"
  then have "d = c" using sgood_unique [OF assms(1,2)] by blast
  with d assms(2-4) show "run_safe (sgood {} (insert d L) C m) (call_worker d q s)"
    by (intro call_worker_safe) auto
qed

lemma sgood_note: "sgood X L C m s \<Longrightarrow> x \<in> set (log s) \<Longrightarrow> sgood X L (insert x C) m s"
  by (auto simp: sgood_def)

lemma sgood_drop: "sgood X L C m s \<Longrightarrow> sgood X {} C m s"
  by (rule sgood_weaken) auto

lemma run_safe_drop: "run_safe (sgood X L C m) r \<Longrightarrow> run_safe (sgood X {} C m) r"
  by (erule run_safe_mono) (rule sgood_drop)

text \<open>Who has credentials was initialised, under the name of its conversation.\<close>

lemma call_orderD:
  "call_order C l \<Longrightarrow> x \<in> set l \<Longrightarrow> call_allowed (C \<union> set l) x"
proof (induction C l rule: call_order.induct)
  case (2 C y l)
  have "call_allowed (insert y C \<union> set l) x" if "x \<in> set l" using 2 that by simp
  with 2 show ?case by (auto intro: call_allowed_mono)
qed simp

lemma credentials_initialized:
  assumes "call_order {} l" "CallSucceeded c CallEstablishCredentials \<in> set l"
  shows "\<exists>d. SendCall c (CallInitialize d) \<in> set l"
proof -
  note step = call_orderD [OF assms(1), simplified]
  from step [OF step [OF assms(2), simplified], simplified]
  have "CallSucceeded c CallAuthorize \<in> set l" .
  from step [OF step [OF step [OF step [OF this, simplified], simplified], simplified], simplified]
  obtain d where "CallSucceeded c (CallInitialize d) \<in> set l" by blast
  from step [OF this] show ?thesis by auto
qed

context gentle_listener
begin

lemma on_initialization_complete_safe:
  assumes s: "sgood {} L C m s" and c: "c \<in> L"
    and ok: "error = None \<Longrightarrow> \<exists>d. CallSucceeded c (CallInitialize d) \<in> C"
  shows "run_safe (sgood {} L C m) (on_initialization_complete_cb E R c error s)"
  unfolding on_initialization_complete_cb_def
proof (rule run_safe_bind [where P = "sgood {} L C m"])
  have live: "c \<in> {} \<union> L" using c by simp
  have auth: "run_safe (sgood {} L C m) (with_conv c t (\<lambda>v. gdm_session_authenticate (service_name v) t))"
    if t: "sgood {} L C m t" "error = None" for t
    unfolding gdm_session_authenticate_def
    by (rule with_conv_live [OF t(1) live], rule next_call_safe [OF t(1)])
       (use ok t in \<open>auto simp: may_send_def\<close>)
  show "run_safe (sgood {} L C m) (with_conv c s (\<lambda>v.
       case error of
         None \<Rightarrow>
           let s = (case starting_invocation v of None \<Rightarrow> s | Some i \<Rightarrow> logS [Answer i Completed] s)
           in bindR (emit E R (SETUP_COMPLETE (service_name v)) s) (\<lambda>s.
                with_conv c s (\<lambda>v. gdm_session_authenticate (service_name v) s))
       | Some e \<Rightarrow>
           let s = (case starting_invocation v of
                      None \<Rightarrow> logS [Critical ''g_dbus_method_invocation_return''] s
                    | Some i \<Rightarrow> logS [Answer i (ErrorFromWorker e)] s)
           in report_and_stop_conversation (service_name v) e s))"
    by (rule with_conv_live [OF s live])
       (auto simp: Let_def s split: option.split
         intro!: run_safe_bind [OF emit_keeps [of "{}" L C]] auth report_and_stop_safe)
  show "run_safe (sgood {} L C m) (with_conv c t (\<lambda>v. Ret (put_conv c (v\<lparr>starting_invocation := None\<rparr>) t)))"
    if "sgood {} L C m t" for t
    by (rule with_conv_live [OF that live]) (auto intro!: sgood_put that)
qed

lemma on_authenticate_safe:
  assumes s: "sgood {} L C m s" and c: "c \<in> L"
    and ok: "error = None \<Longrightarrow> CallSucceeded c CallAuthenticate \<in> C"
  shows "run_safe (sgood {} L C m) (on_authenticate_cb E R c error s)"
  unfolding on_authenticate_cb_def
proof (rule with_conv_live [OF s])
  show live: "c \<in> {} \<union> L" using c by simp
  fix v
  assume v: "convs s c = Some v"
  have "run_safe (sgood {} L C m) (gdm_session_authorize (service_name v) s)" if "error = None"
    unfolding gdm_session_authorize_def
    by (rule next_call_safe [OF s v]) (use ok that in \<open>auto simp: may_send_def\<close>)
  moreover have "run_safe (sgood {} L C m) (with_conv c t (\<lambda>v. report_and_stop_conversation (service_name v) e t))"
    if "sgood {} L C m t" for e t
    by (rule with_conv_live [OF that live]) (rule report_and_stop_safe [OF that])
  ultimately show "run_safe (sgood {} L C m)
      (case error of
         None \<Rightarrow> gdm_session_authorize (service_name v) s
       | Some e \<Rightarrow>
           bindR (if is_service_unavailable e then Ret s
                  else emit E R (AUTHENTICATION_FAILED (service_name v) (worker_pid v)) s) (\<lambda>s.
             with_conv c s (\<lambda>v. report_and_stop_conversation (service_name v) e s)))"
    using s by (auto split: option.split intro!: run_safe_bind [OF emit_keeps [of "{}" L C]])
qed

end

lemma on_authorize_safe:
  assumes s: "sgood {} L C m s" and c: "c \<in> L"
    and ok: "error = None \<Longrightarrow> CallSucceeded c CallAuthorize \<in> C"
  shows "run_safe (sgood {} L C m) (on_authorize_cb c error s)"
  unfolding on_authorize_cb_def gdm_session_accredit_def
  by (rule with_conv_live [OF s])
     (use c s ok in \<open>auto simp: may_send_def split: option.split intro!: next_call_safe report_and_stop_safe\<close>)

context gentle_listener
begin

lemma on_establish_credentials_safe:
  assumes s: "sgood {} L C m s" and c: "c \<in> L" and E: "workers_start E"
    and ok: "error = None \<Longrightarrow> CallSucceeded c CallEstablishCredentials \<in> C"
  shows "run_safe (sgood {} {} C m) (on_establish_credentials_cb E R c error s)"
  unfolding on_establish_credentials_cb_def
proof (rule with_conv_live [OF s])
  show live: "c \<in> {} \<union> L" using c by simp
  fix v
  assume v: "convs s c = Some v"
  show "run_safe (sgood {} {} C m) (let svc = service_name v
       in case error of
            None \<Rightarrow>
              bindR (emit E R (CREDENTIALS_ESTABLISHED svc (worker_pid v)) s) (\<lambda>s.
                case verification_mode s of
                  LOGIN \<Rightarrow> gdm_session_open_session svc s
                | REAUTHENTICATE \<Rightarrow>
                    if user_verifier_interface s
                    then emit E R (VERIFICATION_COMPLETE svc) (verifier (UvVerificationComplete svc) s)
                    else Ret s)
          | Some e \<Rightarrow> report_and_stop_conversation svc e s)"
  proof (cases error)
    case None
    have "CallSucceeded c CallEstablishCredentials \<in> set (log s)"
      using s ok [OF None] by (auto simp: sgood_def)
    then obtain d where d: "SendCall c (CallInitialize d) \<in> set (log s)"
      using s credentials_initialized by (fastforce simp: sgood_def calls_good_def)
    have dv: "initialized_service d = Some (service_name v)"
      using s v d by (auto simp: sgood_def calls_good_def)
    have "run_safe (sgood {} {} C m) (gdm_session_open_session (service_name v) t)"
      if t: "sgood {} L (insert (SendCall c (CallInitialize d)) C) m t" and "m = LOGIN" for t
    proof (rule run_safe_drop [OF open_session_safe])
      show "sgood {} L C m t" by (rule sgood_weaken [OF t]) auto
      fix c' w'
      assume w': "convs t c' = Some w'" "service_name w' = service_name v"
      obtain w where w: "convs t c = Some w" using sgood_live [OF t live] by blast
      moreover have "initialized_service d = Some (service_name w)"
        using t w by (auto simp: sgood_def calls_good_def)
      ultimately have "c' = c" using sgood_unique [OF t w w'(1)] w' dv by simp
      then show "may_send C m c' CallOpen" using ok [OF None] \<open>m = LOGIN\<close> by (simp add: may_send_def)
    qed
    moreover have "run_safe (sgood {} L (insert (SendCall c (CallInitialize d)) C) m)
        (emit E R (CREDENTIALS_ESTABLISHED (service_name v) (worker_pid v)) s)"
      by (rule emit_keeps [OF sgood_note [OF s d]]) simp
    moreover have "sgood {} {} C m t" if "sgood {} L (insert (SendCall c (CallInitialize d)) C) m t" for t
      by (rule sgood_weaken [OF that]) auto
    ultimately show ?thesis
      using None sgood_mode E
      by (fastforce simp: Let_def split: verification_mode.split intro!: run_safe_bind emit_safe)
  next
    case (Some e)
    then show ?thesis
      by (simp add: Let_def) (rule run_safe_drop [OF report_and_stop_safe [OF s]])
  qed
qed

lemma on_opened_safe:
  assumes s: "sgood {} L C m s" and c: "c \<in> L" and E: "workers_start E" and login: "m = LOGIN"
  shows "run_safe (sgood {} {} C m) (on_opened E R c result s)"
  unfolding on_opened_def
proof (rule with_conv_live [OF s])
  show live: "c \<in> {} \<union> L" using c by simp
  have keep: "must_keep (VERIFICATION_COMPLETE svc) m" for svc using login by simp
  fix v
  assume v: "convs s c = Some v"
  have opened: "run_safe (sgood {} {} C m) (with_conv c t (\<lambda>v.
      bindR (emit E R (SESSION_OPENED (service_name v) sid)
               (greeter (GreeterSessionOpened (service_name v) sid) t)) (\<lambda>s. Ret (s\<lparr>is_opened := True\<rparr>))))"
    if "sgood {} L C m t" for t sid
    by (rule with_conv_live [OF that live], rule run_safe_bind [OF emit_safe [OF _ E]])
       (auto intro: sgood_log sgood_drop that)
  have failed: "run_safe (sgood {} {} C m) (with_conv c t (\<lambda>v. emit E R (SESSION_OPENED_FAILED (service_name v)) t))"
    if "sgood {} L C m t" for t
    by (rule with_conv_live [OF that live], rule emit_safe [OF sgood_drop [OF that] E])
  have "sgood {} L C m (put_conv c (v\<lparr>session_id := Some sid\<rparr>) s)" for sid
    by (intro sgood_put [OF s v]) auto
  then show "run_safe (sgood {} {} C m)
      (case result of
         Inr sid \<Rightarrow>
           let s = (put_conv c (v\<lparr>session_id := Some sid\<rparr>) s)\<lparr>session_opened := Some sid\<rparr>
           in bindR (if user_verifier_interface s
                     then emit E R (VERIFICATION_COMPLETE (service_name v))
                            (verifier (UvVerificationComplete (service_name v)) s)
                     else Ret s) (\<lambda>s.
              with_conv c s (\<lambda>v.
                bindR (emit E R (SESSION_OPENED (service_name v) sid)
                         (greeter (GreeterSessionOpened (service_name v) sid) s)) (\<lambda>s.
                  Ret (s\<lparr>is_opened := True\<rparr>))))
       | Inl e \<Rightarrow>
           bindR (report_and_stop_conversation (service_name v) e s) (\<lambda>s.
             with_conv c s (\<lambda>v. emit E R (SESSION_OPENED_FAILED (service_name v)) s)))"
    using s
    by (auto simp: Let_def simp del: must_keep.simps split: sum.split
        intro!: run_safe_bind [OF emit_keeps [of "{}" L C]] run_safe_bind [OF report_and_stop_safe [of "{}" L C m]]
          opened failed keep)
qed

lemma on_reauthentication_started_safe:
  assumes s: "sgood {} L C m s" and c: "c \<in> L"
  shows "run_safe (sgood {} L C m) (on_reauthentication_started_cb E R c result s)"
  unfolding on_reauthentication_started_cb_def
proof (rule with_conv_live [OF s])
  show live: "c \<in> {} \<union> L" using c by simp
  fix v
  have "run_safe (sgood {} L C m) (with_conv c t (\<lambda>v. Ret (put_conv c (v\<lparr>reauth_pid_of_caller := 0\<rparr>) t)))"
    if "sgood {} L C m t" for t
    by (rule with_conv_live [OF that live]) (auto intro!: sgood_put that)
  then show "run_safe (sgood {} L C m)
      (bindR (case result of
                Inr address \<Rightarrow> emit E R (REAUTHENTICATION_STARTED (reauth_pid_of_caller v) address) s
              | Inl e \<Rightarrow> Ret s) (\<lambda>s.
         with_conv c s (\<lambda>v. Ret (put_conv c (v\<lparr>reauth_pid_of_caller := 0\<rparr>) s))))"
    using s by (auto split: sum.split intro!: run_safe_bind [OF emit_keeps [of "{}" L C]])
qed

end

lemma on_start_program_safe:
  assumes s: "sgood {} L C m s" and c: "c \<in> L" and E: "workers_start E"
  shows "run_safe (sgood {} {} C m) (on_start_program_cb E R c result s)"
  unfolding on_start_program_cb_def
proof (rule with_conv_live [OF s])
  show live: "c \<in> {} \<union> L" using c by simp
  fix v
  have "run_safe (sgood {} {} C m) (with_conv c t (\<lambda>v. emit E R (SESSION_START_FAILED (service_name v)) t))"
    if "sgood {} L C m t" for t
    by (rule with_conv_live [OF that live], rule emit_safe [OF sgood_drop [OF that] E])
  then show "run_safe (sgood {} {} C m)
      (case result of
         Inr pid \<Rightarrow>
           emit E R (SESSION_STARTED (service_name v) pid)
             (s\<lparr>session_pid := pid, session_conversation := Some c\<rparr>)
       | Inl e \<Rightarrow>
           bindR (gdm_session_stop_conversation (service_name v) s) (\<lambda>s.
             with_conv c s (\<lambda>v. emit E R (SESSION_START_FAILED (service_name v)) s)))"
    using s E
    by (auto split: sum.split intro!: run_safe_bind [OF gdm_session_stop_conversation_safe [of "{}" L C m]]
        emit_safe intro: sgood_drop)
qed

text \<open>A completed call: the conversation of a call that was not cancelled is alive.\<close>

lemma sgood_inflight:
  assumes "sgood X L C m s" "(i, c, k, q) \<in> set (inflight s)"
  shows "SendCall c q \<in> set (log s)" "k \<notin> set (cancelled_ids s) \<Longrightarrow> \<exists>v. convs s c = Some v"
  using assms by (fastforce simp: sgood_def calls_good_def)+

lemma sgood_finish_call:
  "sgood X L C m s \<Longrightarrow> sgood X L C m (s\<lparr>inflight := filter P (inflight s)\<rparr>)"
  by (auto simp: sgood_defs)

context gentle_listener
begin

lemma call_callback_safe:
  assumes s: "sgood {} {c} C m s" and E: "workers_start E" and sent: "SendCall c q \<in> set (log s)"
    and ok: "reply_error r = None \<Longrightarrow> CallSucceeded c q \<in> C"
  shows "run_safe (sgood {} {} C m) (call_callback E R c q r s)"
proof -
  have login: "m = LOGIN" if "q = CallOpen"
    using s sent that by (auto simp: sgood_def calls_good_def)
  have init: "run_safe (sgood {} {} C m) (on_initialization_complete_cb E R c (reply_error r) s)"
    if "q = CallInitialize d" for d
    by (rule run_safe_drop [OF on_initialization_complete_safe [OF s]]) (use ok that in auto)
  have opened: "run_safe (sgood {} {} C m) (on_opened E R c (reply_string r) s)" if "q = CallOpen"
    by (rule on_opened_safe [OF s _ E login [OF that]]) simp
  show ?thesis
    using s ok E sgood_drop [OF s] init opened
    by (cases q)
       (auto simp: call_callback_def
         intro: on_establish_credentials_safe on_start_program_safe
           run_safe_drop [OF on_authenticate_safe] run_safe_drop [OF on_authorize_safe] run_safe_drop [OF on_reauthentication_started_safe])
qed

lemma call_done_safe:
  assumes s: "sgood {} {} C m s" and E: "workers_start E"
  shows "run_safe (sgood {} {} C m) (call_done E R i r s)"
proof (cases "map_of (inflight s) i")
  case (Some ckq)
  obtain c k q where q: "ckq = (c, k, q)" by (cases ckq) auto
  define t where "t = s\<lparr>inflight := filter (\<lambda>(j, x). j \<noteq> i) (inflight s)\<rparr>"
  have t: "sgood {} {} C m t" unfolding t_def by (rule sgood_finish_call [OF s])
  note call = sgood_inflight [OF s map_of_SomeD [OF Some, unfolded q]]
  show ?thesis
  proof (cases "k \<in> set (cancelled_ids s) \<or> r = CallClosed")
    case True
    with Some q t show ?thesis by (simp add: call_done_def Let_def t_def)
  next
    case False
    with call obtain v where v: "convs t c = Some v" by (auto simp: t_def)
    define u where "u = (if reply_error r = None then logS [CallSucceeded c q] t else t)"
    define D where "D = (if reply_error r = None then insert (CallSucceeded c q) C else C)"
    have "sgood {} {c} D m u"
      using sgood_succeeded [of "{}" "{c}" C m t c q] sgood_keep [OF t v] call(1)
      by (simp add: u_def D_def t_def)
    moreover have "SendCall c q \<in> set (log u)"
      using call(1) by (simp add: u_def t_def logS_def)
    ultimately have "run_safe (sgood {} {} D m) (call_callback E R c q r u)"
      by (rule call_callback_safe [OF _ E]) (simp add: D_def)
    then have "run_safe (sgood {} {} C m) (call_callback E R c q r u)"
      by (rule run_safe_mono) (auto simp: D_def intro: sgood_weaken split: if_splits)
    moreover have "call_done E R i r s = call_callback E R c q r u"
      using Some q False by (simp add: call_done_def Let_def t_def u_def)
    ultimately show ?thesis by simp
  qed
qed (simp add: call_done_def s)

end

section \<open>Workers and clients\<close>

lemma pending_query_safe [sess_safe]:
  assumes s: "sgood X L C m s" and c: "c \<in> X \<union> L"
  shows "run_safe (sgood X L C m) (cancel_pending_query c s)"
    and "run_safe (sgood X L C m) (finish_pending_query r c s)"
    and "run_safe (sgood X L C m) (set_pending_query i c s)"
  unfolding cancel_pending_query_def finish_pending_query_def set_pending_query_def
  by (rule with_conv_live [OF s c], auto simp: s split: option.split intro!: sgood_log sgood_put [OF s])+

lemma answer_query_safe [sess_safe]:
  assumes "sgood X L C m s"
  shows "run_safe (sgood X L C m) (gdm_session_answer_query svc answer s)"
    and "run_safe (sgood X L C m) (gdm_session_report_error svc text s)"
  unfolding gdm_session_answer_query_def gdm_session_report_error_def
  by (rule on_conversation_safe [OF assms], auto intro: pending_query_safe)+

lemma pass_query_safe [sess_safe]:
  assumes "sgood X L C m s"
  shows "run_safe (sgood X L C m) (pass_query i svc g s)"
  unfolding pass_query_def
proof (rule on_conversation_safe [OF assms], goal_cases)
  case (1 c v)
  show ?case by (rule run_safe_bind [OF pending_query_safe(3) [OF 1(3)]]) simp_all
qed

lemma worker_manager_call_safe [sess_safe]:
  "sgood X L C m s \<Longrightarrow> run_safe (sgood X L C m) (worker_manager_call i svc q s)"
  by (cases q)
     (auto simp: gdm_session_handle_info_query_def gdm_session_handle_secret_info_query_def
       gdm_session_handle_info_def gdm_session_handle_problem_def gdm_session_handle_choice_list_query_def
       gdm_session_handle_custom_json_request_def intro: pass_query_safe)

lemma saved_session_name_safe [sess_safe]:
  assumes s: "sgood X L C m s"
  shows "run_safe (sgood X L C m) (worker_on_saved_session_name_read E name s)"
proof -
  have "run_safe (sgood X L C m) (case saved_session_type t of
      Some y \<Rightarrow> Ret (set_session_type (Some y) t) | None \<Rightarrow> update_session_type E t)"
    if "sgood X L C m t" for t
    using that by (auto split: option.split intro: update_session_type_safe)
  then show ?thesis
    using s unfolding worker_on_saved_session_name_read_def Let_def
    by (auto intro!: update_session_type_safe run_safe_bind_state [OF session_name_safe(1)] sgood_log)
qed

lemma worker_signal_safe [sess_safe]:
  assumes s: "sgood {} {} C m s" and E: "workers_start E" and c: "convs s c = Some v"
  shows "run_safe (sgood {} {} C m) (worker_signal E R c g s)"
proof -
  have "run_safe (sgood {} {c} C m) (cancel_pending_query c s)"
    by (rule pending_query_safe(1) [OF sgood_keep [OF s c]]) simp
  then show ?thesis
    using s E
    by (auto simp: worker_signal_def worker_on_username_changed_def worker_on_session_exited_def
        worker_on_saved_language_name_read_def worker_on_saved_session_type_read_def
        worker_on_cancel_pending_query_def worker_on_reauthenticated_def Let_def
        intro: defaults_changed_safe emit_safe saved_session_name_safe run_safe_drop split: wsignal.split)
qed

lemma find_by_pid_safe:
  "sgood X L C m s \<Longrightarrow> set es \<subseteq> set (conversations s) \<Longrightarrow>
     run_safe (\<lambda>found. \<forall>c. found = Some c \<longrightarrow> (\<exists>v. convs s c = Some v)) (find_by_pid pid s es)"
proof (induction es)
  case (Cons e es)
  with sgood_entry [OF Cons.prems(1), of e] show ?case
    by (auto simp: with_conv_def)
qed simp

text \<open>
  A worker announces itself once: the conversation of its process has no proxy yet.
\<close>

definition registers_once :: "session_event \<Rightarrow> session \<Rightarrow> bool" where
  "registers_once e s =
     (case e of
        WorkerHello i conn \<Rightarrow>
          (case map_of (pending_worker_connections s) conn of
             None \<Rightarrow> True
           | Some pid \<Rightarrow>
               (case find_conversation_by_pid pid s of
                  Ret (Some c) \<Rightarrow> (case convs s c of Some v \<Rightarrow> \<not> worker_proxy v | None \<Rightarrow> True)
                | _ \<Rightarrow> True))
      | _ \<Rightarrow> True)"

lemma sgood_register:
  assumes s: "sgood {} L C m s" and v: "convs s c = Some v" "\<not> worker_proxy v"
  shows "sgood {} L C m (put_conv c (v\<lparr>worker_proxy := True, worker_cancellable := Some k,
            worker_manager_interface := True\<rparr>) s)"
proof -
  let ?v = "v\<lparr>worker_proxy := True, worker_cancellable := Some k, worker_manager_interface := True\<rparr>"
  have none: "worker_cancellable v = None"
    using s v by (auto simp: sgood_def calls_good_def)
  have "table_good {} (put_conv c ?v s)"
    using s v by (fastforce simp: sgood_def table_good_def put_conv_def)
  moreover have "calls_good (put_conv c ?v s)"
    using s v none by (fastforce simp: sgood_def calls_good_def put_conv_def)
  moreover have "watches_good (put_conv c ?v s)"
    using s v by (fastforce simp: sgood_def watches_good_def put_conv_def)
  ultimately show ?thesis
    using s by (auto simp: sgood_def put_conv_def)
qed

lemma set_up_started_safe:
  assumes s: "sgood {} L C m s" and c: "c \<in> L"
  shows "run_safe (sgood {} L C m) (set_up_started E c s)"
  unfolding set_up_started_def
proof (rule with_conv_live [OF s])
  show live: "c \<in> {} \<union> L" using c by simp
  fix v
  have "run_safe (sgood {} L C m) (with_conv c t (\<lambda>v. Ret (put_conv c (v\<lparr>starting_username := None\<rparr>) t)))"
    if "sgood {} L C m t" for t
    by (rule with_conv_live [OF that live]) (auto intro!: sgood_put that)
  then show "run_safe (sgood {} L C m)
      (let s = verifier (UvConversationStarted (service_name v)) s
       in if starting_invocation v = None then Ret s
          else
            (case starting_username v of
               Some u \<Rightarrow>
                 bindR (gdm_session_setup_for_user E (service_name v) u s) (\<lambda>s.
                   with_conv c s (\<lambda>v. Ret (put_conv c (v\<lparr>starting_username := None\<rparr>) s)))
             | None \<Rightarrow> gdm_session_setup E (service_name v) s))"
    using s by (auto simp: Let_def split: option.split intro!: run_safe_bind [OF setup_safe(2) [of "{}" L C m]] setup_safe)
qed

context gentle_listener
begin

lemma register_worker_safe:
  assumes s: "sgood {} {} C m s" and once: "registers_once (WorkerHello i conn) s"
  shows "run_safe (sgood {} {} C m) (register_worker E R i conn s)"
proof (cases "map_of (pending_worker_connections s) conn")
  case (Some pid)
  define t where "t = on_worker_connection_closed conn s"
  have t: "sgood {} {} C m t" "convs t = convs s" "conversations t = conversations s"
    using s by (simp_all add: t_def on_worker_connection_closed_def)
  have same: "find_by_pid pid t es = find_by_pid pid s es" for es
    by (induction es) (simp_all add: t with_conv_def split: option.split)
  have "run_safe (sgood {} {} C m) (case found of
      None \<Rightarrow> Ret (logS [Answer i (ErrorText ''Connection is not from a known conversation''), ClosePeer conn] t)
    | Some c \<Rightarrow>
        with_conv c t (\<lambda>v.
          let k = next_cancellable t;
              t = (put_conv c (v\<lparr>worker_proxy := True, worker_cancellable := Some k,
                     worker_manager_interface := True\<rparr>) (logS [Answer i Completed] t))\<lparr>next_cancellable := Suc k\<rparr>
          in bindR (emit E R (CONVERSATION_STARTED (service_name v)) t) (set_up_started E c)))"
    if f: "find_conversation_by_pid pid t = Ret found" for found
  proof (cases found)
    case c: (Some c)
    have f': "find_conversation_by_pid pid s = Ret (Some c)"
      using f c same by (simp add: find_conversation_by_pid_def t)
    with find_by_pid_safe [OF t(1) subset_refl, of pid] f c obtain v where v: "convs t c = Some v"
      by (auto simp: find_conversation_by_pid_def)
    with once Some f' have "\<not> worker_proxy v" by (simp add: registers_once_def t)
    then have "sgood {} {c} C m (put_conv c (v\<lparr>worker_proxy := True, worker_cancellable := Some k,
                     worker_manager_interface := True\<rparr>) (logS [Answer i Completed] t))" for k
      using v sgood_keep [OF t(1) v] by (intro sgood_register) auto
    then show ?thesis
      using c v
      by (auto simp: with_conv_def Let_def
          intro!: run_safe_bind [OF emit_keeps [of "{}" "{c}" C]] run_safe_drop [OF set_up_started_safe [of "{c}"]])
  qed (use t in simp)
  then show ?thesis
    using find_by_pid_safe [OF t(1) subset_refl, of pid] Some
    by (cases "find_conversation_by_pid pid t")
       (auto simp: register_worker_def Let_def t_def [symmetric] find_conversation_by_pid_def split: option.split)
qed (simp add: register_worker_def s)

end

text \<open>The end of a worker: its watch has fired, and the conversation is detached and freed.\<close>

lemma conversation_stopped_safe:
  assumes s: "sgood {c} {} C m s" and E: "workers_start E"
  shows "run_safe (sgood {} {} C m) (conversation_stopped E R c s)"
  unfolding conversation_stopped_def
proof (rule with_conv_live [OF s])
  fix v
  show "run_safe (sgood {} {} C m) (bindR (emit E R (CONVERSATION_STOPPED (service_name v)) s) (\<lambda>s.
         with_conv c s (\<lambda>v.
           let s = verifier (UvConversationStopped (service_name v)) s;
               s = (if is_stopping v
                    then (case job v of
                            None \<Rightarrow> s
                          | Some j \<Rightarrow> fold perform_job_effect (gdm_session_worker_job_finalize j)
                                        (put_conv c (v\<lparr>job := None\<rparr>) s))
                    else s)
           in free_conversation c s)))"
  proof (rule run_safe_bind [OF emit_safe [OF s E]], rule with_conv_live)
    fix t v
    assume t: "sgood {c} {} C m t" and v: "convs t c = Some v"
    have u: "sgood {c} {} C m (verifier (UvConversationStopped (service_name v)) t)" using t by simp
    have "unwatched {c} t" using t v by (fastforce simp: sgood_def watches_good_def table_good_def unwatched_def)
    then have "sgood {c} {} C m (put_conv c (v\<lparr>job := None\<rparr>) (verifier (UvConversationStopped (service_name v)) t))"
      using v by (intro sgood_put_job [OF u]) (auto simp: verifier_def logS_def unwatched_def)
    then have "run_safe (sgood {} {} C m) (free_conversation c
        (if is_stopping v
         then (case job v of
                 None \<Rightarrow> verifier (UvConversationStopped (service_name v)) t
               | Some j \<Rightarrow> fold perform_job_effect (gdm_session_worker_job_finalize j)
                             (put_conv c (v\<lparr>job := None\<rparr>) (verifier (UvConversationStopped (service_name v)) t)))
         else verifier (UvConversationStopped (service_name v)) t))"
      using u free_conversation_safe [of "{c}" "{}" C m _ c] by (simp split: option.split)
    then show "run_safe (sgood {} {} C m)
        (let s = verifier (UvConversationStopped (service_name v)) t;
             s = (if is_stopping v
                  then (case job v of
                          None \<Rightarrow> s
                        | Some j \<Rightarrow> fold perform_job_effect (gdm_session_worker_job_finalize j)
                                      (put_conv c (v\<lparr>job := None\<rparr>) s))
                  else s)
         in free_conversation c s)"
      by (simp only: Let_def)
  qed auto
qed simp

lemma worker_end_safe:
  assumes s: "sgood {} {} C m s" and E: "workers_start E" and c: "convs s c = Some v" and w: "unwatched {c} s"
  shows "run_safe (sgood {} {} C m) (worker_exited E R c code s)"
    and "run_safe (sgood {} {} C m) (worker_died E R c signum s)"
proof -
  define t where "t = s\<lparr>conversations := ght_remove (service_name v) (conversations s)\<rparr>"
  have wf: "ght_wf (conversations s)" and e: "(service_name v, Some c) \<in> set (conversations s)"
    using s c by (auto simp: sgood_def table_good_def)
  have "sgood ({} \<union> {c}) {} C m t"
    unfolding t_def
  proof (rule sgood_detach [OF s w])
    show "(n, Some d) \<in> set (ght_remove (service_name v) (conversations s)) \<longleftrightarrow> d \<notin> {c}"
      if "(n, Some d) \<in> set (conversations s)" for n d
      using that e sgood_entry [OF s that] sgood_entry [OF s e] wf c
      by (auto simp: ght_remove_set ght_lookup_set [OF wf, symmetric])
  qed (use wf e in \<open>auto simp: ght.wf_remove ght_remove_set entries_def\<close>)
  then have t: "sgood {c} {} C m t" by simp
  note stopped = conversation_stopped_safe [OF _ E, of c C m]
  show "run_safe (sgood {} {} C m) (worker_exited E R c code s)"
    using c t E stopped
    by (auto simp: worker_exited_def with_conv_def Let_def t_def [symmetric] intro!: run_safe_bind [OF emit_safe [OF t E]])
  have "sgood {c} {} C m (if session_pid t \<noteq> -1 then logS [SignalSession (session_pid t)] t else t)"
    using t by simp
  from emit_safe [OF this E] show "run_safe (sgood {} {} C m) (worker_died E R c signum s)"
    using c t stopped
    by (auto simp: worker_died_def with_conv_def Let_def t_def [symmetric]
        intro!: run_safe_bind [where P = "sgood {c} {} C m"])
qed

lemma child_done_safe [sess_safe]:
  assumes s: "sgood {} {} C m s" and E: "workers_start E"
  shows "run_safe (sgood {} {} C m) (child_done E R i wait_status s)"
proof (cases "map_of (child_watches s) i")
  case (Some c)
  then have "(i, c) \<in> set (child_watches s)" by (rule map_of_SomeD)
  with s obtain v j where v: "convs s c = Some v" "job v = Some j" "job_child_watch_id j = i"
    by (fastforce simp: sgood_def watches_good_def)
  define t where "t = s\<lparr>child_watches := filter (\<lambda>(j, d). j \<noteq> i) (child_watches s)\<rparr>"
  have t: "sgood {} {} C m t" using s by (auto simp: t_def sgood_defs)
  have w: "unwatched {c} t"
    using s v by (fastforce simp: t_def unwatched_def sgood_def watches_good_def)
  define u where "u = put_conv c (v\<lparr>job := Some (j\<lparr>job_pid := -1\<rparr>)\<rparr>) t"
  have u: "sgood {} {} C m u" unfolding u_def
    by (rule sgood_put_job [OF t w, of v]) (use v in \<open>auto simp: t_def\<close>)
  have "convs u c = Some (v\<lparr>job := Some (j\<lparr>job_pid := -1\<rparr>)\<rparr>)" "unwatched {c} u"
    using w by (simp_all add: u_def put_conv_def unwatched_def)
  note ends = worker_end_safe [OF u E this]
  have "convs t c = Some v" using v by (simp add: t_def)
  then show ?thesis
    using Some v ends u
    by (simp add: child_done_def Let_def t_def [symmetric] with_conv_def session_worker_job_child_watch_def
        u_def [symmetric])
qed (simp add: child_done_def s)

lemma begin_verification_safe [sess_safe]:
  assumes "sgood {} {} C m s" and E: "workers_start E"
  shows "run_safe (sgood {} {} C m) (gdm_session_handle_client_begin_verification E i svc s)"
    and "run_safe (sgood {} {} C m) (gdm_session_handle_client_begin_verification_for_user E i svc user s)"
proof -
  have found: "run_safe (\<lambda>(found, t). sgood {} {} C m t \<and> (\<forall>c. found = Some c \<longrightarrow> convs t c \<noteq> None))
      (begin_verification_conversation E i svc s)"
    unfolding begin_verification_conversation_def
    by (rule run_safe_bind_state [OF start_conversation_safe [OF assms]])
       (auto simp: Let_def dest: sgood_find)
  have put: "run_safe (sgood {} {} C m) (case found of None \<Rightarrow> Ret t
      | Some c \<Rightarrow> with_conv c t (\<lambda>v. Ret (put_conv c (v\<lparr>starting_invocation := Some i, starting_username := x\<rparr>) t)))"
    if "sgood {} {} C m t" "\<forall>c. found = Some c \<longrightarrow> convs t c \<noteq> None" for found t x
    using that by (auto simp: with_conv_def split: option.split intro!: sgood_put)
  show "run_safe (sgood {} {} C m) (gdm_session_handle_client_begin_verification E i svc s)"
    "run_safe (sgood {} {} C m) (gdm_session_handle_client_begin_verification_for_user E i svc user s)"
    unfolding gdm_session_handle_client_begin_verification_def
      gdm_session_handle_client_begin_verification_for_user_def
    by (rule run_safe_bind [OF found], auto intro: put)+
qed

lemma exported_method_safe [sess_safe]:
  assumes s: "sgood {} {} C m s" and E: "workers_start E"
  shows "run_safe (sgood {} {} C m) (exported_method E R i q s)"
  using s E
  by (cases q)
     (auto simp: gdm_session_handle_client_enable_extensions_def gdm_session_handle_client_answer_query_def
       gdm_session_handle_client_cancel_def gdm_session_cancel_def gdm_session_handle_client_select_choice_def
       gdm_session_handle_client_custom_json_reply_def gdm_session_handle_client_custom_json_report_error_def
       gdm_session_handle_client_select_session_def gdm_session_handle_client_select_user_def
       gdm_session_handle_client_start_session_when_ready_def gdm_session_handle_get_timed_login_details_def
       gdm_session_handle_client_stop_conflicting_session_def gdm_session_handle_client_begin_auto_login_def
       unless_running_def
       intro!: begin_verification_safe answer_query_safe emit_safe select_session_safe setup_safe
         run_safe_bind [OF emit_safe [OF s E]] sgood_log
       split: option.split)

context gentle_listener
begin

lemma session_step_safe:
  assumes s: "sgood {} {} C m s" and E: "workers_start E" and once: "registers_once e s"
  shows "run_safe (sgood {} {} C m) (session_step E R e s)"
proof (cases e)
  case (WorkerHello i conn)
  with register_worker_safe [OF s] once show ?thesis by simp
next
  case (ClientConnects conn u pid)
  have "run_safe (with_state {} {} C m) (allow_user_function E R u pid s)"
    using s E by (auto simp: allow_user_function_def intro!: run_safe_bind [OF emit_safe [OF s E]])
  then show ?thesis
    unfolding ClientConnects session_step.simps
    by (rule run_safe_bind_state) (auto simp: handle_connection_from_outside_def intro!: emit_safe E)
qed (use s E in \<open>auto simp: handle_connection_from_worker_def on_worker_connection_closed_def handle_client_def
       on_outside_connection_closed_def intro!: api_call_safe call_done_safe worker_signal_safe
       worker_manager_call_safe exported_method_safe emit_safe child_done_safe sgood_log split: option.split\<close>)

end

end
