(* ===== verification/Session_Owners.thy ===== *)
theory Session_Owners
  imports Gdm_Session_Safety "HOL-Library.Sublist"
begin

text \<open>
  The owners of sessions and the properties of the sessions that they run. A session belongs to
  the manager (a user's login, \<^verbatim>\<open>daemon/gdm-manager.c\<close>), to a launch environment (a greeter,
  \<^verbatim>\<open>daemon/gdm-launch-environment.c\<close>), to the manager as a temporary channel for
  reauthentication, or to a session worker as the channel to reauthenticate its user
  (\<^verbatim>\<open>daemon/gdm-session-worker.c\<close>). Each connects its handlers to the signals of the session;
  the listeners say which functions of the session the handlers call.
\<close>

section \<open>Listeners\<close>

text \<open>
  What the handlers of the manager look up: the user of an automatic login on the display of the
  session, the details of a timed login where one is allowed, and whether the session is in the
  list of user sessions.
\<close>

record manager_view =
  automatic_login :: "session \<Rightarrow> cstr"
  timed_login :: "session \<Rightarrow> (string \<times> int) option"
  in_user_sessions :: "session \<Rightarrow> bool"

definition user_conversation_started :: "manager_view \<Rightarrow> string \<Rightarrow> session \<Rightarrow> session_api list" where
  "user_conversation_started M svc s =
     (if svc \<noteq> ''gdm-autologin'' then []
      else case automatic_login M s of None \<Rightarrow> [] | Some u \<Rightarrow> [SetupForUser svc u])"

definition user_client_connected :: "manager_view \<Rightarrow> session \<Rightarrow> session_api list" where
  "user_client_connected M s =
     (if gdm_session_is_running s then []
      else case timed_login M s of
             None \<Rightarrow> []
           | Some (u, delay) \<Rightarrow> [SetTimedLoginDetails u delay, StartConversation ''gdm-autologin''])"

definition user_session_ended :: "manager_view \<Rightarrow> session \<Rightarrow> session_api list" where
  "user_session_ended M s = (if in_user_sessions M s then [Close] else [])"

text \<open>The handlers of the other signals make no call on the session before they return.\<close>

fun user_session_listener :: "manager_view \<Rightarrow> listener" where
  "user_session_listener M (CONVERSATION_STARTED svc) s = user_conversation_started M svc s"
| "user_session_listener M (CLIENT_CONNECTED pid) s = user_client_connected M s"
| "user_session_listener M (SESSION_START_FAILED svc) s = user_session_ended M s"
| "user_session_listener M (SESSION_EXITED code) s = user_session_ended M s"
| "user_session_listener M (SESSION_DIED signum) s = user_session_ended M s"
| "user_session_listener M _ s = []"

text \<open>
  The greeter. \<open>display_stops\<close> is whether the display stops the greeter session while it handles
  the end of the greeter; \<open>has_session\<close> is whether the launch environment still has the session.
\<close>

record greeter_view =
  greeter_user_name :: cstr
  greeter_log_dir :: string
  display_stops :: "session \<Rightarrow> bool"
  has_session :: "session \<Rightarrow> bool"

definition launch_environment_service :: string where
  "launch_environment_service = ''gdm-launch-environment''"

definition greeter_conversation_started :: "greeter_view \<Rightarrow> session_api list" where
  "greeter_conversation_started G =
     [SetupForProgram launch_environment_service (greeter_user_name G) (Some (greeter_log_dir G @ ''/greeter.log''))]"

definition greeter_ended :: "greeter_view \<Rightarrow> session \<Rightarrow> session_api list" where
  "greeter_ended G s =
     StopConversation launch_environment_service # (if display_stops G s then [Close] else [])"

definition greeter_conversation_stopped :: "greeter_view \<Rightarrow> session \<Rightarrow> session_api list" where
  "greeter_conversation_stopped G s = (if has_session G s then [Close] else [])"

fun greeter_listener :: "greeter_view \<Rightarrow> listener" where
  "greeter_listener G (CONVERSATION_STARTED svc) s = greeter_conversation_started G"
| "greeter_listener G (CONVERSATION_STOPPED svc) s = greeter_conversation_stopped G s"
| "greeter_listener G (SESSION_OPENED svc sid) s = [StartSession svc]"
| "greeter_listener G (SESSION_EXITED code) s = greeter_ended G s"
| "greeter_listener G (SESSION_DIED signum) s = greeter_ended G s"
| "greeter_listener G _ s = []"

text \<open>The temporary channel: who asked for it, and the login sessions of processes.\<close>

record channel_view =
  channel_caller_pid :: int
  channel_caller_session :: cstr
  session_id_for_pid :: "int \<Rightarrow> cstr"

definition reauthentication_client_rejected :: "channel_view \<Rightarrow> int \<Rightarrow> session \<Rightarrow> session_api list" where
  "reauthentication_client_rejected T pid_of_client s =
     (if gdm_session_client_is_connected s then []
      else if channel_caller_pid T \<noteq> pid_of_client \<and> channel_caller_session T \<noteq> session_id_for_pid T pid_of_client then []
      else [Close])"

fun channel_listener :: "channel_view \<Rightarrow> listener" where
  "channel_listener T (CLIENT_DISCONNECTED pid) s = [Close]"
| "channel_listener T (CLIENT_REJECTED pid) s = reauthentication_client_rejected T pid s"
| "channel_listener T CANCELLED s = [Close]"
| "channel_listener T (VERIFICATION_COMPLETE svc) s = [Close]"
| "channel_listener T _ s = []"

text \<open>
  The session inside of a session worker. When its client goes, the request leaves the table,
  and the last reference to the session with it.
\<close>

fun worker_reauthentication_listener :: listener where
  "worker_reauthentication_listener (CLIENT_DISCONNECTED pid) s = [Close]"
| "worker_reauthentication_listener CANCELLED s = [Reset]"
| "worker_reauthentication_listener (VERIFICATION_COMPLETE svc) s = [Reset]"
| "worker_reauthentication_listener _ s = []"

interpretation user_session: gentle_listener "user_session_listener M" LOGIN for M
proof unfold_locales
  fix s g a
  assume "must_keep g LOGIN" "a \<in> set (user_session_listener M g s)"
  then show "\<not> frees a"
    by (cases g) (auto simp: user_conversation_started_def split: if_splits option.splits)
qed

interpretation greeter_session: gentle_listener "greeter_listener G" LOGIN for G
proof unfold_locales
  fix s g a
  assume "must_keep g LOGIN" "a \<in> set (greeter_listener G g s)"
  then show "\<not> frees a" by (cases g) (auto simp: greeter_conversation_started_def)
qed

interpretation channel: gentle_listener "channel_listener T" REAUTHENTICATE for T
proof unfold_locales
  fix s g a
  assume "must_keep g REAUTHENTICATE" "a \<in> set (channel_listener T g s)"
  then show "\<not> frees a" by (cases g) auto
qed

interpretation worker_channel: gentle_listener worker_reauthentication_listener REAUTHENTICATE
proof unfold_locales
  fix s g a
  assume "must_keep g REAUTHENTICATE" "a \<in> set (worker_reauthentication_listener g s)"
  then show "\<not> frees a" by (cases g) auto
qed

section \<open>Reachable states of a session\<close>

datatype session_owner =
    UserSession manager_view
  | GreeterSession greeter_view
  | ReauthenticationChannel channel_view
  | WorkerReauthentication

fun owner_listener :: "session_owner \<Rightarrow> listener" where
  "owner_listener (UserSession M) = user_session_listener M"
| "owner_listener (GreeterSession G) = greeter_listener G"
| "owner_listener (ReauthenticationChannel T) = channel_listener T"
| "owner_listener WorkerReauthentication = worker_reauthentication_listener"

fun owner_mode :: "session_owner \<Rightarrow> verification_mode" where
  "owner_mode (UserSession M) = LOGIN"
| "owner_mode (GreeterSession G) = LOGIN"
| "owner_mode (ReauthenticationChannel T) = REAUTHENTICATE"
| "owner_mode WorkerReauthentication = REAUTHENTICATE"

text \<open>
  From a new session, by any events in any order, as long as no worker announces itself twice.
\<close>

inductive session_reachable :: "senv \<Rightarrow> session_owner \<Rightarrow> session \<Rightarrow> bool" for E ow where
  reachable_new:
    "session_reachable E ow
       (gdm_session_new x11 worker_addr outside_addr lang (owner_mode ow) allowed host device seat is_local env)"
| reachable_step:
    "session_reachable E ow s \<Longrightarrow> registers_once e s \<Longrightarrow> session_step E (owner_listener ow) e s = Ret t \<Longrightarrow>
       session_reachable E ow t"

lemma new_session_good:
  "sgood {} {} {} mode
     (gdm_session_new x11 worker_addr outside_addr lang mode allowed host device seat is_local env)"
proof -
  have "call_order {} (map (\<lambda>(k, v). SetProcessEnvironment k v) xs)" for xs
    by (rule other_entries_order) auto
  then show ?thesis
    by (auto simp: gdm_session_new_def gdm_session_set_supported_session_types_def gdm_session_init_def
        logS_def sgood_defs ght.wf_empty)
qed

lemma owner_step_safe:
  assumes "sgood {} {} C (owner_mode ow) s" "workers_start E" "registers_once e s"
  shows "run_safe (sgood {} {} C (owner_mode ow)) (session_step E (owner_listener ow) e s)"
  using assms user_session.session_step_safe greeter_session.session_step_safe
    channel.session_step_safe worker_channel.session_step_safe
  by (cases ow) simp_all

lemma session_reachable_good:
  "session_reachable E ow s \<Longrightarrow> workers_start E \<Longrightarrow> sgood {} {} {} (owner_mode ow) s"
proof (induction rule: session_reachable.induct)
  case (reachable_step s e t)
  then show ?case using owner_step_safe [of "{}" ow s E e] by simp
qed (rule new_session_good)

section \<open>A session that logs a user in\<close>

text \<open>
  The examples run a login: the greeter connects and asks for the password service, the worker
  starts and answers every call, and the user session is opened. \<open>checked_run\<close> stops where a
  worker announces itself twice.
\<close>

fun checked_run :: "senv \<Rightarrow> session_owner \<Rightarrow> session_event list \<Rightarrow> session \<Rightarrow> session option" where
  "checked_run E ow [] s = Some s"
| "checked_run E ow (e # es) s =
     (if registers_once e s
      then (case session_step E (owner_listener ow) e s of Ret t \<Rightarrow> checked_run E ow es t | _ \<Rightarrow> None)
      else None)"

lemma checked_run_reachable:
  "checked_run E ow es s = Some t \<Longrightarrow> session_reachable E ow s \<Longrightarrow> session_reachable E ow t"
  by (induction es arbitrary: s) (auto split: if_splits run.splits intro: reachable_step)

definition demo_senv :: senv where
  "demo_senv = \<lparr>files = demo_files, LIBEXECDIR = ''/usr/libexec'', parse_command = (\<lambda>cmd. Some [cmd]),
     spawn_worker = (\<lambda>l args env. Some 100), process_environ = [], locale_messages = None,
     json_parses = (\<lambda>x. True)\<rparr>"

lemma demo_workers_start: "workers_start demo_senv"
  by (simp add: workers_start_def demo_senv_def)

definition demo_owner :: session_owner where
  "demo_owner = UserSession \<lparr>automatic_login = (\<lambda>s. None), timed_login = (\<lambda>s. None),
     in_user_sessions = (\<lambda>s. True)\<rparr>"

definition demo_session :: session where
  "demo_session = gdm_session_new True (Some ''unix:worker'') (Some ''unix:greeter'') None (owner_mode demo_owner)
     1000 None None (Some ''seat0'') True None"

definition login_events :: "session_event list" where
  "login_events =
     [ClientConnects 1 1000 70, ClientCalls 1 (BeginVerificationForUser ''gdm-password'' ''alice''),
      WorkerConnects 2 0 100, WorkerHello 2 2, CallDone 1 (CallReturned Done), CallDone 2 (CallReturned Done),
      CallDone 3 (CallReturned Done), CallDone 4 (CallReturned Done)]"

definition logged_in :: session where
  "logged_in = the (checked_run demo_senv demo_owner login_events demo_session)"

lemma demo_session_reachable: "session_reachable demo_senv demo_owner demo_session"
  unfolding demo_session_def by (rule reachable_new)

lemma logged_in_reachable: "session_reachable demo_senv demo_owner logged_in"
proof -
  have "checked_run demo_senv demo_owner login_events demo_session \<noteq> None" by code_simp
  then show ?thesis
    unfolding logged_in_def
    by (metis checked_run_reachable demo_session_reachable option.exhaust_sel)
qed

section \<open>Helpers for the properties\<close>

lemma call_order_split: "call_order C (xs @ x # ys) \<Longrightarrow> call_order C xs \<and> call_allowed (C \<union> set xs) x"
  by (simp add: call_order_append)

text \<open>A call that succeeded was sent before, and what it needed had happened before that.\<close>

lemma succeeded_before:
  assumes "call_order {} xs" "CallSucceeded c q \<in> set xs"
  obtains zs where "call_order {} zs" "call_allowed (set zs) (SendCall c q)"
    "\<And>l. subseq l zs \<Longrightarrow> subseq (l @ [SendCall c q, CallSucceeded c q]) xs"
proof -
  from split_list [OF assms(2)] obtain a b where xs: "xs = a @ CallSucceeded c q # b" by blast
  from call_order_split [OF assms(1) [unfolded xs]] have a: "call_order {} a" "SendCall c q \<in> set a"
    by auto
  from split_list [OF a(2)] obtain zs e where zs: "a = zs @ SendCall c q # e" by blast
  have "call_order {} zs" "call_allowed (set zs) (SendCall c q)"
    using call_order_split [OF a(1) [unfolded zs]] by auto
  moreover have "subseq (l @ [SendCall c q, CallSucceeded c q]) xs" if "subseq l zs" for l
  proof -
    have "subseq [SendCall c q, CallSucceeded c q] (SendCall c q # e @ CallSucceeded c q # b)"
      by (simp add: list_emb_append2)
    from list_emb_append_mono [OF that this] show ?thesis by (simp add: xs zs)
  qed
  ultimately show thesis by (rule that)
qed

definition login_calls :: "nat \<Rightarrow> (string \<times> variant) list \<Rightarrow> session_call list" where
  "login_calls c d =
     [SendCall c (CallInitialize d), CallSucceeded c (CallInitialize d),
      SendCall c CallAuthenticate, CallSucceeded c CallAuthenticate,
      SendCall c CallAuthorize, CallSucceeded c CallAuthorize,
      SendCall c CallEstablishCredentials, CallSucceeded c CallEstablishCredentials]"

lemma credentials_chain:
  assumes "call_order {} xs" "CallSucceeded c CallEstablishCredentials \<in> set xs"
  shows "\<exists>d. subseq (login_calls c d) xs"
proof -
  from assms obtain x1 where x1: "call_order {} x1" "CallSucceeded c CallAuthorize \<in> set x1"
    "\<And>l. subseq l x1 \<Longrightarrow> subseq (l @ [SendCall c CallEstablishCredentials, CallSucceeded c CallEstablishCredentials]) xs"
    by (rule succeeded_before) simp
  from x1(1,2) obtain x2 where x2: "call_order {} x2" "CallSucceeded c CallAuthenticate \<in> set x2"
    "\<And>l. subseq l x2 \<Longrightarrow> subseq (l @ [SendCall c CallAuthorize, CallSucceeded c CallAuthorize]) x1"
    by (rule succeeded_before) simp
  from x2(1,2) obtain x3 d where x3: "call_order {} x3" "CallSucceeded c (CallInitialize d) \<in> set x3"
    "\<And>l. subseq l x3 \<Longrightarrow> subseq (l @ [SendCall c CallAuthenticate, CallSucceeded c CallAuthenticate]) x2"
    by (rule succeeded_before) auto
  from x3(1,2) have "subseq [SendCall c (CallInitialize d), CallSucceeded c (CallInitialize d)] x3"
    by (rule succeeded_before) (use list_emb_Nil in fastforce)
  from x1(3) [OF x2(3) [OF x3(3) [OF this]]] show ?thesis by (auto simp: login_calls_def)
qed

lemma conversation_ops_is_opened:
  "stop_entry_now e s = Ret t \<Longrightarrow> is_opened t = is_opened s"
  "free_entry e s = Ret t \<Longrightarrow> is_opened t = is_opened s"
  by (auto simp: stop_entry_now_def stop_conversation_now_def close_conversation_def drop_job_now_def
      free_entry_def free_conversation_def with_conv_def put_conv_def logS_def Let_def fold_job_effects
      split: option.splits if_splits prod.splits)

lemma stop_all_is_opened:
  assumes "stop_all_conversations s = Ret t"
  shows "is_opened t = is_opened s"
proof -
  from assms obtain u v where u: "foldR stop_entry_now (conversations s) s = Ret u"
    and v: "foldR free_entry (conversations u) (u\<lparr>conversations := []\<rparr>) = Ret v" and t: "is_opened t = is_opened v"
    by (auto simp: stop_all_conversations_def)
  have "is_opened u = is_opened s"
    by (rule foldR_invariant [OF u]) (auto dest: conversation_ops_is_opened)
  moreover have "is_opened v = is_opened u"
    by (rule foldR_invariant [OF v]) (auto dest: conversation_ops_is_opened)
  ultimately show ?thesis using t by simp
qed

lemma split_at_nth: "n < length l \<Longrightarrow> l = take n l @ l ! n # drop (Suc n) l"
  by (rule id_take_nth_drop)

section \<open>Properties\<close>



text \<open>
  C4. A session is opened only for a user who has passed. Before a session asks a worker to
  open the user's session, that same worker was initialised for the service of its
  conversation, and initialisation, authentication, authorisation and credentials each
  succeeded, in this order, each asked for only after the step before. A session that is only
  for reauthentication never asks for it.
\<close>

theorem session_call_order:
  assumes "workers_start E" "session_reachable E ow s" "log s = xs @ SendCall c CallOpen # ys"
  shows "owner_mode ow = LOGIN \<and>
         (\<exists>d. subseq (login_calls c d) xs \<and>
              (\<forall>v. convs s c = Some v \<longrightarrow> initialized_service d = Some (service_name v)))"
proof -
  note good = session_reachable_good [OF assms(2,1)]
  have order: "call_order {} (log s)" using good by (simp add: sgood_def calls_good_def)
  from call_order_split [OF order [unfolded assms(3)]] obtain d where d: "subseq (login_calls c d) xs"
    using credentials_chain by auto
  then have "SendCall c (CallInitialize d) \<in> set (log s)"
    using list_emb_set [of "(=)" "login_calls c d" xs] assms(3) by (auto simp: login_calls_def)
  then show ?thesis
    using d good assms(3) by (auto simp: sgood_def calls_good_def)
qed

theorem session_call_order_witness:
  "\<exists>xs ys d. log logged_in = xs @ SendCall 1 CallOpen # ys \<and> subseq (login_calls 1 d) xs \<and>
     initialized_service d = Some ''gdm-password''"
proof -
  let ?n = "length (takeWhile (\<lambda>x. x \<noteq> SendCall 1 CallOpen) (log logged_in))"
  have open_call: "?n < length (log logged_in)" "log logged_in ! ?n = SendCall 1 CallOpen"
    and name: "map_option service_name (convs logged_in 1) = Some ''gdm-password''"
    by code_simp+
  from split_at_nth [OF open_call(1)] open_call(2)
  have log: "log logged_in = take ?n (log logged_in) @ SendCall 1 CallOpen # drop (Suc ?n) (log logged_in)" by simp
  from name obtain v where "convs logged_in 1 = Some v" "service_name v = ''gdm-password''" by blast
  with session_call_order [OF demo_workers_start logged_in_reachable log] obtain d
    where "subseq (login_calls 1 d) (take ?n (log logged_in))" "initialized_service d = Some ''gdm-password''"
    by force
  with log show ?thesis by blast
qed

text \<open>
  A running session is left alone. While the session program runs, the calls with which a
  greeter prepares a login (selecting a session or a user, asking for the start, for the timed
  login or for an automatic login) are answered with an error and change nothing.
\<close>

theorem running_session_refuses:
  assumes "gdm_session_is_running s" "greeter_interface s" "of_greeter q" "q \<noteq> StopConflictingSession"
  shows "session_step E R (ClientCalls i q) s =
           Ret (logS [Answer i (ErrorText (''Session already running for user '' @ string_of (selected_user s)))] s)"
  using assms
  by (cases q)
     (simp_all add: handle_client_def unless_running_def gdm_session_handle_client_select_session_def
       gdm_session_handle_client_select_user_def gdm_session_handle_client_start_session_when_ready_def
       gdm_session_handle_get_timed_login_details_def gdm_session_handle_client_begin_auto_login_def)

theorem running_session_refuses_witness:
  "let s = demo_session\<lparr>session_pid := 200, greeter_interface := True, selected_user := Some ''bob''\<rparr>
   in gdm_session_is_running s \<and>
      session_step demo_senv (owner_listener demo_owner) (ClientCalls 5 (BeginAutoLogin ''root'')) s =
        Ret (logS [Answer 5 (ErrorText ''Session already running for user bob'')] s)"
  using running_session_refuses
    [of "demo_session\<lparr>session_pid := 200, greeter_interface := True, selected_user := Some ''bob''\<rparr>"
      "BeginAutoLogin ''root''" demo_senv "owner_listener demo_owner" 5]
  by (simp add: gdm_session_is_running_def string_of_def Let_def)

text \<open>
  A greeter may ask to stop the conflicting session although its own session is no longer
  open: \<^verbatim>\<open>gdm_session_reset\<close> forgets the session that was opened but not that one was, so
  the check in the handler passes and the signal is emitted without a session.
\<close>

theorem conflicting_session_after_reset:
  assumes "is_opened s" "session_step E (user_session_listener M) (OwnerCalls Reset) s = Ret t" "greeter_interface t"
  shows "is_opened t \<and> session_opened t = None \<and>
         session_step E (user_session_listener M) (ClientCalls i StopConflictingSession) t =
           Ret (logS [Emit (STOP_CONFLICTING_SESSION None), Answer i Completed] t)"
proof -
  from assms(2) have "do_reset (verifier UvReset s) = Ret t" by (simp add: gdm_session_reset_def)
  then have "is_opened t = is_opened (verifier UvReset s)" "session_opened t = None"
    by (auto simp: do_reset_def dest: stop_all_is_opened)
  with assms(1) have "is_opened t" "session_opened t = None" by (simp_all add: verifier_def logS_def)
  then show ?thesis
    using assms(3)
    by (simp add: handle_client_def gdm_session_handle_client_stop_conflicting_session_def emit_def logS_def Let_def)
qed

theorem conflicting_session_after_reset_witness:
  "\<exists>t. session_step demo_senv (owner_listener demo_owner) (OwnerCalls Reset)
         (demo_session\<lparr>greeter_interface := True, is_opened := True, session_opened := Some ''c1''\<rparr>) = Ret t \<and>
       session_step demo_senv (owner_listener demo_owner) (ClientCalls 9 StopConflictingSession) t =
         Ret (logS [Emit (STOP_CONFLICTING_SESSION None), Answer 9 Completed] t)"
proof -
  let ?s = "demo_session\<lparr>greeter_interface := True, is_opened := True, session_opened := Some ''c1''\<rparr>"
  obtain M where M: "owner_listener demo_owner = user_session_listener M" by (simp add: demo_owner_def)
  have "case session_step demo_senv (owner_listener demo_owner) (OwnerCalls Reset) ?s of
      Ret t \<Rightarrow> greeter_interface t | _ \<Rightarrow> False" by code_simp
  then obtain t where t: "session_step demo_senv (user_session_listener M) (OwnerCalls Reset) ?s = Ret t" "greeter_interface t"
    unfolding M by (auto split: run.splits)
  from conflicting_session_after_reset [OF _ this] show ?thesis
    unfolding M using t(1) by fastforce
qed

text \<open>
  C30. A worker that cannot be started. \<^verbatim>\<open>gdm_session_start_conversation\<close> puts \<^verbatim>\<open>NULL\<close>
  into the table of conversations and reports success; the next call of the launch environment,
  which selects the session of the greeter, walks through the table and dereferences it.
\<close>

definition launch_environment_start_calls :: "string \<Rightarrow> session_api list" where
  "launch_environment_start_calls name =
     [StartConversation launch_environment_service, SelectSession name,
      SetProperty (PROP_SESSION_TYPE (Some ''wayland''))]"

theorem failed_spawn_dereferences_null:
  assumes "conversations s = []" "\<And>l args env. spawn_worker E l args env = None"
  shows "foldR (api_call E) (launch_environment_start_calls name) s = Stop null_conversation"
proof -
  let ?svc = "launch_environment_service"
  have "\<not> fst (gdm_session_worker_job_start p e (spawn_worker E l) i n j)" for p e l i n j
    using assms(2)
    by (simp add: gdm_session_worker_job_start_def gdm_session_worker_job_spawn_def split: option.split)
  then obtain t where t: "start_conversation E ?svc s = (None, t)" "conversations t = []"
    using assms(1) by (simp add: start_conversation_def Let_def case_prod_unfold)
  obtain u where u: "api_call E (StartConversation ?svc) s = Ret u" "conversations u = [(?svc, None)]"
    using t assms(1)
    by (simp add: gdm_session_start_conversation_def find_conversation_by_name_def insert_conversation_def
        ght_lookup_def ght_insert_def)
  have "\<exists>w. update_session_type E (u\<lparr>selected_session := Some name\<rparr>) = Ret w \<and> conversations w = conversations u"
    by (cases "supports_session_type (supported_session_types u) (Some ''wayland'')")
       (simp_all add: update_session_type_def gdm_session_is_wayland_session_def get_session_name_def set_session_type_def)
  then obtain w where w: "update_session_type E (u\<lparr>selected_session := Some name\<rparr>) = Ret w"
    "conversations w = conversations u" by blast
  show ?thesis
    using u w
    by (simp add: launch_environment_start_calls_def gdm_session_select_session_def select_session_entry_def)
qed

theorem failed_spawn_dereferences_null_witness:
  "foldR (api_call (demo_senv\<lparr>spawn_worker := (\<lambda>l args env. None)\<rparr>))
     (launch_environment_start_calls ''gnome'') demo_session = Stop null_conversation"
proof -
  have "conversations demo_session = []"
    by (simp add: demo_session_def gdm_session_new_def gdm_session_set_supported_session_types_def
        gdm_session_init_def logS_def)
  from failed_spawn_dereferences_null [OF this] show ?thesis by simp
qed

text \<open>
  A greeter that waits for its conversation to begin waits for ever when the worker ends
  first: the conversation is freed with the invocation that began it, which is never answered.
\<close>

theorem begin_verification_unanswered:
  "\<exists>t. checked_run demo_senv demo_owner
         [ClientConnects 1 1000 70, ClientCalls 1 (BeginVerification ''gdm-password''), ChildDone 1 9] demo_session = Some t \<and>
       conversations t = [] \<and> Verifier (UvConversationStopped ''gdm-password'') \<in> set (log t) \<and>
       \<not> list_ex (\<lambda>x. case x of Answer i r \<Rightarrow> i = 1 | _ \<Rightarrow> False) (log t)"
proof -
  let ?r = "checked_run demo_senv demo_owner
      [ClientConnects 1 1000 70, ClientCalls 1 (BeginVerification ''gdm-password''), ChildDone 1 9] demo_session"
  have "?r \<noteq> None" by code_simp
  then obtain t where t: "?r = Some t" by blast
  have "map_option conversations ?r = Some []"
    "map_option (\<lambda>t. Verifier (UvConversationStopped ''gdm-password'') \<in> set (log t)) ?r = Some True"
    "map_option (\<lambda>t. list_ex (\<lambda>x. case x of Answer i r \<Rightarrow> i = 1 | _ \<Rightarrow> False) (log t)) ?r = Some False"
    by code_simp+
  with t show ?thesis by simp
qed

end
