(* ===== verification/Gdm_Settings.thy ===== *)
theory Gdm_Settings
  imports Gdm_Prelude
begin

text \<open>
  The settings of the daemon (\<^verbatim>\<open>common/gdm-settings.c\<close>, \<^verbatim>\<open>gdm-settings-backend.c\<close>,
  \<^verbatim>\<open>gdm-settings-desktop-backend.c\<close>, \<^verbatim>\<open>gdm-settings-direct.c\<close>,
  \<^verbatim>\<open>gdm-settings-utils.c\<close>): values come from the runtime configuration, then from the
  custom configuration, then from the defaults of the schemas.

  Backends are objects with an address, since the timer that saves one holds its address. The
  contents of a key file are the raw values of its groups and keys.
\<close>

section \<open>Values as text\<close>

definition dec_of_int :: "int \<Rightarrow> string" where
  "dec_of_int i = (if i < 0 then ''-'' @ dec_of_nat (nat (- i)) else dec_of_nat (nat i))"

definition gdm_settings_parse_integer_as_value :: "int \<Rightarrow> string" where
  "gdm_settings_parse_integer_as_value intval = dec_of_int intval"

definition gdm_settings_parse_boolean_as_value :: "bool \<Rightarrow> string" where
  "gdm_settings_parse_boolean_as_value boolval = (if boolval then ''true'' else ''false'')"

definition ascii_lower :: "char \<Rightarrow> char" where
  "ascii_lower c =
     (let n = of_char c :: nat in if 65 \<le> n \<and> n \<le> 90 then char_of (n + 32) else c)"

definition g_ascii_strcasecmp :: "string \<Rightarrow> string \<Rightarrow> bool" where
  "g_ascii_strcasecmp a b = (map ascii_lower a = map ascii_lower b)"

text \<open>A \<^verbatim>\<open>NULL\<close> value fails the precondition, and the result is \<^verbatim>\<open>FALSE\<close>: \<open>None\<close>.\<close>

definition gdm_settings_parse_value_as_boolean :: "cstr \<Rightarrow> bool option" where
  "gdm_settings_parse_value_as_boolean value =
     (case value of
        None \<Rightarrow> None
      | Some v \<Rightarrow>
          if g_ascii_strcasecmp v ''true'' \<or> v = ''1'' then Some True
          else if g_ascii_strcasecmp v ''false'' \<or> v = ''0'' then Some False
          else None)"

text \<open>
  \<^verbatim>\<open>strtol (s, &end, 10)\<close>: white space, a sign, digits. The value, whether it was out of
  range (the value is the nearest \<^verbatim>\<open>long\<close> then), and the rest of the string; without a
  digit the rest is the whole string.
\<close>

definition LONG_MAX :: int where
  "LONG_MAX = 2 ^ 63 - 1"

definition LONG_MIN :: int where
  "LONG_MIN = - (2 ^ 63)"

definition strtol10 :: "string \<Rightarrow> int \<times> bool \<times> string" where
  "strtol10 s =
     (let s1 = dropWhile is_space s;
          neg = (s1 \<noteq> [] \<and> hd s1 = CHR ''-'');
          s2 = (if s1 \<noteq> [] \<and> (hd s1 = CHR ''-'' \<or> hd s1 = CHR ''+'') then tl s1 else s1)
      in if s2 = [] \<or> digit_value (hd s2) = None then (0, False, s)
         else
           let v = int (read_digits 0 s2);
               n = (if neg then - v else v);
               rest = dropWhile (\<lambda>c. digit_value c \<noteq> None) s2
           in if n > LONG_MAX then (LONG_MAX, True, rest)
              else if n < LONG_MIN then (LONG_MIN, True, rest)
              else (n, False, rest))"

text \<open>The conversion of a \<^verbatim>\<open>long\<close> to an \<^verbatim>\<open>int\<close>.\<close>

definition to_gint :: "int \<Rightarrow> int" where
  "to_gint n = (n + 2 ^ 31) mod 2 ^ 32 - 2 ^ 31"

definition gdm_settings_parse_value_as_integer :: "cstr \<Rightarrow> int option" where
  "gdm_settings_parse_value_as_integer value =
     (case value of
        None \<Rightarrow> None
      | Some v \<Rightarrow>
          let (long_value, erange, rest) = strtol10 v
          in if v = [] \<or> rest \<noteq> [] then None
             else if to_gint long_value \<noteq> long_value \<or> erange then None
             else Some (to_gint long_value))"

section \<open>Schemas\<close>

record entry =
  entry_key :: cstr
  entry_signature :: cstr
  entry_default_value :: cstr
  entry_value :: cstr

definition gdm_settings_entry_new :: entry where
  "gdm_settings_entry_new =
     \<lparr>entry_key = None, entry_signature = None, entry_default_value = None, entry_value = None\<rparr>"

definition gdm_settings_entry_get_key :: "entry \<Rightarrow> cstr" where
  "gdm_settings_entry_get_key e = entry_key e"

definition gdm_settings_entry_get_signature :: "entry \<Rightarrow> cstr" where
  "gdm_settings_entry_get_signature e = entry_signature e"

definition gdm_settings_entry_get_default_value :: "entry \<Rightarrow> cstr" where
  "gdm_settings_entry_get_default_value e = entry_default_value e"

definition gdm_settings_entry_set_value :: "entry \<Rightarrow> cstr \<Rightarrow> entry" where
  "gdm_settings_entry_set_value e value = e\<lparr>entry_value := value\<rparr>"

text \<open>
  The parser of the schemas file gets the events of GLib's markup parser. \<open>pi_entry\<close> is
  \<^verbatim>\<open>NULL\<close> before the first schema; \<open>pi_list\<close> is the list of finished entries. The entry of a
  finished schema stays in \<open>pi_entry\<close>: it is the head of the list, as schemas do not nest.
\<close>

record parser_info =
  pi_list :: "entry list"
  pi_entry :: "entry option"
  pi_finished :: bool
  in_key :: bool
  in_signature :: bool
  in_default :: bool

datatype markup = StartElement string | EndElement string | MarkupText string

definition start_element_cb :: "string \<Rightarrow> parser_info \<Rightarrow> parser_info" where
  "start_element_cb element_name i =
     (if element_name = ''schema'' then i\<lparr>pi_entry := Some gdm_settings_entry_new, pi_finished := False\<rparr>
      else if element_name = ''key'' then i\<lparr>in_key := True\<rparr>
      else if element_name = ''signature'' then i\<lparr>in_signature := True\<rparr>
      else if element_name = ''default'' then i\<lparr>in_default := True\<rparr>
      else i)"

definition add_schema_entry :: "parser_info \<Rightarrow> parser_info" where
  "add_schema_entry i =
     (case pi_entry i of None \<Rightarrow> i | Some e \<Rightarrow> i\<lparr>pi_list := e # pi_list i, pi_finished := True\<rparr>)"

definition end_element_cb :: "string \<Rightarrow> parser_info \<Rightarrow> parser_info" where
  "end_element_cb element_name i =
     (if element_name = ''schema'' then add_schema_entry i
      else if element_name = ''key'' then i\<lparr>in_key := False\<rparr>
      else if element_name = ''signature'' then i\<lparr>in_signature := False\<rparr>
      else if element_name = ''default'' then i\<lparr>in_default := False\<rparr>
      else i)"

text \<open>A change of the current entry, which is in the list already when its schema is finished.\<close>

definition change_entry :: "(entry \<Rightarrow> entry) \<Rightarrow> parser_info \<Rightarrow> parser_info run" where
  "change_entry f i =
     (case pi_entry i of
        None \<Rightarrow> Stop ''NULL entry''
      | Some e \<Rightarrow>
          Ret (i\<lparr>pi_entry := Some (f e),
                 pi_list := (if pi_finished i then f e # tl (pi_list i) else pi_list i)\<rparr>))"

definition text_cb :: "string \<Rightarrow> parser_info \<Rightarrow> parser_info run" where
  "text_cb t i =
     (if in_key i then change_entry (\<lambda>e. e\<lparr>entry_key := Some t\<rparr>) i
      else if in_signature i then change_entry (\<lambda>e. e\<lparr>entry_signature := Some t\<rparr>) i
      else if in_default i then change_entry (\<lambda>e. e\<lparr>entry_default_value := Some t\<rparr>) i
      else Ret i)"

fun markup_cb :: "markup \<Rightarrow> parser_info \<Rightarrow> parser_info run" where
  "markup_cb (StartElement n) i = Ret (start_element_cb n i)"
| "markup_cb (EndElement n) i = Ret (end_element_cb n i)"
| "markup_cb (MarkupText t) i = text_cb t i"

text \<open>\<open>None\<close> for a file that cannot be read; otherwise the events up to the first markup error.\<close>

definition gdm_settings_parse_schemas :: "markup list option \<Rightarrow> entry list option run" where
  "gdm_settings_parse_schemas file =
     (case file of
        None \<Rightarrow> Ret None
      | Some events \<Rightarrow>
          bindR (foldR markup_cb events
                   \<lparr>pi_list = [], pi_entry = None, pi_finished = False, in_key = False,
                    in_signature = False, in_default = False\<rparr>)
            (\<lambda>i. Ret (Some (pi_list i))))"

section \<open>Backends\<close>

text \<open>\<^verbatim>\<open>strchr\<close>: the text before the first \<open>c\<close> and the text behind it.\<close>

definition split_first :: "char \<Rightarrow> string \<Rightarrow> (string \<times> string) option" where
  "split_first c s =
     (case dropWhile (\<lambda>x. x \<noteq> c) s of [] \<Rightarrow> None | _ # r \<Rightarrow> Some (takeWhile (\<lambda>x. x \<noteq> c) s, r))"

text \<open>A locale is cut off when a closing bracket comes after an opening one, both the first ones.\<close>

definition trim_locale :: "string \<Rightarrow> string \<times> cstr" where
  "trim_locale k =
     (case split_first (CHR ''['') k of
        None \<Rightarrow> (k, None)
      | Some (before, behind) \<Rightarrow>
          if CHR '']'' \<in> set before then (k, None)
          else case split_first (CHR '']'') behind of
                 None \<Rightarrow> (k, None)
               | Some (loc, r) \<Rightarrow> (before, Some loc))"

definition parse_key_string :: "string \<Rightarrow> (string \<times> string \<times> cstr \<times> cstr) option" where
  "parse_key_string keystring =
     (case split_first (CHR ''/'') keystring of
        None \<Rightarrow> None
      | Some (g, rest) \<Rightarrow>
          if g = [] \<or> rest = [] then None
          else
            let (k, v) = (case split_first (CHR ''='') rest of None \<Rightarrow> (rest, None) | Some (k, v) \<Rightarrow> (k, Some v));
                (k, l) = trim_locale k
            in Some (g, k, l, v))"

type_synonym key_file = "(string \<times> string, string) ghash"

record backend =
  be_filename :: string
  be_key_file :: key_file
  be_dirty :: bool
  be_save_id :: nat

text \<open>
  The outside of the settings: regular files, the contents GLib loads from one (nothing when
  loading fails), the names of groups and keys that GLib accepts, and whether a file can be
  written.
\<close>

record settings_env =
  GDM_CUSTOM_CONF :: string
  GDM_RUNTIME_CONF :: string
  is_regular_file :: "string \<Rightarrow> bool"
  loads :: "string \<Rightarrow> key_file"
  names_accepted :: "string \<Rightarrow> string \<Rightarrow> bool"
  writable :: "string \<Rightarrow> bool"

datatype settings_effect =
    ValueChanged string cstr string
  | FileSaved string key_file

record settings =
  be_heap :: "nat \<Rightarrow> backend option"
  be_next :: nat
  be_timers :: "(nat \<times> nat) list"
  next_timer :: nat
  backends :: "nat list"
  schemas :: "(string, entry) ghash option"
  effects :: "settings_effect list"

definition freed_backend :: string where
  "freed_backend = ''use of a freed backend''"

definition with_backend :: "nat \<Rightarrow> settings \<Rightarrow> (backend \<Rightarrow> 'a run) \<Rightarrow> 'a run" where
  "with_backend b s f = (case be_heap s b of None \<Rightarrow> Stop freed_backend | Some v \<Rightarrow> f v)"

definition put_backend :: "nat \<Rightarrow> backend \<Rightarrow> settings \<Rightarrow> settings" where
  "put_backend b v s = s\<lparr>be_heap := (be_heap s)(b \<mapsto> v)\<rparr>"

definition gdm_settings_desktop_backend_get_value :: "string \<Rightarrow> backend \<Rightarrow> cstr" where
  "gdm_settings_desktop_backend_get_value key b =
     (case parse_key_string key of
        None \<Rightarrow> None
      | Some (g, k, l, v) \<Rightarrow> ght_lookup (be_key_file b) (g, k))"

definition save_settings :: "settings_env \<Rightarrow> nat \<Rightarrow> settings \<Rightarrow> settings run" where
  "save_settings F b s =
     with_backend b s (\<lambda>v.
       Ret (if \<not> be_dirty v \<or> \<not> writable F (be_filename v) then s
            else (put_backend b (v\<lparr>be_dirty := False\<rparr>) s)
                   \<lparr>effects := effects s @ [FileSaved (be_filename v) (be_key_file v)]\<rparr>))"

definition save_settings_timer :: "settings_env \<Rightarrow> nat \<Rightarrow> settings \<Rightarrow> settings run" where
  "save_settings_timer F b s =
     bindR (save_settings F b s) (\<lambda>s.
       with_backend b s (\<lambda>v. Ret (put_backend b (v\<lparr>be_save_id := 0\<rparr>) s)))"

definition queue_save :: "nat \<Rightarrow> settings \<Rightarrow> settings run" where
  "queue_save b s =
     with_backend b s (\<lambda>v.
       Ret (if \<not> be_dirty v \<or> be_save_id v \<noteq> 0 then s
            else (put_backend b (v\<lparr>be_save_id := next_timer s\<rparr>) s)
                   \<lparr>be_timers := (next_timer s, b) # be_timers s, next_timer := Suc (next_timer s)\<rparr>))"

text \<open>Whether the value was set: GLib ignores names that it does not accept, and so does the caller.\<close>

definition gdm_settings_desktop_backend_set_value ::
  "settings_env \<Rightarrow> string \<Rightarrow> string \<Rightarrow> nat \<Rightarrow> settings \<Rightarrow> (bool \<times> settings) run" where
  "gdm_settings_desktop_backend_set_value F key value b s =
     (case parse_key_string key of
        None \<Rightarrow> Ret (False, s)
      | Some (g, k, l, v) \<Rightarrow>
          with_backend b s (\<lambda>be.
            let old_val = ght_lookup (be_key_file be) (g, k);
                kf = (if names_accepted F g k then ght_insert (g, k) value (be_key_file be) else be_key_file be)
            in bindR (queue_save b (put_backend b (be\<lparr>be_key_file := kf, be_dirty := True\<rparr>) s)) (\<lambda>s.
                 Ret (True, s\<lparr>effects := effects s @ [ValueChanged key old_val value]\<rparr>))))"

text \<open>The finaliser saves what is not saved; a pending timer stays.\<close>

definition gdm_settings_desktop_backend_finalize :: "settings_env \<Rightarrow> nat \<Rightarrow> settings \<Rightarrow> settings run" where
  "gdm_settings_desktop_backend_finalize F b s =
     bindR (save_settings F b s) (\<lambda>s. Ret (s\<lparr>be_heap := (be_heap s)(b := None)\<rparr>))"

definition gdm_settings_desktop_backend_new ::
  "settings_env \<Rightarrow> string \<Rightarrow> settings \<Rightarrow> nat option \<times> settings" where
  "gdm_settings_desktop_backend_new F filename s =
     (if \<not> is_regular_file F filename then (None, s)
      else (Some (be_next s),
            (put_backend (be_next s)
              \<lparr>be_filename = filename, be_key_file = loads F filename, be_dirty = False, be_save_id = 0\<rparr> s)
              \<lparr>be_next := Suc (be_next s)\<rparr>))"

section \<open>The settings object\<close>

text \<open>
  \<open>None\<close> is the result \<^verbatim>\<open>FALSE\<close>. Without backends the precondition fails.
\<close>

fun first_value :: "string \<Rightarrow> nat list \<Rightarrow> settings \<Rightarrow> cstr run" where
  "first_value key [] s = Ret None"
| "first_value key (b # bs) s =
     with_backend b s (\<lambda>v.
       case gdm_settings_desktop_backend_get_value key v of
         Some x \<Rightarrow> Ret (Some x)
       | None \<Rightarrow> first_value key bs s)"

definition gdm_settings_get_value :: "string \<Rightarrow> settings \<Rightarrow> cstr run" where
  "gdm_settings_get_value key s = first_value key (backends s) s"

fun first_set :: "settings_env \<Rightarrow> string \<Rightarrow> string \<Rightarrow> nat list \<Rightarrow> settings \<Rightarrow> (bool \<times> settings) run" where
  "first_set F key value [] s = Ret (False, s)"
| "first_set F key value (b # bs) s =
     bindR (gdm_settings_desktop_backend_set_value F key value b s) (\<lambda>(ok, s).
       if ok then Ret (True, s) else first_set F key value bs s)"

definition gdm_settings_set_value :: "settings_env \<Rightarrow> string \<Rightarrow> string \<Rightarrow> settings \<Rightarrow> (bool \<times> settings) run" where
  "gdm_settings_set_value F key value s = first_set F key value (backends s) s"

definition add_backend :: "nat option \<times> settings \<Rightarrow> settings" where
  "add_backend bs = (let (b, s) = bs in case b of None \<Rightarrow> s | Some x \<Rightarrow> s\<lparr>backends := x # backends s\<rparr>)"

definition gdm_settings_reload :: "settings_env \<Rightarrow> settings \<Rightarrow> settings run" where
  "gdm_settings_reload F s =
     bindR (foldR (gdm_settings_desktop_backend_finalize F) (backends s) s) (\<lambda>s.
       let s = add_backend (gdm_settings_desktop_backend_new F (GDM_CUSTOM_CONF F) (s\<lparr>backends := []\<rparr>))
       in Ret (add_backend (gdm_settings_desktop_backend_new F (GDM_RUNTIME_CONF F) s)))"

definition gdm_settings_init :: "settings_env \<Rightarrow> settings run" where
  "gdm_settings_init F =
     gdm_settings_reload F
       \<lparr>be_heap = (\<lambda>b. None), be_next = 1, be_timers = [], next_timer = 1, backends = [], schemas = None,
        effects = []\<rparr>"

text \<open>The timer of a backend fires.\<close>

definition fire_timer :: "settings_env \<Rightarrow> nat \<Rightarrow> settings \<Rightarrow> settings run" where
  "fire_timer F i s =
     (case map_of (be_timers s) i of
        None \<Rightarrow> Ret s
      | Some b \<Rightarrow> save_settings_timer F b (s\<lparr>be_timers := filter (\<lambda>(j, c). j \<noteq> i) (be_timers s)\<rparr>))"

section \<open>Direct access\<close>

text \<open>An entry without a key reaches \<^verbatim>\<open>g_str_hash\<close> with \<^verbatim>\<open>NULL\<close>.\<close>

definition hashify_list :: "entry \<Rightarrow> (string, entry) ghash \<Rightarrow> (string, entry) ghash run" where
  "hashify_list e t =
     (case gdm_settings_entry_get_key e of None \<Rightarrow> Stop ''NULL key'' | Some k \<Rightarrow> Ret (ght_insert k e t))"

definition gdm_settings_direct_init :: "markup list option \<Rightarrow> settings \<Rightarrow> (bool \<times> settings) run" where
  "gdm_settings_direct_init file s =
     bindR (gdm_settings_parse_schemas file) (\<lambda>parsed.
       case parsed of
         None \<Rightarrow> Ret (False, s\<lparr>schemas := None\<rparr>)
       | Some es \<Rightarrow> bindR (foldR hashify_list es []) (\<lambda>t. Ret (True, s\<lparr>schemas := Some t\<rparr>)))"

definition get_entry_for_key :: "string \<Rightarrow> settings \<Rightarrow> entry option" where
  "get_entry_for_key key s = (case schemas s of None \<Rightarrow> None | Some t \<Rightarrow> ght_lookup t key)"

text \<open>
  The assertions on the entry and its signature, and the text of the value: the stored one or
  the default.
\<close>

definition direct_value :: "string \<Rightarrow> string \<Rightarrow> settings \<Rightarrow> cstr run" where
  "direct_value signature key s =
     (case get_entry_for_key key s of
        None \<Rightarrow> Stop ''entry != NULL''
      | Some e \<Rightarrow>
          if gdm_settings_entry_get_signature e \<noteq> Some signature then Stop ''assert_signature''
          else bindR (gdm_settings_get_value key s) (\<lambda>r.
                 Ret (case r of Some x \<Rightarrow> Some x | None \<Rightarrow> gdm_settings_entry_get_default_value e)))"

definition gdm_settings_direct_get_int :: "string \<Rightarrow> settings \<Rightarrow> int option run" where
  "gdm_settings_direct_get_int key s =
     bindR (direct_value ''i'' key s) (\<lambda>str. Ret (gdm_settings_parse_value_as_integer str))"

definition gdm_settings_direct_get_uint :: "string \<Rightarrow> settings \<Rightarrow> int option run" where
  "gdm_settings_direct_get_uint key s =
     bindR (gdm_settings_direct_get_int key s) (\<lambda>r.
       Ret (case r of None \<Rightarrow> None | Some i \<Rightarrow> if i \<ge> 0 then Some i else None))"

definition gdm_settings_direct_get_boolean :: "string \<Rightarrow> settings \<Rightarrow> bool option run" where
  "gdm_settings_direct_get_boolean key s =
     bindR (direct_value ''b'' key s) (\<lambda>str. Ret (gdm_settings_parse_value_as_boolean str))"

definition gdm_settings_direct_get_string :: "string \<Rightarrow> settings \<Rightarrow> cstr run" where
  "gdm_settings_direct_get_string key s = direct_value ''s'' key s"

section \<open>Numbers and truth values\<close>

lemma dropWhile_digits:
  "\<forall>c \<in> set ds. digit_value c \<noteq> None \<Longrightarrow> dropWhile (\<lambda>c. digit_value c \<noteq> None) ds = []"
  by simp

lemma strtol10_digits:
  assumes "ds \<noteq> []" "\<forall>c \<in> set ds. digit_value c \<noteq> None" "int (read_digits 0 ds) \<le> LONG_MAX"
  shows "strtol10 ds = (int (read_digits 0 ds), False, [])"
    and "strtol10 (CHR ''-'' # ds) = (- int (read_digits 0 ds), False, [])"
proof -
  obtain c cs where c: "ds = c # cs" using assms(1) by (cases ds) auto
  have hd: "\<not> is_space c" "c \<noteq> CHR ''-''" "c \<noteq> CHR ''+''" "digit_value c \<noteq> None"
    using assms(2) c digit_not_space by auto
  have rest: "dropWhile (\<lambda>c. digit_value c \<noteq> None) ds = []" by (rule dropWhile_digits [OF assms(2)])
  have min: "LONG_MIN \<le> - int (read_digits 0 ds)" "LONG_MIN \<le> int (read_digits 0 ds)" "- int (read_digits 0 ds) \<le> LONG_MAX"
    using assms(3) by (simp_all add: LONG_MIN_def LONG_MAX_def)
  have "dropWhile is_space ds = ds" "dropWhile is_space (CHR ''-'' # ds) = CHR ''-'' # ds"
    using hd c by (simp_all add: is_space_def)
  then show "strtol10 ds = (int (read_digits 0 ds), False, [])"
    "strtol10 (CHR ''-'' # ds) = (- int (read_digits 0 ds), False, [])"
    unfolding strtol10_def Let_def using hd c rest min assms(3)
    by (simp_all del: read_digits.simps dropWhile.simps)
qed

lemma to_gint_id: "- (2 ^ 31) \<le> i \<Longrightarrow> i < 2 ^ 31 \<Longrightarrow> to_gint i = i"
  by (simp add: to_gint_def)

lemma to_gint_range: "- (2 ^ 31) \<le> to_gint i \<and> to_gint i < 2 ^ 31"
  using pos_mod_bound [of "2 ^ 32" "i + 2 ^ 31"] pos_mod_sign [of "2 ^ 32" "i + 2 ^ 31"]
  unfolding to_gint_def by simp

text \<open>
  Numbers in the configuration. Every 32-bit number that is written is read back as
  itself, nothing outside of this range is ever read (there is no wrap-around), and the truth
  values that are written are read back too, in any case of their letters.
\<close>

theorem settings_values_roundtrip:
  "(- (2 ^ 31) \<le> i \<and> i < 2 ^ 31 \<longrightarrow>
      gdm_settings_parse_value_as_integer (Some (gdm_settings_parse_integer_as_value i)) = Some i) \<and>
   (gdm_settings_parse_value_as_integer text = Some j \<longrightarrow> - (2 ^ 31) \<le> j \<and> j < 2 ^ 31) \<and>
   (map ascii_lower v = gdm_settings_parse_boolean_as_value b \<longrightarrow>
      gdm_settings_parse_value_as_boolean (Some v) = Some b)"
proof (intro conjI impI)
  assume i: "- (2 ^ 31) \<le> i \<and> i < 2 ^ 31"
  let ?ds = "dec_of_nat (nat \<bar>i\<bar>)"
  have r: "int (read_digits 0 ?ds) = \<bar>i\<bar>" by (simp add: read_digits_dec)
  have le: "int (read_digits 0 ?ds) \<le> LONG_MAX" using i unfolding r LONG_MAX_def by (auto simp: abs_if)
  note st = strtol10_digits [OF dec_of_nat_not_Nil dec_of_nat_digits le, unfolded r]
  have "strtol10 (dec_of_int i) = (i, False, [])"
    using st by (cases "i < 0") (simp_all add: dec_of_int_def)
  moreover have "dec_of_int i \<noteq> []" by (simp add: dec_of_int_def)
  ultimately show "gdm_settings_parse_value_as_integer (Some (gdm_settings_parse_integer_as_value i)) = Some i"
    using i by (simp add: gdm_settings_parse_value_as_integer_def gdm_settings_parse_integer_as_value_def to_gint_id)
next
  assume "gdm_settings_parse_value_as_integer text = Some j"
  then have "to_gint j = j"
    by (auto simp: gdm_settings_parse_value_as_integer_def Let_def split: option.splits prod.splits if_splits)
  then show "- (2 ^ 31) \<le> j" "j < 2 ^ 31" using to_gint_range [of j] by auto
next
  assume v: "map ascii_lower v = gdm_settings_parse_boolean_as_value b"
  have "map ascii_lower ''true'' = ''true''" "map ascii_lower ''false'' = ''false''" by code_simp+
  then show "gdm_settings_parse_value_as_boolean (Some v) = Some b"
    using v
    by (cases b) (auto simp: gdm_settings_parse_value_as_boolean_def gdm_settings_parse_boolean_as_value_def
        g_ascii_strcasecmp_def ascii_lower_def Let_def)
qed

theorem settings_values_roundtrip_witness:
  "gdm_settings_parse_value_as_integer (Some (gdm_settings_parse_integer_as_value (- 2147483648))) = Some (- 2147483648) \<and>
   gdm_settings_parse_value_as_integer (Some ''12 '') = None \<and>
   gdm_settings_parse_value_as_boolean (Some ''True'') = Some True"
proof -
  have "gdm_settings_parse_value_as_integer (Some ''12 '') = None" by code_simp
  moreover have "map ascii_lower ''True'' = gdm_settings_parse_boolean_as_value True" by code_simp
  ultimately show ?thesis
    using settings_values_roundtrip [of "- 2147483648" None 0 "''True''" True] by simp
qed

section \<open>Layers\<close>

text \<open>
  The specification of the settings: a list of layers, the first one that has a value for the
  key gives it, and a new value goes into the first layer. A key has a group and a name.
\<close>

definition key_names :: "string \<Rightarrow> (string \<times> string) option" where
  "key_names key = map_option (\<lambda>(g, k, l, v). (g, k)) (parse_key_string key)"

fun layers_get :: "string \<times> string \<Rightarrow> key_file list \<Rightarrow> cstr" where
  "layers_get gk [] = None"
| "layers_get gk (f # fs) = (case ght_lookup f gk of Some x \<Rightarrow> Some x | None \<Rightarrow> layers_get gk fs)"

fun layers_set :: "(string \<Rightarrow> string \<Rightarrow> bool) \<Rightarrow> string \<times> string \<Rightarrow> string \<Rightarrow> key_file list \<Rightarrow> key_file list" where
  "layers_set ok gk x [] = []"
| "layers_set ok gk x (f # fs) = (if ok (fst gk) (snd gk) then ght_insert gk x f else f) # fs"

definition file_layers :: "settings_env \<Rightarrow> key_file list" where
  "file_layers F = map (loads F) (filter (is_regular_file F) [GDM_RUNTIME_CONF F, GDM_CUSTOM_CONF F])"

text \<open>The abstraction, and the invariant that the backends of the list are alive.\<close>

definition layers :: "settings \<Rightarrow> key_file list" where
  "layers s = map (\<lambda>b. be_key_file (the (be_heap s b))) (backends s)"

definition settings_ok :: "settings \<Rightarrow> bool" where
  "settings_ok s =
     (distinct (backends s) \<and> (\<forall>b \<in> set (backends s). be_heap s b \<noteq> None) \<and>
      (\<forall>b. be_heap s b \<noteq> None \<longrightarrow> b < be_next s))"

lemma first_value_layers:
  "\<forall>b \<in> set bs. be_heap s b \<noteq> None \<Longrightarrow>
     first_value key bs s =
       Ret (case key_names key of
              None \<Rightarrow> None
            | Some gk \<Rightarrow> layers_get gk (map (\<lambda>b. be_key_file (the (be_heap s b))) bs))"
  by (induction bs)
     (auto simp: with_backend_def gdm_settings_desktop_backend_get_value_def key_names_def split: option.splits)

lemma set_value_backend:
  assumes "be_heap s b = Some v" "parse_key_string key = Some (g, k, l, x)"
  shows "\<exists>t w. gdm_settings_desktop_backend_set_value F key value b s = Ret (True, t) \<and>
     be_heap t = (be_heap s)(b \<mapsto> w) \<and> be_next t = be_next s \<and> backends t = backends s \<and>
     be_key_file w = (if names_accepted F g k then ght_insert (g, k) value (be_key_file v) else be_key_file v) \<and>
     (be_save_id v = 0 \<longrightarrow> be_timers t = (next_timer s, b) # be_timers s)"
  using assms
  by (auto simp: gdm_settings_desktop_backend_set_value_def with_backend_def queue_save_def put_backend_def Let_def)

lemma finalize_backend:
  assumes "be_heap s b = Some v"
  shows "\<exists>t. gdm_settings_desktop_backend_finalize F b s = Ret t \<and> be_heap t = (be_heap s)(b := None) \<and>
     be_next t = be_next s \<and> backends t = backends s \<and> be_timers t = be_timers s"
  using assms
  by (auto simp: gdm_settings_desktop_backend_finalize_def save_settings_def with_backend_def put_backend_def)

lemma finalize_backends:
  "distinct bs \<Longrightarrow> \<forall>b \<in> set bs. be_heap s b \<noteq> None \<Longrightarrow>
     \<exists>t. foldR (gdm_settings_desktop_backend_finalize F) bs s = Ret t \<and>
       be_heap t = (\<lambda>b. if b \<in> set bs then None else be_heap s b) \<and> be_next t = be_next s \<and> be_timers t = be_timers s"
proof (induction bs arbitrary: s)
  case (Cons b bs)
  then obtain v where "be_heap s b = Some v" by auto
  from finalize_backend [OF this] obtain t where t: "gdm_settings_desktop_backend_finalize F b s = Ret t"
    "be_heap t = (be_heap s)(b := None)" "be_next t = be_next s" "be_timers t = be_timers s" by blast
  moreover have "\<forall>c \<in> set bs. be_heap t c \<noteq> None" using Cons.prems t(2) by auto
  ultimately show ?case
    using Cons.IH [of t] Cons.prems by (fastforce simp: fun_eq_iff)
qed simp

lemma reload_layers:
  assumes "settings_ok s"
  shows "\<exists>t. gdm_settings_reload F s = Ret t \<and> settings_ok t \<and> layers t = file_layers F \<and>
     be_timers t = be_timers s \<and> (\<forall>b \<in> set (backends s). be_heap t b = None)"
proof -
  from assms finalize_backends [of "backends s" s F] obtain u where
    u: "foldR (gdm_settings_desktop_backend_finalize F) (backends s) s = Ret u"
      "be_heap u = (\<lambda>b. if b \<in> set (backends s) then None else be_heap s b)" "be_next u = be_next s"
      "be_timers u = be_timers s"
    by (auto simp: settings_ok_def)
  have lt: "\<forall>b. be_heap u b \<noteq> None \<longrightarrow> b < be_next u" "\<forall>b \<in> set (backends s). b < be_next u"
    using assms u by (auto simp: settings_ok_def)
  show ?thesis
    unfolding gdm_settings_reload_def u bindR.simps
    using lt u(2,4)
    by (auto simp: add_backend_def gdm_settings_desktop_backend_new_def put_backend_def settings_ok_def
        layers_def file_layers_def Let_def less_Suc_eq)
qed

lemma set_value_layers:
  assumes "settings_ok s"
  shows "\<exists>t. gdm_settings_set_value F key value s = Ret (key_names key \<noteq> None \<and> backends s \<noteq> [], t) \<and> settings_ok t \<and>
      layers t = (case key_names key of None \<Rightarrow> layers s
                  | Some gk \<Rightarrow> layers_set (names_accepted F) gk value (layers s))"
proof (cases "parse_key_string key")
  case None
  have "first_set F key value bs s = Ret (False, s)" for bs
    by (induction bs) (simp_all add: gdm_settings_desktop_backend_set_value_def None)
  with None assms show ?thesis by (simp add: gdm_settings_set_value_def key_names_def)
next
  case (Some p)
  obtain g k l x where p: "parse_key_string key = Some (g, k, l, x)" by (cases p) (simp add: Some)
  show ?thesis
  proof (cases "backends s")
    case Nil
    with p assms show ?thesis by (simp add: gdm_settings_set_value_def key_names_def layers_def)
  next
    case (Cons b bs)
    with assms obtain v where v: "be_heap s b = Some v" by (auto simp: settings_ok_def)
    from set_value_backend [OF v p, of F "value"] obtain t w where
      t: "gdm_settings_desktop_backend_set_value F key value b s = Ret (True, t)"
        "be_heap t = (be_heap s)(b \<mapsto> w)" "be_next t = be_next s" "backends t = backends s"
        "be_key_file w = (if names_accepted F g k then ght_insert (g, k) value (be_key_file v) else be_key_file v)"
      by blast
    have "settings_ok t" using assms t v by (auto simp: settings_ok_def)
    moreover have "layers t = layers_set (names_accepted F) (g, k) value (layers s)"
      using assms t v Cons by (auto simp: layers_def settings_ok_def)
    ultimately show ?thesis
      using t(1) p Cons by (simp add: gdm_settings_set_value_def key_names_def)
  qed
qed

text \<open>
  C29. The settings are layers. Reading a key gives the value of the first layer that has it;
  setting a key changes the first layer and nothing else; reloading forgets what was not in the
  files and makes the runtime configuration the first layer and the custom configuration the
  second, each only if it is a regular file. No operation of the settings uses a freed backend.
\<close>

theorem settings_refine_layers:
  assumes "settings_ok s"
  shows "gdm_settings_get_value key s =
           Ret (case key_names key of None \<Rightarrow> None | Some gk \<Rightarrow> layers_get gk (layers s)) \<and>
         (\<exists>t. gdm_settings_set_value F key value s = Ret (key_names key \<noteq> None \<and> backends s \<noteq> [], t) \<and> settings_ok t \<and>
              layers t = (case key_names key of None \<Rightarrow> layers s
                          | Some gk \<Rightarrow> layers_set (names_accepted F) gk value (layers s))) \<and>
         (\<exists>t. gdm_settings_reload F s = Ret t \<and> settings_ok t \<and> layers t = file_layers F)"
proof (intro conjI)
  show "gdm_settings_get_value key s =
      Ret (case key_names key of None \<Rightarrow> None | Some gk \<Rightarrow> layers_get gk (layers s))"
    using first_value_layers [of "backends s" s key] assms
    by (simp add: gdm_settings_get_value_def settings_ok_def layers_def split: option.split)
  show "\<exists>t. gdm_settings_reload F s = Ret t \<and> settings_ok t \<and> layers t = file_layers F"
    using reload_layers [OF assms] by blast
  show "\<exists>t. gdm_settings_set_value F key value s = Ret (key_names key \<noteq> None \<and> backends s \<noteq> [], t) \<and> settings_ok t \<and>
      layers t = (case key_names key of None \<Rightarrow> layers s
                  | Some gk \<Rightarrow> layers_set (names_accepted F) gk value (layers s))"
    by (rule set_value_layers [OF assms])
qed

definition demo_settings_env :: settings_env where
  "demo_settings_env =
     \<lparr>GDM_CUSTOM_CONF = ''/etc/gdm/custom.conf'', GDM_RUNTIME_CONF = ''/run/gdm/custom.conf'',
      is_regular_file = (\<lambda>f. True),
      loads = (\<lambda>f. if f = ''/etc/gdm/custom.conf'' then [((''daemon'', ''AutomaticLogin''), ''alice'')] else []),
      names_accepted = (\<lambda>g k. True), writable = (\<lambda>f. True)\<rparr>"

definition demo_settings :: settings where
  "demo_settings = (case gdm_settings_init demo_settings_env of Ret s \<Rightarrow> s | _ \<Rightarrow> undefined)"

lemma init_layers: "\<exists>s. gdm_settings_init F = Ret s \<and> settings_ok s \<and> layers s = file_layers F"
  unfolding gdm_settings_init_def
  using reload_layers
    [of "\<lparr>be_heap = (\<lambda>b. None), be_next = 1, be_timers = [], next_timer = 1, backends = [], schemas = None,
        effects = []\<rparr>" F]
  by (auto simp: settings_ok_def)

lemma demo_settings_ok: "settings_ok demo_settings" "layers demo_settings = file_layers demo_settings_env"
  using init_layers [of demo_settings_env] by (auto simp: demo_settings_def)

theorem settings_refine_layers_witness:
  "settings_ok demo_settings \<and> gdm_settings_get_value ''daemon/AutomaticLogin'' demo_settings = Ret (Some ''alice'') \<and>
   (\<exists>t. gdm_settings_set_value demo_settings_env ''daemon/AutomaticLogin'' ''bob'' demo_settings = Ret (True, t) \<and>
        gdm_settings_get_value ''daemon/AutomaticLogin'' t = Ret (Some ''bob''))"
proof -
  let ?k = "''daemon/AutomaticLogin''"
  have k: "key_names ?k = Some (''daemon'', ''AutomaticLogin'')"
    and l: "file_layers demo_settings_env = [[], [((''daemon'', ''AutomaticLogin''), ''alice'')]]"
    and b: "backends demo_settings \<noteq> []"
    and n: "names_accepted demo_settings_env ''daemon'' ''AutomaticLogin''"
    by code_simp+
  from settings_refine_layers [OF demo_settings_ok(1), of ?k demo_settings_env "''bob''"] k b
  obtain t where t: "gdm_settings_set_value demo_settings_env ?k ''bob'' demo_settings = Ret (True, t)" "settings_ok t"
      "layers t = layers_set (names_accepted demo_settings_env) (''daemon'', ''AutomaticLogin'') ''bob'' (layers demo_settings)"
    by auto
  have "layers_get (''daemon'', ''AutomaticLogin'') (layers t) = Some ''bob''"
    by (simp add: t(3) demo_settings_ok(2) l n ght_insert_def ght_lookup_def)
  moreover have "layers_get (''daemon'', ''AutomaticLogin'') (layers demo_settings) = Some ''alice''"
    by (simp add: demo_settings_ok(2) l ght_lookup_def)
  ultimately show ?thesis
    using settings_refine_layers [OF demo_settings_ok(1), of ?k demo_settings_env "''bob''"]
      settings_refine_layers [OF t(2), of ?k demo_settings_env "''bob''"] k t(1) demo_settings_ok(1)
    by simp
qed

text \<open>
  A change that is followed by a reload leaves the timer of the old backend behind: the
  backend is finalised while the timer still has its address, and when the timer fires it uses
  the freed backend.
\<close>

theorem save_timer_after_reload:
  assumes "settings_ok s" "backends s = b # bs" "be_heap s b = Some v" "be_save_id v = 0" "key_names key \<noteq> None"
    and "gdm_settings_set_value F key value s = Ret (ok, t)" "gdm_settings_reload F t = Ret u"
  shows "fire_timer F (next_timer s) u = Stop freed_backend"
proof -
  from assms(5) obtain g k l x where p: "parse_key_string key = Some (g, k, l, x)" by (auto simp: key_names_def)
  from set_value_backend [OF assms(3) p, of F "value"] assms(4,6) obtain w where
    t: "be_heap t = (be_heap s)(b \<mapsto> w)" "be_next t = be_next s" "backends t = backends s"
      "be_timers t = (next_timer s, b) # be_timers s"
    by (auto simp: gdm_settings_set_value_def assms(2))
  have "settings_ok t" using assms(1,2) t by (auto simp: settings_ok_def)
  from reload_layers [OF this, of F] assms(2,7) t have "be_timers u = (next_timer s, b) # be_timers s" "be_heap u b = None"
    by auto
  then show ?thesis
    by (simp add: fire_timer_def save_settings_timer_def save_settings_def with_backend_def)
qed

theorem save_timer_after_reload_witness:
  "\<exists>t u. gdm_settings_set_value demo_settings_env ''daemon/AutomaticLogin'' ''bob'' demo_settings = Ret (True, t) \<and>
     gdm_settings_reload demo_settings_env t = Ret u \<and>
     fire_timer demo_settings_env (next_timer demo_settings) u = Stop freed_backend"
proof -
  let ?k = "''daemon/AutomaticLogin''"
  have k: "key_names ?k \<noteq> None" and b: "backends demo_settings = [2, 1]"
    and v: "map_option be_save_id (be_heap demo_settings 2) = Some 0"
    by code_simp+
  from v obtain w where w: "be_heap demo_settings 2 = Some w" "be_save_id w = 0" by auto
  from set_value_layers [OF demo_settings_ok(1), of demo_settings_env ?k "''bob''"] k b
  obtain t where t: "gdm_settings_set_value demo_settings_env ?k ''bob'' demo_settings = Ret (True, t)" "settings_ok t"
    by auto
  from reload_layers [OF t(2)] obtain u where u: "gdm_settings_reload demo_settings_env t = Ret u" by blast
  from save_timer_after_reload [OF demo_settings_ok(1) b w k t(1) u] t(1) u show ?thesis by blast
qed

end
