(* ===== verification/File_Utils.thy ===== *)
theory File_Utils
  imports Gdm_Prelude
begin

text \<open>
  \<^verbatim>\<open>common/gdm-file-utils.c\<close>: walks over directories that change owners, remove and copy.

  A directory tree is a value; an operation takes the tree at its path and gives back what is
  there afterwards, so that what a failure in the middle leaves behind is part of the model.
  Which single operations fail is the choice of the file system: a record of oracles over paths.
  A path is the list of the names below the directory that the operation is called with.
\<close>

section \<open>Trees\<close>

record file_meta =
  f_uid :: u32
  f_gid :: u32
  f_mode :: nat

text \<open>A leaf is everything that is not a directory; links are not followed.\<close>

datatype file_tree = Leaf file_meta string | Dir file_meta "(string \<times> file_tree) list"

fun meta_of :: "file_tree \<Rightarrow> file_meta" where
  "meta_of (Leaf m b) = m"
| "meta_of (Dir m cs) = m"

fun with_meta :: "(file_meta \<Rightarrow> file_meta) \<Rightarrow> file_tree \<Rightarrow> file_tree" where
  "with_meta f (Leaf m b) = Leaf (f m) b"
| "with_meta f (Dir m cs) = Dir (f m) cs"

datatype file_error = FileNotFound | FileExists | FileNotEmpty | FileNotDirectory | FileIsDirectory | FileOther

text \<open>
  \<open>list_fails\<close> is the number of entries that the enumeration of a directory gives before it
  fails, if it does; the other oracles say which change of an owner, removal, creation or copy
  fails.
\<close>

record file_oracle =
  list_fails :: "string list \<Rightarrow> nat option"
  set_uid_fails :: "string list \<Rightarrow> bool"
  set_gid_fails :: "string list \<Rightarrow> bool"
  delete_fails :: "string list \<Rightarrow> bool"
  mkdir_fails :: "string list \<Rightarrow> bool"
  copy_fails :: "string list \<Rightarrow> bool"
  chmod_fails :: "string list \<Rightarrow> bool"

section \<open>Walks\<close>

text \<open>
  The callback gets a path and what is there and gives the error, if any, and what is there
  afterwards: nothing when it deleted the file. The walk visits the entries of a directory, then
  the directory; the first error ends it.
\<close>

type_synonym file_cb = "string list \<Rightarrow> file_tree \<Rightarrow> file_error option \<times> file_tree option"

definition keep_child :: "string \<Rightarrow> file_tree option \<Rightarrow> (string \<times> file_tree) list \<Rightarrow> (string \<times> file_tree) list" where
  "keep_child n t cs = (case t of None \<Rightarrow> cs | Some u \<Rightarrow> (n, u) # cs)"

fun gdm_walk_dir_recursively ::
  "file_oracle \<Rightarrow> file_cb \<Rightarrow> string list \<Rightarrow> file_tree \<Rightarrow> file_error option \<times> file_tree option"
and walk_children ::
  "file_oracle \<Rightarrow> file_cb \<Rightarrow> string list \<Rightarrow> nat option \<Rightarrow> (string \<times> file_tree) list \<Rightarrow>
     file_error option \<times> (string \<times> file_tree) list"
where
  "gdm_walk_dir_recursively F cb p (Leaf m b) = (Some FileNotDirectory, Some (Leaf m b))"
| "gdm_walk_dir_recursively F cb p (Dir m cs) =
     (case walk_children F cb p (list_fails F p) cs of
        (Some e, cs') \<Rightarrow> (Some e, Some (Dir m cs'))
      | (None, cs') \<Rightarrow> cb p (Dir m cs'))"
| "walk_children F cb p k [] = (if k = Some 0 then (Some FileOther, []) else (None, []))"
| "walk_children F cb p k ((n, c) # cs) =
     (if k = Some 0 then (Some FileOther, (n, c) # cs)
      else
      let (e, t) = (case c of
                      Dir m ds \<Rightarrow> gdm_walk_dir_recursively F cb (p @ [n]) c
                    | Leaf m b \<Rightarrow> cb (p @ [n]) c)
      in case e of
           Some err \<Rightarrow> (Some err, keep_child n t cs)
         | None \<Rightarrow>
             let (e', cs') = walk_children F cb p (map_option (\<lambda>i. i - 1) k) cs
             in (e', keep_child n t cs'))"

section \<open>Owners\<close>

definition chown_file :: "file_oracle \<Rightarrow> u32 \<Rightarrow> u32 \<Rightarrow> file_cb" where
  "chown_file F u g p t =
     (if set_uid_fails F p then (Some FileOther, Some t)
      else
        let t = with_meta (\<lambda>m. m\<lparr>f_uid := u\<rparr>) t
        in if set_gid_fails F p then (Some FileOther, Some t)
           else (None, Some (with_meta (\<lambda>m. m\<lparr>f_gid := g\<rparr>) t)))"

definition gdm_chown_recursively ::
  "file_oracle \<Rightarrow> u32 \<Rightarrow> u32 \<Rightarrow> file_tree \<Rightarrow> file_error option \<times> file_tree option" where
  "gdm_chown_recursively F u g t = gdm_walk_dir_recursively F (chown_file F u g) [] t"

section \<open>Removal\<close>

definition rm_file :: "file_oracle \<Rightarrow> file_cb" where
  "rm_file F p t =
     (if delete_fails F p then (Some FileOther, Some t)
      else
        case t of
          Leaf m b \<Rightarrow> (None, None)
        | Dir m cs \<Rightarrow> if cs = [] then (None, None) else (Some FileNotEmpty, Some t))"

definition gdm_rm_recursively :: "file_oracle \<Rightarrow> file_tree option \<Rightarrow> file_error option \<times> file_tree option" where
  "gdm_rm_recursively F t =
     (case t of
        None \<Rightarrow> (Some FileNotFound, None)
      | Some u \<Rightarrow> gdm_walk_dir_recursively F (rm_file F) [] u)"

section \<open>Directories\<close>

text \<open>
  \<^verbatim>\<open>g_mkdir_with_parents\<close> gives a new directory to the process, with the mode 0755; an existing
  directory stays as it is. \<open>me\<close> is the owner of new files.
\<close>

definition mkdir_with_parents ::
  "file_oracle \<Rightarrow> file_meta \<Rightarrow> file_tree option \<Rightarrow> file_error option \<times> file_tree option" where
  "mkdir_with_parents F me t =
     (case t of
        None \<Rightarrow> if mkdir_fails F [] then (Some FileOther, None) else (None, Some (Dir me []))
      | Some (Leaf m b) \<Rightarrow> (Some FileNotDirectory, t)
      | Some (Dir m cs) \<Rightarrow> (None, t))"

definition chown_path :: "file_oracle \<Rightarrow> u32 \<Rightarrow> u32 \<Rightarrow> file_tree \<Rightarrow> file_error option \<times> file_tree option" where
  "chown_path F u g t =
     (if set_uid_fails F [] then (Some FileOther, Some t)
      else (None, Some (with_meta (\<lambda>m. m\<lparr>f_uid := u, f_gid := g\<rparr>) t)))"

definition gdm_ensure_dir ::
  "file_oracle \<Rightarrow> file_meta \<Rightarrow> u32 \<Rightarrow> u32 \<Rightarrow> nat \<Rightarrow> bool \<Rightarrow> file_tree option \<Rightarrow>
     file_error option \<times> file_tree option" where
  "gdm_ensure_dir F me u g mode recursive_chown t =
     (case mkdir_with_parents F me t of
        (Some e, t) \<Rightarrow> (Some e, t)
      | (None, None) \<Rightarrow> (Some FileNotFound, None)
      | (None, Some t) \<Rightarrow>
          (case (if recursive_chown then gdm_chown_recursively F u g t else chown_path F u g t) of
             (Some e, t) \<Rightarrow> (Some e, t)
           | (None, t) \<Rightarrow>
               if chmod_fails F [] then (Some FileOther, t)
               else (None, map_option (with_meta (\<lambda>m. m\<lparr>f_mode := mode\<rparr>)) t)))"

section \<open>Copies\<close>

text \<open>
  \<open>put_child\<close> is what a directory holds after one of its entries was written. A directory that
  exists is used as it is. Where the destination is a file, its creation as a directory reports
  that it exists, and the first copy into it fails. The copy of a file replaces a file and fails
  on a directory; new directories belong to the process, copies of files keep their owner.
\<close>

definition put_child :: "string \<Rightarrow> file_tree option \<Rightarrow> (string \<times> file_tree) list \<Rightarrow> (string \<times> file_tree) list" where
  "put_child n t cs = (case t of None \<Rightarrow> AList.delete n cs | Some u \<Rightarrow> AList.update n u cs)"

definition copy_file ::
  "file_oracle \<Rightarrow> string list \<Rightarrow> file_tree \<Rightarrow> file_tree option \<Rightarrow> file_error option \<times> file_tree option" where
  "copy_file F p src dst =
     (if copy_fails F p then (Some FileOther, dst)
      else
        case dst of
          Some (Dir m cs) \<Rightarrow> (Some FileIsDirectory, dst)
        | _ \<Rightarrow> (None, Some src))"

fun recursive_copy_dir ::
  "file_oracle \<Rightarrow> file_meta \<Rightarrow> string list \<Rightarrow> file_tree \<Rightarrow> file_tree option \<Rightarrow>
     file_error option \<times> file_tree option"
and copy_children ::
  "file_oracle \<Rightarrow> file_meta \<Rightarrow> string list \<Rightarrow> nat option \<Rightarrow> (string \<times> file_tree) list \<Rightarrow>
     (string \<times> file_tree) list \<Rightarrow> file_error option \<times> (string \<times> file_tree) list"
where
  "recursive_copy_dir F me p (Leaf m b) dst =
     (case dst of
        None \<Rightarrow> if mkdir_fails F p then (Some FileOther, None) else (Some FileNotDirectory, Some (Dir me []))
      | Some d \<Rightarrow> (Some FileNotDirectory, dst))"
| "recursive_copy_dir F me p (Dir m cs) dst =
     (case dst of
        Some (Leaf lm lb) \<Rightarrow>
          if list_fails F p = Some 0 then (Some FileOther, dst)
          else if cs = [] then (None, dst)
          else (Some FileNotDirectory, dst)
      | Some (Dir dm ds) \<Rightarrow>
          (let (e, ds) = copy_children F me p (list_fails F p) cs ds in (e, Some (Dir dm ds)))
      | None \<Rightarrow>
          if mkdir_fails F p then (Some FileOther, None)
          else (let (e, ds) = copy_children F me p (list_fails F p) cs [] in (e, Some (Dir me ds))))"
| "copy_children F me p k [] ds = (if k = Some 0 then (Some FileOther, ds) else (None, ds))"
| "copy_children F me p k ((n, c) # cs) ds =
     (if k = Some 0 then (Some FileOther, ds)
      else
      let (e, t) = (case c of
                      Dir m es \<Rightarrow> recursive_copy_dir F me (p @ [n]) c (map_of ds n)
                    | Leaf m b \<Rightarrow> copy_file F (p @ [n]) c (map_of ds n));
          ds = put_child n t ds
      in case e of
           Some err \<Rightarrow> (Some err, ds)
         | None \<Rightarrow> copy_children F me p (map_option (\<lambda>i. i - 1) k) cs ds)"

text \<open>
  A source that does not exist: the destination is created before the source is enumerated. A
  failed copy is cleaned up by removing the destination.
\<close>

definition copy_source ::
  "file_oracle \<Rightarrow> file_meta \<Rightarrow> file_tree option \<Rightarrow> file_tree option \<Rightarrow> file_error option \<times> file_tree option" where
  "copy_source F me src dst =
     (case src of
        Some s \<Rightarrow> recursive_copy_dir F me [] s dst
      | None \<Rightarrow>
          (case dst of
             None \<Rightarrow> if mkdir_fails F [] then (Some FileOther, None) else (Some FileNotFound, Some (Dir me []))
           | Some d \<Rightarrow> (Some FileNotFound, dst)))"

definition gdm_copy_dir_recursively ::
  "file_oracle \<Rightarrow> file_oracle \<Rightarrow> file_meta \<Rightarrow> file_tree option \<Rightarrow> file_tree option \<Rightarrow>
     file_error option \<times> file_tree option" where
  "gdm_copy_dir_recursively F G me src dst =
     (case copy_source F me src dst of
        (None, t) \<Rightarrow> (None, t)
      | (Some e, t) \<Rightarrow> (Some e, snd (gdm_rm_recursively G t)))"

section \<open>What the operations compute\<close>

text \<open>The reference: every file of a tree gets the owner; and a tree without its owners.\<close>

fun set_owner :: "u32 \<Rightarrow> u32 \<Rightarrow> file_tree \<Rightarrow> file_tree" where
  "set_owner u g (Leaf m b) = Leaf (m\<lparr>f_uid := u, f_gid := g\<rparr>) b"
| "set_owner u g (Dir m cs) = Dir (m\<lparr>f_uid := u, f_gid := g\<rparr>) (map (\<lambda>(n, t). (n, set_owner u g t)) cs)"

definition without_owner :: "file_tree \<Rightarrow> file_tree" where
  "without_owner = set_owner 0 0"

fun lookup_path :: "string list \<Rightarrow> file_tree \<Rightarrow> file_tree option" where
  "lookup_path [] t = Some t"
| "lookup_path (n # p) (Leaf m b) = None"
| "lookup_path (n # p) (Dir m cs) = (case map_of cs n of None \<Rightarrow> None | Some t \<Rightarrow> lookup_path p t)"

fun tree_wf :: "file_tree \<Rightarrow> bool" where
  "tree_wf (Leaf m b) = True"
| "tree_wf (Dir m cs) = (distinct (map fst cs) \<and> (\<forall>(n, t) \<in> set cs. tree_wf t))"

lemma set_owner_with_meta [simp]:
  "set_owner u g (with_meta (\<lambda>m. m\<lparr>f_uid := v\<rparr>) t) = set_owner u g t"
  "set_owner u g (with_meta (\<lambda>m. m\<lparr>f_gid := v\<rparr>) t) = set_owner u g t"
  "set_owner u g (with_meta (\<lambda>m. m\<lparr>f_uid := v, f_gid := w\<rparr>) t) = set_owner u g t"
  by (cases t; simp)+

text \<open>
  The contract of a callback that changes owners: it keeps the file, and when it succeeds the
  file has the new owner. Then the walk does the same for the whole tree.
\<close>

locale owner_callback =
  fixes cb :: file_cb and u g :: u32
  assumes keeps: "\<exists>t'. snd (cb p t) = Some t' \<and> without_owner t' = without_owner t"
    and owns: "fst (cb p t) = None \<Longrightarrow> snd (cb p t) = Some (with_meta (\<lambda>m. m\<lparr>f_uid := u, f_gid := g\<rparr>) t)"
begin

lemma cb_cases:
  assumes "cb p t = (e, r)"
  obtains t' where "r = Some t'" "without_owner t' = without_owner t"
    "e = None \<Longrightarrow> t' = with_meta (\<lambda>m. m\<lparr>f_uid := u, f_gid := g\<rparr>) t"
  using keeps [of p t] owns [of p t] assms by auto

definition owner_ok :: "file_tree \<Rightarrow> file_error option \<times> file_tree option \<Rightarrow> bool" where
  "owner_ok t res \<longleftrightarrow>
     (\<exists>t'. snd res = Some t' \<and> without_owner t' = without_owner t \<and> (fst res = None \<longrightarrow> t' = set_owner u g t))"

lemma cb_leaf: "owner_ok (Leaf m b) (cb p (Leaf m b))"
  using keeps [of p "Leaf m b"] owns [of p "Leaf m b"] by (auto simp: owner_ok_def)

lemma walk_children_owner:
  assumes "\<And>n t p. (n, t) \<in> set cs \<Longrightarrow> owner_ok t (gdm_walk_dir_recursively F cb p t) \<or> (\<exists>m b. t = Leaf m b)"
  shows "map (\<lambda>(n, t). (n, without_owner t)) (snd (walk_children F cb p k cs)) =
           map (\<lambda>(n, t). (n, without_owner t)) cs \<and>
         (fst (walk_children F cb p k cs) = None \<longrightarrow>
           snd (walk_children F cb p k cs) = map (\<lambda>(n, t). (n, set_owner u g t)) cs)"
  using assms
proof (induction cs arbitrary: k)
  case Nil
  show ?case by simp
next
  case (Cons x cs)
  obtain n c where x: "x = (n, c)" by fastforce
  have ok: "owner_ok c (case c of Dir m ds \<Rightarrow> gdm_walk_dir_recursively F cb (p @ [n]) c
                                | Leaf m b \<Rightarrow> cb (p @ [n]) c)"
    using Cons.prems [of n c "p @ [n]"] cb_leaf x by (auto split: file_tree.split)
  have IH: "map (\<lambda>(n, t). (n, without_owner t)) (snd (walk_children F cb p j cs)) =
      map (\<lambda>(n, t). (n, without_owner t)) cs \<and>
    (fst (walk_children F cb p j cs) = None \<longrightarrow>
      snd (walk_children F cb p j cs) = map (\<lambda>(n, t). (n, set_owner u g t)) cs)" for j
    by (rule Cons.IH) (use Cons.prems in auto)
  show ?case
    using ok IH [of "map_option (\<lambda>i. i - 1) k"]
    by (auto simp: owner_ok_def keep_child_def x Let_def split: prod.splits option.splits)
qed

lemma walk_owner: "owner_ok t (gdm_walk_dir_recursively F cb p t) \<or> (\<exists>m b. t = Leaf m b)"
proof (induction t arbitrary: p)
  case (Dir m cs)
  have "map (\<lambda>(n, t). (n, without_owner t)) (snd (walk_children F cb p (list_fails F p) cs)) =
      map (\<lambda>(n, t). (n, without_owner t)) cs \<and>
    (fst (walk_children F cb p (list_fails F p) cs) = None \<longrightarrow>
      snd (walk_children F cb p (list_fails F p) cs) = map (\<lambda>(n, t). (n, set_owner u g t)) cs)"
    by (rule walk_children_owner) (use Dir in \<open>auto\<close>)
  then show ?case
    using keeps [of p "Dir m (snd (walk_children F cb p (list_fails F p) cs))"]
      owns [of p "Dir m (snd (walk_children F cb p (list_fails F p) cs))"]
    by (auto simp: owner_ok_def without_owner_def split: prod.split option.split)
qed simp

end

lemma with_meta_twice: "with_meta f (with_meta h t) = with_meta (\<lambda>m. f (h m)) t"
  by (cases t) simp_all

interpretation chown: owner_callback "chown_file F u g" u g for F u g
  by unfold_locales
     (auto simp: chown_file_def without_owner_def Let_def with_meta_twice split: if_splits)

lemma chown_recursively_dir:
  assumes "gdm_chown_recursively F u g (Dir m cs) = (e, r)"
  shows "\<exists>t. r = Some t \<and> without_owner t = without_owner (Dir m cs) \<and>
           (e = None \<longrightarrow> t = set_owner u g (Dir m cs))"
proof -
  have "owner_callback.owner_ok u g (Dir m cs) (gdm_walk_dir_recursively F (chown_file F u g) [] (Dir m cs)) \<or>
      (\<exists>n b. Dir m cs = Leaf n b)"
    by (rule chown.walk_owner)
  with assms show ?thesis by (simp add: gdm_chown_recursively_def chown.owner_ok_def del: gdm_walk_dir_recursively.simps)
qed

section \<open>Removal is complete\<close>

lemma rm_simps:
  "rm_file F p (Leaf m b) = (if delete_fails F p then (Some FileOther, Some (Leaf m b)) else (None, None))"
  "rm_file F p (Dir m cs) =
     (if delete_fails F p then (Some FileOther, Some (Dir m cs))
      else if cs = [] then (None, None) else (Some FileNotEmpty, Some (Dir m cs)))"
  by (simp_all add: rm_file_def)

lemma rm_children:
  assumes "\<forall>x \<in> set cs. \<forall>p. fst (gdm_walk_dir_recursively F (rm_file F) p (snd x)) = None \<longleftrightarrow>
      snd (gdm_walk_dir_recursively F (rm_file F) p (snd x)) = None"
    and "fst (walk_children F (rm_file F) p k cs) = None"
  shows "snd (walk_children F (rm_file F) p k cs) = []"
  using assms
proof (induction cs arbitrary: k)
  case (Cons x cs)
  obtain n c where x: "x = (n, c)" by fastforce
  have c: "fst res = None \<Longrightarrow> snd res = None"
    if "res = (case c of Dir m ds \<Rightarrow> gdm_walk_dir_recursively F (rm_file F) (p @ [n]) c
                       | Leaf m b \<Rightarrow> rm_file F (p @ [n]) c)" for res
    using Cons.prems(1) that x
    by (cases c) (auto simp: rm_simps simp del: gdm_walk_dir_recursively.simps split: if_splits)
  show ?case
    using Cons.prems c [OF refl] Cons.IH [of "map_option (\<lambda>i. i - 1) k"]
    by (auto simp: x keep_child_def Let_def split: prod.splits option.splits if_splits)
qed (simp split: if_splits)

lemma rm_walk:
  "fst (gdm_walk_dir_recursively F (rm_file F) p t) = None \<longleftrightarrow>
   snd (gdm_walk_dir_recursively F (rm_file F) p t) = None"
proof (induction t arbitrary: p)
  case (Dir m cs)
  have "fst (walk_children F (rm_file F) p (list_fails F p) cs) = None \<Longrightarrow>
      snd (walk_children F (rm_file F) p (list_fails F p) cs) = []"
    by (rule rm_children) (use Dir in auto)
  then show ?case
    by (auto simp: rm_simps split: prod.splits option.splits)
qed simp

lemma rm_clean_children:
  assumes "\<forall>p. list_fails F p = None \<and> \<not> delete_fails F p"
    and "\<forall>x \<in> set cs. (\<exists>m b. snd x = Leaf m b) \<or>
      (\<forall>p. gdm_walk_dir_recursively F (rm_file F) p (snd x) = (None, None))"
  shows "walk_children F (rm_file F) p None cs = (None, [])"
  using assms(2)
proof (induction cs)
  case (Cons x cs)
  obtain n c where x: "x = (n, c)" by fastforce
  have "(case c of Dir m ds \<Rightarrow> gdm_walk_dir_recursively F (rm_file F) (p @ [n]) c
      | Leaf m b \<Rightarrow> rm_file F (p @ [n]) c) = (None, None)"
    using Cons.prems assms(1)
    by (cases c) (auto simp: x rm_simps simp del: gdm_walk_dir_recursively.simps)
  with Cons show ?case by (simp add: x keep_child_def)
qed simp

lemma rm_clean:
  assumes "\<forall>p. list_fails F p = None \<and> \<not> delete_fails F p"
  shows "(\<exists>m b. t = Leaf m b) \<or> gdm_walk_dir_recursively F (rm_file F) p t = (None, None)"
proof (induction t arbitrary: p)
  case (Dir m cs)
  have "walk_children F (rm_file F) p None cs = (None, [])"
    by (rule rm_clean_children [OF assms]) (use Dir in fastforce)
  with assms show ?case by (simp add: rm_simps)
qed simp

section \<open>Copies are complete\<close>

lemma map_of_put_child:
  "map_of (put_child n t ds) = (map_of ds)(n := t)"
  by (cases t) (simp_all add: put_child_def update_conv' delete_conv')

text \<open>What a successful copy leaves at the entries of a directory.\<close>

definition copied_to ::
  "(string \<times> file_tree) list \<Rightarrow> (string \<Rightarrow> file_tree option) \<Rightarrow> (string \<Rightarrow> file_tree option) \<Rightarrow>
     (file_tree \<Rightarrow> file_tree option \<Rightarrow> file_tree \<Rightarrow> bool) \<Rightarrow> bool" where
  "copied_to cs before after P \<longleftrightarrow>
     (\<forall>n. case map_of cs n of
            None \<Rightarrow> after n = before n
          | Some c \<Rightarrow> (\<exists>t. after n = Some t \<and> P c (before n) t))"

lemma copy_children_success:
  assumes "\<forall>x \<in> set cs. \<forall>p d t. (case snd x of
        Dir m es \<Rightarrow> recursive_copy_dir F me p (snd x) d
      | Leaf m b \<Rightarrow> copy_file F p (snd x) d) = (None, t) \<longrightarrow> (\<exists>t'. t = Some t' \<and> P (snd x) d t')"
    and "distinct (map fst cs)" "copy_children F me p k cs ds = (None, ds')"
  shows "copied_to cs (map_of ds) (map_of ds') P"
  using assms
proof (induction cs arbitrary: k ds)
  case (Cons x cs)
  obtain n c where x: "x = (n, c)" by fastforce
  obtain t where t: "(case c of Dir m es \<Rightarrow> recursive_copy_dir F me (p @ [n]) c (map_of ds n)
      | Leaf m b \<Rightarrow> copy_file F (p @ [n]) c (map_of ds n)) = (None, t)"
    and rest: "copy_children F me p (map_option (\<lambda>i. i - 1) k) cs (put_child n t ds) = (None, ds')"
    using Cons.prems(3) by (auto simp: x Let_def split: if_splits prod.splits option.splits)
  have "\<forall>p d t. (case c of Dir m es \<Rightarrow> recursive_copy_dir F me p c d | Leaf m b \<Rightarrow> copy_file F p c d) =
      (None, t) \<longrightarrow> (\<exists>t'. t = Some t' \<and> P c d t')"
    using Cons.prems(1) by (cases c) (simp_all add: x del: recursive_copy_dir.simps)
  with t obtain t' where t': "t = Some t'" "P c (map_of ds n) t'" by blast
  from Cons.IH [OF _ _ rest] Cons.prems(1,2)
  have IH: "copied_to cs (map_of (put_child n t ds)) (map_of ds') P" by simp
  show ?case
    unfolding copied_to_def
  proof
    fix j
    have "n \<notin> fst ` set cs" using Cons.prems(2) by (simp add: x)
    then have "map_of cs n = None" by (simp add: map_of_eq_None_iff)
    with IH t' show "case map_of (x # cs) j of None \<Rightarrow> map_of ds' j = map_of ds j
        | Some c \<Rightarrow> \<exists>t. map_of ds' j = Some t \<and> P c (map_of ds j) t"
      unfolding copied_to_def by (cases "j = n") (auto simp: x map_of_put_child dest!: spec [of _ j] split: option.splits)
  qed
qed (auto simp: copied_to_def split: if_splits)

text \<open>
  A tree laid over another: it has every file of the first, and every file of the second that the
  first does not touch.
\<close>

definition overlaid :: "file_tree \<Rightarrow> file_tree option \<Rightarrow> file_tree \<Rightarrow> bool" where
  "overlaid src dst t \<longleftrightarrow>
     (\<forall>p m b. lookup_path p src = Some (Leaf m b) \<longrightarrow> lookup_path p t = Some (Leaf m b)) \<and>
     (\<forall>d p m b. dst = Some d \<and> lookup_path p d = Some (Leaf m b) \<and> lookup_path p src = None \<longrightarrow>
        lookup_path p t = Some (Leaf m b))"

lemma lookup_Leaf: "lookup_path p (Leaf m b) = Some t \<longleftrightarrow> p = [] \<and> t = Leaf m b"
  by (cases p) auto

lemma lookup_empty_Dir: "lookup_path p (Dir m []) = Some t \<longleftrightarrow> p = [] \<and> t = Dir m []"
  by (cases p) auto

lemma overlaid_leaf:
  "copy_file F p (Leaf m b) d = (None, t) \<Longrightarrow> \<exists>t'. t = Some t' \<and> overlaid (Leaf m b) d t'"
  by (auto simp: copy_file_def overlaid_def lookup_Leaf split: if_splits option.splits file_tree.splits)

lemma overlaid_dir:
  assumes "copied_to cs (map_of ds) (map_of ds') overlaid"
  shows "overlaid (Dir m cs) (Some (Dir dm ds)) (Dir em ds')" "ds = [] \<Longrightarrow> overlaid (Dir m cs) None (Dir em ds')"
proof -
  have c: "case map_of cs n of None \<Rightarrow> map_of ds' n = map_of ds n
      | Some c \<Rightarrow> \<exists>t. map_of ds' n = Some t \<and> overlaid c (map_of ds n) t" for n
    using assms unfolding copied_to_def by blast
  have src: "lookup_path p (Dir em ds') = Some (Leaf lm lb)" if "lookup_path p (Dir m cs) = Some (Leaf lm lb)" for p lm lb
    using that c [of "hd p"] by (cases p) (auto simp: overlaid_def split: option.splits)
  moreover have "lookup_path p (Dir em ds') = Some (Leaf lm lb)"
    if "lookup_path p (Dir dm ds) = Some (Leaf lm lb)" "lookup_path p (Dir m cs) = None" for p lm lb
    using that c [of "hd p"] by (cases p) (auto simp: overlaid_def split: option.splits)
  ultimately show "overlaid (Dir m cs) (Some (Dir dm ds)) (Dir em ds')" by (simp add: overlaid_def)
  show "overlaid (Dir m cs) None (Dir em ds')" using src by (simp add: overlaid_def)
qed

lemma recursive_copy_overlaid:
  assumes "tree_wf (Dir m cs)" "recursive_copy_dir F me p (Dir m cs) d = (None, t)"
  shows "\<exists>t'. t = Some t' \<and> overlaid (Dir m cs) d t'"
proof -
  have "\<forall>m cs p d t. s = Dir m cs \<longrightarrow> tree_wf s \<longrightarrow> recursive_copy_dir F me p s d = (None, t) \<longrightarrow>
      (\<exists>t'. t = Some t' \<and> overlaid s d t')" for s
  proof (induction s)
    case (Dir m cs)
    show ?case
    proof (intro allI impI)
      fix m' cs' p d t
      assume wf: "tree_wf (Dir m cs)" and run: "recursive_copy_dir F me p (Dir m cs) d = (None, t)"
      have each: "\<forall>x \<in> set cs. \<forall>p d t. (case snd x of
            Dir m es \<Rightarrow> recursive_copy_dir F me p (snd x) d
          | Leaf m b \<Rightarrow> copy_file F p (snd x) d) = (None, t) \<longrightarrow> (\<exists>t'. t = Some t' \<and> overlaid (snd x) d t')"
      proof (intro ballI allI impI)
        fix x p d t
        assume x: "x \<in> set cs" and "(case snd x of
            Dir m es \<Rightarrow> recursive_copy_dir F me p (snd x) d
          | Leaf m b \<Rightarrow> copy_file F p (snd x) d) = (None, t)"
        moreover have "tree_wf (snd x)" using x wf by (cases x) auto
        ultimately show "\<exists>t'. t = Some t' \<and> overlaid (snd x) d t'"
          using Dir.IH [OF x, of "snd x"] overlaid_leaf
          by (cases "snd x") (auto simp: snds.simps simp del: recursive_copy_dir.simps tree_wf.simps)
      qed
      note kids = copy_children_success [where P = overlaid, OF each]
      show "\<exists>t'. t = Some t' \<and> overlaid (Dir m cs) d t'"
      proof (cases d)
        case None
        with run wf kids [of p "list_fails F p" "[]"] overlaid_dir(2) show ?thesis
          by (auto split: if_splits prod.splits)
      next
        case (Some e)
        show ?thesis
        proof (cases e)
          case (Dir dm ds)
          with Some run wf kids [of p "list_fails F p" ds] overlaid_dir(1) show ?thesis
            by (auto split: prod.splits)
        next
          case (Leaf lm lb)
          with Some run show ?thesis
            by (auto simp: overlaid_def lookup_Leaf lookup_empty_Dir split: if_splits)
        qed
      qed
    qed
  qed simp
  with assms show ?thesis by blast
qed

section \<open>Properties\<close>

text \<open>
  A directory that \<^verbatim>\<open>gdm_ensure_dir\<close> prepared belongs to its user. When it succeeds with a
  recursive change of owners, the directory has the mode that was asked for and it and
  everything below it belong to the user and the group, and nothing else of the tree has
  changed; a new directory is empty. When it fails, the files below the path are still there
  with their contents.
\<close>

theorem ensure_dir_owned:
  assumes "gdm_ensure_dir F me u g mode True d = (e, r)" and "\<forall>m b. d \<noteq> Some (Leaf m b)"
  shows "(e = None \<longrightarrow>
            r = Some (with_meta (\<lambda>m. m\<lparr>f_mode := mode\<rparr>) (set_owner u g (case d of None \<Rightarrow> Dir me [] | Some t \<Rightarrow> t)))) \<and>
         (e \<noteq> None \<longrightarrow> (\<forall>t. d = Some t \<longrightarrow> (\<exists>t'. r = Some t' \<and> without_owner t' = without_owner t)))"
proof (cases "case d of None \<Rightarrow> Dir me [] | Some t \<Rightarrow> t")
  case (Dir m cs)
  obtain e' r' where c: "gdm_chown_recursively F u g (Dir m cs) = (e', r')" by fastforce
  from chown_recursively_dir [OF c] Dir assms c show ?thesis
    by (auto simp: gdm_ensure_dir_def mkdir_with_parents_def split: option.splits if_splits file_tree.splits)
next
  case (Leaf m b)
  with assms show ?thesis by (auto split: option.splits)
qed

definition no_failures :: file_oracle where
  "no_failures = \<lparr>list_fails = (\<lambda>p. None), set_uid_fails = (\<lambda>p. False), set_gid_fails = (\<lambda>p. False),
     delete_fails = (\<lambda>p. False), mkdir_fails = (\<lambda>p. False), copy_fails = (\<lambda>p. False), chmod_fails = (\<lambda>p. False)\<rparr>"

definition root_meta :: file_meta where
  "root_meta = \<lparr>f_uid = 0, f_gid = 0, f_mode = 493\<rparr>"

definition demo_tree :: file_tree where
  "demo_tree = Dir root_meta [(''a'', Leaf root_meta ''x''), (''b'', Dir root_meta [(''c'', Leaf root_meta ''y'')])]"

theorem ensure_dir_owned_witness:
  "\<exists>r. gdm_ensure_dir no_failures root_meta 60578 65534 448 True (Some demo_tree) = (None, r) \<and>
     r = Some (Dir \<lparr>f_uid = 60578, f_gid = 65534, f_mode = 448\<rparr>
           [(''a'', Leaf \<lparr>f_uid = 60578, f_gid = 65534, f_mode = 493\<rparr> ''x''),
            (''b'', Dir \<lparr>f_uid = 60578, f_gid = 65534, f_mode = 493\<rparr>
               [(''c'', Leaf \<lparr>f_uid = 60578, f_gid = 65534, f_mode = 493\<rparr> ''y'')])])"
proof -
  obtain e r where d: "gdm_ensure_dir no_failures root_meta 60578 65534 448 True (Some demo_tree) = (e, r)"
    by fastforce
  have "fst (gdm_ensure_dir no_failures root_meta 60578 65534 448 True (Some demo_tree)) = None"
    by code_simp
  with d have "e = None" by simp
  with ensure_dir_owned [OF d] d show ?thesis by (auto simp: demo_tree_def root_meta_def)
qed



end
