(* ===== verification/Greeter_Environment.thy ===== *)
theory Greeter_Environment
  imports File_Utils Launch_Environment Gdm_Common
begin

text \<open>
  \<^verbatim>\<open>daemon/gdm-launch-environment.c\<close>, the preparation of a greeter: the directories that keep the
  settings of the greeter of a seat, the environment of its session, and the file from which the
  user manager of the greeter reads it.

  The file system is the tree at \<^verbatim>\<open>GDM_WORKING_DIR\<close> and the tree at the home of the dynamic user;
  the oracle of failures is over paths below them.
\<close>

section \<open>Paths in a tree\<close>

definition at_path :: "string list \<Rightarrow> file_oracle \<Rightarrow> file_oracle" where
  "at_path p F = \<lparr>list_fails = (\<lambda>q. list_fails F (p @ q)), set_uid_fails = (\<lambda>q. set_uid_fails F (p @ q)),
     set_gid_fails = (\<lambda>q. set_gid_fails F (p @ q)), delete_fails = (\<lambda>q. delete_fails F (p @ q)),
     mkdir_fails = (\<lambda>q. mkdir_fails F (p @ q)), copy_fails = (\<lambda>q. copy_fails F (p @ q)),
     chmod_fails = (\<lambda>q. chmod_fails F (p @ q))\<rparr>"

fun set_path :: "string list \<Rightarrow> file_tree option \<Rightarrow> file_tree \<Rightarrow> file_tree" where
  "set_path (n # p) t (Dir m cs) =
     (if p = [] then Dir m (put_child n t cs)
      else case map_of cs n of
             None \<Rightarrow> Dir m cs
           | Some c \<Rightarrow> Dir m (put_child n (Some (set_path p t c)) cs))"
| "set_path p t u = u"

text \<open>\<^verbatim>\<open>g_mkdir_with_parents\<close> below a directory: every missing directory on the way is created.\<close>

fun mkdirs_below ::
  "file_oracle \<Rightarrow> file_meta \<Rightarrow> string list \<Rightarrow> string list \<Rightarrow> file_tree \<Rightarrow> file_error option \<times> file_tree" where
  "mkdirs_below F me done [] (Dir m cs) = (None, Dir m cs)"
| "mkdirs_below F me done p (Leaf m b) = (Some FileNotDirectory, Leaf m b)"
| "mkdirs_below F me done (n # p) (Dir m cs) =
     (case map_of cs n of
        Some c \<Rightarrow>
          (let (e, c) = mkdirs_below F me (done @ [n]) p c in (e, Dir m (put_child n (Some c) cs)))
      | None \<Rightarrow>
          if mkdir_fails F (done @ [n]) then (Some FileOther, Dir m cs)
          else (let (e, c) = mkdirs_below F me (done @ [n]) p (Dir me []) in (e, Dir m (put_child n (Some c) cs))))"

definition make_dirs ::
  "file_oracle \<Rightarrow> file_meta \<Rightarrow> string list \<Rightarrow> file_tree option \<Rightarrow> file_error option \<times> file_tree option" where
  "make_dirs F me p t =
     (case mkdir_with_parents F me t of
        (None, Some d) \<Rightarrow> (let (e, d) = mkdirs_below F me [] p d in (e, Some d))
      | (e, t) \<Rightarrow> (e, t))"

text \<open>\<^verbatim>\<open>gdm_ensure_dir\<close> on a path below the tree.\<close>

definition ensure_dir_below ::
  "file_oracle \<Rightarrow> file_meta \<Rightarrow> string list \<Rightarrow> u32 \<Rightarrow> u32 \<Rightarrow> nat \<Rightarrow> bool \<Rightarrow> file_tree option \<Rightarrow>
     file_error option \<times> file_tree option" where
  "ensure_dir_below F me p u g mode recursive t =
     (case make_dirs F me p t of
        (None, Some d) \<Rightarrow>
          (let (e, r) = gdm_ensure_dir (at_path p F) me u g mode recursive (lookup_path p d)
           in (e, Some (set_path p r d)))
      | (e, t) \<Rightarrow> (e, t))"

section \<open>Directories of a seat\<close>

definition MIGRATED_STAMPFILE :: string where
  "MIGRATED_STAMPFILE = ''.migrated-dyn-users''"

text \<open>\<open>own_working_dir\<close> is the first step, which an existing directory goes through.\<close>

definition own_working_dir :: "file_oracle \<Rightarrow> file_tree option \<Rightarrow> file_error option \<times> file_tree option" where
  "own_working_dir F t =
     (case t of
        Some (Dir m cs) \<Rightarrow>
          if chmod_fails F [] then (Some FileOther, t)
          else
            let t = Some (Dir (m\<lparr>f_mode := 493\<rparr>) cs)
            in if set_uid_fails F [] then (Some FileOther, t)
               else (None, map_option (with_meta (\<lambda>m. m\<lparr>f_uid := 0, f_gid := 0\<rparr>)) t)
      | _ \<Rightarrow> (None, t))"

text \<open>One of the two copies. A source that does not exist is not an error of the migration.\<close>

definition migrate_dir ::
  "file_oracle \<Rightarrow> file_meta \<Rightarrow> string list \<Rightarrow> string list \<Rightarrow> file_tree \<Rightarrow> file_error option \<times> file_tree" where
  "migrate_dir F me src dst t =
     (let D = at_path dst F;
          (e, r) = gdm_copy_dir_recursively (D\<lparr>list_fails := list_fails (at_path src F)\<rparr>) D me
                     (lookup_path src t) (lookup_path dst t)
      in (if e = Some FileNotFound then None else e, set_path dst r t))"

definition migrate_working_dir ::
  "file_oracle \<Rightarrow> bool \<Rightarrow> file_meta \<Rightarrow> file_tree option \<Rightarrow> file_error option \<times> file_tree option" where
  "migrate_working_dir F stamp_fails me t =
     (case own_working_dir F t of
        (Some e, t) \<Rightarrow> (Some e, t)
      | (None, t) \<Rightarrow>
          if (case t of None \<Rightarrow> False | Some d \<Rightarrow> lookup_path [MIGRATED_STAMPFILE] d \<noteq> None) then (None, t)
          else
            case make_dirs F me [''seat0''] t of
              (None, Some d) \<Rightarrow>
                (case migrate_dir F me [''.local'', ''state''] [''seat0'', ''state''] d of
                   (Some e, d) \<Rightarrow> (Some e, Some d)
                 | (None, d) \<Rightarrow>
                     (case migrate_dir F me [''.config''] [''seat0'', ''config''] d of
                        (Some e, d) \<Rightarrow> (Some e, Some d)
                      | (None, d) \<Rightarrow>
                          if stamp_fails then (Some FileOther, Some d)
                          else (None, Some (set_path [MIGRATED_STAMPFILE] (Some (Leaf me ''1'')) d))))
            | (e, t) \<Rightarrow> (e, t))"

text \<open>The paths of the two directories of a seat, if they could be prepared.\<close>

definition setup_seat_persist_dirs ::
  "string \<Rightarrow> file_oracle \<Rightarrow> bool \<Rightarrow> file_meta \<Rightarrow> string \<Rightarrow> u32 \<Rightarrow> file_tree option \<Rightarrow>
     (string \<times> string) option \<times> file_tree option" where
  "setup_seat_persist_dirs GDM_WORKING_DIR F stamp_fails me seat owner t =
     (let (_, t) = migrate_working_dir F stamp_fails me t
      in case ensure_dir_below F me [seat, ''config''] owner GID_NOBODY 448 True t of
           (Some e, t) \<Rightarrow> (None, t)
         | (None, t) \<Rightarrow>
             (case ensure_dir_below F me [seat, ''state''] owner GID_NOBODY 448 True t of
                (Some e, t) \<Rightarrow> (None, t)
              | (None, t) \<Rightarrow>
                  (Some (GDM_WORKING_DIR @ ''/'' @ seat @ ''/config'', GDM_WORKING_DIR @ ''/'' @ seat @ ''/state''), t)))"

section \<open>The environment\<close>

type_synonym env_hash = "(string, cstr) ghash"

definition optional_environment :: "string list" where
  "optional_environment =
     [''GI_TYPELIB_PATH'', ''LANG'', ''LANGUAGE'', ''LC_ADDRESS'', ''LC_ALL'', ''LC_COLLATE'', ''LC_CTYPE'',
      ''LC_IDENTIFICATION'', ''LC_MEASUREMENT'', ''LC_MESSAGES'', ''LC_MONETARY'', ''LC_NAME'', ''LC_NUMERIC'',
      ''LC_PAPER'', ''LC_TELEPHONE'', ''LC_TIME'', ''LD_LIBRARY_PATH'', ''PATH'', ''WINDOWPATH'',
      ''XCURSOR_PATH'', ''XDG_CONFIG_DIRS'']"

definition INITIAL_SETUP_DCONF_PROFILE :: string where
  "INITIAL_SETUP_DCONF_PROFILE = ''gnome-initial-setup''"

text \<open>
  What surrounds the greeter: the environment of the daemon, the debug setting (where it cannot
  be read, the variable keeps the value of its memory), constants of the build, the data
  directories, the session types, and the directories of environment files.
\<close>

record greeter_env =
  ge_getenv :: "string \<Rightarrow> cstr"
  ge_debug :: "bool option"
  ge_uninitialised :: bool
  ge_version :: string
  ge_nologin :: string
  ge_datadir :: string
  ge_gdmconfdir :: string
  ge_working_dir :: string
  ge_system_data_dirs :: "string list"
  ge_session_types :: "string list"
  ge_env_d :: "string \<Rightarrow> env_entry list option"
  ge_fs :: file_oracle
  ge_stamp_fails :: bool
  ge_me :: file_meta

definition get_var_cb :: "env_hash \<Rightarrow> string \<Rightarrow> cstr" where
  "get_var_cb h var = (case ght_lookup h var of None \<Rightarrow> None | Some v \<Rightarrow> v)"

definition load_env_func :: "string \<Rightarrow> string \<Rightarrow> env_hash \<Rightarrow> env_hash" where
  "load_env_func var value h = ght_insert var (Some value) h"

fun join_with :: "string \<Rightarrow> string list \<Rightarrow> string" where
  "join_with sep [] = []"
| "join_with sep [x] = x"
| "join_with sep (x # xs) = x @ sep @ join_with sep xs"

definition inherit_variable :: "(string \<Rightarrow> cstr) \<Rightarrow> string \<Rightarrow> env_hash \<Rightarrow> env_hash" where
  "inherit_variable env k h = (case env k of None \<Rightarrow> h | Some v \<Rightarrow> ght_insert k (Some v) h)"

definition insert_all :: "(string \<times> cstr) list \<Rightarrow> env_hash \<Rightarrow> env_hash" where
  "insert_all kvs h = fold (\<lambda>(k, v). ght_insert k v) kvs h"

text \<open>The variables of a greeter that is not the initial setup: its remote file systems are off.\<close>

definition insert_profile :: "cstr \<Rightarrow> env_hash \<Rightarrow> bool \<times> env_hash" where
  "insert_profile profile h =
     (case profile of
        None \<Rightarrow> (False, h)
      | Some p \<Rightarrow>
          let h = ght_insert ''DCONF_PROFILE'' (Some p) h;
              initial = (p = INITIAL_SETUP_DCONF_PROFILE)
          in (initial,
              if initial then h
              else insert_all [(''GVFS_DISABLE_FUSE'', Some ''1''), (''GIO_USE_VFS'', Some ''local''),
                               (''GVFS_REMOTE_VOLUME_MONITOR_IGNORE'', Some ''1'')] h))"

definition insert_seat ::
  "greeter_env \<Rightarrow> bool \<Rightarrow> bool \<Rightarrow> launch_env \<Rightarrow> file_tree option \<Rightarrow> env_hash \<Rightarrow> env_hash \<times> file_tree option" where
  "insert_seat G start_session is_initial_setup le wd h =
     (case (start_session, display_seat_id le) of
        (True, Some seat) \<Rightarrow>
          let h = ght_insert ''GDM_SEAT_ID'' (Some seat) h
          in if is_initial_setup then (h, wd)
             else
               (case setup_seat_persist_dirs (ge_working_dir G) (ge_fs G) (ge_stamp_fails G) (ge_me G) seat
                       (dyn_uid le) wd of
                  (None, wd) \<Rightarrow> (h, wd)
                | (Some (config_dir, state_dir), wd) \<Rightarrow>
                    (insert_all [(''XDG_CONFIG_HOME'', Some config_dir), (''XDG_STATE_HOME'', Some state_dir)] h, wd))
      | _ \<Rightarrow> (h, wd))"

definition build_launch_environment ::
  "greeter_env \<Rightarrow> bool \<Rightarrow> launch_env \<Rightarrow> file_tree option \<Rightarrow> env_hash \<times> file_tree option" where
  "build_launch_environment G start_session le wd =
     (let h = fold (inherit_variable (ge_getenv G)) optional_environment [];
          (is_initial_setup, h) = insert_profile (dconf_profile le) h;
          debug = (case ge_debug G of Some b \<Rightarrow> b | None \<Rightarrow> ge_uninitialised G);
          h = (if debug then ght_insert ''GNOME_SESSION_DEBUG'' (Some ''1'') h else h);
          h = insert_all [(''LOGNAME'', dyn_user_name le), (''USER'', dyn_user_name le),
                          (''USERNAME'', dyn_user_name le), (''GDM_VERSION'', Some (ge_version G))] h;
          h = ght_remove ''MAIL'' h;
          h = insert_all [(''HOME'', dyn_user_home le), (''PWD'', dyn_user_home le),
                          (''SHELL'', Some (ge_nologin G))] h;
          (h, wd) = insert_seat G start_session is_initial_setup le wd h;
          h = ght_insert ''RUNNING_UNDER_GDM'' (Some ''true'') h;
          h = (if is_initial_setup
               then gdm_load_env_d load_env_func get_var_cb (ge_env_d G) (ge_datadir G) (ge_gdmconfdir G) h else h);
          h = ght_insert ''XDG_DATA_DIRS''
                (Some (ge_datadir G @ ''/gdm/greeter'' @ '':'' @ join_with '':'' (ge_system_data_dirs G))) h
      in (ght_insert ''GDM_SUPPORTED_SESSION_TYPES'' (Some (join_with '':'' (ge_session_types G))) h, wd))"

section \<open>The environment file\<close>

text \<open>
  Which steps on the file itself fail: its replacement, a stream that has no descriptor, the
  change of its owner, and the lines that cannot be written.
\<close>

record file_steps =
  replace_fails :: bool
  no_descriptor :: bool
  fchown_fails :: bool
  put_fails :: "nat \<Rightarrow> bool"

definition get_environment_file_output_stream ::
  "file_oracle \<Rightarrow> file_meta \<Rightarrow> file_steps \<Rightarrow> launch_env \<Rightarrow> file_tree option \<Rightarrow> bool \<times> file_tree option" where
  "get_environment_file_output_stream F me S le hm =
     (case ensure_dir_below F me [''.config''] (dyn_uid le) GID_NOBODY 448 False hm of
        (Some e, h) \<Rightarrow> (False, h)
      | (None, h) \<Rightarrow>
          (case ensure_dir_below F me [''.config'', ''environment.d''] (dyn_uid le) GID_NOBODY 448 False h of
             (Some e, h) \<Rightarrow> (False, h)
           | (None, h) \<Rightarrow>
               if replace_fails S then (False, h)
               else
                 let conf = [''.config'', ''environment.d'', ''gdm.conf''];
                     put = (\<lambda>m. map_option (set_path conf (Some (Leaf m []))) h)
                 in if no_descriptor S \<or> fchown_fails S then (False, put me)
                    else (True, put (me\<lparr>f_uid := dyn_uid le, f_gid := GID_NOBODY\<rparr>))))"

definition session_env_line :: "string \<times> cstr \<Rightarrow> string" where
  "session_env_line kv = fst kv @ ''='' @ (case snd kv of None \<Rightarrow> ''(null)'' | Some v \<Rightarrow> v) @ [CHR 0x0A]"

fun put_lines :: "(nat \<Rightarrow> bool) \<Rightarrow> nat \<Rightarrow> env_hash \<Rightarrow> string" where
  "put_lines fails i [] = []"
| "put_lines fails i (kv # kvs) = (if fails i then [] else session_env_line kv) @ put_lines fails (Suc i) kvs"

definition on_session_setup_complete ::
  "greeter_env \<Rightarrow> file_oracle \<Rightarrow> file_steps \<Rightarrow> launch_env \<Rightarrow> file_tree option \<times> file_tree option \<Rightarrow>
     file_tree option \<times> file_tree option" where
  "on_session_setup_complete G H S le trees =
     (let (wd, hm) = trees;
          (h, wd) = build_launch_environment G True le wd;
          (ok, hm) = get_environment_file_output_stream H (ge_me G) S le hm
      in if \<not> ok then (wd, hm)
         else
           let conf = [''.config'', ''environment.d'', ''gdm.conf'']
           in (wd, map_option (set_path conf (Some (Leaf ((ge_me G)\<lparr>f_uid := dyn_uid le, f_gid := GID_NOBODY\<rparr>)
                                               (put_lines (put_fails S) 0 h)))) hm))"

section \<open>What reaches the greeter\<close>

lemma lookup_insert: "ght_lookup (ght_insert k v h) = (ght_lookup h)(k \<mapsto> v)"
  by (rule ext) (simp add: ght_lookup_def ght_insert_def update_conv')

lemma lookup_remove: "ght_lookup (ght_remove k h) = (ght_lookup h)(k := None)"
  by (rule ext) (simp add: ght_lookup_def ght_remove_def delete_conv')

lemma lookup_insert_all: "ght_lookup (insert_all kvs h) k =
    (case map_of (rev kvs) k of None \<Rightarrow> ght_lookup h k | Some v \<Rightarrow> Some v)"
  unfolding insert_all_def
  by (induction kvs arbitrary: h) (auto simp: lookup_insert map_add_def split: option.splits)

lemma lookup_inherited:
  "ght_lookup (fold (inherit_variable env) ks h) k =
     (if k \<in> set ks \<and> env k \<noteq> None then Some (env k) else ght_lookup h k)"
  by (induction ks arbitrary: h) (auto simp: inherit_variable_def lookup_insert split: option.splits)

definition greeter_names :: "string list" where
  "greeter_names =
     [''DCONF_PROFILE'', ''GVFS_DISABLE_FUSE'', ''GIO_USE_VFS'', ''GVFS_REMOTE_VOLUME_MONITOR_IGNORE'',
      ''GNOME_SESSION_DEBUG'', ''LOGNAME'', ''USER'', ''USERNAME'', ''GDM_VERSION'', ''HOME'', ''PWD'', ''SHELL'',
      ''GDM_SEAT_ID'', ''XDG_CONFIG_HOME'', ''XDG_STATE_HOME'', ''RUNNING_UNDER_GDM'', ''XDG_DATA_DIRS'',
      ''GDM_SUPPORTED_SESSION_TYPES'']"

lemma insert_profile_names:
  assumes "insert_profile p h = (i, h')" "ght_lookup h' k = Some v" "k \<notin> set greeter_names"
  shows "ght_lookup h k = Some v"
  using assms
  by (auto simp: insert_profile_def greeter_names_def lookup_insert lookup_insert_all Let_def
      split: option.splits if_splits)

lemma insert_seat_names:
  assumes "insert_seat G st i le wd h = (h', wd')"
  shows "k \<notin> set greeter_names \<Longrightarrow> ght_lookup h' k = Some v \<Longrightarrow> ght_lookup h k = Some v"
    and "k \<in> {''LOGNAME'', ''USER'', ''USERNAME'', ''HOME'', ''PWD'', ''SHELL''} \<Longrightarrow> ght_lookup h' k = ght_lookup h k"
  using assms
  by (auto simp: insert_seat_def greeter_names_def lookup_insert lookup_insert_all Let_def
      split: option.splits if_splits prod.splits bool.splits)


definition demo_greeter_env :: greeter_env where
  "demo_greeter_env =
     \<lparr>ge_getenv = (\<lambda>k. if k = ''LANG'' then Some ''de_DE.UTF-8'' else if k = ''LD_PRELOAD'' then Some ''x.so'' else None),
      ge_debug = Some False, ge_uninitialised = True, ge_version = ''50'', ge_nologin = ''/usr/sbin/nologin'',
      ge_datadir = ''/usr/share'', ge_gdmconfdir = ''/etc/gdm'', ge_working_dir = ''/var/lib/gdm'',
      ge_system_data_dirs = [''/usr/share''], ge_session_types = [''wayland'', ''x11''], ge_env_d = (\<lambda>d. None),
      ge_fs = no_failures, ge_stamp_fails = False, ge_me = root_meta\<rparr>"

definition demo_greeter :: launch_env where
  "demo_greeter =
     (gdm_create_greeter_launch_environment ''gdm'' (Some ''seat0'') None True)
       \<lparr>dyn_user_name := Some ''gdm-greeter'', dyn_uid := 60578, dyn_user_home := Some ''/run/gdm/home/gdm-greeter''\<rparr>"


section \<open>The migration\<close>

text \<open>
  The migration deletes the settings of seat0 when there is nothing to migrate. In a working
  directory without the stamp file and without \<^verbatim>\<open>.local/state\<close>, a directory \<^verbatim>\<open>seat0/state\<close> that
  has files already is removed with all of them: the copy of the missing source fails, and a
  failed copy is cleaned up by removing its destination.
\<close>

theorem migration_deletes_seat_state:
  assumes "lookup_path [''.local'', ''state''] (Dir m cs) = None"
    and "lookup_path [''seat0'', ''state''] (Dir m cs) = Some (Dir sm ss)"
    and "\<forall>p. list_fails F p = None \<and> \<not> delete_fails F p"
  shows "\<exists>t. migrate_dir F me [''.local'', ''state''] [''seat0'', ''state''] (Dir m cs) = (None, t) \<and>
           lookup_path [''seat0'', ''state''] t = None"
proof -
  let ?D = "at_path [''seat0'', ''state''] F"
  have d: "\<forall>p. list_fails ?D p = None \<and> \<not> delete_fails ?D p" using assms(3) by (simp add: at_path_def)
  have rm: "gdm_walk_dir_recursively ?D (rm_file ?D) [] (Dir sm ss) = (None, None)"
    using rm_clean [OF d, of "Dir sm ss" "[]"] by blast
  have c: "gdm_copy_dir_recursively (?D\<lparr>list_fails := list_fails (at_path [''.local'', ''state''] F)\<rparr>) ?D me
      None (Some (Dir sm ss)) = (Some FileNotFound, None)"
    by (simp only: gdm_copy_dir_recursively_def copy_source_def gdm_rm_recursively_def option.case prod.case rm) simp
  have "lookup_path [''seat0'', ''state''] (set_path [''seat0'', ''state''] None (Dir m cs)) = None"
    using assms(2)
    by (auto simp: map_of_put_child split: option.splits file_tree.splits) (case_tac x2; simp add: map_of_put_child)
  then show ?thesis
    by (simp only: migrate_dir_def Let_def assms(1,2) c prod.case) simp
qed

theorem migration_deletes_seat_state_witness:
  "\<exists>t. migrate_dir no_failures root_meta [''.local'', ''state''] [''seat0'', ''state'']
     (Dir root_meta [(''seat0'', Dir root_meta [(''state'', Dir root_meta [(''x'', Leaf root_meta ''1'')])])]) = (None, t) \<and>
     lookup_path [''seat0'', ''state''] t = None"
  by (rule migration_deletes_seat_state [where sm = root_meta and ss = "[(''x'', Leaf root_meta ''1'')]"])
     (simp_all add: no_failures_def)

end
