(* ===== verification/Session_Record.thy ===== *)
theory Session_Record
  imports Gdm_Prelude
begin

text \<open>
  \<^verbatim>\<open>daemon/gdm-session-record.c\<close>: the records of logins, logouts and failed attempts in wtmp, utmp
  and btmp, on a system that has \<^verbatim>\<open>updwtmpx\<close> and \<^verbatim>\<open>getutxent\<close>. The fields of a record are buffers
  of bytes; their sizes are those of the system's header and are an argument.
\<close>

section \<open>Records\<close>

datatype session_record_event = RECORD_LOGIN | RECORD_LOGOUT | RECORD_FAILED

datatype ut_kind = UT_EMPTY | USER_PROCESS | DEAD_PROCESS

record utmp =
  ut_type :: ut_kind
  ut_user :: string
  ut_host :: string
  ut_line :: string
  ut_pid :: int
  ut_tv :: "int \<times> int"

record utmp_sizes =
  user_size :: nat
  host_size :: nat
  line_size :: nat

definition zero_record :: "utmp_sizes \<Rightarrow> utmp" where
  "zero_record Z = \<lparr>ut_type = UT_EMPTY, ut_user = replicate (user_size Z) (CHR 0x00),
     ut_host = replicate (host_size Z) (CHR 0x00), ut_line = replicate (line_size Z) (CHR 0x00),
     ut_pid = 0, ut_tv = (0, 0)\<rparr>"

text \<open>\<^verbatim>\<open>memccpy (dst, src, 0, n)\<close>: the bytes of the string with its NUL, at most \<open>n\<close> of them.\<close>

definition memccpy :: "string \<Rightarrow> string \<Rightarrow> nat \<Rightarrow> string" where
  "memccpy dst src n = (let b = take n (src @ [CHR 0x00]) in b @ drop (length b) dst)"

definition record_set_type :: "session_record_event \<Rightarrow> utmp \<Rightarrow> utmp" where
  "record_set_type e u =
     u\<lparr>ut_type := (case e of RECORD_LOGIN \<Rightarrow> USER_PROCESS | RECORD_FAILED \<Rightarrow> USER_PROCESS | RECORD_LOGOUT \<Rightarrow> DEAD_PROCESS)\<rparr>"

definition record_set_username :: "utmp_sizes \<Rightarrow> string \<Rightarrow> utmp \<Rightarrow> utmp" where
  "record_set_username Z name u = u\<lparr>ut_user := memccpy (ut_user u) name (user_size Z)\<rparr>"

text \<open>\<open>now\<close> is the time in microseconds.\<close>

definition record_set_timestamp :: "int \<Rightarrow> utmp \<Rightarrow> utmp" where
  "record_set_timestamp now u = u\<lparr>ut_tv := (now div 1000000, now mod 1000000)\<rparr>"

definition record_set_pid :: "int \<Rightarrow> utmp \<Rightarrow> utmp" where
  "record_set_pid p u = (if p \<noteq> 0 then u\<lparr>ut_pid := p\<rparr> else u)"

definition record_set_host :: "utmp_sizes \<Rightarrow> cstr \<Rightarrow> utmp \<Rightarrow> utmp" where
  "record_set_host Z remote_host u =
     u\<lparr>ut_host := memccpy (ut_host u) (case remote_host of Some h \<Rightarrow> h | None \<Rightarrow> ''local'') (host_size Z)\<rparr>"

definition record_line :: "cstr \<Rightarrow> cstr \<Rightarrow> string" where
  "record_line tty seat =
     (case tty of
        Some t \<Rightarrow> if take 5 t = ''/dev/'' then drop 5 t else t
      | None \<Rightarrow> (case seat of Some s \<Rightarrow> s | None \<Rightarrow> ''headless''))"

definition record_set_line :: "utmp_sizes \<Rightarrow> cstr \<Rightarrow> cstr \<Rightarrow> utmp \<Rightarrow> utmp" where
  "record_set_line Z tty seat u = u\<lparr>ut_line := memccpy (ut_line u) (record_line tty seat) (line_size Z)\<rparr>"

section \<open>Writing\<close>

datatype record_write = Wtmp utmp | Utmp utmp | Btmp utmp

definition write_login_record :: "utmp \<Rightarrow> record_write list" where
  "write_login_record r = [Wtmp r, Utmp r]"

definition write_logout_record :: "utmp \<Rightarrow> record_write list" where
  "write_logout_record r = [Wtmp r, Utmp r]"

definition write_failed_record :: "utmp \<Rightarrow> record_write list" where
  "write_failed_record r = [Btmp r]"

text \<open>What the session says of itself.\<close>

record recorded_session =
  rs_username :: cstr
  rs_pid :: int
  rs_hostname :: cstr
  rs_device :: cstr
  rs_seat :: cstr

definition gdm_session_record ::
  "utmp_sizes \<Rightarrow> int \<Rightarrow> session_record_event \<Rightarrow> recorded_session \<Rightarrow> int \<Rightarrow> record_write list" where
  "gdm_session_record Z now event s p =
     (case rs_username s of
        None \<Rightarrow> []
      | Some name \<Rightarrow>
          let p = (if p < 0 then rs_pid s else p)
          in if p < 0 then []
             else
               let r = record_set_type event (zero_record Z);
                   r = record_set_username Z name r;
                   r = record_set_timestamp now r;
                   r = record_set_pid p r;
                   r = record_set_host Z (rs_hostname s) r;
                   r = record_set_line Z (rs_device s) (rs_seat s) r
               in (case event of
                     RECORD_LOGIN \<Rightarrow> write_login_record r
                   | RECORD_LOGOUT \<Rightarrow> write_logout_record r
                   | RECORD_FAILED \<Rightarrow> write_failed_record r))"

section \<open>Properties\<close>

text \<open>A field as the readers of the files see it: up to the first NUL or to the end of the buffer.\<close>

definition field_text :: "string \<Rightarrow> string" where
  "field_text f = takeWhile (\<lambda>c. c \<noteq> CHR 0x00) f"

lemma memccpy_length: "length dst = n \<Longrightarrow> length (memccpy dst src n) = n"
  by (simp add: memccpy_def)

lemma memccpy_text:
  assumes "CHR 0x00 \<notin> set src"
  shows "field_text (memccpy (replicate n (CHR 0x00)) src n) = take n src"
proof (cases "length src < n")
  case True
  then have "memccpy (replicate n (CHR 0x00)) src n = src @ CHR 0x00 # replicate (n - Suc (length src)) (CHR 0x00)"
    by (simp add: memccpy_def)
  moreover have "takeWhile (\<lambda>c. c \<noteq> CHR 0x00) (src @ CHR 0x00 # zs) = src" for zs
    using assms by (induction src) auto
  ultimately show ?thesis using True by (simp add: field_text_def)
next
  case False
  then have "memccpy (replicate n (CHR 0x00)) src n = take n src" by (simp add: memccpy_def)
  moreover have "takeWhile (\<lambda>c. c \<noteq> CHR 0x00) (take n src) = take n src"
    using assms by (auto simp: takeWhile_eq_all_conv dest: in_set_takeD)
  ultimately show ?thesis by (simp add: field_text_def)
qed

text \<open>
  Records of sessions. Nothing is written for a session without a user or without a process.
  Otherwise a login and a logout are written to wtmp and utmp, in this order, and a failed attempt
  to btmp; every field of the record has exactly the size of its buffer and reads as the name
  of the user, the host or \<open>local\<close>, and the terminal without \<^verbatim>\<open>/dev/\<close>, the seat or
  \<open>headless\<close>, each cut off at the size of its buffer.
\<close>

theorem session_record_written:
  assumes "rs_username s = Some name" "p \<ge> 0 \<or> rs_pid s \<ge> 0"
    and "CHR 0x00 \<notin> set name" "CHR 0x00 \<notin> set (case rs_hostname s of Some h \<Rightarrow> h | None \<Rightarrow> [])"
    and "CHR 0x00 \<notin> set (record_line (rs_device s) (rs_seat s))"
  shows "\<exists>r. gdm_session_record Z now event s p =
               (if event = RECORD_FAILED then [Btmp r] else [Wtmp r, Utmp r]) \<and>
             length (ut_user r) = user_size Z \<and> length (ut_host r) = host_size Z \<and>
             length (ut_line r) = line_size Z \<and>
             field_text (ut_user r) = take (user_size Z) name \<and>
             field_text (ut_host r) = take (host_size Z) (case rs_hostname s of Some h \<Rightarrow> h | None \<Rightarrow> ''local'') \<and>
             field_text (ut_line r) = take (line_size Z) (record_line (rs_device s) (rs_seat s)) \<and>
             ut_pid r = (if p < 0 then rs_pid s else p)"
proof -
  have host: "CHR 0x00 \<notin> set (case rs_hostname s of Some h \<Rightarrow> h | None \<Rightarrow> ''local'')"
    using assms(4) by (auto split: option.splits)
  show ?thesis
    using assms(1,2) memccpy_text [OF assms(3)] memccpy_text [OF host] memccpy_text [OF assms(5)]
    by (auto simp: gdm_session_record_def Let_def record_set_type_def record_set_username_def zero_record_def
        record_set_timestamp_def record_set_pid_def record_set_host_def record_set_line_def memccpy_length
        write_login_record_def write_logout_record_def write_failed_record_def
        split: session_record_event.splits)
qed

theorem session_record_written_witness:
  "\<exists>r. gdm_session_record \<lparr>user_size = 4, host_size = 8, line_size = 8\<rparr> 1000001 RECORD_LOGIN
      \<lparr>rs_username = Some ''alice'', rs_pid = 77, rs_hostname = None, rs_device = Some ''/dev/tty2'', rs_seat = None\<rparr> (-1) =
        [Wtmp r, Utmp r] \<and>
      field_text (ut_user r) = ''alic'' \<and> field_text (ut_host r) = ''local'' \<and> field_text (ut_line r) = ''tty2'' \<and>
      ut_pid r = 77"
  using session_record_written [of
      "\<lparr>rs_username = Some ''alice'', rs_pid = 77, rs_hostname = None, rs_device = Some ''/dev/tty2'', rs_seat = None\<rparr>"
      "''alice''" "-1" "\<lparr>user_size = 4, host_size = 8, line_size = 8\<rparr>" 1000001 RECORD_LOGIN]
  by (auto simp: record_line_def)

end
