(* ===== verification/Gdm_Sessions.thy ===== *)
theory Gdm_Sessions
  imports Session_Files
begin

text \<open>
  \<^verbatim>\<open>libgdm/gdm-sessions.c\<close>: the list of sessions that the greeter offers. It is read once from
  the desktop files of several directories, of which the earlier ones have priority, and cached.
\<close>

section \<open>Data\<close>

text \<open>
  A desktop file as GLib's key file gives it: whether it has the group of desktop entries and the
  key \<^verbatim>\<open>Name\<close>, the translated strings (\<^verbatim>\<open>NULL\<close> also for text that is not valid), and the flags,
  \<open>None\<close> where reading fails.
\<close>

record session_keyfile =
  sk_has_group :: bool
  sk_has_name :: bool
  sk_name :: cstr
  sk_comment :: cstr
  sk_no_display :: "bool option"
  sk_hidden :: "bool option"
  sk_can_run_headless :: "bool option"
  sk_try_exec :: cstr

record session_file =
  sf_id :: string
  sf_path :: string
  sf_name :: cstr
  sf_comment :: cstr

text \<open>
  The system: the answers of logind for the process and its user, with the error number of a
  failure; the environment variable with the supported types; the directories and files.
\<close>

record session_system =
  pid_user_unit :: int
  uid_display :: "int + string"
  pid_session :: "int + string"
  seat_of_session :: "string \<Rightarrow> int + string"
  types_env :: cstr
  data_dirs :: "string list"
  dm_conf_dir :: string
  gdm_data_dir :: string
  read_dir :: "string \<Rightarrow> string list option"
  load_key_file :: "string \<Rightarrow> session_keyfile option"
  in_path :: "string \<Rightarrow> bool"

type_synonym sessions_map = "(string, session_file) ghash"

section \<open>Reading\<close>

definition get_systemd_session :: "session_system \<Rightarrow> cstr" where
  "get_systemd_session S =
     (case (if pid_user_unit S = 0 then uid_display S else pid_session S) of
        Inl e \<Rightarrow> None
      | Inr sid \<Rightarrow> Some sid)"

definition get_systemd_seat :: "session_system \<Rightarrow> cstr" where
  "get_systemd_seat S =
     (case get_systemd_session S of
        None \<Rightarrow> None
      | Some sid \<Rightarrow> (case seat_of_session S sid of Inl e \<Rightarrow> None | Inr seat \<Rightarrow> Some seat))"

definition key_file_is_relevant :: "session_system \<Rightarrow> session_keyfile \<Rightarrow> bool" where
  "key_file_is_relevant S k =
     (let no_display = (sk_no_display k = Some True);
          hidden = (sk_hidden k = Some True);
          only_headless_allowed = (get_systemd_seat S = None);
          can_run_headless = (sk_can_run_headless k = Some True);
          tryexec_failed = (case sk_try_exec k of
                              None \<Rightarrow> False
                            | Some t \<Rightarrow> \<not> in_path S (g_strchomp (dropWhile g_ascii_isspace t)))
      in \<not> (no_display \<or> hidden \<or> tryexec_failed \<or> (only_headless_allowed \<and> \<not> can_run_headless)))"

definition load_session_file :: "session_system \<Rightarrow> string \<Rightarrow> string \<Rightarrow> sessions_map \<Rightarrow> sessions_map" where
  "load_session_file S i path m =
     (case load_key_file S path of
        None \<Rightarrow> m
      | Some k \<Rightarrow>
          if \<not> sk_has_group k then m
          else if \<not> sk_has_name k then m
          else if \<not> key_file_is_relevant S k then ght_remove i m
          else ght_insert i \<lparr>sf_id = i, sf_path = path, sf_name = sk_name k, sf_comment = sk_comment k\<rparr> m)"

definition collect_sessions_from_directory :: "session_system \<Rightarrow> string \<Rightarrow> sessions_map \<Rightarrow> sessions_map" where
  "collect_sessions_from_directory S dirname m =
     (case read_dir S dirname of
        None \<Rightarrow> m
      | Some names \<Rightarrow>
          fold (\<lambda>f m. if \<not> g_str_has_suffix f ''.desktop'' then m
                      else load_session_file S (strip_desktop f) (join_path dirname f) m) names m)"

text \<open>
  One call of \<^verbatim>\<open>remove_duplicate_sessions\<close> for every entry of the table, with the names seen so
  far. A session without a name reaches \<^verbatim>\<open>g_str_hash\<close> with \<^verbatim>\<open>NULL\<close>.
\<close>

fun remove_duplicate_sessions :: "string list \<Rightarrow> sessions_map \<Rightarrow> sessions_map run" where
  "remove_duplicate_sessions seen [] = Ret []"
| "remove_duplicate_sessions seen ((i, s) # m) =
     (case sf_name s of
        None \<Rightarrow> Stop ''g_str_hash (NULL)''
      | Some n \<Rightarrow>
          if n \<in> set seen then remove_duplicate_sessions seen m
          else bindR (remove_duplicate_sessions (n # seen) m) (\<lambda>m. Ret ((i, s) # m)))"

definition session_dirs :: "session_system \<Rightarrow> string list" where
  "session_dirs S =
     (let types = map_option (\<lambda>t. g_strsplit t (CHR '':'')) (types_env S);
          supported = (\<lambda>t. case types of None \<Rightarrow> True | Some ts \<Rightarrow> t \<in> set ts)
      in (if supported ''x11''
          then [''/etc/X11/sessions/'', dm_conf_dir S @ ''/Sessions/'', gdm_data_dir S @ ''/gdm/BuiltInSessions/''] @
               map (\<lambda>d. join_path d ''xsessions'') (data_dirs S)
          else []) @
         (if supported ''wayland'' then map (\<lambda>d. join_path d ''wayland-sessions'') (data_dirs S) else []))"

definition collect_sessions :: "session_system \<Rightarrow> sessions_map run" where
  "collect_sessions S =
     remove_duplicate_sessions [] (fold (collect_sessions_from_directory S) (rev (session_dirs S)) [])"

section \<open>The interface\<close>

text \<open>
  \<open>None\<close> is a table that is not read yet. The array of identifiers ends in \<^verbatim>\<open>NULL\<close> and is sorted
  with it; GLib passes the comparison the places in the array where the pointers stand, and the
  comparison looks up what stands there as if it were an identifier. \<open>bytes_of\<close> is a
  pointer of the array read as a string. The sort is stable.
\<close>

definition compare_session_ids :: "sessions_map \<Rightarrow> string \<Rightarrow> string \<Rightarrow> int" where
  "compare_session_ids m a b =
     (case ght_lookup m a of
        None \<Rightarrow> -1
      | Some s \<Rightarrow>
          (case ght_lookup m b of
             None \<Rightarrow> 1
           | Some t \<Rightarrow>
               (case (sf_name s, sf_name t) of
                  (None, None) \<Rightarrow> 0
                | (None, Some y) \<Rightarrow> -1
                | (Some x, None) \<Rightarrow> 1
                | (Some x, Some y) \<Rightarrow> if x < y then -1 else if x = y then 0 else 1)))"

fun insert_stable :: "('a \<Rightarrow> 'a \<Rightarrow> int) \<Rightarrow> 'a \<Rightarrow> 'a list \<Rightarrow> 'a list" where
  "insert_stable c x [] = [x]"
| "insert_stable c x (y # ys) = (if c x y \<le> 0 then x # y # ys else y # insert_stable c x ys)"

definition sort_stable :: "('a \<Rightarrow> 'a \<Rightarrow> int) \<Rightarrow> 'a list \<Rightarrow> 'a list" where
  "sort_stable c xs = foldr (insert_stable c) xs []"

definition the_sessions :: "session_system \<Rightarrow> sessions_map option \<Rightarrow> sessions_map run" where
  "the_sessions S cache = (case cache of None \<Rightarrow> collect_sessions S | Some m \<Rightarrow> Ret m)"

definition gdm_get_session_ids ::
  "session_system \<Rightarrow> (cstr \<Rightarrow> string) \<Rightarrow> sessions_map option \<Rightarrow> (cstr list \<times> sessions_map option) run" where
  "gdm_get_session_ids S bytes_of cache =
     bindR (the_sessions S cache) (\<lambda>m.
       let array = map (\<lambda>(i, s). Some (sf_id s)) m @ [None]
       in Ret (sort_stable (\<lambda>a b. compare_session_ids m (bytes_of a) (bytes_of b)) array, Some m))"

definition gdm_get_session_name_and_description ::
  "session_system \<Rightarrow> string \<Rightarrow> sessions_map option \<Rightarrow> ((cstr \<times> cstr) option \<times> sessions_map option) run" where
  "gdm_get_session_name_and_description S i cache =
     bindR (the_sessions S cache) (\<lambda>m.
       Ret (case ght_lookup m i of None \<Rightarrow> None | Some s \<Rightarrow> Some (sf_name s, sf_comment s), Some m))"

section \<open>Which file decides\<close>

text \<open>
  The reference. A directory says nothing about a session, hides it or shows it; the first
  directory in the order of the search that says something decides.
\<close>

datatype verdict = Silent | Hides | Shows session_file

definition verdict :: "session_system \<Rightarrow> string \<Rightarrow> string \<Rightarrow> verdict" where
  "verdict S d i =
     (if \<not> (case read_dir S d of None \<Rightarrow> False | Some names \<Rightarrow> desktop_file i \<in> set names) then Silent
      else
        case load_key_file S (join_path d (desktop_file i)) of
          None \<Rightarrow> Silent
        | Some k \<Rightarrow>
            if \<not> sk_has_group k \<or> \<not> sk_has_name k then Silent
            else if \<not> key_file_is_relevant S k then Hides
            else Shows \<lparr>sf_id = i, sf_path = join_path d (desktop_file i), sf_name = sk_name k,
                        sf_comment = sk_comment k\<rparr>)"

fun offered :: "session_system \<Rightarrow> string list \<Rightarrow> string \<Rightarrow> session_file option" where
  "offered S [] i = None"
| "offered S (d # ds) i =
     (case verdict S d i of Silent \<Rightarrow> offered S ds i | Hides \<Rightarrow> None | Shows s \<Rightarrow> Some s)"

lemma lookup_insert_any: "ght_lookup (ght_insert k v t) = (ght_lookup t)(k \<mapsto> v)"
  by (rule ext) (simp add: ght_lookup_def ght_insert_def update_conv')

lemma lookup_remove_any: "ght_lookup (ght_remove k t) = (ght_lookup t)(k := None)"
  by (rule ext) (simp add: ght_lookup_def ght_remove_def delete_conv')

lemma strip_desktop_suffix: "g_str_has_suffix f ''.desktop'' \<Longrightarrow> strip_desktop f = i \<longleftrightarrow> f = desktop_file i"
  by (auto simp: g_str_has_suffix_iff strip_desktop_def desktop_file_def)

lemma suffix_desktop_file [simp]: "g_str_has_suffix (desktop_file i) ''.desktop''" "strip_desktop (desktop_file i) = i"
  by (auto simp: g_str_has_suffix_iff strip_desktop_def desktop_file_def)

definition loads_to :: "session_system \<Rightarrow> string \<Rightarrow> string \<Rightarrow> session_file option \<Rightarrow> session_file option" where
  "loads_to S d i old =
     (case load_key_file S (join_path d (desktop_file i)) of
        None \<Rightarrow> old
      | Some k \<Rightarrow>
          if \<not> sk_has_group k \<or> \<not> sk_has_name k then old
          else if \<not> key_file_is_relevant S k then None
          else Some \<lparr>sf_id = i, sf_path = join_path d (desktop_file i), sf_name = sk_name k,
                     sf_comment = sk_comment k\<rparr>)"

lemma lookup_load: "ght_lookup (load_session_file S (strip_desktop f) (join_path d f) m) i =
    (if f = desktop_file i then loads_to S d i (ght_lookup m i) else ght_lookup m i)"
  if "g_str_has_suffix f ''.desktop''"
  using strip_desktop_suffix [OF that, of i]
  by (auto simp: load_session_file_def loads_to_def lookup_insert_any lookup_remove_any split: option.splits)

lemma loads_to_again: "loads_to S d i (loads_to S d i x) = loads_to S d i x"
  by (simp add: loads_to_def split: option.split)

lemma lookup_directory_files:
  "ght_lookup (fold (\<lambda>f m. if \<not> g_str_has_suffix f ''.desktop'' then m
      else load_session_file S (strip_desktop f) (join_path d f) m) names m) i =
     (if desktop_file i \<in> set names then loads_to S d i (ght_lookup m i) else ght_lookup m i)"
  by (induction names arbitrary: m) (auto simp: lookup_load loads_to_again)

lemma lookup_directory:
  "ght_lookup (collect_sessions_from_directory S d m) i =
     (case verdict S d i of Silent \<Rightarrow> ght_lookup m i | Hides \<Rightarrow> None | Shows s \<Rightarrow> Some s)"
  by (auto simp: collect_sessions_from_directory_def lookup_directory_files verdict_def loads_to_def
      split: option.splits)

lemma lookup_collected:
  "ght_lookup (fold (collect_sessions_from_directory S) (rev ds) []) i = offered S ds i"
  by (induction ds) (simp_all add: lookup_directory ght.lookup_empty split: verdict.split)

lemma collected_wf: "ght_wf m \<Longrightarrow> ght_wf (fold (collect_sessions_from_directory S) ds m)"
proof (induction ds arbitrary: m)
  case (Cons d ds)
  have "ght_wf (fold (\<lambda>f m. if \<not> g_str_has_suffix f ''.desktop'' then m
      else load_session_file S (strip_desktop f) (join_path d f) m) names m)" if "ght_wf m" for names m
    using that
    by (induction names arbitrary: m)
       (auto simp: load_session_file_def ght.wf_insert ght.wf_remove split: option.split)
  with Cons show ?case by (auto simp: collect_sessions_from_directory_def split: option.split)
qed simp

section \<open>Duplicate names\<close>

lemma remove_duplicates_cases:
  assumes "remove_duplicate_sessions seen ((i, s) # m) = Ret m'"
  obtains n where "sf_name s = Some n" "n \<in> set seen" "remove_duplicate_sessions seen m = Ret m'"
  | n r where "sf_name s = Some n" "n \<notin> set seen" "remove_duplicate_sessions (n # seen) m = Ret r" "m' = (i, s) # r"
  using assms
  by (cases "sf_name s"; cases "remove_duplicate_sessions (the (sf_name s) # seen) m") (auto split: if_splits)

lemma remove_duplicates_subset:
  "remove_duplicate_sessions seen m = Ret m' \<Longrightarrow> set m' \<subseteq> set m"
proof (induction m arbitrary: seen m')
  case (Cons x m)
  obtain i s where x: "x = (i, s)" by fastforce
  from Cons.prems [unfolded x] show ?case
    by (cases rule: remove_duplicates_cases) (use Cons.IH x in fastforce)+
qed simp

lemma remove_duplicates_wf:
  "remove_duplicate_sessions seen m = Ret m' \<Longrightarrow> ght_wf m \<Longrightarrow> ght_wf m'"
proof (induction m arbitrary: seen m')
  case (Cons x m)
  obtain i s where x: "x = (i, s)" by fastforce
  have wf: "ght_wf m" "i \<notin> fst ` set m" using Cons.prems(2) by (simp_all add: x ght_wf_def)
  from Cons.prems(1) [unfolded x] show ?case
  proof (cases rule: remove_duplicates_cases)
    case (2 n r)
    from remove_duplicates_subset [OF 2(3)] wf(2) have "i \<notin> fst ` set r" by blast
    with Cons.IH [OF 2(3) wf(1)] 2(4) show ?thesis by (simp add: ght_wf_def)
  qed (use Cons.IH wf in blast)
qed simp

lemma remove_duplicates_names:
  "remove_duplicate_sessions seen m = Ret m' \<Longrightarrow>
     distinct (map (sf_name \<circ> snd) m') \<and> (\<forall>x \<in> set m'. \<exists>n. sf_name (snd x) = Some n \<and> n \<notin> set seen)"
proof (induction m arbitrary: seen m')
  case (Cons x m)
  obtain i s where x: "x = (i, s)" by fastforce
  from Cons.prems [unfolded x] show ?case
  proof (cases rule: remove_duplicates_cases)
    case (2 n r)
    from Cons.IH [OF 2(3)] have "\<forall>x \<in> set r. sf_name (snd x) \<noteq> Some n" by fastforce
    with Cons.IH [OF 2(3)] 2 show ?thesis by fastforce
  qed (use Cons.IH in blast)
qed simp

lemma remove_duplicates_cover:
  "remove_duplicate_sessions seen m = Ret m' \<Longrightarrow> x \<in> set m \<Longrightarrow>
     (\<exists>n \<in> set seen. sf_name (snd x) = Some n) \<or> (\<exists>y \<in> set m'. sf_name (snd y) = sf_name (snd x))"
proof (induction m arbitrary: seen m')
  case (Cons z m)
  obtain i s where z: "z = (i, s)" by fastforce
  from Cons.prems(1) [unfolded z] show ?case
  proof (cases rule: remove_duplicates_cases)
    case (1 n)
    with Cons.IH [OF 1(3)] Cons.prems(2) z show ?thesis by auto
  next
    case (2 n r)
    with Cons.IH [OF 2(3)] Cons.prems(2) z show ?thesis by fastforce
  qed
qed simp

section \<open>Properties\<close>


definition demo_session_keyfile :: "string \<Rightarrow> session_keyfile" where
  "demo_session_keyfile n = \<lparr>sk_has_group = True, sk_has_name = True, sk_name = Some n, sk_comment = None,
     sk_no_display = None, sk_hidden = None, sk_can_run_headless = None, sk_try_exec = None\<rparr>"

definition demo_session_system :: session_system where
  "demo_session_system =
     \<lparr>pid_user_unit = 0, uid_display = Inr ''2'', pid_session = Inl (-2), seat_of_session = (\<lambda>s. Inr ''seat0''),
      types_env = Some ''wayland'', data_dirs = [''/usr/local/share'', ''/usr/share''], dm_conf_dir = ''/etc/dm'',
      gdm_data_dir = ''/usr/share'',
      read_dir = (\<lambda>d. if d = ''/usr/local/share/wayland-sessions'' then Some [''sway.desktop'', ''README'']
                      else if d = ''/usr/share/wayland-sessions''
                      then Some [''sway.desktop'', ''zeta.desktop'', ''gnome.desktop'', ''gnome-wayland.desktop''] else None),
      load_key_file = (\<lambda>p. if p = ''/usr/local/share/wayland-sessions/sway.desktop''
                           then Some ((demo_session_keyfile ''Sway'')\<lparr>sk_hidden := Some True\<rparr>)
                           else if p = ''/usr/share/wayland-sessions/zeta.desktop'' then Some (demo_session_keyfile ''Zeta'')
                           else Some (demo_session_keyfile ''GNOME'')),
      in_path = (\<lambda>p. True)\<rparr>"


lemma sort_stable_keeps: "\<forall>a \<in> set xs. \<forall>b \<in> set xs. c a b \<le> 0 \<Longrightarrow> sort_stable c xs = xs"
proof (induction xs)
  case (Cons x xs)
  then have "sort_stable c xs = xs" by simp
  with Cons.prems show ?case by (cases xs) (simp_all add: sort_stable_def)
qed (simp add: sort_stable_def)

text \<open>
  The identifiers are not sorted. Unless the address of an identifier happens to spell the
  identifier of a session, every comparison says that its first argument comes first, and
  \<^verbatim>\<open>gdm_get_session_ids\<close> returns the sessions in the order of the hash table, not in the order
  of their names.
\<close>

theorem session_ids_unsorted:
  assumes "the_sessions S cache = Ret m" and "\<forall>p. ght_lookup m (bytes_of p) = None"
  shows "gdm_get_session_ids S bytes_of cache = Ret (map (\<lambda>(i, s). Some (sf_id s)) m @ [None], Some m)"
proof -
  have "compare_session_ids m (bytes_of a) (bytes_of b) \<le> 0" for a b
    using assms(2) by (simp add: compare_session_ids_def)
  with assms(1) show ?thesis by (simp add: gdm_get_session_ids_def Let_def sort_stable_keeps)
qed

theorem session_ids_unsorted_witness:
  "\<exists>m. gdm_get_session_ids demo_session_system (\<lambda>p. [CHR 0x10, CHR 0xA0, CHR 0x7F]) None =
     Ret ([Some ''zeta'', Some ''gnome'', None], Some m)"
proof -
  let ?b = "[CHR 0x10, CHR 0xA0, CHR 0x7F]"
  have "(case collect_sessions demo_session_system of
      Ret m \<Rightarrow> map (\<lambda>(i, s). Some (sf_id s)) m = [Some ''zeta'', Some ''gnome''] \<and> ght_lookup m ?b = None | _ \<Rightarrow> False)"
    by code_simp
  then obtain m where m: "the_sessions demo_session_system None = Ret m"
    "map (\<lambda>(i, s). Some (sf_id s)) m = [Some ''zeta'', Some ''gnome'']" "ght_lookup m ?b = None"
    by (cases "collect_sessions demo_session_system") (auto simp: the_sessions_def)
  from session_ids_unsorted [OF m(1), of "\<lambda>p. ?b"] m(2,3) show ?thesis by simp
qed

end
