(* ===== verification/Gdm_Config.thy ===== *)
theory Gdm_Config
  imports Session_Files
begin

text \<open>
  \<^verbatim>\<open>utils/gdm-config.c\<close>: the command line tool that enables and disables authentication methods in the
  dconf databases of the greeter and of the system, locks these settings, and resets them.

  The part of the file system that the tool works on is a record: text files, key files (GLib's
  format, as comment and entries) and directories. Which operations fail, what the hook of
  the distribution does and what the option parser found are arguments.
\<close>

section \<open>Commands\<close>

datatype config_command =
  COMMAND_HELP | COMMAND_SHOW | COMMAND_PASSWORD | COMMAND_FINGERPRINT | COMMAND_SMARTCARD | COMMAND_RESET |
  COMMAND_UNKNOWN

datatype auth_type = AUTH_PASSWORD | AUTH_FINGERPRINT | AUTH_SMARTCARD | AUTH_NONE

datatype auth_action = ACTION_UNSET | ACTION_INVALID | ACTION_ENABLED | ACTION_DISABLED | ACTION_REQUIRED

text \<open>The options after parsing; a flag holds when its variable is \<^verbatim>\<open>TRUE\<close>.\<close>

record config_options =
  opt_enable :: bool
  opt_disable :: bool
  opt_required :: bool
  opt_cmd_help :: bool
  opt_verbose :: bool
  opt_removal_action :: cstr

definition get_requested_action :: "config_options \<Rightarrow> auth_action" where
  "get_requested_action opts =
     (if opt_enable opts \<and> opt_disable opts then ACTION_INVALID
      else if opt_required opts \<and> opt_disable opts then ACTION_INVALID
      else if opt_required opts then ACTION_REQUIRED
      else if opt_enable opts then ACTION_ENABLED
      else if opt_disable opts then ACTION_DISABLED
      else ACTION_UNSET)"

definition SC_REMOVAL_ACTIONS :: "string list" where
  "SC_REMOVAL_ACTIONS = [''none'', ''lock-screen'', ''force-logout'', ''user-defined'']"

definition GSD_SC_REMOVAL_ACTION_KEY :: string where
  "GSD_SC_REMOVAL_ACTION_KEY = ''removal-action''"

definition smartcard_option_is_valid :: "cstr \<Rightarrow> cstr \<Rightarrow> bool" where
  "smartcard_option_is_valid key value =
     (case (key, value) of
        (Some k, Some v) \<Rightarrow> k = GSD_SC_REMOVAL_ACTION_KEY \<and> v \<in> set SC_REMOVAL_ACTIONS
      | _ \<Rightarrow> False)"

definition parse_config_command :: "string \<Rightarrow> config_command" where
  "parse_config_command c =
     (if c = ''help'' then COMMAND_HELP
      else if c = ''password'' then COMMAND_PASSWORD
      else if c = ''fingerprint'' then COMMAND_FINGERPRINT
      else if c = ''smartcard'' then COMMAND_SMARTCARD
      else if c = ''show'' then COMMAND_SHOW
      else if c = ''reset'' then COMMAND_RESET
      else COMMAND_UNKNOWN)"

fun config_command_to_string :: "config_command \<Rightarrow> string" where
  "config_command_to_string COMMAND_HELP = ''help''"
| "config_command_to_string COMMAND_PASSWORD = ''password''"
| "config_command_to_string COMMAND_FINGERPRINT = ''fingerprint''"
| "config_command_to_string COMMAND_SMARTCARD = ''smartcard''"
| "config_command_to_string COMMAND_RESET = ''reset''"
| "config_command_to_string COMMAND_SHOW = ''show''"
| "config_command_to_string COMMAND_UNKNOWN = ''unknown''"

fun config_command_to_auth_type :: "config_command \<Rightarrow> auth_type" where
  "config_command_to_auth_type COMMAND_PASSWORD = AUTH_PASSWORD"
| "config_command_to_auth_type COMMAND_SMARTCARD = AUTH_SMARTCARD"
| "config_command_to_auth_type COMMAND_FINGERPRINT = AUTH_FINGERPRINT"
| "config_command_to_auth_type _ = AUTH_NONE"

fun auth_type_to_string :: "auth_type \<Rightarrow> string" where
  "auth_type_to_string AUTH_PASSWORD = config_command_to_string COMMAND_PASSWORD"
| "auth_type_to_string AUTH_FINGERPRINT = config_command_to_string COMMAND_FINGERPRINT"
| "auth_type_to_string AUTH_SMARTCARD = config_command_to_string COMMAND_SMARTCARD"
| "auth_type_to_string AUTH_NONE = config_command_to_string COMMAND_UNKNOWN"

text \<open>For \<^verbatim>\<open>AUTH_NONE\<close> the code asserts; no caller passes it.\<close>

fun auth_type_to_option_key :: "auth_type \<Rightarrow> string" where
  "auth_type_to_option_key AUTH_PASSWORD = ''enable-password-authentication''"
| "auth_type_to_option_key AUTH_FINGERPRINT = ''enable-fingerprint-authentication''"
| "auth_type_to_option_key AUTH_SMARTCARD = ''enable-smartcard-authentication''"
| "auth_type_to_option_key AUTH_NONE = []"

fun get_pam_module_missing_error :: "auth_type \<Rightarrow> string" where
  "get_pam_module_missing_error AUTH_PASSWORD = ''No PAM module available for Password authentication''"
| "get_pam_module_missing_error AUTH_SMARTCARD = ''No PAM module available for Smart Card authentication''"
| "get_pam_module_missing_error AUTH_FINGERPRINT = ''No PAM module available for Fingerprint authentication''"
| "get_pam_module_missing_error AUTH_NONE = []"

text \<open>The checks after parsing; \<open>n\<close> is the number of arguments with the command itself.\<close>

definition toggle_option_check :: "nat \<Rightarrow> config_options \<Rightarrow> bool" where
  "toggle_option_check n opts = (if n < 2 then False else get_requested_action opts \<noteq> ACTION_INVALID)"

definition smartcard_option_check :: "nat \<Rightarrow> config_options \<Rightarrow> bool" where
  "smartcard_option_check n opts =
     (if \<not> toggle_option_check n opts then False
      else opt_removal_action opts = None \<or>
           smartcard_option_is_valid (Some GSD_SC_REMOVAL_ACTION_KEY) (opt_removal_action opts))"

section \<open>The file system and its errors\<close>

datatype config_error = IoCancelled | IoNotFound | FileNoent | OtherError string

record kfile =
  kf_comment :: cstr
  kf_entries :: "(string \<times> string, string) ghash"

datatype config_effect =
    RanHook "string list"
  | UpdatedDconf
  | Printed string

record config_fs =
  texts :: "(string, string) ghash"
  keyfiles :: "(string, kfile) ghash"
  dirs :: "string list"
  config_log :: "config_effect list"

datatype hook_result = HookNotSpawned | HookExit nat string | HookKilled

record config_env =
  DISTRO :: string
  LIBEXECDIR :: string
  DCONF_SYSCONFIG :: string
  DCONF_PROFILES_PATH :: string
  GDM_DCONF_PROFILE :: string
  PAM_PROFILES_DIR :: string
  prgname :: string
  env_dconf_profile :: cstr
  xdg_data_dirs :: "string list"
  hook_executable :: bool
  run_hook :: "string list \<Rightarrow> hook_result"
  readable :: "string \<Rightarrow> bool"
  can_write :: "string \<Rightarrow> bool"
  can_mkdir :: "string \<Rightarrow> bool"
  can_delete :: "string \<Rightarrow> bool"
  dconf_update_works :: bool
  is_root :: bool
  login_setting :: "string \<Rightarrow> bool"
  smartcard_writable :: bool
  smartcard_default :: string
  smartcard_value :: string

type_synonym 'a cfg = "config_fs \<Rightarrow> (config_error + 'a) \<times> config_fs"

definition okC :: "'a \<Rightarrow> 'a cfg" where
  "okC x w = (Inr x, w)"

definition failC :: "config_error \<Rightarrow> 'a cfg" where
  "failC e w = (Inl e, w)"

definition bindC :: "'a cfg \<Rightarrow> ('a \<Rightarrow> 'b cfg) \<Rightarrow> 'b cfg" where
  "bindC m f w = (case m w of (Inl e, w) \<Rightarrow> (Inl e, w) | (Inr x, w) \<Rightarrow> f x w)"

definition catchC :: "'a cfg \<Rightarrow> (config_error \<Rightarrow> 'a cfg) \<Rightarrow> 'a cfg" where
  "catchC m h w = (case m w of (Inl e, w) \<Rightarrow> h e w | (Inr x, w) \<Rightarrow> (Inr x, w))"

definition logC :: "config_effect \<Rightarrow> unit cfg" where
  "logC e w = (Inr (), w\<lparr>config_log := config_log w @ [e]\<rparr>)"

definition below :: "string \<Rightarrow> string \<Rightarrow> bool" where
  "below d p = (take (Suc (length d)) p = d @ ''/'')"

definition is_regular :: "string \<Rightarrow> config_fs \<Rightarrow> bool" where
  "is_regular p w = (ght_contains (texts w) p \<or> ght_contains (keyfiles w) p)"

definition get_contents :: "config_env \<Rightarrow> string \<Rightarrow> string cfg" where
  "get_contents C p w =
     (case ght_lookup (texts w) p of
        None \<Rightarrow> (Inl FileNoent, w)
      | Some t \<Rightarrow> if readable C p then (Inr t, w) else (Inl (OtherError ''read''), w))"

definition set_contents :: "config_env \<Rightarrow> string \<Rightarrow> string \<Rightarrow> unit cfg" where
  "set_contents C p t w =
     (if \<not> can_write C p then (Inl (OtherError ''write''), w)
      else (Inr (), w\<lparr>texts := ght_insert p t (texts w)\<rparr>))"

text \<open>\<^verbatim>\<open>g_file_delete\<close> removes a file, or a directory that is empty.\<close>

definition delete_path :: "config_env \<Rightarrow> string \<Rightarrow> unit cfg" where
  "delete_path C p w =
     (if is_regular p w
      then if can_delete C p
           then (Inr (), w\<lparr>texts := ght_remove p (texts w), keyfiles := ght_remove p (keyfiles w)\<rparr>)
           else (Inl (OtherError ''delete''), w)
      else if p \<in> set (dirs w)
      then if can_delete C p \<and> \<not> list_ex (below p) (map fst (texts w) @ map fst (keyfiles w) @ dirs w)
           then (Inr (), w\<lparr>dirs := removeAll p (dirs w)\<rparr>)
           else (Inl (OtherError ''delete''), w)
      else (Inl IoNotFound, w))"

section \<open>Lines of files\<close>

definition kept_line :: "string \<Rightarrow> bool" where
  "kept_line l = ((l \<noteq> [] \<and> (let c = of_char (hd l) :: nat in 33 \<le> c \<and> c \<le> 126)) \<or> length l > 1)"

definition lines_of :: "string \<Rightarrow> string list" where
  "lines_of t = rev (dropWhile (\<lambda>l. \<not> kept_line l) (rev (g_strsplit t (CHR 0x0A))))"

definition read_file_contents_to_array :: "config_env \<Rightarrow> string \<Rightarrow> string list cfg" where
  "read_file_contents_to_array C p = bindC (get_contents C p) (\<lambda>t. okC (lines_of t))"

fun join_lines :: "string list \<Rightarrow> string" where
  "join_lines [] = []"
| "join_lines [l] = l"
| "join_lines (l # ls) = l @ [CHR 0x0A] @ join_lines ls"

definition text_of_lines :: "string list \<Rightarrow> string" where
  "text_of_lines ls = join_lines (if ls \<noteq> [] \<and> last ls \<noteq> [] then ls @ [[]] else ls)"

definition write_array_to_file :: "config_env \<Rightarrow> string list \<Rightarrow> string \<Rightarrow> unit cfg" where
  "write_array_to_file C ls p = set_contents C p (text_of_lines ls)"

section \<open>The hook of the distribution\<close>

definition build_distro_hook_arguments ::
  "config_options \<Rightarrow> string \<Rightarrow> config_command \<Rightarrow> string list option \<Rightarrow> string list option" where
  "build_distro_hook_arguments opts hook c args =
     (let start = [hook, config_command_to_string c]
      in case args of
           Some as \<Rightarrow> Some (start @ as)
         | None \<Rightarrow>
             (case get_requested_action opts of
                ACTION_REQUIRED \<Rightarrow> Some (start @ [''require''])
              | ACTION_ENABLED \<Rightarrow> Some (start @ [''enable''])
              | ACTION_DISABLED \<Rightarrow> Some (start @ [''disable''])
              | _ \<Rightarrow> if c \<noteq> COMMAND_RESET then None else Some start))"

text \<open>The output of the hook. Exit status 19 asks to stop here.\<close>

definition try_run_distro_hook ::
  "config_env \<Rightarrow> config_options \<Rightarrow> config_command \<Rightarrow> string list option \<Rightarrow> string cfg" where
  "try_run_distro_hook C opts c args =
     (if DISTRO C = [] \<or> DISTRO C = ''none'' then failC IoNotFound
      else
        let hook = join_path (LIBEXECDIR C) (''gdm-auth-config-'' @ DISTRO C)
        in if \<not> hook_executable C then failC (OtherError ''not an executable'')
           else
             case build_distro_hook_arguments opts hook c args of
               None \<Rightarrow> failC (OtherError ''No valid args found to run hook'')
             | Some argv \<Rightarrow>
                 bindC (logC (RanHook argv)) (\<lambda>_.
                   case run_hook C argv of
                     HookExit n out \<Rightarrow>
                       if n = 19 then bindC (logC (Printed out)) (\<lambda>_. failC IoCancelled)
                       else if n = 0 then okC out
                       else failC (OtherError ''exit status'')
                   | _ \<Rightarrow> failC (OtherError ''hook'')))"

definition set_distro_hook_config ::
  "config_env \<Rightarrow> config_options \<Rightarrow> config_command \<Rightarrow> string \<Rightarrow> string \<Rightarrow> unit cfg" where
  "set_distro_hook_config C opts c key value =
     bindC (try_run_distro_hook C opts c (Some [key, value])) (\<lambda>out. logC (Printed out))"

definition get_distro_hook_config ::
  "config_env \<Rightarrow> config_options \<Rightarrow> auth_type \<Rightarrow> cstr \<Rightarrow> string cfg" where
  "get_distro_hook_config C opts a key =
     try_run_distro_hook C opts COMMAND_SHOW
       (Some (auth_type_to_string a # (case key of None \<Rightarrow> [] | Some k \<Rightarrow> [k])))"

definition parents :: "string \<Rightarrow> string list" where
  "parents p = map (\<lambda>i. take i p) (filter (\<lambda>i. p ! i = CHR ''/'') [1..<length p])"

definition make_directory_with_parents :: "config_env \<Rightarrow> string \<Rightarrow> unit cfg" where
  "make_directory_with_parents C p w =
     (if p \<in> set (dirs w) then (Inr (), w)
      else if \<not> can_mkdir C p then (Inl (OtherError ''mkdir''), w)
      else (Inr (), w\<lparr>dirs := dirs w @ filter (\<lambda>d. d \<notin> set (dirs w)) (p # parents p)\<rparr>))"

definition check_distro_hook_is_required :: "config_options \<Rightarrow> config_command \<Rightarrow> bool" where
  "check_distro_hook_is_required opts c =
     (if c = COMMAND_SMARTCARD then opt_enable opts \<or> opt_required opts else False)"

section \<open>Profiles\<close>

definition DCONF_SYSTEM_DB_PREFIX :: string where
  "DCONF_SYSTEM_DB_PREFIX = ''system-db:''"

definition DCONF_SYSTEM_DB_DEFAULT_NAME :: string where
  "DCONF_SYSTEM_DB_DEFAULT_NAME = ''gdm_auth_config''"

definition profiles_path :: "config_env \<Rightarrow> string" where
  "profiles_path C = DCONF_SYSCONFIG C @ ''/dconf/profile''"

definition GDM_CONFIG_DCONF_PROFILE :: "config_env \<Rightarrow> string" where
  "GDM_CONFIG_DCONF_PROFILE C = profiles_path C @ ''/'' @ GDM_DCONF_PROFILE C"

definition GDM_DEFAULT_DCONF_PROFILE :: "config_env \<Rightarrow> string" where
  "GDM_DEFAULT_DCONF_PROFILE C = DCONF_PROFILES_PATH C @ ''/'' @ GDM_DCONF_PROFILE C"

definition GDM_CONFIG_DCONF_DB :: "config_env \<Rightarrow> string" where
  "GDM_CONFIG_DCONF_DB C = DCONF_SYSTEM_DB_PREFIX @ GDM_DCONF_PROFILE C"

definition get_dconf_system_profile :: "config_env \<Rightarrow> string" where
  "get_dconf_system_profile C = (case env_dconf_profile C of Some p \<Rightarrow> p | None \<Rightarrow> ''user'')"

definition get_dconf_db_path :: "config_env \<Rightarrow> string \<Rightarrow> string" where
  "get_dconf_db_path C db = DCONF_SYSCONFIG C @ ''/dconf/db/'' @ db @ ''.d''"

definition get_dconf_system_profile_file :: "config_env \<Rightarrow> string cfg" where
  "get_dconf_system_profile_file C w =
     (case find (\<lambda>f. is_regular f w)
             (map (\<lambda>prefix. join_path (join_path (join_path prefix ''dconf'') ''profile'') (get_dconf_system_profile C))
                (DCONF_SYSCONFIG C # xdg_data_dirs C)) of
        None \<Rightarrow> (Inl IoNotFound, w)
      | Some f \<Rightarrow> (Inr f, w))"

text \<open>The lines to write, \<open>None\<close> when the profile has the database already.\<close>

definition profile_update :: "config_env \<Rightarrow> string \<Rightarrow> string list option cfg" where
  "profile_update C profile_file w =
     (let gdm_sys_db = DCONF_SYSTEM_DB_PREFIX @ DCONF_SYSTEM_DB_DEFAULT_NAME
      in if \<not> is_regular profile_file w
         then bindC (make_directory_with_parents C (profiles_path C)) (\<lambda>_. okC (Some [''user-db:user'', gdm_sys_db])) w
         else bindC (read_file_contents_to_array C profile_file) (\<lambda>ls.
                okC (if gdm_sys_db \<in> set ls then None else Some (ls @ [gdm_sys_db]))) w)"

definition ensure_dconf_configurable_system_profile :: "config_env \<Rightarrow> string cfg" where
  "ensure_dconf_configurable_system_profile C =
     (let profile_file = join_path (profiles_path C) (get_dconf_system_profile C)
      in bindC (profile_update C profile_file) (\<lambda>ls.
         bindC (case ls of None \<Rightarrow> okC () | Some ls \<Rightarrow> write_array_to_file C ls profile_file) (\<lambda>_.
         bindC (make_directory_with_parents C (get_dconf_db_path C DCONF_SYSTEM_DB_DEFAULT_NAME)) (\<lambda>_.
           okC profile_file))))"

definition get_system_dconf_profile_contents :: "config_env \<Rightarrow> string list cfg" where
  "get_system_dconf_profile_contents C =
     bindC (get_dconf_system_profile_file C) (read_file_contents_to_array C)"

fun profile_db_loop :: "string \<Rightarrow> cstr \<Rightarrow> string list \<Rightarrow> cstr" where
  "profile_db_loop preferred db [] = db"
| "profile_db_loop preferred db (l # ls) =
     (let n = length DCONF_SYSTEM_DB_PREFIX
      in if take n l = DCONF_SYSTEM_DB_PREFIX \<and> length l > n
         then if drop n l = preferred then Some preferred else profile_db_loop preferred (Some (drop n l)) ls
         else profile_db_loop preferred db ls)"

definition get_system_dconf_profile_db_name :: "config_env \<Rightarrow> string \<Rightarrow> string cfg" where
  "get_system_dconf_profile_db_name C preferred =
     bindC (get_system_dconf_profile_contents C) (\<lambda>ls.
       case profile_db_loop preferred None ls of None \<Rightarrow> failC IoNotFound | Some db \<Rightarrow> okC db)"

definition ensure_system_user_dconf_profile :: "config_env \<Rightarrow> string cfg" where
  "ensure_system_user_dconf_profile C =
     catchC (get_system_dconf_profile_db_name C DCONF_SYSTEM_DB_DEFAULT_NAME) (\<lambda>e.
       if e = IoNotFound
       then bindC (ensure_dconf_configurable_system_profile C) (\<lambda>_.
              get_system_dconf_profile_db_name C DCONF_SYSTEM_DB_DEFAULT_NAME)
       else failC e)"

definition ensure_gdm_config_dconf_profile :: "config_env \<Rightarrow> unit cfg" where
  "ensure_gdm_config_dconf_profile C w =
     (if (case get_contents C (GDM_CONFIG_DCONF_PROFILE C) w of
            (Inr t, _) \<Rightarrow> GDM_CONFIG_DCONF_DB C \<in> set (g_strsplit t (CHR 0x0A))
          | _ \<Rightarrow> False)
      then (Inr (), w)
      else
        bindC (get_contents C (GDM_DEFAULT_DCONF_PROFILE C)) (\<lambda>default_content.
        bindC (make_directory_with_parents C (profiles_path C)) (\<lambda>_.
          set_contents C (GDM_CONFIG_DCONF_PROFILE C)
            (''# This profile is managed by '' @ prgname C @ [CHR 0x0A] @ default_content @ [CHR 0x0A] @
             GDM_CONFIG_DCONF_DB C @ [CHR 0x0A]))) w)"

section \<open>Settings and locks\<close>

text \<open>
  The values that the tool writes, printed as \<^verbatim>\<open>g_variant_print\<close> does for the strings that
  occur, which need no escapes.
\<close>

datatype gvariant = VBool bool | VString string

fun variant_text :: "gvariant \<Rightarrow> string" where
  "variant_text (VBool b) = (if b then ''true'' else ''false'')"
| "variant_text (VString t) = [CHR 0x27] @ t @ [CHR 0x27]"

definition schema_to_key :: "string \<Rightarrow> string" where
  "schema_to_key schema = map (\<lambda>c. if c = CHR ''.'' then CHR ''/'' else c) schema"

definition key_file_header :: "config_env \<Rightarrow> string" where
  "key_file_header C = ''This file has been generated by '' @ prgname C @ [CHR 0x0A] @ ''Do no edit!''"

text \<open>
  \<^verbatim>\<open>g_key_file_load_from_file\<close> fails for a file that is missing, cannot be read or is no key file.
  The removal of a key that is not there is not an error here.
\<close>

definition write_dconf_setting_to_key_file ::
  "config_env \<Rightarrow> string \<Rightarrow> string \<Rightarrow> string \<Rightarrow> string \<Rightarrow> gvariant option \<Rightarrow> unit cfg" where
  "write_dconf_setting_to_key_file C db file schema key value w =
     (let db_dir = get_dconf_db_path C db;
          path = join_path db_dir file;
          loaded = (if readable C path then ght_lookup (keyfiles w) path else None);
          create_new = (loaded = None);
          k = (case loaded of Some k \<Rightarrow> k | None \<Rightarrow> \<lparr>kf_comment = Some (key_file_header C), kf_entries = []\<rparr>);
          setting_path = schema_to_key schema;
          k = (case value of
                 Some v \<Rightarrow> k\<lparr>kf_entries := ght_insert (setting_path, key) (variant_text v) (kf_entries k)\<rparr>
               | None \<Rightarrow> k\<lparr>kf_entries := ght_remove (setting_path, key) (kf_entries k)\<rparr>)
      in if create_new \<and> value = None then (Inr (), w)
         else
           bindC (if create_new then make_directory_with_parents C db_dir else okC ()) (\<lambda>_ w.
             if \<not> can_write C path then (Inl (OtherError ''save''), w)
             else (Inr (), w\<lparr>keyfiles := ght_insert path k (keyfiles w)\<rparr>)) w)"

text \<open>A deleted file takes its directory along when that is empty then.\<close>

definition delete_with_dir :: "config_env \<Rightarrow> string \<Rightarrow> string \<Rightarrow> unit cfg" where
  "delete_with_dir C path parent =
     bindC (delete_path C path) (\<lambda>_. catchC (delete_path C parent) (\<lambda>e. okC ()))"

definition remove_dconf_setting_key_file :: "config_env \<Rightarrow> string \<Rightarrow> string \<Rightarrow> unit cfg" where
  "remove_dconf_setting_key_file C db file =
     (let db_dir = get_dconf_db_path C db in delete_with_dir C (join_path db_dir file) db_dir)"

definition locks_dir :: "config_env \<Rightarrow> string \<Rightarrow> string" where
  "locks_dir C db = join_path (get_dconf_db_path C db) ''locks''"

definition get_dconf_db_lock_path :: "config_env \<Rightarrow> string \<Rightarrow> string \<Rightarrow> string" where
  "get_dconf_db_lock_path C db lock_name = join_path (locks_dir C db) lock_name"

definition full_lock_key :: "string \<Rightarrow> string \<Rightarrow> string" where
  "full_lock_key schema key = ''/'' @ schema_to_key schema @ ''/'' @ key"

text \<open>The lock lines after the change, \<open>None\<close> when nothing is to be written.\<close>

definition change_locks :: "bool \<Rightarrow> string \<Rightarrow> string list \<Rightarrow> string list option" where
  "change_locks add full_key locks =
     (if full_key \<in> set locks \<and> add then None
      else if full_key \<notin> set locks \<and> \<not> add then None
      else if add then Some (locks @ [full_key])
      else Some (remove1 full_key locks))"

definition lock_file_header :: "config_env \<Rightarrow> string list" where
  "lock_file_header C = [''# This file is managed by '' @ prgname C, ''# Do no edit!'']"

definition set_dconf_setting_lock_full ::
  "config_env \<Rightarrow> string \<Rightarrow> string \<Rightarrow> string \<Rightarrow> string \<Rightarrow> bool \<Rightarrow> unit cfg" where
  "set_dconf_setting_lock_full C db lock_name schema key add w =
     (let lock_file = get_dconf_db_lock_path C db lock_name;
          put = (\<lambda>locks. case change_locks add (full_lock_key schema key) locks of
                             None \<Rightarrow> okC ()
                           | Some ls \<Rightarrow> write_array_to_file C ls lock_file)
      in case read_file_contents_to_array C lock_file w of
           (Inr locks, w) \<Rightarrow> put locks w
         | (Inl e, w) \<Rightarrow>
             if \<not> add then (if e = IoNotFound \<or> e = FileNoent then (Inr (), w) else (Inl e, w))
             else bindC (make_directory_with_parents C (locks_dir C db)) (\<lambda>_. put (lock_file_header C)) w)"

definition set_dconf_setting_lock :: "config_env \<Rightarrow> string \<Rightarrow> string \<Rightarrow> string \<Rightarrow> string \<Rightarrow> unit cfg" where
  "set_dconf_setting_lock C db lock_name schema key = set_dconf_setting_lock_full C db lock_name schema key True"

definition unset_dconf_setting_lock :: "config_env \<Rightarrow> string \<Rightarrow> string \<Rightarrow> string \<Rightarrow> string \<Rightarrow> unit cfg" where
  "unset_dconf_setting_lock C db lock_name schema key = set_dconf_setting_lock_full C db lock_name schema key False"

definition remove_dconf_setting_lock :: "config_env \<Rightarrow> string \<Rightarrow> string \<Rightarrow> unit cfg" where
  "remove_dconf_setting_lock C db lock_name =
     delete_with_dir C (get_dconf_db_lock_path C db lock_name) (locks_dir C db)"

definition update_dconf :: "config_env \<Rightarrow> unit cfg" where
  "update_dconf C =
     bindC (logC UpdatedDconf) (\<lambda>_. if dconf_update_works C then okC () else failC (OtherError ''dconf''))"

definition OVERRIDE_NAME :: string where
  "OVERRIDE_NAME = ''01_gdm-config''"

definition LOCKS_NAME :: string where
  "LOCKS_NAME = ''01_gdm-config-locks''"

definition LOGIN_SCHEMA :: string where
  "LOGIN_SCHEMA = ''org.gnome.login-screen''"

definition GSD_SC_SCHEMA :: string where
  "GSD_SC_SCHEMA = ''org.gnome.settings-daemon.peripherals.smartcard''"

definition write_system_setting_to_db ::
  "config_env \<Rightarrow> string \<Rightarrow> string \<Rightarrow> string \<Rightarrow> gvariant option \<Rightarrow> unit cfg" where
  "write_system_setting_to_db C db schema key value =
     write_dconf_setting_to_key_file C db OVERRIDE_NAME schema key value"

definition write_locked_setting_to_db ::
  "config_env \<Rightarrow> string \<Rightarrow> string \<Rightarrow> string \<Rightarrow> gvariant option \<Rightarrow> unit cfg" where
  "write_locked_setting_to_db C db schema key value =
     bindC (write_system_setting_to_db C db schema key value) (\<lambda>_.
     bindC (set_dconf_setting_lock_full C db LOCKS_NAME schema key (value \<noteq> None)) (\<lambda>_.
       update_dconf C))"

definition write_locked_system_settings_to_db :: "config_env \<Rightarrow> string \<Rightarrow> string \<Rightarrow> gvariant option \<Rightarrow> unit cfg" where
  "write_locked_system_settings_to_db C schema key value =
     (case value of
        Some v \<Rightarrow>
          bindC (ensure_system_user_dconf_profile C) (\<lambda>db. write_locked_setting_to_db C db schema key value)
      | None \<Rightarrow>
          (\<lambda>w. case get_system_dconf_profile_db_name C DCONF_SYSTEM_DB_DEFAULT_NAME w of
                 (Inl e, w) \<Rightarrow> if e = IoNotFound then (Inr (), w) else (Inl e, w)
               | (Inr db, w) \<Rightarrow> write_locked_setting_to_db C db schema key value w))"

definition write_gdm_auth_setting_to_db :: "config_env \<Rightarrow> auth_type \<Rightarrow> bool \<Rightarrow> unit cfg" where
  "write_gdm_auth_setting_to_db C a value =
     bindC (ensure_gdm_config_dconf_profile C) (\<lambda>_.
       write_system_setting_to_db C (GDM_DCONF_PROFILE C) LOGIN_SCHEMA (auth_type_to_option_key a) (Some (VBool value)))"

definition set_gdm_auth_setting_lock :: "config_env \<Rightarrow> auth_type \<Rightarrow> unit cfg" where
  "set_gdm_auth_setting_lock C a =
     set_dconf_setting_lock C (GDM_DCONF_PROFILE C) LOCKS_NAME LOGIN_SCHEMA (auth_type_to_option_key a)"

definition write_locked_gdm_settings_to_db :: "config_env \<Rightarrow> auth_type \<Rightarrow> bool \<Rightarrow> unit cfg" where
  "write_locked_gdm_settings_to_db C a value =
     bindC (write_gdm_auth_setting_to_db C a value) (\<lambda>_.
     bindC (set_gdm_auth_setting_lock C a) (\<lambda>_. update_dconf C))"

section \<open>Handlers\<close>

definition handle_toggle_command :: "config_env \<Rightarrow> config_options \<Rightarrow> config_command \<Rightarrow> unit cfg" where
  "handle_toggle_command C opts c =
     write_locked_gdm_settings_to_db C (config_command_to_auth_type c) (get_requested_action opts = ACTION_ENABLED)"

definition toggle_smartcard_settings :: "config_env \<Rightarrow> string \<Rightarrow> gvariant option \<Rightarrow> unit cfg" where
  "toggle_smartcard_settings C key value =
     bindC (catchC (write_locked_setting_to_db C (GDM_DCONF_PROFILE C) GSD_SC_SCHEMA key value) (\<lambda>e. okC ())) (\<lambda>_.
       write_locked_system_settings_to_db C GSD_SC_SCHEMA key value)"

definition handle_smartcard_options :: "config_env \<Rightarrow> config_options \<Rightarrow> config_command \<Rightarrow> unit cfg" where
  "handle_smartcard_options C opts c =
     (case opt_removal_action opts of
        None \<Rightarrow> okC ()
      | Some action \<Rightarrow>
          let toggle = toggle_smartcard_settings C GSD_SC_REMOVAL_ACTION_KEY
                         (if action = ''user-defined'' then None else Some (VString action))
          in (\<lambda>w. case set_distro_hook_config C opts c GSD_SC_REMOVAL_ACTION_KEY action w of
                    (Inr u, w) \<Rightarrow> toggle w
                  | (Inl e, w) \<Rightarrow>
                      if e = IoCancelled then (Inr (), w)
                      else if e \<noteq> IoNotFound then (Inl e, w)
                      else toggle w))"

definition handle_smartcard :: "config_env \<Rightarrow> config_options \<Rightarrow> config_command \<Rightarrow> unit cfg" where
  "handle_smartcard C opts c =
     (let action = get_requested_action opts
      in bindC (if action = ACTION_UNSET then okC ()
                else
                  bindC (write_locked_gdm_settings_to_db C AUTH_SMARTCARD
                           (action = ACTION_REQUIRED \<or> action = ACTION_ENABLED)) (\<lambda>_.
                    write_locked_gdm_settings_to_db C AUTH_PASSWORD (action \<noteq> ACTION_REQUIRED)))
           (\<lambda>_. handle_smartcard_options C opts c))"

definition have_pam_module :: "config_env \<Rightarrow> auth_type \<Rightarrow> config_fs \<Rightarrow> bool" where
  "have_pam_module C a w = is_regular (PAM_PROFILES_DIR C @ ''/gdm-'' @ auth_type_to_string a) w"

definition get_boolean_string :: "bool \<Rightarrow> string" where
  "get_boolean_string b = (if b then ''Enabled'' else ''Disabled'')"

definition get_gdm_setting_state :: "config_env \<Rightarrow> config_options \<Rightarrow> auth_type \<Rightarrow> config_fs \<Rightarrow> string \<times> config_fs" where
  "get_gdm_setting_state C opts a w =
     (if \<not> have_pam_module C a w then (''Not supported'', w)
      else if \<not> login_setting C (auth_type_to_option_key a) then (get_boolean_string False, w)
      else
        case get_distro_hook_config C opts a None w of
          (Inr out, w) \<Rightarrow>
            (if out = ''enabled'' then get_boolean_string True
             else if out = ''disabled'' then get_boolean_string False
             else if out = ''required'' then ''Required''
             else get_boolean_string True, w)
        | (Inl e, w) \<Rightarrow> (get_boolean_string True, w))"

definition get_smartcard_option :: "config_env \<Rightarrow> config_options \<Rightarrow> string \<Rightarrow> config_fs \<Rightarrow> string \<times> config_fs" where
  "get_smartcard_option C opts key w =
     (let fallback = (if smartcard_writable C then ''user-defined (default is '' @ smartcard_default C @ '')''
                      else smartcard_value C)
      in case get_distro_hook_config C opts AUTH_SMARTCARD (Some key) w of
           (Inr out, w) \<Rightarrow> if smartcard_option_is_valid (Some key) (Some out) then (out, w) else (fallback, w)
         | (Inl e, w) \<Rightarrow> (fallback, w))"

definition handle_show :: "config_env \<Rightarrow> config_options \<Rightarrow> unit cfg" where
  "handle_show C opts w =
     (let (removal, w) = get_smartcard_option C opts GSD_SC_REMOVAL_ACTION_KEY w;
          (password, w) = get_gdm_setting_state C opts AUTH_PASSWORD w;
          (fingerprint, w) = get_gdm_setting_state C opts AUTH_FINGERPRINT w;
          (smartcard, w) = get_gdm_setting_state C opts AUTH_SMARTCARD w
      in logC (Printed (''GDM Authorization configuration'' @ [CHR 0x0A, CHR 0x0A] @
           ''  Password authentication: '' @ password @ [CHR 0x0A] @
           ''  Fingerprint authentication: '' @ fingerprint @ [CHR 0x0A] @
           ''  Smart Card authentication: '' @ smartcard @ [CHR 0x0A] @
           ''  Smart Card removal action: '' @ removal @ [CHR 0x0A])) w)"

section \<open>Reset\<close>

text \<open>
  The question. \<open>answers\<close> is what \<^verbatim>\<open>fgets\<close> reads, stripped; at the end of the input it
  reads nothing, and the loop asks again: \<open>None\<close> is a loop that never ends.
\<close>

fun confirm_reset :: "string list \<Rightarrow> bool option" where
  "confirm_reset [] = None"
| "confirm_reset (a # as) =
     (if a = ''Y'' \<or> a = ''y'' then Some True
      else if a = ''N'' \<or> a = ''n'' then Some False
      else confirm_reset as)"

definition reset_setting :: "config_env \<Rightarrow> auth_type \<Rightarrow> unit cfg" where
  "reset_setting C a =
     bindC (write_system_setting_to_db C (GDM_DCONF_PROFILE C) LOGIN_SCHEMA (auth_type_to_option_key a) None) (\<lambda>_.
       unset_dconf_setting_lock C (GDM_DCONF_PROFILE C) LOCKS_NAME LOGIN_SCHEMA (auth_type_to_option_key a))"

text \<open>Every line with the database is removed, and the file is written after each removal.\<close>

fun drop_profile_lines :: "config_env \<Rightarrow> nat \<Rightarrow> string \<Rightarrow> string \<Rightarrow> string list \<Rightarrow> config_fs \<Rightarrow> config_fs" where
  "drop_profile_lines C 0 line file ls w = w"
| "drop_profile_lines C (Suc n) line file ls w =
     (if line \<in> set ls
      then drop_profile_lines C n line file (remove1 line ls)
             (snd (write_array_to_file C (remove1 line ls) file w))
      else w)"

definition clean_system_profile :: "config_env \<Rightarrow> cstr \<Rightarrow> config_fs \<Rightarrow> config_fs" where
  "clean_system_profile C db w =
     (if db \<noteq> Some DCONF_SYSTEM_DB_DEFAULT_NAME then w
      else
        case get_dconf_system_profile_file C w of
          (Inl e, w) \<Rightarrow> w
        | (Inr file, w) \<Rightarrow>
            (case get_system_dconf_profile_contents C w of
               (Inl e, w) \<Rightarrow> w
             | (Inr ls, w) \<Rightarrow>
                 drop_profile_lines C (length ls) (DCONF_SYSTEM_DB_PREFIX @ DCONF_SYSTEM_DB_DEFAULT_NAME) file ls w))"

definition ignoreC :: "'a cfg \<Rightarrow> config_fs \<Rightarrow> config_fs" where
  "ignoreC m w = snd (m w)"

definition remove_override :: "config_env \<Rightarrow> string \<Rightarrow> config_fs \<Rightarrow> config_fs" where
  "remove_override C db w =
     ignoreC (remove_dconf_setting_key_file C db OVERRIDE_NAME) (ignoreC (remove_dconf_setting_lock C db LOCKS_NAME) w)"

text \<open>The files that the reset removes once the settings are gone; failures are warnings.\<close>

definition remove_managed_files :: "config_env \<Rightarrow> config_fs \<Rightarrow> config_fs" where
  "remove_managed_files C w =
     (let (r, w) = get_system_dconf_profile_db_name C DCONF_SYSTEM_DB_DEFAULT_NAME w;
          db = (case r of Inl e \<Rightarrow> None | Inr n \<Rightarrow> Some n);
          w = clean_system_profile C db w;
          w = (case db of None \<Rightarrow> w | Some n \<Rightarrow> remove_override C n w);
          w = remove_override C (GDM_DCONF_PROFILE C) w
      in ignoreC (delete_path C (GDM_CONFIG_DCONF_PROFILE C)) w)"

definition reset_confirmed :: "config_env \<Rightarrow> config_options \<Rightarrow> unit cfg" where
  "reset_confirmed C opts w =
     (let rest =
        bindC (reset_setting C AUTH_PASSWORD) (\<lambda>_.
        bindC (reset_setting C AUTH_FINGERPRINT) (\<lambda>_.
        bindC (reset_setting C AUTH_SMARTCARD) (\<lambda>_.
        bindC (toggle_smartcard_settings C GSD_SC_REMOVAL_ACTION_KEY None) (\<lambda>_ w.
          update_dconf C (remove_managed_files C w)))))
      in case try_run_distro_hook C opts COMMAND_RESET None w of
           (Inr out, w) \<Rightarrow> rest w
         | (Inl e, w) \<Rightarrow>
             if e = IoCancelled then (Inr (), w)
             else if e = IoNotFound then rest w
             else (Inl e, w))"

definition handle_reset ::
  "config_env \<Rightarrow> config_options \<Rightarrow> string list \<Rightarrow> config_fs \<Rightarrow> ((config_error + unit) \<times> config_fs) option" where
  "handle_reset C opts answers w =
     (if get_requested_action opts = ACTION_REQUIRED then Some (reset_confirmed C opts w)
      else
        case confirm_reset answers of
          None \<Rightarrow> None
        | Some True \<Rightarrow> Some (reset_confirmed C opts w)
        | Some False \<Rightarrow> Some (Inl IoCancelled, w))"

section \<open>The tool\<close>

definition handle_config_command_options :: "config_env \<Rightarrow> config_options \<Rightarrow> config_command \<Rightarrow> unit cfg" where
  "handle_config_command_options C opts c =
     (if c = COMMAND_SMARTCARD then handle_smartcard_options C opts c else okC ())"

definition handle_config_command :: "config_env \<Rightarrow> config_options \<Rightarrow> config_command \<Rightarrow> unit cfg" where
  "handle_config_command C opts c w =
     (let a = config_command_to_auth_type c
      in if \<not> have_pam_module C a w then (Inl (OtherError (get_pam_module_missing_error a)), w)
         else
           case try_run_distro_hook C opts c None w of
             (Inr out, w) \<Rightarrow> bindC (logC (Printed out)) (\<lambda>_. handle_config_command_options C opts c) w
           | (Inl e, w) \<Rightarrow>
               if e = IoCancelled
               then bindC (handle_config_command_options C opts c) (\<lambda>_. failC IoCancelled) w
               else if check_distro_hook_is_required opts c then (Inl e, w)
               else (Inr (), w))"

definition run_handler ::
  "config_env \<Rightarrow> config_options \<Rightarrow> string list \<Rightarrow> config_command \<Rightarrow> config_fs \<Rightarrow>
     ((config_error + unit) \<times> config_fs) option" where
  "run_handler C opts answers c w =
     (case c of
        COMMAND_SHOW \<Rightarrow> Some (handle_show C opts w)
      | COMMAND_RESET \<Rightarrow> handle_reset C opts answers w
      | COMMAND_SMARTCARD \<Rightarrow> Some (handle_smartcard C opts c w)
      | _ \<Rightarrow> Some (handle_toggle_command C opts c w))"

text \<open>
  \<open>parsed\<close> is what the option parser finds: \<open>None\<close> for arguments that it rejects, otherwise the
  options and the number of arguments that are left with the name of the command. The result
  is whether the tool exits with success.
\<close>

definition post_parse :: "config_command \<Rightarrow> nat \<Rightarrow> config_options \<Rightarrow> bool" where
  "post_parse c n opts =
     (case c of
        COMMAND_PASSWORD \<Rightarrow> toggle_option_check n opts
      | COMMAND_FINGERPRINT \<Rightarrow> toggle_option_check n opts
      | COMMAND_SMARTCARD \<Rightarrow> smartcard_option_check n opts
      | _ \<Rightarrow> True)"

definition after_parsing ::
  "config_env \<Rightarrow> config_options \<Rightarrow> string list \<Rightarrow> config_command \<Rightarrow> config_fs \<Rightarrow> (bool \<times> config_fs) option" where
  "after_parsing C opts answers c w =
     (if \<not> is_root C then Some (False, w)
      else
        case (if config_command_to_auth_type c \<noteq> AUTH_NONE then handle_config_command C opts c w else (Inr (), w)) of
          (Inl e, w) \<Rightarrow> Some (e = IoCancelled, w)
        | (Inr u, w) \<Rightarrow>
            (case run_handler C opts answers c w of
               None \<Rightarrow> None
             | Some (Inl e, w) \<Rightarrow> Some (False, w)
             | Some (Inr u, w) \<Rightarrow>
                 Some (True, if opt_verbose opts \<and> c \<noteq> COMMAND_SHOW then snd (handle_show C opts w) else w)))"

definition handle_command ::
  "config_env \<Rightarrow> string list \<Rightarrow> (config_options \<times> nat) option \<Rightarrow> string list \<Rightarrow> config_fs \<Rightarrow>
     (bool \<times> config_fs) option" where
  "handle_command C argv parsed answers w =
     (let c = parse_config_command (argv ! 1)
      in if c = COMMAND_HELP \<or> c = COMMAND_UNKNOWN then Some (c = COMMAND_HELP, w)
         else
           case parsed of
             None \<Rightarrow> Some (False, w)
           | Some (opts, left) \<Rightarrow>
               if \<not> post_parse c (length argv - 1) opts then Some (False, w)
               else if opt_cmd_help opts then Some (True, w)
               else if left > 1 then Some (False, w)
               else after_parsing C opts answers c w)"

definition config_main ::
  "config_env \<Rightarrow> string list \<Rightarrow> (config_options \<times> nat) option \<Rightarrow> string list \<Rightarrow> config_fs \<Rightarrow>
     (bool \<times> config_fs) option" where
  "config_main C argv parsed answers w =
     (if length argv < 2 then Some (False, w) else handle_command C argv parsed answers w)"

section \<open>Lines are read as they were written\<close>

definition plain_lines :: "string list \<Rightarrow> bool" where
  "plain_lines ls \<longleftrightarrow> (\<forall>l \<in> set ls. CHR 0x0A \<notin> set l)"

lemma split_at_plain: "plain_lines (split_at (CHR 0x0A) t)"
  by (induction t) (auto simp: plain_lines_def split: list.splits)

lemma plain_lines_of: "plain_lines (lines_of t)"
proof -
  have "set (lines_of t) \<subseteq> set (g_strsplit t (CHR 0x0A))"
    by (auto simp: lines_of_def dest: set_dropWhileD)
  then show ?thesis
    using split_at_plain [of t] by (auto simp: plain_lines_def g_strsplit_def split: if_splits)
qed

lemma split_join:
  "plain_lines ls \<Longrightarrow> ls \<noteq> [] \<Longrightarrow> split_at (CHR 0x0A) (join_lines ls) = ls"
proof (induction ls rule: join_lines.induct)
  case (2 l)
  then have "CHR 0x0A \<notin> set l" by (simp add: plain_lines_def)
  then show ?case by (induction l) auto
next
  case (3 l m ls)
  then have "CHR 0x0A \<notin> set l" "plain_lines (m # ls)" by (simp_all add: plain_lines_def)
  with 3(1) show ?case by (simp add: split_at_line)
qed simp

lemma lines_of_text:
  assumes "plain_lines ls" "ls \<noteq> []" "kept_line (last ls)"
  shows "lines_of (text_of_lines ls) = ls"
proof -
  have "last ls \<noteq> []" using assms(3) by (auto simp: kept_line_def)
  then have t: "text_of_lines ls = join_lines (ls @ [[]])" by (simp add: text_of_lines_def assms(2))
  have "split_at (CHR 0x0A) (join_lines (ls @ [[]])) = ls @ [[]]"
    using assms(1) by (intro split_join) (auto simp: plain_lines_def)
  moreover have "join_lines (ls @ [[]]) \<noteq> []"
    using assms(2) by (cases ls rule: join_lines.cases) (auto simp: neq_Nil_conv)
  ultimately have "g_strsplit (text_of_lines ls) (CHR 0x0A) = ls @ [[]]" by (simp add: t g_strsplit_def)
  moreover have "kept_line [] = False" by (simp add: kept_line_def)
  ultimately show ?thesis
    using assms(2,3) by (cases ls rule: rev_cases) (simp_all add: lines_of_def)
qed

section \<open>What the operations leave\<close>

lemma bindC_ok:
  assumes "bindC m f w = (Inr y, w')"
  obtains x v where "m w = (Inr x, v)" "f x v = (Inr y, w')"
  using assms by (auto simp: bindC_def split: prod.splits sum.splits)

lemma mkdir_keeps:
  "make_directory_with_parents C p w = (r, w') \<Longrightarrow>
     texts w' = texts w \<and> keyfiles w' = keyfiles w \<and> config_log w' = config_log w"
  by (auto simp: make_directory_with_parents_def split: if_splits)

definition gdm_override :: "config_env \<Rightarrow> string" where
  "gdm_override C = join_path (get_dconf_db_path C (GDM_DCONF_PROFILE C)) OVERRIDE_NAME"

definition gdm_locks :: "config_env \<Rightarrow> string" where
  "gdm_locks C = get_dconf_db_lock_path C (GDM_DCONF_PROFILE C) LOCKS_NAME"

definition setting_text :: "config_env \<Rightarrow> auth_type \<Rightarrow> config_fs \<Rightarrow> cstr" where
  "setting_text C a w =
     (case ght_lookup (keyfiles w) (gdm_override C) of
        None \<Rightarrow> None
      | Some k \<Rightarrow> ght_lookup (kf_entries k) (schema_to_key LOGIN_SCHEMA, auth_type_to_option_key a))"

definition is_locked :: "config_env \<Rightarrow> auth_type \<Rightarrow> config_fs \<Rightarrow> bool" where
  "is_locked C a w =
     (case ght_lookup (texts w) (gdm_locks C) of
        None \<Rightarrow> False
      | Some t \<Rightarrow> full_lock_key LOGIN_SCHEMA (auth_type_to_option_key a) \<in> set (lines_of t))"

definition profile_has_db :: "config_env \<Rightarrow> config_fs \<Rightarrow> bool" where
  "profile_has_db C w =
     (case ght_lookup (texts w) (GDM_CONFIG_DCONF_PROFILE C) of
        None \<Rightarrow> False
      | Some t \<Rightarrow> GDM_CONFIG_DCONF_DB C \<in> set (g_strsplit t (CHR 0x0A)))"

lemma write_key_file:
  assumes "write_dconf_setting_to_key_file C db file schema key (Some v) w = (Inr u, w')"
  obtains k where
    "ght_lookup (kf_entries k) (schema_to_key schema, key) = Some (variant_text v)"
    "keyfiles w' = ght_insert (join_path (get_dconf_db_path C db) file) k (keyfiles w)"
    "texts w' = texts w"
    "\<And>k0 e. readable C (join_path (get_dconf_db_path C db) file) \<Longrightarrow>
       ght_lookup (keyfiles w) (join_path (get_dconf_db_path C db) file) = Some k0 \<Longrightarrow>
       e \<noteq> (schema_to_key schema, key) \<Longrightarrow> ght_lookup (kf_entries k) e = ght_lookup (kf_entries k0) e"
proof -
  let ?p = "join_path (get_dconf_db_path C db) file"
  let ?l = "if readable C ?p then ght_lookup (keyfiles w) ?p else None"
  let ?k0 = "case ?l of Some k \<Rightarrow> k | None \<Rightarrow> \<lparr>kf_comment = Some (key_file_header C), kf_entries = []\<rparr>"
  define k where "k = ?k0\<lparr>kf_entries := ght_insert (schema_to_key schema, key) (variant_text v) (kf_entries ?k0)\<rparr>"
  let ?m = "if ?l = None then make_directory_with_parents C (get_dconf_db_path C db) else okC ()"
  let ?f = "\<lambda>_ w. if \<not> can_write C ?p then (Inl (OtherError ''save''), w)
                  else (Inr (), w\<lparr>keyfiles := ght_insert ?p k (keyfiles w)\<rparr>)"
  have "bindC ?m ?f w = (Inr u, w')"
    using assms by (simp only: write_dconf_setting_to_key_file_def Let_def option.case k_def option.distinct simp_thms if_False)
  then obtain x v' where m: "?m w = (Inr x, v')" and f: "?f x v' = (Inr u, w')" by (rule bindC_ok)
  have "texts v' = texts w \<and> keyfiles v' = keyfiles w \<and> config_log v' = config_log w"
    using m by (cases "?l = None") (simp_all add: mkdir_keeps okC_def)
  moreover have "w' = v'\<lparr>keyfiles := ght_insert ?p k (keyfiles v')\<rparr>"
    using f by (simp split: if_splits)
  moreover have "ght_lookup (kf_entries k) (schema_to_key schema, key) = Some (variant_text v)"
    by (simp add: k_def ght_lookup_insert)
  moreover have "ght_lookup (kf_entries k) e = ght_lookup (kf_entries k0) e"
    if "readable C ?p" "ght_lookup (keyfiles w) ?p = Some k0" "e \<noteq> (schema_to_key schema, key)" for k0 e
    using that by (simp add: k_def ght_lookup_insert)
  ultimately show thesis by (intro that [of k]) simp_all
qed

lemma write_setting:
  assumes "write_system_setting_to_db C (GDM_DCONF_PROFILE C) LOGIN_SCHEMA (auth_type_to_option_key a) (Some v) w
             = (Inr u, w')"
  shows "setting_text C a w' = Some (variant_text v) \<and> texts w' = texts w"
  using assms unfolding write_system_setting_to_db_def
  by (rule write_key_file) (simp add: setting_text_def gdm_override_def ght_lookup_insert)

lemma lock_key_plain:
  "CHR 0x0A \<notin> set (full_lock_key LOGIN_SCHEMA (auth_type_to_option_key a))"
  by (cases a) (simp_all add: full_lock_key_def LOGIN_SCHEMA_def schema_to_key_def)

lemma lock_key_kept: "kept_line (full_lock_key LOGIN_SCHEMA (auth_type_to_option_key a))"
  by (simp add: kept_line_def full_lock_key_def LOGIN_SCHEMA_def schema_to_key_def)

lemma change_locks_add:
  assumes "plain_lines ls" "CHR 0x0A \<notin> set key" "kept_line key" "change_locks True key ls = Some ls'"
  shows "key \<in> set (lines_of (text_of_lines ls'))"
proof -
  have ls': "ls' = ls @ [key]" using assms(4) by (simp add: change_locks_def split: if_splits)
  have "lines_of (text_of_lines ls') = ls'"
    unfolding ls' by (rule lines_of_text) (use assms(1-3) in \<open>auto simp: plain_lines_def\<close>)
  then show ?thesis by (simp add: ls')
qed

lemma set_contents_ok:
  "set_contents C p t w = (Inr u, w') \<Longrightarrow>
     ght_lookup (texts w') = (ght_lookup (texts w))(p \<mapsto> t) \<and> keyfiles w' = keyfiles w"
  by (auto simp: set_contents_def ght_lookup_insert split: if_splits)

lemma set_lock:
  assumes plain: "CHR 0x0A \<notin> set (prgname C)"
    and ok: "set_gdm_auth_setting_lock C a w = (Inr u, w')"
  shows "is_locked C a w' \<and> keyfiles w' = keyfiles w \<and>
         (\<forall>p. p \<noteq> gdm_locks C \<longrightarrow> ght_lookup (texts w') p = ght_lookup (texts w) p)"
proof -
  let ?key = "full_lock_key LOGIN_SCHEMA (auth_type_to_option_key a)"
  let ?put = "\<lambda>locks. case change_locks True ?key locks of
      None \<Rightarrow> okC () | Some ls \<Rightarrow> write_array_to_file C ls (gdm_locks C)"
  have written: "is_locked C a v' \<and> keyfiles v' = keyfiles v \<and>
      (\<forall>p. p \<noteq> gdm_locks C \<longrightarrow> ght_lookup (texts v') p = ght_lookup (texts v) p)"
    if "?put ls v = (Inr u, v')" "change_locks True ?key ls = Some ls'" "plain_lines ls" for ls ls' v v'
    using that change_locks_add [OF that(3) lock_key_plain lock_key_kept that(2)]
    by (auto simp: write_array_to_file_def is_locked_def dest!: set_contents_ok)
  have add: "change_locks True ?key (lock_file_header C) = Some (lock_file_header C @ [?key])"
    by (simp add: change_locks_def lock_file_header_def full_lock_key_def)
  have header: "plain_lines (lock_file_header C)"
    using plain by (simp add: plain_lines_def lock_file_header_def)
  consider (read) t where "ght_lookup (texts w) (gdm_locks C) = Some t" "?put (lines_of t) w = (Inr u, w')"
    | (new) v where "make_directory_with_parents C (locks_dir C (GDM_DCONF_PROFILE C)) w = (Inr (), v)"
        "?put (lock_file_header C) v = (Inr u, w')"
    using ok
    unfolding set_gdm_auth_setting_lock_def set_dconf_setting_lock_def set_dconf_setting_lock_full_def Let_def
      gdm_locks_def [symmetric] read_file_contents_to_array_def
    by (cases "ght_lookup (texts w) (gdm_locks C)"; cases "readable C (gdm_locks C)")
       (auto simp: bindC_def get_contents_def okC_def split: sum.splits prod.splits)
  then show ?thesis
  proof cases
    case read
    show ?thesis
    proof (cases "change_locks True ?key (lines_of t)")
      case None
      then have "?key \<in> set (lines_of t)" by (simp add: change_locks_def split: if_splits)
      then show ?thesis using read None by (simp add: okC_def is_locked_def)
    next
      case (Some ls)
      from written [OF read(2) this plain_lines_of] show ?thesis .
    qed
  next
    case new
    from written [OF new(2) add header] mkdir_keeps [OF new(1)] show ?thesis by simp
  qed
qed

lemma split_at_not_Nil: "split_at c t \<noteq> []"
  by (induction t) (auto split: list.splits)

lemma split_at_sep: "split_at c (a @ c # b) = split_at c a @ split_at c b"
  by (induction a) (auto simp: split_at_not_Nil split: list.splits)

lemma db_in_profile:
  assumes "CHR 0x0A \<notin> set db"
  shows "db \<in> set (g_strsplit (pre @ [CHR 0x0A] @ db @ [CHR 0x0A]) (CHR 0x0A))"
  using assms split_at_line [of "CHR 0x0A" db "[]"] by (simp add: g_strsplit_def split_at_sep del: split_at.simps)

lemma ensure_profile:
  assumes plain: "CHR 0x0A \<notin> set (GDM_DCONF_PROFILE C)"
    and ok: "ensure_gdm_config_dconf_profile C w = (Inr u, w')"
  shows "profile_has_db C w'"
proof (cases "w' = w \<and> profile_has_db C w")
  case False
  define head where "head = ''# This profile is managed by '' @ prgname C @ [CHR 0x0A]"
  have "\<exists>t v. set_contents C (GDM_CONFIG_DCONF_PROFILE C)
      (head @ t @ [CHR 0x0A] @ GDM_CONFIG_DCONF_DB C @ [CHR 0x0A]) v = (Inr u, w')"
    using ok False unfolding head_def ensure_gdm_config_dconf_profile_def profile_has_db_def
    by (auto simp: get_contents_def elim!: bindC_ok split: if_splits option.splits)
  then obtain t v where "set_contents C (GDM_CONFIG_DCONF_PROFILE C)
      (head @ t @ [CHR 0x0A] @ GDM_CONFIG_DCONF_DB C @ [CHR 0x0A]) v = (Inr u, w')" by blast
  from set_contents_ok [OF this]
  have "ght_lookup (texts w') (GDM_CONFIG_DCONF_PROFILE C) =
      Some ((head @ t) @ [CHR 0x0A] @ GDM_CONFIG_DCONF_DB C @ [CHR 0x0A])" by simp
  moreover have "CHR 0x0A \<notin> set (GDM_CONFIG_DCONF_DB C)"
    using plain by (simp add: GDM_CONFIG_DCONF_DB_def DCONF_SYSTEM_DB_PREFIX_def)
  ultimately show ?thesis
    unfolding profile_has_db_def by (simp only: option.case) (rule db_in_profile)
qed simp

lemma profile_not_locks: "GDM_CONFIG_DCONF_PROFILE C \<noteq> gdm_locks C"
  by (simp add: GDM_CONFIG_DCONF_PROFILE_def profiles_path_def gdm_locks_def get_dconf_db_lock_path_def
      locks_dir_def get_dconf_db_path_def join_path_def)

definition enforced :: "config_env \<Rightarrow> auth_type \<Rightarrow> bool \<Rightarrow> config_fs \<Rightarrow> bool" where
  "enforced C a b w \<longleftrightarrow>
     setting_text C a w = Some (variant_text (VBool b)) \<and> is_locked C a w \<and> profile_has_db C w"

definition plain_names :: "config_env \<Rightarrow> bool" where
  "plain_names C \<longleftrightarrow> CHR 0x0A \<notin> set (prgname C) \<and> CHR 0x0A \<notin> set (GDM_DCONF_PROFILE C)"

lemma update_dconf_ok:
  "update_dconf C w = (Inr u, w') \<Longrightarrow> w' = w\<lparr>config_log := config_log w @ [UpdatedDconf]\<rparr>"
  by (auto simp: update_dconf_def bindC_def logC_def okC_def failC_def split: if_splits)

lemma locked_setting_enforced:
  assumes plain: "plain_names C"
    and ok: "write_locked_gdm_settings_to_db C a b w = (Inr u, w')"
  shows "enforced C a b w' \<and> last (config_log w') = UpdatedDconf"
proof -
  from ok obtain x1 x2 x3 w1 w2 w3 where
      p: "ensure_gdm_config_dconf_profile C w = (Inr x1, w1)"
    and s: "write_system_setting_to_db C (GDM_DCONF_PROFILE C) LOGIN_SCHEMA (auth_type_to_option_key a)
              (Some (VBool b)) w1 = (Inr x2, w2)"
    and l: "set_gdm_auth_setting_lock C a w2 = (Inr x3, w3)"
    and d: "update_dconf C w3 = (Inr u, w')"
    unfolding write_locked_gdm_settings_to_db_def write_gdm_auth_setting_to_db_def by (auto elim!: bindC_ok)
  note lock = set_lock [OF _ l]
  have "profile_has_db C w1" using plain p by (simp add: plain_names_def ensure_profile)
  moreover note write_setting [OF s] update_dconf_ok [OF d]
  ultimately show ?thesis
    using lock plain profile_not_locks [of C]
    by (simp add: enforced_def plain_names_def profile_has_db_def is_locked_def setting_text_def)
qed

section \<open>Where nothing fails, the tool does not fail\<close>

definition all_works :: "config_env \<Rightarrow> bool" where
  "all_works C \<longleftrightarrow> (\<forall>p. readable C p \<and> can_write C p \<and> can_mkdir C p) \<and> dconf_update_works C"

definition succeeds :: "'a cfg \<Rightarrow> config_fs \<Rightarrow> bool" where
  "succeeds m w \<longleftrightarrow> (\<exists>x w'. m w = (Inr x, w'))"

named_theorems succeeds_intros

lemma succeeds_bind [succeeds_intros]:
  "succeeds m w \<Longrightarrow> (\<And>x w'. m w = (Inr x, w') \<Longrightarrow> succeeds (f x) w') \<Longrightarrow> succeeds (bindC m f) w"
  by (fastforce simp: succeeds_def bindC_def)

lemma succeeds_ok [succeeds_intros]: "succeeds (okC x) w"
  by (simp add: succeeds_def okC_def)

lemma succeeds_mkdir [succeeds_intros]: "all_works C \<Longrightarrow> succeeds (make_directory_with_parents C p) w"
  by (simp add: succeeds_def make_directory_with_parents_def all_works_def)

lemma succeeds_set_contents [succeeds_intros]: "all_works C \<Longrightarrow> succeeds (set_contents C p t) w"
  by (simp add: succeeds_def set_contents_def all_works_def)

lemma succeeds_update_dconf [succeeds_intros]: "all_works C \<Longrightarrow> succeeds (update_dconf C) w"
  by (simp add: succeeds_def update_dconf_def all_works_def bindC_def logC_def okC_def)

lemma succeeds_key_file [succeeds_intros]:
  "all_works C \<Longrightarrow> succeeds (write_dconf_setting_to_key_file C db file schema key v) w"
  by (auto simp: succeeds_def write_dconf_setting_to_key_file_def all_works_def Let_def bindC_def okC_def
      make_directory_with_parents_def)

lemma succeeds_lock [succeeds_intros]:
  "all_works C \<Longrightarrow> succeeds (set_dconf_setting_lock_full C db name schema key add) w"
  by (auto simp: succeeds_def set_dconf_setting_lock_full_def read_file_contents_to_array_def get_contents_def
      all_works_def Let_def bindC_def okC_def make_directory_with_parents_def write_array_to_file_def
      set_contents_def split: option.splits)

lemma succeeds_profile:
  assumes "all_works C" "ght_contains (texts w) (GDM_DEFAULT_DCONF_PROFILE C)"
  shows "succeeds (ensure_gdm_config_dconf_profile C) w"
proof -
  obtain t where "get_contents C (GDM_DEFAULT_DCONF_PROFILE C) w = (Inr t, w)"
    using assms by (auto simp: all_works_def ght_contains_def ght_lookup_def get_contents_def)
  then have "succeeds (bindC (get_contents C (GDM_DEFAULT_DCONF_PROFILE C)) (\<lambda>t.
      bindC (make_directory_with_parents C (profiles_path C)) (\<lambda>_. set_contents C q (f t)))) w" for q f
    using assms(1) by (auto intro!: succeeds_intros) (simp add: succeeds_def)
  then show ?thesis unfolding succeeds_def ensure_gdm_config_dconf_profile_def by simp
qed

lemma toggle_succeeds:
  assumes "all_works C" "succeeds (ensure_gdm_config_dconf_profile C) w"
  shows "succeeds (write_locked_gdm_settings_to_db C a b) w"
  unfolding write_locked_gdm_settings_to_db_def write_gdm_auth_setting_to_db_def write_system_setting_to_db_def
    set_gdm_auth_setting_lock_def set_dconf_setting_lock_def
  by (intro succeeds_intros assms)

section \<open>The display of the configuration writes nothing\<close>

definition same_files :: "config_fs \<Rightarrow> config_fs \<Rightarrow> bool" where
  "same_files w w' \<longleftrightarrow> texts w' = texts w \<and> keyfiles w' = keyfiles w \<and> dirs w' = dirs w"

lemma hook_same_files: "same_files w (snd (try_run_distro_hook C opts c args w))"
  by (auto simp: same_files_def try_run_distro_hook_def bindC_def logC_def okC_def failC_def Let_def
      split: option.splits hook_result.splits)

lemma same_files_trans: "same_files u v \<Longrightarrow> same_files v w \<Longrightarrow> same_files u w"
  by (simp add: same_files_def)

lemma option_same_files: "same_files w (snd (get_smartcard_option C opts key w))"
  using hook_same_files [of w C opts COMMAND_SHOW]
  by (auto simp: get_smartcard_option_def get_distro_hook_config_def Let_def split: sum.splits prod.splits)
     (metis snd_conv)+

lemma state_same_files: "same_files w (snd (get_gdm_setting_state C opts a w))"
  using hook_same_files [of w C opts COMMAND_SHOW]
  by (auto simp: get_gdm_setting_state_def get_distro_hook_config_def same_files_def
      split: sum.splits prod.splits)
     (metis snd_conv)+

lemma show_same_files: "same_files w (snd (handle_show C opts w))"
proof -
  obtain r1 w1 where 1: "get_smartcard_option C opts GSD_SC_REMOVAL_ACTION_KEY w = (r1, w1)" by fastforce
  obtain r2 w2 where 2: "get_gdm_setting_state C opts AUTH_PASSWORD w1 = (r2, w2)" by fastforce
  obtain r3 w3 where 3: "get_gdm_setting_state C opts AUTH_FINGERPRINT w2 = (r3, w3)" by fastforce
  obtain r4 w4 where 4: "get_gdm_setting_state C opts AUTH_SMARTCARD w3 = (r4, w4)" by fastforce
  have "same_files w w1" using option_same_files [of w C opts GSD_SC_REMOVAL_ACTION_KEY] 1 by simp
  moreover have "same_files w1 w2" using state_same_files [of w1 C opts AUTH_PASSWORD] 2 by simp
  moreover have "same_files w2 w3" using state_same_files [of w2 C opts AUTH_FINGERPRINT] 3 by simp
  moreover have "same_files w3 w4" using state_same_files [of w3 C opts AUTH_SMARTCARD] 4 by simp
  ultimately show ?thesis
    by (auto simp: handle_show_def 1 2 3 4 logC_def same_files_def)
qed

section \<open>Two settings written one after the other\<close>

lemma option_key_inj:
  "a \<noteq> AUTH_NONE \<Longrightarrow> a' \<noteq> AUTH_NONE \<Longrightarrow> auth_type_to_option_key a = auth_type_to_option_key a' \<Longrightarrow> a = a'"
  by (cases a; cases a') simp_all

lemma write_setting_keeps:
  assumes "write_system_setting_to_db C (GDM_DCONF_PROFILE C) LOGIN_SCHEMA (auth_type_to_option_key a')
             (Some v) w = (Inr u, w')"
    and "readable C (gdm_override C)" "a \<noteq> a'" "a \<noteq> AUTH_NONE" "a' \<noteq> AUTH_NONE"
    and "setting_text C a w = Some t"
  shows "setting_text C a w' = Some t"
proof -
  obtain k where "ght_lookup (keyfiles w) (gdm_override C) = Some k"
      "ght_lookup (kf_entries k) (schema_to_key LOGIN_SCHEMA, auth_type_to_option_key a) = Some t"
    using assms(6) by (auto simp: setting_text_def split: option.splits)
  moreover have "auth_type_to_option_key a \<noteq> auth_type_to_option_key a'"
    using assms(3-5) option_key_inj by blast
  ultimately show ?thesis
    using assms(1,2) unfolding write_system_setting_to_db_def
    by (elim write_key_file) (simp add: setting_text_def gdm_override_def ght_lookup_insert)
qed

lemma change_locks_keeps:
  assumes "plain_lines ls" "CHR 0x0A \<notin> set key" "kept_line key" "change_locks True key ls = Some ls'"
  shows "set ls \<subseteq> set (lines_of (text_of_lines ls'))"
proof -
  have ls': "ls' = ls @ [key]" using assms(4) by (simp add: change_locks_def split: if_splits)
  have "lines_of (text_of_lines ls') = ls'"
    unfolding ls' by (rule lines_of_text) (use assms(1-3) in \<open>auto simp: plain_lines_def\<close>)
  then show ?thesis by (auto simp: ls')
qed

lemma set_lock_keeps:
  assumes ok: "set_gdm_auth_setting_lock C a' w = (Inr u, w')"
    and "readable C (gdm_locks C)" "is_locked C a w"
  shows "is_locked C a w'"
proof -
  let ?key = "full_lock_key LOGIN_SCHEMA (auth_type_to_option_key a')"
  obtain t where t: "ght_lookup (texts w) (gdm_locks C) = Some t"
      "full_lock_key LOGIN_SCHEMA (auth_type_to_option_key a) \<in> set (lines_of t)"
    using assms(3) by (auto simp: is_locked_def split: option.splits)
  have w': "(case change_locks True ?key (lines_of t) of
      None \<Rightarrow> okC () | Some ls \<Rightarrow> write_array_to_file C ls (gdm_locks C)) w = (Inr u, w')"
    using ok assms(2) t(1)
    by (simp add: set_gdm_auth_setting_lock_def set_dconf_setting_lock_def set_dconf_setting_lock_full_def Let_def
        gdm_locks_def [symmetric] read_file_contents_to_array_def bindC_def get_contents_def okC_def)
  show ?thesis
  proof (cases "change_locks True ?key (lines_of t)")
    case None
    with w' assms(3) show ?thesis by (simp add: okC_def)
  next
    case (Some ls)
    from change_locks_keeps [OF plain_lines_of lock_key_plain lock_key_kept this] w' t(2) Some
    show ?thesis by (auto simp: write_array_to_file_def is_locked_def dest!: set_contents_ok)
  qed
qed

lemma ensure_profile_keeps:
  assumes "profile_has_db C w" "readable C (GDM_CONFIG_DCONF_PROFILE C)"
  shows "ensure_gdm_config_dconf_profile C w = (Inr (), w)"
  using assms
  by (auto simp: profile_has_db_def ensure_gdm_config_dconf_profile_def get_contents_def split: option.splits)

lemma second_setting_keeps:
  assumes "enforced C a b w" "all_works C" "a \<noteq> a'" "a \<noteq> AUTH_NONE" "a' \<noteq> AUTH_NONE" "plain_names C"
    and ok: "write_locked_gdm_settings_to_db C a' b' w = (Inr u, w')"
  shows "enforced C a b w'"
proof -
  have p: "ensure_gdm_config_dconf_profile C w = (Inr (), w)"
    using assms(1,2) by (simp add: enforced_def all_works_def ensure_profile_keeps)
  from ok p obtain x2 x3 w2 w3 where
      s: "write_system_setting_to_db C (GDM_DCONF_PROFILE C) LOGIN_SCHEMA (auth_type_to_option_key a')
              (Some (VBool b')) w = (Inr x2, w2)"
    and l: "set_gdm_auth_setting_lock C a' w2 = (Inr x3, w3)"
    and d: "update_dconf C w3 = (Inr u, w')"
    unfolding write_locked_gdm_settings_to_db_def write_gdm_auth_setting_to_db_def by (auto elim!: bindC_ok)
  have "setting_text C a w2 = Some (variant_text (VBool b))"
    using write_setting_keeps [OF s _ assms(3-5)] assms(1,2) by (simp add: enforced_def all_works_def)
  moreover have "is_locked C a w3"
    using set_lock_keeps [OF l] write_setting [OF s] assms(1,2) by (simp add: enforced_def all_works_def is_locked_def)
  moreover have "profile_has_db C w'"
    using locked_setting_enforced [OF assms(6) ok] by (simp add: enforced_def)
  moreover note set_lock [OF _ l] update_dconf_ok [OF d]
  ultimately show ?thesis
    using assms(6) by (simp add: enforced_def plain_names_def setting_text_def is_locked_def)
qed

lemma toggle_succeeds_again:
  assumes "all_works C" "profile_has_db C w"
  shows "succeeds (write_locked_gdm_settings_to_db C a b) w"
  using assms by (intro toggle_succeeds) (simp_all add: succeeds_def ensure_profile_keeps all_works_def)

section \<open>Reset\<close>

lemma delete_path_gone: "can_delete C p \<Longrightarrow> \<not> is_regular p (snd (delete_path C p w))"
  by (auto simp: delete_path_def is_regular_def ght_contains_def ght_remove_def delete_conv')

lemma delete_path_keeps_gone: "\<not> is_regular q w \<Longrightarrow> \<not> is_regular q (snd (delete_path C p w))"
  by (auto simp: delete_path_def is_regular_def ght_contains_def ght_remove_def delete_conv')

lemma delete_with_dir_gone:
  assumes "can_delete C p"
  shows "\<not> is_regular p (snd (delete_with_dir C p d w))"
proof -
  obtain r v where 1: "delete_path C p w = (r, v)" by fastforce
  obtain r' v' where 2: "delete_path C d v = (r', v')" by fastforce
  have "\<not> is_regular p v" using delete_path_gone [OF assms, of w] 1 by simp
  moreover have "\<not> is_regular p v'" using delete_path_keeps_gone [OF calculation, of C d] 2 by simp
  ultimately show ?thesis
    by (auto simp: delete_with_dir_def bindC_def catchC_def okC_def 1 2 split: sum.splits)
qed

lemma delete_with_dir_keeps_gone:
  assumes "\<not> is_regular q w"
  shows "\<not> is_regular q (snd (delete_with_dir C p d w))"
proof -
  obtain r v where 1: "delete_path C p w = (r, v)" by fastforce
  obtain r' v' where 2: "delete_path C d v = (r', v')" by fastforce
  have "\<not> is_regular q v" using delete_path_keeps_gone [OF assms, of C p] 1 by simp
  moreover have "\<not> is_regular q v'" using delete_path_keeps_gone [OF calculation, of C d] 2 by simp
  ultimately show ?thesis
    by (auto simp: delete_with_dir_def bindC_def catchC_def okC_def 1 2 split: sum.splits)
qed

definition no_overrides :: "config_env \<Rightarrow> config_fs \<Rightarrow> bool" where
  "no_overrides C w \<longleftrightarrow>
     \<not> is_regular (gdm_override C) w \<and> \<not> is_regular (gdm_locks C) w \<and> \<not> is_regular (GDM_CONFIG_DCONF_PROFILE C) w"

lemma managed_files_removed:
  assumes "\<And>p. can_delete C p"
  shows "no_overrides C (remove_managed_files C w)"
  unfolding no_overrides_def remove_managed_files_def Let_def remove_override_def ignoreC_def
    remove_dconf_setting_key_file_def remove_dconf_setting_lock_def gdm_override_def gdm_locks_def
  by (auto simp: delete_path_gone delete_path_keeps_gone delete_with_dir_gone delete_with_dir_keeps_gone assms
      split: prod.splits)

section \<open>Properties\<close>

text \<open>A machine on which everything works, with the profile of the greeter in place.\<close>

definition demo_config_env :: config_env where
  "demo_config_env =
     \<lparr>DISTRO = ''none'', LIBEXECDIR = ''/usr/libexec'', DCONF_SYSCONFIG = ''/etc'',
      DCONF_PROFILES_PATH = ''/usr/share/dconf/profile'', GDM_DCONF_PROFILE = ''gdm'',
      PAM_PROFILES_DIR = ''/etc/pam.d'', prgname = ''gdm-config'', env_dconf_profile = None,
      xdg_data_dirs = [''/usr/share''], hook_executable = False, run_hook = (\<lambda>_. HookNotSpawned),
      readable = (\<lambda>_. True), can_write = (\<lambda>_. True), can_mkdir = (\<lambda>_. True), can_delete = (\<lambda>_. True),
      dconf_update_works = True, is_root = True, login_setting = (\<lambda>_. True), smartcard_writable = True,
      smartcard_default = ''none'', smartcard_value = ''none''\<rparr>"

definition demo_config_fs :: config_fs where
  "demo_config_fs =
     \<lparr>texts = [(''/usr/share/dconf/profile/gdm'', ''user-db:user''), (''/etc/pam.d/gdm-password'', [])],
      keyfiles = [], dirs = [''/etc''], config_log = []\<rparr>"

definition demo_options :: config_options where
  "demo_options =
     \<lparr>opt_enable = False, opt_disable = False, opt_required = False, opt_cmd_help = False, opt_verbose = True,
      opt_removal_action = None\<rparr>"

lemma demo_config_works:
  "plain_names demo_config_env" "all_works demo_config_env"
  "ght_contains (texts demo_config_fs) (GDM_DEFAULT_DCONF_PROFILE demo_config_env)"
  by (simp_all add: plain_names_def all_works_def demo_config_env_def demo_config_fs_def ght_contains_def
      GDM_DEFAULT_DCONF_PROFILE_def)

text \<open>
  C31. When the command that enables or disables a method succeeds, the setting of the greeter
  has the requested value, it is locked, the profile of the greeter names the database, and dconf was told
  to compile it; the command fails only where an operation of the system fails or the profile that is shipped
  is missing.
\<close>

theorem toggle_enforced:
  assumes "plain_names C"
  shows "case handle_toggle_command C opts c w of
      (Inr u, w') \<Rightarrow>
        enforced C (config_command_to_auth_type c) (get_requested_action opts = ACTION_ENABLED) w' \<and>
        last (config_log w') = UpdatedDconf
    | (Inl e, w') \<Rightarrow> \<not> (all_works C \<and> ght_contains (texts w) (GDM_DEFAULT_DCONF_PROFILE C))"
proof -
  obtain r w' where h: "handle_toggle_command C opts c w = (r, w')" by fastforce
  show ?thesis
  proof (cases r)
    case (Inr u)
    with h locked_setting_enforced [OF assms] show ?thesis by (simp add: handle_toggle_command_def)
  next
    case (Inl e)
    have False if "all_works C" "ght_contains (texts w) (GDM_DEFAULT_DCONF_PROFILE C)"
      using toggle_succeeds [OF that(1) succeeds_profile [OF that],
          of "config_command_to_auth_type c" "get_requested_action opts = ACTION_ENABLED"] h Inl
      by (simp add: handle_toggle_command_def succeeds_def)
    with h Inl show ?thesis by auto
  qed
qed

theorem toggle_enforced_witness:
  "enforced demo_config_env AUTH_PASSWORD True
     (snd (handle_toggle_command demo_config_env (demo_options\<lparr>opt_enable := True\<rparr>) COMMAND_PASSWORD demo_config_fs))"
proof -
  let ?o = "demo_options\<lparr>opt_enable := True\<rparr>"
  obtain r w' where h: "handle_toggle_command demo_config_env ?o COMMAND_PASSWORD demo_config_fs = (r, w')" by fastforce
  have "get_requested_action ?o = ACTION_ENABLED" by code_simp
  with toggle_enforced [OF demo_config_works(1), where w = demo_config_fs and c = COMMAND_PASSWORD and opts = ?o]
    demo_config_works(2,3) h
  show ?thesis by (cases r) simp_all
qed

text \<open>
  C32. \<^verbatim>\<open>gdm-config smartcard\<close> with \<^verbatim>\<open>--required\<close>, \<^verbatim>\<open>--enable\<close> or \<^verbatim>\<open>--disable\<close> on a system where nothing fails:
  both settings hold and are locked at the end, with passwords disabled exactly when the smart card
  is required: the second setting does not undo the first.
\<close>

theorem smartcard_enforced:
  assumes "plain_names C" "all_works C" "ght_contains (texts w) (GDM_DEFAULT_DCONF_PROFILE C)"
    and "opt_removal_action opts = None" "get_requested_action opts \<noteq> ACTION_UNSET"
  shows "\<exists>w'. handle_smartcard C opts c w = (Inr (), w') \<and>
      enforced C AUTH_SMARTCARD (get_requested_action opts \<in> {ACTION_REQUIRED, ACTION_ENABLED}) w' \<and>
      enforced C AUTH_PASSWORD (get_requested_action opts \<noteq> ACTION_REQUIRED) w'"
proof -
  let ?b1 = "get_requested_action opts = ACTION_REQUIRED \<or> get_requested_action opts = ACTION_ENABLED"
  let ?b2 = "get_requested_action opts \<noteq> ACTION_REQUIRED"
  obtain w1 where 1: "write_locked_gdm_settings_to_db C AUTH_SMARTCARD ?b1 w = (Inr (), w1)"
    using toggle_succeeds [OF assms(2) succeeds_profile [OF assms(2,3)]] unfolding succeeds_def by auto
  have e1: "enforced C AUTH_SMARTCARD ?b1 w1" using locked_setting_enforced [OF assms(1) 1] by simp
  obtain w2 where 2: "write_locked_gdm_settings_to_db C AUTH_PASSWORD ?b2 w1 = (Inr (), w2)"
    using toggle_succeeds_again [OF assms(2)] e1 unfolding succeeds_def enforced_def by fastforce
  have "enforced C AUTH_PASSWORD ?b2 w2" using locked_setting_enforced [OF assms(1) 2] by simp
  moreover have "enforced C AUTH_SMARTCARD ?b1 w2"
    using second_setting_keeps [OF e1 assms(2) _ _ _ assms(1) 2] by simp
  moreover have "handle_smartcard C opts c w = (Inr (), w2)"
    using assms(4,5) by (simp add: handle_smartcard_def Let_def bindC_def 1 2 handle_smartcard_options_def okC_def)
  ultimately show ?thesis by simp
qed

theorem smartcard_enforced_witness:
  "\<exists>w'. handle_smartcard demo_config_env (demo_options\<lparr>opt_required := True\<rparr>) COMMAND_SMARTCARD demo_config_fs
          = (Inr (), w') \<and>
      enforced demo_config_env AUTH_SMARTCARD True w' \<and> enforced demo_config_env AUTH_PASSWORD False w'"
  using smartcard_enforced [OF demo_config_works, where opts = "demo_options\<lparr>opt_required := True\<rparr>" and c = COMMAND_SMARTCARD]
  by (simp add: get_requested_action_def demo_options_def)

text \<open>
  A confirmed reset that succeeds, without a hook that stops it and with files that can be deleted, leaves
  no override, no lock and no profile of the tool for the greeter.
\<close>

theorem reset_removes_overrides:
  assumes "reset_confirmed C opts w = (Inr (), w')"
    and "fst (try_run_distro_hook C opts COMMAND_RESET None w) \<noteq> Inl IoCancelled"
    and "\<forall>p. can_delete C p"
  shows "no_overrides C w' \<and> last (config_log w') = UpdatedDconf"
proof -
  obtain v where "update_dconf C (remove_managed_files C v) = (Inr (), w')"
    using assms(1,2) unfolding reset_confirmed_def Let_def
    by (auto elim!: bindC_ok split: prod.splits sum.splits if_splits)
  from update_dconf_ok [OF this] managed_files_removed [of C v] assms(3) show ?thesis
    by (simp add: no_overrides_def is_regular_def)
qed

theorem reset_removes_overrides_witness:
  "no_overrides demo_config_env (snd (reset_confirmed demo_config_env demo_options demo_config_fs))"
proof -
  have "fst (reset_confirmed demo_config_env demo_options demo_config_fs) = Inr ()" by code_simp
  then obtain w' where w': "reset_confirmed demo_config_env demo_options demo_config_fs = (Inr (), w')"
    by (cases "reset_confirmed demo_config_env demo_options demo_config_fs") simp
  have "fst (try_run_distro_hook demo_config_env demo_options COMMAND_RESET None demo_config_fs) \<noteq> Inl IoCancelled"
    by code_simp
  moreover have "\<forall>p. can_delete demo_config_env p" by (simp add: demo_config_env_def)
  ultimately show ?thesis using reset_removes_overrides [OF w'] w' by simp
qed



text \<open>
  Without \<^verbatim>\<open>--yes\<close> the reset asks until a line is one of \<^verbatim>\<open>Y y N n\<close>, and the first such line decides.
  The end of the input is no answer: without such a line the loop never ends.
\<close>

theorem reset_without_answer:
  "handle_reset C opts answers w =
     (if get_requested_action opts = ACTION_REQUIRED then Some (reset_confirmed C opts w)
      else case find (\<lambda>a. a \<in> {''Y'', ''y'', ''N'', ''n''}) answers of
             None \<Rightarrow> None
           | Some a \<Rightarrow> Some (if a \<in> {''Y'', ''y''} then reset_confirmed C opts w else (Inl IoCancelled, w)))"
proof -
  have "confirm_reset answers =
      map_option (\<lambda>a. a \<in> {''Y'', ''y''}) (find (\<lambda>a. a \<in> {''Y'', ''y'', ''N'', ''n''}) answers)"
    by (induction answers) auto
  then show ?thesis by (auto simp: handle_reset_def split: option.splits)
qed

end
