(* ===== verification/Gdm_Client.thy ===== *)
theory Gdm_Client
  imports Gdm_Prelude
begin

text \<open>
  \<^verbatim>\<open>libgdm/gdm-client.c\<close>: the client that a greeter or a screen shield uses. It opens the private
  connection to the daemon, makes proxies for the verifier of users and for the greeter, and forgets a
  proxy when its connection closes. Objects are numbers. The callbacks that wait for an answer of the
  bus are a list, and an event delivers the answer to one of them, so that every order of the answers is a run.
\<close>

section \<open>State\<close>

type_synonym client_error = string

text \<open>Who the result of a task is for.\<close>

datatype wanted = ForVerifier | ForReauthentication | ForGreeter

datatype proxy_slot = VerifierSlot | ReauthenticationSlot | GreeterSlot

record gdm_client =
  user_verifier :: "nat option"
  user_verifier_for_reauth :: "nat option"
  greeter :: "nat option"
  enabled_extensions :: "string list option"

type_synonym client_task = "nat \<times> wanted"

record user_verifier_data =
  uvd_task :: client_task
  uvd_user_verifier :: nat

datatype pending =
    AwaitManager client_task string
  | AwaitReauthentication client_task
  | AwaitReauthenticationConnection client_task
  | AwaitConnection client_task "client_error + nat"
  | AwaitVerifierProxy client_task nat
  | AwaitGreeterProxy client_task nat
  | AwaitExtensions nat
  | AwaitChoiceList nat
  | AwaitCustomJson nat

text \<open>
  The world of the client: the connection of every proxy, the connections that are closed, the handlers of the
  signal \<^verbatim>\<open>closed\<close>, the tables of extensions that are attached to verifiers, the data of operations that are under
  way, the waiting callbacks, the results of tasks and the greeters that were asked for a timed login.
\<close>

record client_world =
  client :: gdm_client
  proxy_connections :: "(nat, nat) ghash"
  closed_connections :: "nat list"
  closed_handlers :: "(nat \<times> proxy_slot) list"
  extension_tables :: "(nat, (string, nat option) ghash) ghash"
  verifier_datas :: "(nat, user_verifier_data) ghash"
  pendings :: "pending list"
  returned :: "(client_task \<times> (client_error + nat)) list"
  timed_login_queries :: "nat list"
  next_object :: nat

text \<open>The answers of the bus to the synchronous calls; \<open>None\<close> is success.\<close>

record client_bus =
  manager_fails :: "client_error option"
  open_fails :: "client_error option"
  connect_fails :: "client_error option"
  proxy_fails :: "client_error option"
  enable_fails :: bool
  choice_list_fails :: bool
  custom_json_fails :: bool

definition CHOICE_LIST :: string where
  "CHOICE_LIST = ''org.gnome.DisplayManager.UserVerifier.ChoiceList''"

definition CUSTOM_JSON :: string where
  "CUSTOM_JSON = ''org.gnome.DisplayManager.UserVerifier.CustomJSON''"

definition freed_data :: string where
  "freed_data = ''use of freed verifier data''"

definition null_extensions :: string where
  "null_extensions = ''NULL list of extensions''"

section \<open>Objects and proxies\<close>

definition proxy_connection :: "client_world \<Rightarrow> nat \<Rightarrow> nat" where
  "proxy_connection w p = (case ght_lookup (proxy_connections w) p of None \<Rightarrow> 0 | Some c \<Rightarrow> c)"

definition new_object :: "client_world \<Rightarrow> nat \<times> client_world" where
  "new_object w = (next_object w, w\<lparr>next_object := Suc (next_object w)\<rparr>)"

definition make_proxy :: "nat \<Rightarrow> client_world \<Rightarrow> nat \<times> client_world" where
  "make_proxy c w =
     (let (p, w) = new_object w in (p, w\<lparr>proxy_connections := ght_insert p c (proxy_connections w)\<rparr>))"

fun get_slot :: "proxy_slot \<Rightarrow> gdm_client \<Rightarrow> nat option" where
  "get_slot VerifierSlot c = user_verifier c"
| "get_slot ReauthenticationSlot c = user_verifier_for_reauth c"
| "get_slot GreeterSlot c = greeter c"

fun set_slot :: "proxy_slot \<Rightarrow> nat option \<Rightarrow> gdm_client \<Rightarrow> gdm_client" where
  "set_slot VerifierSlot p c = c\<lparr>user_verifier := p\<rparr>"
| "set_slot ReauthenticationSlot p c = c\<lparr>user_verifier_for_reauth := p\<rparr>"
| "set_slot GreeterSlot p c = c\<lparr>greeter := p\<rparr>"

definition untrack_proxy :: "proxy_slot \<Rightarrow> client_world \<Rightarrow> client_world" where
  "untrack_proxy s w =
     (case get_slot s (client w) of
        None \<Rightarrow> w
      | Some p \<Rightarrow>
          w\<lparr>closed_handlers := filter (\<lambda>h. h \<noteq> (proxy_connection w p, s)) (closed_handlers w),
            client := set_slot s None (client w)\<rparr>)"

definition track_proxy :: "proxy_slot \<Rightarrow> nat option \<Rightarrow> client_world \<Rightarrow> client_world" where
  "track_proxy s new_proxy w =
     (let w = untrack_proxy s w
      in case new_proxy of
           None \<Rightarrow> w
         | Some p \<Rightarrow>
             w\<lparr>client := set_slot s (Some p) (client w),
               closed_handlers := closed_handlers w @ [(proxy_connection w p, s)]\<rparr>)"

text \<open>The handlers of a connection that closes run one after the other.\<close>

definition connection_closed :: "nat \<Rightarrow> client_world \<Rightarrow> client_world" where
  "connection_closed c w =
     fold (\<lambda>h. untrack_proxy (snd h)) (filter (\<lambda>h. fst h = c) (closed_handlers w))
       (w\<lparr>closed_connections := c # closed_connections w\<rparr>)"

section \<open>Connections\<close>

definition gdm_client_get_open_connection :: "client_world \<Rightarrow> nat option" where
  "gdm_client_get_open_connection w =
     (case (case user_verifier (client w) of Some p \<Rightarrow> Some p | None \<Rightarrow> greeter (client w)) of
        None \<Rightarrow> None
      | Some p \<Rightarrow>
          let c = proxy_connection w p in if c \<in> set (closed_connections w) then None else Some c)"

definition open_channel :: "client_bus \<Rightarrow> client_world \<Rightarrow> (client_error + nat) \<times> client_world" where
  "open_channel B w =
     (case manager_fails B of
        Some e \<Rightarrow> (Inl e, w)
      | None \<Rightarrow>
          (case open_fails B of
             Some e \<Rightarrow> (Inl e, w)
           | None \<Rightarrow>
               (case connect_fails B of
                  Some e \<Rightarrow> (Inl e, w)
                | None \<Rightarrow> let (c, w) = new_object w in (Inr c, w))))"

definition gdm_client_get_connection_sync :: "client_bus \<Rightarrow> client_world \<Rightarrow> (client_error + nat) \<times> client_world" where
  "gdm_client_get_connection_sync B w =
     (case gdm_client_get_open_connection w of
        Some c \<Rightarrow> (Inr c, w)
      | None \<Rightarrow> open_channel B w)"

definition await :: "pending \<Rightarrow> client_world \<Rightarrow> client_world" where
  "await p w = w\<lparr>pendings := pendings w @ [p]\<rparr>"

text \<open>The task of the connection hands its result to \<^verbatim>\<open>on_connection_for_\<close> the caller later.\<close>

definition gdm_client_get_connection :: "client_bus \<Rightarrow> client_task \<Rightarrow> client_world \<Rightarrow> client_world" where
  "gdm_client_get_connection B t w =
     (let (r, w) = gdm_client_get_connection_sync B w in await (AwaitConnection t r) w)"

section \<open>The verifier and its extensions\<close>

definition g_task_return :: "client_task \<Rightarrow> client_error + nat \<Rightarrow> client_world \<Rightarrow> client_world" where
  "g_task_return t r w = w\<lparr>returned := returned w @ [(t, r)]\<rparr>"

definition user_verifier_data_new :: "client_task \<Rightarrow> nat \<Rightarrow> client_world \<Rightarrow> nat \<times> client_world" where
  "user_verifier_data_new t v w =
     (let (d, w) = new_object w
      in (d, w\<lparr>verifier_datas := ght_insert d \<lparr>uvd_task = t, uvd_user_verifier = v\<rparr> (verifier_datas w)\<rparr>))"

definition user_verifier_data_free :: "nat \<Rightarrow> client_world \<Rightarrow> client_world" where
  "user_verifier_data_free d w = w\<lparr>verifier_datas := ght_remove d (verifier_datas w)\<rparr>"

definition with_data :: "nat \<Rightarrow> (user_verifier_data \<Rightarrow> client_world \<Rightarrow> client_world run) \<Rightarrow> client_world \<Rightarrow> client_world run" where
  "with_data d f w = (case ght_lookup (verifier_datas w) d of None \<Rightarrow> Stop freed_data | Some u \<Rightarrow> f u w)"

definition complete_user_verifier_proxy_operation :: "nat \<Rightarrow> client_world \<Rightarrow> client_world run" where
  "complete_user_verifier_proxy_operation d =
     with_data d (\<lambda>u w. Ret (user_verifier_data_free d (g_task_return (uvd_task u) (Inr (uvd_user_verifier u)) w)))"

definition maybe_complete_user_verifier_proxy_operation :: "nat \<Rightarrow> client_world \<Rightarrow> client_world run" where
  "maybe_complete_user_verifier_proxy_operation d =
     with_data d (\<lambda>u w.
       case ght_lookup (extension_tables w) (uvd_user_verifier u) of
         Some t \<Rightarrow> if list_ex (\<lambda>(k, v). v = None) t then Ret w else complete_user_verifier_proxy_operation d w
       | None \<Rightarrow> complete_user_verifier_proxy_operation d w)"

definition change_table ::
  "nat \<Rightarrow> ((string, nat option) ghash \<Rightarrow> (string, nat option) ghash) \<Rightarrow> client_world \<Rightarrow> client_world" where
  "change_table v f w =
     (case ght_lookup (extension_tables w) v of
        None \<Rightarrow> w
      | Some t \<Rightarrow> w\<lparr>extension_tables := ght_insert v (f t) (extension_tables w)\<rparr>)"

definition extension_proxy_created :: "string \<Rightarrow> nat \<Rightarrow> client_error option \<Rightarrow> client_world \<Rightarrow> client_world run" where
  "extension_proxy_created name d fails =
     with_data d (\<lambda>u w.
       let v = uvd_user_verifier u
       in case fails of
            Some e \<Rightarrow> maybe_complete_user_verifier_proxy_operation d (change_table v (ght_remove name) w)
          | None \<Rightarrow>
              let (p, w) = make_proxy (proxy_connection w v) w
              in maybe_complete_user_verifier_proxy_operation d (change_table v (ght_insert name (Some p)) w))"

definition on_user_verifier_choice_list_proxy_created ::
  "nat \<Rightarrow> client_error option \<Rightarrow> client_world \<Rightarrow> client_world run" where
  "on_user_verifier_choice_list_proxy_created = extension_proxy_created CHOICE_LIST"

definition on_user_verifier_custom_json_proxy_created ::
  "nat \<Rightarrow> client_error option \<Rightarrow> client_world \<Rightarrow> client_world run" where
  "on_user_verifier_custom_json_proxy_created = extension_proxy_created CUSTOM_JSON"

text \<open>The loop over the extensions: the table and the calls that it starts.\<close>

fun enable_loop :: "nat \<Rightarrow> string list \<Rightarrow> (string, nat option) ghash \<Rightarrow> (string, nat option) ghash \<times> pending list" where
  "enable_loop d [] t = (t, [])"
| "enable_loop d (e # es) t =
     (let t = ght_insert e None t
      in if e = CHOICE_LIST
         then let (t, calls) = enable_loop d es (ght_insert e None t) in (t, AwaitChoiceList d # calls)
         else if e = CUSTOM_JSON
         then let (t, calls) = enable_loop d es (ght_insert e None t) in (t, AwaitCustomJson d # calls)
         else enable_loop d es (ght_remove e t))"

definition on_user_verifier_extensions_enabled ::
  "nat \<Rightarrow> client_error option \<Rightarrow> client_world \<Rightarrow> client_world run" where
  "on_user_verifier_extensions_enabled d fails =
     with_data d (\<lambda>u w.
       case fails of
         Some e \<Rightarrow> complete_user_verifier_proxy_operation d w
       | None \<Rightarrow>
           (case enabled_extensions (client w) of
              None \<Rightarrow> Stop null_extensions
            | Some es \<Rightarrow>
                let v = uvd_user_verifier u;
                    table = ght_lookup (extension_tables w) v;
                    (t, calls) = enable_loop d es (case table of None \<Rightarrow> [] | Some t \<Rightarrow> t);
                    w = change_table v (\<lambda>_. t) w;
                    w = w\<lparr>pendings := pendings w @ calls\<rparr>
                in if table = None \<or> t = [] then complete_user_verifier_proxy_operation d w else Ret w))"

definition on_user_verifier_proxy_created ::
  "client_task \<Rightarrow> nat \<Rightarrow> client_error option \<Rightarrow> client_world \<Rightarrow> client_world" where
  "on_user_verifier_proxy_created t c fails w =
     (case fails of
        Some e \<Rightarrow> g_task_return t (Inl e) w
      | None \<Rightarrow>
          let (v, w) = make_proxy c w
          in if enabled_extensions (client w) = None then g_task_return t (Inr v) w
             else
               let w = w\<lparr>extension_tables := ght_insert v [] (extension_tables w)\<rparr>;
                   (d, w) = user_verifier_data_new t v w
               in await (AwaitExtensions d) w)"

section \<open>Reauthentication\<close>

definition on_reauthentication_channel_connected ::
  "client_task \<Rightarrow> client_error option \<Rightarrow> client_world \<Rightarrow> client_world" where
  "on_reauthentication_channel_connected t fails w =
     (case fails of
        Some e \<Rightarrow> g_task_return t (Inl e) w
      | None \<Rightarrow> let (c, w) = new_object w in await (AwaitVerifierProxy t c) w)"

definition on_reauthentication_channel_opened ::
  "client_task \<Rightarrow> client_error option \<Rightarrow> client_world \<Rightarrow> client_world" where
  "on_reauthentication_channel_opened t fails w =
     (case fails of
        Some e \<Rightarrow> g_task_return t (Inl e) w
      | None \<Rightarrow> await (AwaitReauthenticationConnection t) w)"

definition on_got_manager_for_reauthentication ::
  "client_task \<Rightarrow> client_error option \<Rightarrow> client_world \<Rightarrow> client_world" where
  "on_got_manager_for_reauthentication t fails w =
     (case fails of
        Some e \<Rightarrow> g_task_return t (Inl e) w
      | None \<Rightarrow> await (AwaitReauthentication t) w)"

definition gdm_client_open_reauthentication_channel :: "string \<Rightarrow> client_world \<Rightarrow> nat \<times> client_world" where
  "gdm_client_open_reauthentication_channel user w =
     (let (t, w) = new_object w in (t, await (AwaitManager (t, ForReauthentication) user) w))"

definition gdm_client_open_reauthentication_channel_finish ::
  "client_error + nat \<Rightarrow> client_world \<Rightarrow> nat option \<times> client_world" where
  "gdm_client_open_reauthentication_channel_finish r w =
     (let p = (case r of Inl e \<Rightarrow> None | Inr p \<Rightarrow> Some p) in (p, track_proxy ReauthenticationSlot p w))"

definition gdm_client_open_reauthentication_channel_sync ::
  "client_bus \<Rightarrow> client_world \<Rightarrow> nat option \<times> client_world" where
  "gdm_client_open_reauthentication_channel_sync B w =
     (case open_channel B w of
        (Inl e, w) \<Rightarrow> (None, w)
      | (Inr c, w) \<Rightarrow>
          (case proxy_fails B of
             Some e \<Rightarrow> (None, track_proxy ReauthenticationSlot None w)
           | None \<Rightarrow> let (p, w) = make_proxy c w in (Some p, track_proxy ReauthenticationSlot (Some p) w)))"

section \<open>The interface for verifiers\<close>

text \<open>The loop of the synchronous variant.\<close>

fun sync_extensions ::
  "client_bus \<Rightarrow> nat \<Rightarrow> string list \<Rightarrow> (string, nat option) ghash \<Rightarrow> client_world \<Rightarrow>
     (string, nat option) ghash \<times> client_world" where
  "sync_extensions B c [] t w = (t, w)"
| "sync_extensions B c (e # es) t w =
     (if e = CHOICE_LIST \<and> \<not> choice_list_fails B \<or> e = CUSTOM_JSON \<and> \<not> custom_json_fails B
      then let (p, w) = make_proxy c w in sync_extensions B c es (ght_insert e (Some p) t) w
      else sync_extensions B c es t w)"

definition gdm_client_get_user_verifier_sync :: "client_bus \<Rightarrow> client_world \<Rightarrow> nat option \<times> client_world" where
  "gdm_client_get_user_verifier_sync B w =
     (case user_verifier (client w) of
        Some p \<Rightarrow> (Some p, w)
      | None \<Rightarrow>
          (case gdm_client_get_connection_sync B w of
             (Inl e, w) \<Rightarrow> (None, w)
           | (Inr c, w) \<Rightarrow>
               (case proxy_fails B of
                  Some e \<Rightarrow> (None, track_proxy VerifierSlot None w)
                | None \<Rightarrow>
                    let (v, w) = make_proxy c w;
                        w = track_proxy VerifierSlot (Some v) w
                    in (Some v,
                        case enabled_extensions (client w) of
                          None \<Rightarrow> w
                        | Some es \<Rightarrow>
                            let w = w\<lparr>extension_tables := ght_insert v [] (extension_tables w)\<rparr>
                            in if enable_fails B then w
                               else let (t, w) = sync_extensions B c es [] w
                                    in change_table v (\<lambda>_. t) w))))"

definition on_connection_for_user_verifier :: "client_task \<Rightarrow> client_error + nat \<Rightarrow> client_world \<Rightarrow> client_world" where
  "on_connection_for_user_verifier t r w =
     (case r of Inl e \<Rightarrow> g_task_return t (Inl e) w | Inr c \<Rightarrow> await (AwaitVerifierProxy t c) w)"

definition gdm_client_get_user_verifier :: "client_bus \<Rightarrow> client_world \<Rightarrow> nat \<times> client_world" where
  "gdm_client_get_user_verifier B w =
     (let (t, w) = new_object w
      in (t, case user_verifier (client w) of
               Some p \<Rightarrow> g_task_return (t, ForVerifier) (Inr p) w
             | None \<Rightarrow> gdm_client_get_connection B (t, ForVerifier) w))"

definition gdm_client_get_user_verifier_finish ::
  "client_error + nat \<Rightarrow> client_world \<Rightarrow> nat option \<times> client_world" where
  "gdm_client_get_user_verifier_finish r w =
     (case user_verifier (client w) of
        Some p \<Rightarrow> (Some p, w)
      | None \<Rightarrow>
          (case r of Inl e \<Rightarrow> (None, w) | Inr p \<Rightarrow> (Some p, track_proxy VerifierSlot (Some p) w)))"

definition get_user_verifier_extensions :: "client_world \<Rightarrow> (string, nat option) ghash option" where
  "get_user_verifier_extensions w =
     (let table = (\<lambda>s. case get_slot s (client w) of None \<Rightarrow> None | Some p \<Rightarrow> ght_lookup (extension_tables w) p)
      in case table ReauthenticationSlot of None \<Rightarrow> table VerifierSlot | Some t \<Rightarrow> Some t)"

text \<open>A lookup in a table that is \<^verbatim>\<open>NULL\<close> finds nothing; a value that is \<^verbatim>\<open>NULL\<close> is not found either.\<close>

definition lookup_extension :: "string \<Rightarrow> (string, nat option) ghash option \<Rightarrow> nat option" where
  "lookup_extension name table =
     (case table of None \<Rightarrow> None | Some t \<Rightarrow> (case ght_lookup t name of None \<Rightarrow> None | Some p \<Rightarrow> p))"

definition gdm_client_get_user_verifier_choice_list :: "client_world \<Rightarrow> nat option" where
  "gdm_client_get_user_verifier_choice_list w =
     (let table = get_user_verifier_extensions w;
          table = (case user_verifier_for_reauth (client w) of
                     None \<Rightarrow> table
                   | Some p \<Rightarrow> ght_lookup (extension_tables w) p);
          table = (case (table, user_verifier (client w)) of
                     (None, Some p) \<Rightarrow> ght_lookup (extension_tables w) p
                   | _ \<Rightarrow> table)
      in lookup_extension CHOICE_LIST table)"

definition gdm_client_get_user_verifier_custom_json :: "client_world \<Rightarrow> nat option" where
  "gdm_client_get_user_verifier_custom_json w = lookup_extension CUSTOM_JSON (get_user_verifier_extensions w)"

section \<open>The interface for greeters\<close>

definition query_for_timed_login_requested_signal :: "nat \<Rightarrow> client_world \<Rightarrow> client_world" where
  "query_for_timed_login_requested_signal p w = w\<lparr>timed_login_queries := timed_login_queries w @ [p]\<rparr>"

definition on_greeter_proxy_created ::
  "client_task \<Rightarrow> nat \<Rightarrow> client_error option \<Rightarrow> client_world \<Rightarrow> client_world" where
  "on_greeter_proxy_created t c fails w =
     (case fails of
        Some e \<Rightarrow> g_task_return t (Inl e) w
      | None \<Rightarrow>
          let (p, w) = make_proxy c w
          in query_for_timed_login_requested_signal p (g_task_return t (Inr p) w))"

definition on_connection_for_greeter :: "client_task \<Rightarrow> client_error + nat \<Rightarrow> client_world \<Rightarrow> client_world" where
  "on_connection_for_greeter t r w =
     (case r of Inl e \<Rightarrow> g_task_return t (Inl e) w | Inr c \<Rightarrow> await (AwaitGreeterProxy t c) w)"

definition gdm_client_get_greeter :: "client_bus \<Rightarrow> client_world \<Rightarrow> nat \<times> client_world" where
  "gdm_client_get_greeter B w =
     (let (t, w) = new_object w
      in (t, case greeter (client w) of
               Some p \<Rightarrow> g_task_return (t, ForGreeter) (Inr p) w
             | None \<Rightarrow> gdm_client_get_connection B (t, ForGreeter) w))"

definition gdm_client_get_greeter_finish :: "client_error + nat \<Rightarrow> client_world \<Rightarrow> nat option \<times> client_world" where
  "gdm_client_get_greeter_finish r w =
     (case greeter (client w) of
        Some p \<Rightarrow> (Some p, w)
      | None \<Rightarrow>
          (case r of Inl e \<Rightarrow> (None, w) | Inr p \<Rightarrow> (Some p, track_proxy GreeterSlot (Some p) w)))"

definition gdm_client_get_greeter_sync :: "client_bus \<Rightarrow> client_world \<Rightarrow> nat option \<times> client_world" where
  "gdm_client_get_greeter_sync B w =
     (case greeter (client w) of
        Some p \<Rightarrow> (Some p, w)
      | None \<Rightarrow>
          (case gdm_client_get_connection_sync B w of
             (Inl e, w) \<Rightarrow> (None, w)
           | (Inr c, w) \<Rightarrow>
               (case proxy_fails B of
                  Some e \<Rightarrow> (None, track_proxy GreeterSlot None w)
                | None \<Rightarrow>
                    let (p, w) = make_proxy c w
                    in (Some p, query_for_timed_login_requested_signal p (track_proxy GreeterSlot (Some p) w)))))"

section \<open>The client object\<close>

definition gdm_client_set_enabled_extensions :: "string list option \<Rightarrow> client_world \<Rightarrow> client_world" where
  "gdm_client_set_enabled_extensions es w = w\<lparr>client := (client w)\<lparr>enabled_extensions := es\<rparr>\<rparr>"

definition gdm_client_get_enabled_extensions :: "client_world \<Rightarrow> string list option" where
  "gdm_client_get_enabled_extensions w = enabled_extensions (client w)"

definition gdm_client_dispose :: "client_world \<Rightarrow> client_world" where
  "gdm_client_dispose w =
     untrack_proxy GreeterSlot (untrack_proxy ReauthenticationSlot (untrack_proxy VerifierSlot w))"

definition gdm_client_new :: client_world where
  "gdm_client_new =
     \<lparr>client = \<lparr>user_verifier = None, user_verifier_for_reauth = None, greeter = None, enabled_extensions = None\<rparr>,
      proxy_connections = [], closed_connections = [], closed_handlers = [], extension_tables = [],
      verifier_datas = [], pendings = [], returned = [], timed_login_queries = [], next_object = 1\<rparr>"

section \<open>Runs\<close>

text \<open>The callback that waits gets its answer.\<close>

fun run_callback :: "pending \<Rightarrow> client_error option \<Rightarrow> client_world \<Rightarrow> client_world run" where
  "run_callback (AwaitManager t user) fails w = Ret (on_got_manager_for_reauthentication t fails w)"
| "run_callback (AwaitReauthentication t) fails w = Ret (on_reauthentication_channel_opened t fails w)"
| "run_callback (AwaitReauthenticationConnection t) fails w = Ret (on_reauthentication_channel_connected t fails w)"
| "run_callback (AwaitConnection t r) fails w =
     Ret (if snd t = ForGreeter then on_connection_for_greeter t r w else on_connection_for_user_verifier t r w)"
| "run_callback (AwaitVerifierProxy t c) fails w = Ret (on_user_verifier_proxy_created t c fails w)"
| "run_callback (AwaitGreeterProxy t c) fails w = Ret (on_greeter_proxy_created t c fails w)"
| "run_callback (AwaitExtensions d) fails w = on_user_verifier_extensions_enabled d fails w"
| "run_callback (AwaitChoiceList d) fails w = on_user_verifier_choice_list_proxy_created d fails w"
| "run_callback (AwaitCustomJson d) fails w = on_user_verifier_custom_json_proxy_created d fails w"

definition deliver :: "nat \<Rightarrow> client_error option \<Rightarrow> client_world \<Rightarrow> client_world run" where
  "deliver i fails w =
     (if i < length (pendings w)
      then run_callback (pendings w ! i) fails (w\<lparr>pendings := take i (pendings w) @ drop (Suc i) (pendings w)\<rparr>)
      else Ret w)"

definition finish :: "nat \<Rightarrow> client_world \<Rightarrow> client_world" where
  "finish i w =
     (if i < length (returned w)
      then let (t, r) = returned w ! i
           in snd (case snd t of
                     ForVerifier \<Rightarrow> gdm_client_get_user_verifier_finish r w
                   | ForReauthentication \<Rightarrow> gdm_client_open_reauthentication_channel_finish r w
                   | ForGreeter \<Rightarrow> gdm_client_get_greeter_finish r w)
      else w)"

datatype client_event =
    GetUserVerifier client_bus
  | GetUserVerifierSync client_bus
  | GetGreeter client_bus
  | GetGreeterSync client_bus
  | OpenReauthenticationChannel string
  | OpenReauthenticationChannelSync client_bus
  | SetEnabledExtensions "string list option"
  | Deliver nat "client_error option"
  | Finish nat
  | ConnectionClosed nat

fun client_step :: "client_event \<Rightarrow> client_world \<Rightarrow> client_world run" where
  "client_step (GetUserVerifier B) w = Ret (snd (gdm_client_get_user_verifier B w))"
| "client_step (GetUserVerifierSync B) w = Ret (snd (gdm_client_get_user_verifier_sync B w))"
| "client_step (GetGreeter B) w = Ret (snd (gdm_client_get_greeter B w))"
| "client_step (GetGreeterSync B) w = Ret (snd (gdm_client_get_greeter_sync B w))"
| "client_step (OpenReauthenticationChannel user) w = Ret (snd (gdm_client_open_reauthentication_channel user w))"
| "client_step (OpenReauthenticationChannelSync B) w = Ret (snd (gdm_client_open_reauthentication_channel_sync B w))"
| "client_step (SetEnabledExtensions es) w = Ret (gdm_client_set_enabled_extensions es w)"
| "client_step (Deliver i fails) w = deliver i fails w"
| "client_step (Finish i) w = Ret (finish i w)"
| "client_step (ConnectionClosed c) w = Ret (connection_closed c w)"

end
