(* ===== verification/Gdm_Client_Safety.thy ===== *)
theory Gdm_Client_Safety
  imports Gdm_Client "HOL-Library.Multiset"
begin

text \<open>
  What every run of the client keeps: a proxy is kept exactly while its handler watches its connection, and
  every task that was started is under way at exactly one place or has returned once.
\<close>

section \<open>Numbers of objects\<close>

fun task_of :: "pending \<Rightarrow> client_task option" where
  "task_of (AwaitManager t user) = Some t"
| "task_of (AwaitReauthentication t) = Some t"
| "task_of (AwaitReauthenticationConnection t) = Some t"
| "task_of (AwaitConnection t r) = Some t"
| "task_of (AwaitVerifierProxy t c) = Some t"
| "task_of (AwaitGreeterProxy t c) = Some t"
| "task_of _ = None"

fun data_of :: "pending \<Rightarrow> nat option" where
  "data_of (AwaitExtensions d) = Some d"
| "data_of (AwaitChoiceList d) = Some d"
| "data_of (AwaitCustomJson d) = Some d"
| "data_of _ = None"

text \<open>Every number that is in use is one that was given out.\<close>

definition given_out :: "client_world \<Rightarrow> bool" where
  "given_out w \<longleftrightarrow>
     (\<forall>p \<in> set (pendings w). \<forall>t. task_of p = Some t \<longrightarrow> fst t < next_object w) \<and>
     (\<forall>d u. (d, u) \<in> set (verifier_datas w) \<longrightarrow>
        d < next_object w \<and> fst (uvd_task u) < next_object w \<and> uvd_user_verifier u < next_object w) \<and>
     (\<forall>t r. (t, r) \<in> set (returned w) \<longrightarrow> fst t < next_object w \<and> (\<forall>p. r = Inr p \<longrightarrow> p < next_object w)) \<and>
     (\<forall>s p. get_slot s (client w) = Some p \<longrightarrow> p < next_object w)"

text \<open>
  The handlers are those of the proxies that are kept.
\<close>

definition tracked :: "client_world \<Rightarrow> bool" where
  "tracked w \<longleftrightarrow>
     (\<forall>s. filter (\<lambda>h. snd h = s) (closed_handlers w) =
            (case get_slot s (client w) of None \<Rightarrow> [] | Some p \<Rightarrow> [(proxy_connection w p, s)]))"

lemma get_set_slot: "get_slot s (set_slot s' p c) = (if s = s' then p else get_slot s c)"
  by (cases s; cases s') simp_all

lemma tracked_untrack:
  assumes "tracked w"
  shows "tracked (untrack_proxy s w)"
    and "get_slot s' (client (untrack_proxy s w)) = (if s' = s then None else get_slot s' (client w))"
proof -
  have t: "filter (\<lambda>h. snd h = s') (closed_handlers w) =
      (case get_slot s' (client w) of None \<Rightarrow> [] | Some p \<Rightarrow> [(proxy_connection w p, s')])" for s'
    using assms by (simp add: tracked_def)
  show "get_slot s' (client (untrack_proxy s w)) = (if s' = s then None else get_slot s' (client w))"
    by (simp add: untrack_proxy_def get_set_slot split: option.splits)
  show "tracked (untrack_proxy s w)"
  proof (cases "get_slot s (client w)")
    case None
    then show ?thesis using assms by (simp add: untrack_proxy_def)
  next
    case (Some p)
    let ?h = "(proxy_connection w p, s)"
    have "filter (\<lambda>h. snd h = s') (filter (\<lambda>h. h \<noteq> ?h) (closed_handlers w)) =
        filter (\<lambda>h. h \<noteq> ?h) (filter (\<lambda>h. snd h = s') (closed_handlers w))" for s'
      by (simp add: conj_commute)
    then show ?thesis
      using Some by (auto simp: tracked_def untrack_proxy_def get_set_slot t proxy_connection_def split: option.splits)
  qed
qed

lemma proxy_connection_untrack [simp]: "proxy_connection (untrack_proxy s w) p = proxy_connection w p"
  by (simp add: untrack_proxy_def proxy_connection_def split: option.splits)

lemma tracked_track:
  assumes "tracked w"
  shows "tracked (track_proxy s p w)"
proof -
  have u: "tracked (untrack_proxy s w)" and n: "get_slot s (client (untrack_proxy s w)) = None"
    using tracked_untrack [OF assms, of s] by simp_all
  show ?thesis
  proof (cases p)
    case (Some q)
    have "filter (\<lambda>h. snd h = s) (closed_handlers (untrack_proxy s w)) = []"
      using u n unfolding tracked_def by (metis option.case(1))
    with u Some show ?thesis
      by (auto simp: tracked_def track_proxy_def Let_def get_set_slot proxy_connection_def split: option.splits)
  qed (use u in \<open>simp add: track_proxy_def Let_def\<close>)
qed

text \<open>Operations that leave the proxies that are kept alone.\<close>

definition same_slots :: "client_world \<Rightarrow> client_world \<Rightarrow> bool" where
  "same_slots w w' \<longleftrightarrow>
     closed_handlers w' = closed_handlers w \<and> (\<forall>s. get_slot s (client w') = get_slot s (client w)) \<and>
     (\<forall>p < next_object w. proxy_connection w' p = proxy_connection w p) \<and> next_object w \<le> next_object w'"

lemma tracked_same_slots:
  "tracked w \<Longrightarrow> given_out w \<Longrightarrow> same_slots w w' \<Longrightarrow> tracked w'"
  by (fastforce simp: tracked_def same_slots_def given_out_def split: option.splits)

lemma same_slots_refl: "same_slots w w"
  by (simp add: same_slots_def)

lemma same_slots_trans: "same_slots u v \<Longrightarrow> same_slots v w \<Longrightarrow> same_slots u w"
  by (simp add: same_slots_def)

text \<open>The small steps. A task, a proxy or a connection that is handed on has a number that was given out.\<close>

definition sound :: "client_world \<Rightarrow> bool" where
  "sound w \<longleftrightarrow> tracked w \<and> given_out w"

lemma sound_same_slots: "sound w \<Longrightarrow> same_slots w w' \<Longrightarrow> given_out w' \<Longrightarrow> sound w'"
  unfolding sound_def using tracked_same_slots by blast

lemma sound_new_object:
  assumes "sound w" "new_object w = (n, w')"
  shows "sound w' \<and> n < next_object w' \<and> next_object w \<le> next_object w'"
proof -
  have w': "w' = w\<lparr>next_object := Suc (next_object w)\<rparr>" "n = next_object w"
    using assms(2) by (auto simp: new_object_def)
  have "given_out w'" using assms(1) by (auto simp: sound_def given_out_def w' less_Suc_eq)
  moreover have "same_slots w w'" by (simp add: w' same_slots_def proxy_connection_def)
  ultimately show ?thesis using sound_same_slots [OF assms(1)] by (simp add: w')
qed

lemma sound_make_proxy:
  assumes "sound w" "make_proxy c w = (n, w')"
  shows "sound w' \<and> n < next_object w' \<and> next_object w \<le> next_object w'"
proof -
  obtain v where v: "new_object w = (n, v)" "w' = v\<lparr>proxy_connections := ght_insert n c (proxy_connections v)\<rparr>"
    using assms(2) by (auto simp: make_proxy_def split: prod.splits)
  have n: "n = next_object w" "v = w\<lparr>next_object := Suc (next_object w)\<rparr>"
    using v(1) by (auto simp: new_object_def)
  have "given_out w'"
    using sound_new_object [OF assms(1) v(1)] v(2) by (simp add: sound_def given_out_def)
  moreover have "same_slots w w'"
    by (simp add: v(2) n same_slots_def proxy_connection_def ght_lookup_insert)
  ultimately show ?thesis using sound_same_slots [OF assms(1)] by (simp add: v(2) n)
qed

lemma sound_await:
  "sound w \<Longrightarrow> (\<And>t. task_of p = Some t \<Longrightarrow> fst t < next_object w) \<Longrightarrow> sound (await p w)"
  by (rule sound_same_slots [of w])
     (auto simp: await_def same_slots_def proxy_connection_def sound_def given_out_def)

lemma sound_return:
  "sound w \<Longrightarrow> fst t < next_object w \<Longrightarrow> (\<And>p. r = Inr p \<Longrightarrow> p < next_object w) \<Longrightarrow>
     sound (g_task_return t r w)"
  by (rule sound_same_slots [of w])
     (auto simp: g_task_return_def same_slots_def proxy_connection_def sound_def given_out_def)

lemma sound_tables: "sound w \<Longrightarrow> sound (w\<lparr>extension_tables := T\<rparr>)"
  by (rule sound_same_slots [of w]) (simp_all add: same_slots_def proxy_connection_def sound_def given_out_def)

lemma sound_pendings:
  "sound w \<Longrightarrow> \<forall>p \<in> set ps. p \<in> set (pendings w) \<or> task_of p = None \<Longrightarrow> sound (w\<lparr>pendings := ps\<rparr>)"
  by (rule sound_same_slots [of w])
     (auto simp: same_slots_def proxy_connection_def sound_def given_out_def split: option.splits)

lemma sound_queries: "sound w \<Longrightarrow> sound (w\<lparr>timed_login_queries := qs\<rparr>)"
  by (rule sound_same_slots [of w]) (simp_all add: same_slots_def proxy_connection_def sound_def given_out_def)

lemma sound_extensions: "sound w \<Longrightarrow> sound (gdm_client_set_enabled_extensions es w)"
proof (rule sound_same_slots [of w])
  have "get_slot s (client (gdm_client_set_enabled_extensions es w)) = get_slot s (client w)" for s
    by (cases s) (simp_all add: gdm_client_set_enabled_extensions_def)
  then show "same_slots w (gdm_client_set_enabled_extensions es w)" "sound w \<Longrightarrow> given_out (gdm_client_set_enabled_extensions es w)"
    by (simp_all add: same_slots_def sound_def given_out_def)
       (simp_all add: gdm_client_set_enabled_extensions_def proxy_connection_def)
qed

lemma sound_track:
  assumes "sound w" "\<And>q. p = Some q \<Longrightarrow> q < next_object w"
  shows "sound (track_proxy s p w)"
proof -
  have "next_object (track_proxy s p w) = next_object w" "pendings (track_proxy s p w) = pendings w"
      "verifier_datas (track_proxy s p w) = verifier_datas w" "returned (track_proxy s p w) = returned w"
    by (simp_all add: track_proxy_def untrack_proxy_def Let_def split: option.splits)
  moreover have "get_slot s' (client (track_proxy s p w)) = (if s' = s then p else get_slot s' (client w))" for s'
    using assms(1) tracked_untrack(2) [of w s' s]
    by (auto simp: sound_def track_proxy_def Let_def get_set_slot split: option.splits if_splits)
  ultimately have "given_out (track_proxy s p w)" using assms by (simp add: sound_def given_out_def)
  then show ?thesis using assms(1) by (simp add: sound_def tracked_track)
qed

lemma sound_untrack: "sound w \<Longrightarrow> sound (untrack_proxy s w)"
  using sound_track [of w None s] by (simp add: track_proxy_def Let_def)

section \<open>Every step keeps the proxies tracked\<close>

lemma sound_get_connection_sync:
  assumes "sound w" "gdm_client_get_connection_sync B w = (r, w')"
  shows "sound w' \<and> next_object w \<le> next_object w'"
proof -
  have "sound v' \<and> next_object v \<le> next_object v'" if "sound v" "open_channel B v = (q, v')" for v v' q
    using that sound_new_object [OF that(1)]
    by (auto simp: open_channel_def split: option.splits prod.splits)
  then show ?thesis using assms by (auto simp: gdm_client_get_connection_sync_def split: option.splits)
qed

lemma sound_open_channel:
  assumes "sound w" "open_channel B w = (r, w')"
  shows "sound w'"
  using assms sound_new_object [OF assms(1)] by (auto simp: open_channel_def split: option.splits prod.splits)

lemma sound_get_connection: "sound w \<Longrightarrow> fst t < next_object w \<Longrightarrow> sound (gdm_client_get_connection B t w)"
  using sound_get_connection_sync [of w B]
  by (fastforce simp: gdm_client_get_connection_def split: prod.splits intro!: sound_await)

lemma slot_given: "sound w \<Longrightarrow> get_slot s (client w) = Some p \<Longrightarrow> p < next_object w"
  by (simp add: sound_def given_out_def)

lemmas slots_given = slot_given [where s = VerifierSlot, simplified] slot_given [where s = ReauthenticationSlot, simplified]
  slot_given [where s = GreeterSlot, simplified]

lemma new_object_ex: "\<exists>n w'. new_object w = (n, w')"
  by (simp add: new_object_def)

lemma sound_get_user_verifier:
  assumes "sound w"
  shows "sound (snd (gdm_client_get_user_verifier B w))"
proof -
  obtain t v where o: "new_object w = (t, v)" using new_object_ex by blast
  note v = sound_new_object [OF assms o]
  show ?thesis
  proof (cases "user_verifier (client v)")
    case (Some p)
    with v slots_given(1) show ?thesis by (auto simp: gdm_client_get_user_verifier_def o intro!: sound_return)
  next
    case None
    with v sound_get_connection [of v "(t, ForVerifier)"] show ?thesis by (simp add: gdm_client_get_user_verifier_def o)
  qed
qed

lemma sound_get_greeter:
  assumes "sound w"
  shows "sound (snd (gdm_client_get_greeter B w))"
proof -
  obtain t v where o: "new_object w = (t, v)" using new_object_ex by blast
  note v = sound_new_object [OF assms o]
  show ?thesis
  proof (cases "greeter (client v)")
    case (Some p)
    with v slots_given(3) show ?thesis by (auto simp: gdm_client_get_greeter_def o intro!: sound_return)
  next
    case None
    with v sound_get_connection [of v "(t, ForGreeter)"] show ?thesis by (simp add: gdm_client_get_greeter_def o)
  qed
qed

lemma sound_open_reauthentication:
  assumes "sound w"
  shows "sound (snd (gdm_client_open_reauthentication_channel user w))"
proof -
  obtain t v where o: "new_object w = (t, v)" using new_object_ex by blast
  from sound_new_object [OF assms o] show ?thesis
    by (auto simp: gdm_client_open_reauthentication_channel_def o intro!: sound_await)
qed

lemma sound_new_proxy_tracked:
  assumes "sound w" "make_proxy c w = (p, w')"
  shows "sound (track_proxy s (Some p) w')"
  using sound_make_proxy [OF assms] by (auto intro: sound_track)

lemma sound_open_reauthentication_sync:
  assumes "sound w"
  shows "sound (snd (gdm_client_open_reauthentication_channel_sync B w))"
  using sound_open_channel [OF assms, of B] sound_new_proxy_tracked sound_track [where p = None]
  by (auto simp: gdm_client_open_reauthentication_channel_sync_def split: prod.splits sum.splits option.splits)

lemma sound_get_greeter_sync:
  assumes "sound w"
  shows "sound (snd (gdm_client_get_greeter_sync B w))"
  using sound_get_connection_sync [OF assms, of B] sound_new_proxy_tracked sound_track [where p = None] assms
  by (auto simp: gdm_client_get_greeter_sync_def query_for_timed_login_requested_signal_def
      split: prod.splits sum.splits option.splits intro!: sound_queries)

lemma sound_change_table: "sound w \<Longrightarrow> sound (change_table v f w)"
  by (simp add: change_table_def sound_tables split: option.splits)

lemma sound_sync_extensions: "sound w \<Longrightarrow> sound (snd (sync_extensions B c es t w))"
proof (induction B c es t w rule: sync_extensions.induct)
  case (2 B c e es t w)
  obtain p v where p: "make_proxy c w = (p, v)" by fastforce
  from 2 sound_make_proxy [OF 2(3) p] show ?case by (auto simp: p)
qed simp

lemma sound_get_user_verifier_sync:
  assumes "sound w"
  shows "sound (snd (gdm_client_get_user_verifier_sync B w))"
proof (cases "user_verifier (client w)")
  case None
  obtain r w1 where 1: "gdm_client_get_connection_sync B w = (r, w1)" by fastforce
  note s1 = sound_get_connection_sync [OF assms 1]
  show ?thesis
  proof (cases r)
    case (Inr c)
    obtain v w2 where 2: "make_proxy c w1 = (v, w2)" by fastforce
    define w3 where "w3 = track_proxy VerifierSlot (Some v) w2"
    have s3: "sound w3" unfolding w3_def using s1 2 by (blast intro: sound_new_proxy_tracked)
    show ?thesis
      using None 1 Inr 2 s1 s3 sound_track [where p = None and s = VerifierSlot] w3_def [symmetric]
        sound_tables [OF s3]
        sound_sync_extensions [OF sound_tables [OF s3], of B c _ "[]"]
      by (auto simp: gdm_client_get_user_verifier_sync_def Let_def split: option.splits prod.splits
          intro!: sound_change_table) (metis snd_conv)
  qed (use None 1 s1 in \<open>simp add: gdm_client_get_user_verifier_sync_def\<close>)
qed (use assms in \<open>simp add: gdm_client_get_user_verifier_sync_def\<close>)

lemma sound_finish:
  assumes "sound w"
  shows "sound (finish i w)"
proof (cases "i < length (returned w)")
  case True
  obtain t r where i: "returned w ! i = (t, r)" by fastforce
  then have "(t, r) \<in> set (returned w)" using True by (metis nth_mem)
  then have p: "p < next_object w" if "r = Inr p" for p
    using that assms by (cases t) (auto simp: sound_def given_out_def)
  show ?thesis
    using True assms p sound_track [OF assms]
    by (cases r; cases "snd t")
       (auto simp: finish_def i gdm_client_get_user_verifier_finish_def Let_def
         gdm_client_open_reauthentication_channel_finish_def gdm_client_get_greeter_finish_def split: option.splits)
qed (use assms in \<open>simp add: finish_def\<close>)

lemma sound_connection_closed:
  assumes "sound w"
  shows "sound (connection_closed c w)"
proof -
  have c: "sound (w\<lparr>closed_connections := cs\<rparr>)" for cs
    using assms by (rule sound_same_slots)
      (use assms in \<open>simp_all add: same_slots_def proxy_connection_def sound_def given_out_def\<close>)
  have "sound (fold (\<lambda>h. untrack_proxy (snd h)) hs v)" if "sound v" for v and hs :: "(nat \<times> proxy_slot) list"
    using that by (induction hs arbitrary: v) (simp_all add: sound_untrack)
  from this [OF c] show ?thesis unfolding connection_closed_def .
qed

text \<open>The callbacks.\<close>

lemma sound_datas:
  assumes "sound w" "\<And>d u. (d, u) \<in> set D \<Longrightarrow> (d, u) \<in> set (verifier_datas w) \<or>
      d < next_object w \<and> fst (uvd_task u) < next_object w \<and> uvd_user_verifier u < next_object w"
  shows "sound (w\<lparr>verifier_datas := D\<rparr>)"
proof (rule sound_same_slots [OF assms(1)])
  show "given_out (w\<lparr>verifier_datas := D\<rparr>)"
    using assms by (fastforce simp: sound_def given_out_def)
qed (simp add: same_slots_def proxy_connection_def)

lemma data_given:
  assumes "sound w" "ght_lookup (verifier_datas w) d = Some u"
  shows "d < next_object w \<and> fst (uvd_task u) < next_object w \<and> uvd_user_verifier u < next_object w"
  using assms ght_lookup_SomeD [OF assms(2)] by (auto simp: sound_def given_out_def)

lemma sound_complete:
  assumes "sound w" "complete_user_verifier_proxy_operation d w = Ret w'"
  shows "sound w'"
proof -
  obtain u where u: "ght_lookup (verifier_datas w) d = Some u"
      "w' = user_verifier_data_free d (g_task_return (uvd_task u) (Inr (uvd_user_verifier u)) w)"
    using assms(2) by (auto simp: complete_user_verifier_proxy_operation_def with_data_def split: option.splits)
  have "sound (g_task_return (uvd_task u) (Inr (uvd_user_verifier u)) w)"
    using data_given [OF assms(1) u(1)] assms(1) by (auto intro: sound_return)
  then show ?thesis unfolding u(2) user_verifier_data_free_def
    by (rule sound_datas) (auto simp: ght_remove_set)
qed

lemma sound_maybe_complete:
  "sound w \<Longrightarrow> maybe_complete_user_verifier_proxy_operation d w = Ret w' \<Longrightarrow> sound w'"
  by (auto simp: maybe_complete_user_verifier_proxy_operation_def with_data_def split: option.splits if_splits
      dest: sound_complete)

lemma sound_extension_proxy:
  assumes "sound w" "extension_proxy_created name d fails w = Ret w'"
  shows "sound w'"
proof -
  obtain u where u: "ght_lookup (verifier_datas w) d = Some u"
    using assms(2) by (auto simp: extension_proxy_created_def with_data_def split: option.splits)
  let ?v = "uvd_user_verifier u"
  obtain p w1 where p: "make_proxy (proxy_connection w ?v) w = (p, w1)" by fastforce
  have "sound w1" using sound_make_proxy [OF assms(1) p] by blast
  then show ?thesis
    using assms u p sound_maybe_complete [OF sound_change_table [OF assms(1)]]
      sound_maybe_complete [OF sound_change_table [OF \<open>sound w1\<close>]]
    by (auto simp: extension_proxy_created_def with_data_def Let_def split: option.splits)
qed

lemma enable_loop_calls: "p \<in> set (snd (enable_loop d es t)) \<Longrightarrow> p = AwaitChoiceList d \<or> p = AwaitCustomJson d"
  by (induction d es t rule: enable_loop.induct) (auto simp: Let_def split: if_splits prod.splits)

lemma sound_extensions_enabled:
  assumes "sound w" "on_user_verifier_extensions_enabled d fails w = Ret w'"
  shows "sound w'"
proof -
  obtain u where u: "ght_lookup (verifier_datas w) d = Some u"
    using assms(2) by (auto simp: on_user_verifier_extensions_enabled_def with_data_def split: option.splits)
  have calls: "sound (change_table v f w\<lparr>pendings := pendings (change_table v f w) @ snd (enable_loop d es t)\<rparr>)"
    for v f es t
    using enable_loop_calls [of _ d es t]
    by (intro sound_pendings sound_change_table assms(1)) fastforce
  show ?thesis
    using assms u sound_complete [OF assms(1)] sound_complete [OF calls] calls
    by (auto simp: on_user_verifier_extensions_enabled_def with_data_def Let_def
        split: option.splits prod.splits if_splits) (metis snd_conv)+
qed

lemma ght_insert_subset: "set (ght_insert k v t) \<subseteq> Set.insert (k, v) (set t)"
  by (induction t) (auto simp: ght_insert_def)

lemma sound_verifier_proxy:
  assumes "sound w" "fst t < next_object w"
  shows "sound (on_user_verifier_proxy_created t c fails w)"
proof (cases fails)
  case None
  obtain v w1 where 1: "make_proxy c w = (v, w1)" by fastforce
  note s1 = sound_make_proxy [OF assms(1) 1]
  define w2 where "w2 = w1\<lparr>extension_tables := ght_insert v [] (extension_tables w1)\<rparr>"
  have s2: "sound w2" unfolding w2_def using s1 by (blast intro: sound_tables)
  obtain d w3 where 3: "new_object w2 = (d, w3)" using new_object_ex by blast
  note s3 = sound_new_object [OF s2 3]
  have "sound (w3\<lparr>verifier_datas := ght_insert d \<lparr>uvd_task = t, uvd_user_verifier = v\<rparr> (verifier_datas w3)\<rparr>)"
    using s3 s1 assms(2)
    by (intro sound_datas) (auto simp: w2_def dest!: ght_insert_subset [THEN subsetD])
  then show ?thesis
    using None s1 assms(2) 3
    by (auto simp: on_user_verifier_proxy_created_def 1 w2_def [symmetric] user_verifier_data_new_def Let_def
        intro!: sound_return sound_await)
qed (use assms in \<open>auto simp: on_user_verifier_proxy_created_def intro!: sound_return\<close>)

lemma sound_greeter_proxy:
  assumes "sound w" "fst t < next_object w"
  shows "sound (on_greeter_proxy_created t c fails w)"
proof -
  obtain p w1 where 1: "make_proxy c w = (p, w1)" by fastforce
  from sound_make_proxy [OF assms(1) 1] assms show ?thesis
    by (auto simp: on_greeter_proxy_created_def 1 query_for_timed_login_requested_signal_def
        split: option.splits intro!: sound_return sound_queries)
qed

lemma sound_reauthentication_connected:
  assumes "sound w" "fst t < next_object w"
  shows "sound (on_reauthentication_channel_connected t fails w)"
proof -
  obtain c w1 where 1: "new_object w = (c, w1)" using new_object_ex by blast
  from sound_new_object [OF assms(1) 1] assms show ?thesis
    by (auto simp: on_reauthentication_channel_connected_def 1 split: option.splits intro!: sound_return sound_await)
qed

lemma sound_callback:
  assumes "sound w" "\<And>t. task_of p = Some t \<Longrightarrow> fst t < next_object w" "run_callback p fails w = Ret w'"
  shows "sound w'"
  using assms
  by (cases p)
     (auto simp: on_got_manager_for_reauthentication_def on_reauthentication_channel_opened_def
       on_connection_for_greeter_def on_connection_for_user_verifier_def
       on_user_verifier_choice_list_proxy_created_def on_user_verifier_custom_json_proxy_created_def
       split: option.splits sum.splits if_splits
       intro!: sound_return sound_await sound_reauthentication_connected sound_verifier_proxy sound_greeter_proxy
       dest: sound_extensions_enabled sound_extension_proxy)

lemma sound_deliver:
  assumes "sound w" "deliver i fails w = Ret w'"
  shows "sound w'"
proof (cases "i < length (pendings w)")
  case True
  let ?v = "w\<lparr>pendings := take i (pendings w) @ drop (Suc i) (pendings w)\<rparr>"
  have "sound ?v" by (rule sound_pendings [OF assms(1)]) (auto dest: in_set_takeD in_set_dropD)
  moreover have t: "fst t < next_object ?v" if "task_of (pendings w ! i) = Some t" for t
    using that assms(1) True nth_mem [OF True] by (cases t) (fastforce simp: sound_def given_out_def)
  moreover have "run_callback (pendings w ! i) fails ?v = Ret w'" using assms(2) True by (simp add: deliver_def)
  ultimately show ?thesis using sound_callback by blast
qed (use assms in \<open>simp add: deliver_def\<close>)

lemma sound_step: "sound w \<Longrightarrow> client_step e w = Ret w' \<Longrightarrow> sound w'"
  by (cases e) (auto simp: sound_get_user_verifier sound_get_user_verifier_sync sound_get_greeter sound_get_greeter_sync
      sound_open_reauthentication sound_open_reauthentication_sync sound_extensions sound_finish sound_connection_closed
      dest: sound_deliver)

lemma sound_new: "sound gdm_client_new"
proof -
  have "get_slot s (client gdm_client_new) = None" for s by (cases s) (simp_all add: gdm_client_new_def)
  then show ?thesis by (simp add: sound_def tracked_def given_out_def) (simp add: gdm_client_new_def)
qed

lemma sound_run: "foldR client_step es gdm_client_new = Ret w \<Longrightarrow> sound w"
  using foldR_invariant [where P = sound] sound_new sound_step by blast

section \<open>Every task is at one place\<close>

definition task_ids :: "client_world \<Rightarrow> nat list" where
  "task_ids w =
     map fst (List.map_filter task_of (pendings w) @ map (uvd_task \<circ> snd) (verifier_datas w) @ map fst (returned w))"

text \<open>
  The data of an operation: the list of extensions was sent, or every proxy that the table misses is asked for
  once.
\<close>

definition data_ok ::
  "pending list \<Rightarrow> (nat \<Rightarrow> (string, nat option) ghash option) \<Rightarrow> nat \<Rightarrow> user_verifier_data \<Rightarrow> bool" where
  "data_ok ps T d u \<longleftrightarrow>
     (\<exists>t. T (uvd_user_verifier u) = Some t \<and> ght_wf t \<and> fst ` set t \<subseteq> {CHOICE_LIST, CUSTOM_JSON} \<and>
        count_list ps (AwaitChoiceList d) = of_bool (ght_lookup t CHOICE_LIST = Some None) \<and>
        count_list ps (AwaitCustomJson d) = of_bool (ght_lookup t CUSTOM_JSON = Some None) \<and>
        (count_list ps (AwaitExtensions d) = 1 \<and> t = [] \<or>
         count_list ps (AwaitExtensions d) = 0 \<and> list_ex (\<lambda>(k, v). v = None) t))"

definition accounted_except :: "nat set \<Rightarrow> client_world \<Rightarrow> bool" where
  "accounted_except D w \<longleftrightarrow>
     ght_wf (verifier_datas w) \<and> distinct (task_ids w) \<and>
     (\<forall>p \<in> set (pendings w). \<forall>d. data_of p = Some d \<longrightarrow> ght_lookup (verifier_datas w) d \<noteq> None) \<and>
     (\<forall>d u. ght_lookup (verifier_datas w) d = Some u \<longrightarrow> d \<notin> D \<longrightarrow>
        data_ok (pendings w) (ght_lookup (extension_tables w)) d u) \<and>
     (\<forall>d u d' u'. ght_lookup (verifier_datas w) d = Some u \<longrightarrow> ght_lookup (verifier_datas w) d' = Some u' \<longrightarrow>
        uvd_user_verifier u = uvd_user_verifier u' \<longrightarrow> d = d') \<and>
     (\<forall>d. AwaitExtensions d \<in> set (pendings w) \<longrightarrow> enabled_extensions (client w) \<noteq> None) \<and>
     (\<forall>es. enabled_extensions (client w) = Some es \<longrightarrow> distinct es)"

lemma accounted_exceptI:
  assumes "ght_wf (verifier_datas w)" "distinct (task_ids w)"
    and "\<And>p d. p \<in> set (pendings w) \<Longrightarrow> data_of p = Some d \<Longrightarrow> ght_lookup (verifier_datas w) d \<noteq> None"
    and "\<And>d u. ght_lookup (verifier_datas w) d = Some u \<Longrightarrow> d \<notin> D \<Longrightarrow>
      data_ok (pendings w) (ght_lookup (extension_tables w)) d u"
    and "\<And>d u d' u'. ght_lookup (verifier_datas w) d = Some u \<Longrightarrow> ght_lookup (verifier_datas w) d' = Some u' \<Longrightarrow>
      uvd_user_verifier u = uvd_user_verifier u' \<Longrightarrow> d = d'"
    and "\<And>d. AwaitExtensions d \<in> set (pendings w) \<Longrightarrow> enabled_extensions (client w) \<noteq> None"
    and "\<And>es. enabled_extensions (client w) = Some es \<Longrightarrow> distinct es"
  shows "accounted_except D w"
  unfolding accounted_except_def by (intro conjI allI impI ballI) (rule assms; assumption)+

definition same_work :: "client_world \<Rightarrow> client_world \<Rightarrow> bool" where
  "same_work w w' \<longleftrightarrow>
     pendings w' = pendings w \<and> verifier_datas w' = verifier_datas w \<and> returned w' = returned w \<and>
     enabled_extensions (client w') = enabled_extensions (client w) \<and> next_object w \<le> next_object w' \<and>
     (\<forall>v < next_object w. ght_lookup (extension_tables w') v = ght_lookup (extension_tables w) v)"

lemma same_work_trans: "same_work u v \<Longrightarrow> same_work v w \<Longrightarrow> same_work u w"
  by (simp add: same_work_def)

lemma same_work_ids: "same_work w w' \<Longrightarrow> task_ids w' = task_ids w"
  by (simp add: same_work_def task_ids_def)

lemma accounted_same_work:
  assumes "accounted_except D w" "sound w" "same_work w w'"
  shows "accounted_except D w'"
proof -
  have "data_ok (pendings w') (ght_lookup (extension_tables w')) d u \<longleftrightarrow>
      data_ok (pendings w) (ght_lookup (extension_tables w)) d u" if "ght_lookup (verifier_datas w) d = Some u" for d u
    using assms(3) data_given [OF assms(2) that] by (simp add: data_ok_def same_work_def)
  then show ?thesis
    using assms(1,3) same_work_ids [OF assms(3)] by (simp add: accounted_except_def same_work_def)
qed

lemma data_ok_frame:
  assumes "data_ok ps T d u"
    and "count_list ps' (AwaitChoiceList d) = count_list ps (AwaitChoiceList d)"
    and "count_list ps' (AwaitCustomJson d) = count_list ps (AwaitCustomJson d)"
    and "count_list ps' (AwaitExtensions d) = count_list ps (AwaitExtensions d)"
    and "T' (uvd_user_verifier u) = T (uvd_user_verifier u)"
  shows "data_ok ps' T' d u"
  using assms unfolding data_ok_def by simp

lemma accounted_await_task:
  assumes "accounted_except D w" "task_of p = Some t" "fst t \<notin> set (task_ids w)"
  shows "accounted_except D (await p w) \<and> mset (task_ids (await p w)) = add_mset (fst t) (mset (task_ids w))"
proof -
  have n: "data_of p = None" using assms(2) by (cases p) simp_all
  have c: "count_list (pendings (await p w)) q = count_list (pendings w) q" if "data_of q \<noteq> None" for q
    using that n by (auto simp: await_def)
  have ids: "mset (task_ids (await p w)) = add_mset (fst t) (mset (task_ids w))"
    by (simp add: task_ids_def await_def List.map_filter_def assms(2))
  then have "distinct (task_ids (await p w))"
    using mset_eq_imp_distinct_iff [of "task_ids (await p w)" "fst t # task_ids w"] assms(1,3)
    by (simp add: accounted_except_def)
  moreover have "data_ok (pendings (await p w)) (ght_lookup (extension_tables (await p w))) d u"
    if "data_ok (pendings w) (ght_lookup (extension_tables w)) d u" for d u
    using that by (rule data_ok_frame) (simp_all add: c, simp add: await_def)
  ultimately show ?thesis
    using assms(1) ids n by (auto simp: accounted_except_def await_def)
qed

lemma accounted_return:
  assumes "accounted_except D w" "fst t \<notin> set (task_ids w)"
  shows "accounted_except D (g_task_return t r w) \<and> mset (task_ids (g_task_return t r w)) = add_mset (fst t) (mset (task_ids w))"
proof -
  have ids: "mset (task_ids (g_task_return t r w)) = add_mset (fst t) (mset (task_ids w))"
    by (simp add: task_ids_def g_task_return_def)
  then have "distinct (task_ids (g_task_return t r w))"
    using mset_eq_imp_distinct_iff [of "task_ids (g_task_return t r w)" "fst t # task_ids w"] assms
    by (simp add: accounted_except_def)
  then show ?thesis
    using assms(1) ids by (simp add: accounted_except_def) (simp add: g_task_return_def)
qed

lemma datas_remove:
  assumes "ght_wf D" "ght_lookup D d = Some u"
  shows "mset (map (f \<circ> snd) D) = add_mset (f u) (mset (map (f \<circ> snd) (ght_remove d D)))"
  using assms
proof (induction D)
  case (Cons x D)
  obtain k v where x: "x = (k, v)" by fastforce
  show ?case
  proof (cases "k = d")
    case True
    with Cons.prems have "d \<notin> fst ` set D" "v = u" by (auto simp: x ght_wf_def ght_lookup_def)
    then show ?thesis using True ght_remove_not_in [of d D] by (simp add: x ght_remove_def)
  next
    case False
    with Cons show ?thesis by (simp add: x ght_wf_def ght_lookup_def ght_remove_def)
  qed
qed (simp add: ght_lookup_def)

lemma accounted_complete:
  assumes "accounted_except {d} w" "ght_lookup (verifier_datas w) d = Some u"
    and "\<forall>p \<in> set (pendings w). data_of p \<noteq> Some d"
  shows "\<exists>w'. complete_user_verifier_proxy_operation d w = Ret w' \<and> accounted_except {} w' \<and>
              mset (task_ids w') = mset (task_ids w)"
proof -
  define w' where "w' = user_verifier_data_free d (g_task_return (uvd_task u) (Inr (uvd_user_verifier u)) w)"
  have "complete_user_verifier_proxy_operation d w = Ret w'"
    by (simp add: complete_user_verifier_proxy_operation_def with_data_def assms(2) w'_def)
  moreover have ids: "mset (task_ids w') = mset (task_ids w)"
    using datas_remove [OF _ assms(2), of "fst \<circ> uvd_task"] assms(1)
    by (simp add: w'_def task_ids_def user_verifier_data_free_def g_task_return_def accounted_except_def comp_assoc)
  moreover have "distinct (task_ids w')"
    using assms(1) mset_eq_imp_distinct_iff [OF ids] by (simp add: accounted_except_def)
  moreover have "ght_wf (verifier_datas w')"
    using assms(1) by (simp add: accounted_except_def w'_def user_verifier_data_free_def g_task_return_def ght.wf_remove)
  ultimately show ?thesis
    using assms(1,3)
    by (auto simp: accounted_except_def w'_def user_verifier_data_free_def g_task_return_def ght_lookup_remove)
qed

lemma choice_not_json: "CHOICE_LIST \<noteq> CUSTOM_JSON"
  by (simp add: CHOICE_LIST_def CUSTOM_JSON_def)

lemma missing_iff:
  "ght_wf t \<Longrightarrow> fst ` set t \<subseteq> {CHOICE_LIST, CUSTOM_JSON} \<Longrightarrow>
     list_ex (\<lambda>(k, v). v = None) t \<longleftrightarrow>
       ght_lookup t CHOICE_LIST = Some None \<or> ght_lookup t CUSTOM_JSON = Some None"
  by (force simp: list_ex_iff ght_lookup_set)

lemma no_pending_data:
  assumes "count_list ps (AwaitChoiceList d) = 0" "count_list ps (AwaitCustomJson d) = 0"
    "count_list ps (AwaitExtensions d) = 0"
  shows "\<forall>p \<in> set ps. data_of p \<noteq> Some d"
proof
  fix p assume p: "p \<in> set ps"
  show "data_of p \<noteq> Some d" by (cases p) (use p assms in \<open>auto simp: count_list_0_iff\<close>)
qed

text \<open>After the table of an operation has changed, the rest of the operations is as before.\<close>

lemma accounted_change_table:
  assumes "accounted_except {d} w" "ght_lookup (verifier_datas w) d = Some u"
  shows "accounted_except {d} (change_table (uvd_user_verifier u) f w)"
    and "task_ids (change_table (uvd_user_verifier u) f w) = task_ids w"
proof -
  let ?w = "change_table (uvd_user_verifier u) f w"
  have same: "pendings ?w = pendings w" "verifier_datas ?w = verifier_datas w" "returned ?w = returned w" "client ?w = client w"
    by (simp_all add: change_table_def split: option.splits)
  then show "task_ids ?w = task_ids w" by (simp add: task_ids_def)
  moreover have "data_ok (pendings ?w) (ght_lookup (extension_tables ?w)) d' u'"
    if "ght_lookup (verifier_datas w) d' = Some u'" "d' \<noteq> d" for d' u'
  proof -
    have v: "uvd_user_verifier u' \<noteq> uvd_user_verifier u"
      using assms that unfolding accounted_except_def by metis
    have "data_ok (pendings w) (ght_lookup (extension_tables w)) d' u'"
      using assms(1) that by (simp add: accounted_except_def)
    then show ?thesis
      by (rule data_ok_frame) (use v same in \<open>simp_all add: change_table_def ght_lookup_insert split: option.splits\<close>)
  qed
  ultimately show "accounted_except {d} ?w" using assms(1) by (simp add: accounted_except_def same)
qed

definition table_matches :: "nat \<Rightarrow> (string, nat option) ghash \<Rightarrow> pending list \<Rightarrow> bool" where
  "table_matches d t ps \<longleftrightarrow>
     ght_wf t \<and> fst ` set t \<subseteq> {CHOICE_LIST, CUSTOM_JSON} \<and>
     count_list ps (AwaitChoiceList d) = of_bool (ght_lookup t CHOICE_LIST = Some None) \<and>
     count_list ps (AwaitCustomJson d) = of_bool (ght_lookup t CUSTOM_JSON = Some None) \<and>
     count_list ps (AwaitExtensions d) = 0"

lemma accounted_data:
  assumes "accounted_except {d} w" "ght_lookup (verifier_datas w) d = Some u"
    and "data_ok (pendings w) (ght_lookup (extension_tables w)) d u"
  shows "accounted_except {} w"
proof -
  have "data_ok (pendings w) (ght_lookup (extension_tables w)) d' u'"
    if "ght_lookup (verifier_datas w) d' = Some u'" for d' u'
    using assms that by (cases "d' = d") (simp_all add: accounted_except_def)
  then show ?thesis using assms(1) by (simp add: accounted_except_def)
qed

lemma maybe_complete_ok:
  assumes acc: "accounted_except {d} w" and u: "ght_lookup (verifier_datas w) d = Some u"
    and t: "ght_lookup (extension_tables w) (uvd_user_verifier u) = Some t" and m: "table_matches d t (pendings w)"
  shows "\<exists>w'. maybe_complete_user_verifier_proxy_operation d w = Ret w' \<and> accounted_except {} w' \<and>
              mset (task_ids w') = mset (task_ids w)"
proof (cases "list_ex (\<lambda>(k, v). v = None) t")
  case True
  have "data_ok (pendings w) (ght_lookup (extension_tables w)) d u"
    using m True t by (auto simp: data_ok_def table_matches_def)
  with accounted_data [OF acc u] True t u show ?thesis
    by (simp add: maybe_complete_user_verifier_proxy_operation_def with_data_def)
next
  case False
  with m have "\<forall>p \<in> set (pendings w). data_of p \<noteq> Some d"
    by (intro no_pending_data) (simp_all add: table_matches_def missing_iff)
  from accounted_complete [OF acc u this] show ?thesis
    using False t u by (simp add: maybe_complete_user_verifier_proxy_operation_def with_data_def)
qed

text \<open>The call for a proxy, by the name of its extension.\<close>

definition call_for :: "string \<Rightarrow> nat \<Rightarrow> pending" where
  "call_for name d = (if name = CHOICE_LIST then AwaitChoiceList d else AwaitCustomJson d)"

lemma make_proxy_same_work: "make_proxy c w = (p, w') \<Longrightarrow> same_work w w'"
  by (auto simp: make_proxy_def new_object_def same_work_def)

lemma ght_insert_fst: "fst ` set (ght_insert k v t) = Set.insert k (fst ` set t)"
  by (simp add: ght_insert_def dom_update)

lemma table_matches_answered:
  assumes "table_matches d t (call_for name d # ps)" "name \<in> {CHOICE_LIST, CUSTOM_JSON}"
    and "ght_wf t'" "fst ` set t' \<subseteq> {CHOICE_LIST, CUSTOM_JSON}"
    and "ght_lookup t' name \<noteq> Some None" "\<And>k. k \<noteq> name \<Longrightarrow> ght_lookup t' k = ght_lookup t k"
  shows "table_matches d t' ps"
proof (cases "name = CHOICE_LIST")
  case True
  have "ght_lookup t' CUSTOM_JSON = ght_lookup t CUSTOM_JSON" using assms(6) True choice_not_json by simp
  then show ?thesis
    using assms(1,3-5) True by (auto simp: table_matches_def call_for_def of_bool_def split: if_splits)
next
  case False
  then have n: "name = CUSTOM_JSON" using assms(2) by simp
  have "ght_lookup t' CHOICE_LIST = ght_lookup t CHOICE_LIST" using assms(6) n choice_not_json by simp
  then show ?thesis
    using assms(1,3-5) n choice_not_json by (auto simp: table_matches_def call_for_def of_bool_def split: if_splits)
qed

lemma extension_proxy_ok:
  assumes acc: "accounted_except {d} w" and snd: "sound w" and u: "ght_lookup (verifier_datas w) d = Some u"
    and t: "ght_lookup (extension_tables w) (uvd_user_verifier u) = Some t"
    and m: "table_matches d t (call_for name d # pendings w)" and name: "name \<in> {CHOICE_LIST, CUSTOM_JSON}"
  shows "\<exists>w'. extension_proxy_created name d fails w = Ret w' \<and> accounted_except {} w' \<and>
              mset (task_ids w') = mset (task_ids w)"
proof -
  let ?v = "uvd_user_verifier u"
  have keys: "fst ` set t \<subseteq> {CHOICE_LIST, CUSTOM_JSON}" "ght_wf t" using m by (simp_all add: table_matches_def)
  have step: "\<exists>w'. maybe_complete_user_verifier_proxy_operation d (change_table ?v f w1) = Ret w' \<and>
      accounted_except {} w' \<and> mset (task_ids w') = mset (task_ids w)"
    if w1: "same_work w w1" and f: "table_matches d (f t) (pendings w)" for f w1
  proof -
    have u1: "ght_lookup (verifier_datas w1) d = Some u" and t1: "ght_lookup (extension_tables w1) ?v = Some t"
        and p1: "pendings w1 = pendings w"
      using w1 u t data_given [OF snd u] by (simp_all add: same_work_def)
    note a1 = accounted_same_work [OF acc snd w1]
    have "ght_lookup (extension_tables (change_table ?v f w1)) ?v = Some (f t)"
        "ght_lookup (verifier_datas (change_table ?v f w1)) d = Some u" "pendings (change_table ?v f w1) = pendings w"
      using t1 u1 p1 by (simp_all add: change_table_def ght_lookup_insert)
    with maybe_complete_ok [OF accounted_change_table(1) [OF a1 u1]] accounted_change_table(2) [OF a1 u1] f
      same_work_ids [OF w1]
    show ?thesis by simp
  qed
  show ?thesis
  proof (cases fails)
    case (Some e)
    have "table_matches d (ght_remove name t) (pendings w)"
      by (rule table_matches_answered [OF m name])
         (use keys in \<open>auto simp: ght.wf_remove ght_lookup_remove ght_remove_set\<close>)
    with step [of w "ght_remove name"] Some u show ?thesis
      by (simp add: extension_proxy_created_def with_data_def same_work_def)
  next
    case None
    obtain p w1 where p: "make_proxy (proxy_connection w ?v) w = (p, w1)" by fastforce
    have "fst ` set (ght_insert name (Some p) t) \<subseteq> {CHOICE_LIST, CUSTOM_JSON}"
      using keys(1) name by (simp add: ght_insert_fst)
    then have "table_matches d (ght_insert name (Some p) t) (pendings w)"
      by (intro table_matches_answered [OF m name]) (use keys in \<open>auto simp: ght.wf_insert ght_lookup_insert\<close>)
    with step [OF make_proxy_same_work [OF p], of "ght_insert name (Some p)"] None u p show ?thesis
      by (simp add: extension_proxy_created_def with_data_def)
  qed
qed

text \<open>The loop over extensions that are distinct asks for every proxy once.\<close>

lemma enable_loop_table:
  assumes "enable_loop d es t = (t', calls)" "distinct es" "ght_wf t"
    and "fst ` set t \<inter> set es = {}" "fst ` set t \<subseteq> {CHOICE_LIST, CUSTOM_JSON}"
  shows "ght_wf t' \<and> fst ` set t' = fst ` set t \<union> (set es \<inter> {CHOICE_LIST, CUSTOM_JSON}) \<and>
         (\<forall>k. ght_lookup t' k = (if k \<in> set es \<inter> {CHOICE_LIST, CUSTOM_JSON} then Some None else ght_lookup t k)) \<and>
         count_list calls (AwaitChoiceList d) = of_bool (CHOICE_LIST \<in> set es) \<and>
         count_list calls (AwaitCustomJson d) = of_bool (CUSTOM_JSON \<in> set es)"
  using assms
proof (induction d es t arbitrary: t' calls rule: enable_loop.induct)
  case (2 d e es t)
  show ?case
  proof (cases "e \<in> {CHOICE_LIST, CUSTOM_JSON}")
    case True
    let ?t = "ght_insert e None (ght_insert e None t)"
    obtain calls' where l: "enable_loop d es ?t = (t', calls')" "calls = call_for e d # calls'"
      using 2(4) True choice_not_json by (auto simp: Let_def call_for_def split: prod.splits if_splits)
    have t: "fst ` set ?t = Set.insert e (fst ` set t)" "ght_wf ?t" "ght_lookup ?t = (ght_lookup t)(e \<mapsto> None)"
      using 2(6) by (simp_all add: ght_insert_fst ght.wf_insert ght_lookup_insert)
    have "e \<notin> set es" using 2(5) by simp
    moreover have "ght_wf t' \<and> fst ` set t' = fst ` set ?t \<union> (set es \<inter> {CHOICE_LIST, CUSTOM_JSON}) \<and>
         (\<forall>k. ght_lookup t' k = (if k \<in> set es \<inter> {CHOICE_LIST, CUSTOM_JSON} then Some None else ght_lookup ?t k)) \<and>
         count_list calls' (AwaitChoiceList d) = of_bool (CHOICE_LIST \<in> set es) \<and>
         count_list calls' (AwaitCustomJson d) = of_bool (CUSTOM_JSON \<in> set es)"
    proof (cases "e = CHOICE_LIST")
      case e: True
      show ?thesis by (rule 2(1) [OF refl e l(1)]) (use 2(5-8) t True in auto)
    next
      case e: False
      show ?thesis by (rule 2(2) [OF refl e _ l(1)]) (use 2(5-8) t True e in auto)
    qed
    ultimately show ?thesis
      using True choice_not_json by (auto simp: ght_insert_fst ght_lookup_insert l(2) call_for_def)
  next
    case False
    let ?t = "ght_remove e (ght_insert e None t)"
    have e: "e \<notin> fst ` set t" using 2(7) by simp
    then have "ght_insert e None t = t @ [(e, None)]" by (simp add: ght_insert_fresh ght_contains_fst)
    then have t: "?t = t" using e by (simp add: ght_remove_append ght_remove_not_in) (simp add: ght_remove_def)
    have l: "enable_loop d es t = (t', calls)" using 2(4) False t by (simp add: Let_def)
    show ?thesis using 2(3) [OF refl] False 2(5-8) l t by auto
  qed
qed (auto simp: of_bool_def)

lemma accounted_more_pendings:
  assumes acc: "accounted_except {d} w" and u: "ght_lookup (verifier_datas w) d = Some u"
    and calls: "\<forall>p \<in> set calls. p = AwaitChoiceList d \<or> p = AwaitCustomJson d"
  shows "accounted_except {d} (w\<lparr>pendings := pendings w @ calls\<rparr>)"
    and "task_ids (w\<lparr>pendings := pendings w @ calls\<rparr>) = task_ids w"
proof -
  have none: "List.map_filter task_of calls = []" using calls by (induction calls) (auto simp: map_filter_simps)
  then show ids: "task_ids (w\<lparr>pendings := pendings w @ calls\<rparr>) = task_ids w"
    by (simp add: task_ids_def List.map_filter_def)
  have count: "count_list calls q = 0" if "data_of q \<noteq> Some d" for q
    using calls that by (auto simp: count_list_0_iff)
  have "data_ok (pendings w @ calls) (ght_lookup (extension_tables w)) d' u'"
    if "ght_lookup (verifier_datas w) d' = Some u'" "d' \<noteq> d" for d' u'
  proof -
    have "data_ok (pendings w) (ght_lookup (extension_tables w)) d' u'"
      using acc that by (simp add: accounted_except_def)
    then show ?thesis by (rule data_ok_frame) (use that(2) in \<open>simp_all add: count\<close>)
  qed
  then show "accounted_except {d} (w\<lparr>pendings := pendings w @ calls\<rparr>)"
    using acc u calls ids by (auto simp: accounted_except_def)
qed

lemma extensions_enabled_ok:
  assumes acc: "accounted_except {d} w" and u: "ght_lookup (verifier_datas w) d = Some u"
    and t: "ght_lookup (extension_tables w) (uvd_user_verifier u) = Some []"
    and none: "\<forall>p \<in> set (pendings w). data_of p \<noteq> Some d" and enabled: "enabled_extensions (client w) = Some es"
  shows "\<exists>w'. on_user_verifier_extensions_enabled d fails w = Ret w' \<and> accounted_except {} w' \<and>
              mset (task_ids w') = mset (task_ids w)"
proof (cases fails)
  case (Some e)
  with accounted_complete [OF acc u none] show ?thesis
    by (simp add: on_user_verifier_extensions_enabled_def with_data_def u)
next
  case None
  let ?v = "uvd_user_verifier u"
  obtain t' calls where loop: "enable_loop d es [] = (t', calls)" by fastforce
  have "distinct es" using acc enabled by (simp add: accounted_except_def)
  note e = enable_loop_table [OF loop this, simplified ght_wf_def, simplified]
  have calls: "\<forall>p \<in> set calls. p = AwaitChoiceList d \<or> p = AwaitCustomJson d"
    using enable_loop_calls [of _ d es "[]"] loop by simp
  define w1 where "w1 = change_table ?v (\<lambda>_. t') w"
  have w1: "pendings w1 = pendings w" "verifier_datas w1 = verifier_datas w" "client w1 = client w"
      "ght_lookup (extension_tables w1) ?v = Some t'"
    by (simp_all add: w1_def change_table_def t ght_lookup_insert)
  define w2 where "w2 = w1\<lparr>pendings := pendings w1 @ calls\<rparr>"
  have a2: "accounted_except {d} w2" "task_ids w2 = task_ids w"
    unfolding w2_def w1_def
    using accounted_more_pendings [OF accounted_change_table(1) [OF acc u] _ calls] accounted_change_table(2) [OF acc u]
      u w1(2) [unfolded w1_def] by simp_all
  have u2: "ght_lookup (verifier_datas w2) d = Some u" using u w1(2) by (simp add: w2_def)
  have run: "on_user_verifier_extensions_enabled d fails w =
      (if t' = [] then complete_user_verifier_proxy_operation d w2 else Ret w2)"
    by (simp add: on_user_verifier_extensions_enabled_def with_data_def u None enabled t loop Let_def w2_def w1_def)
  have zero: "count_list (pendings w) q = 0" if "data_of q = Some d" for q
    using none that by (auto simp: count_list_0_iff)
  show ?thesis
  proof (cases "t' = []")
    case True
    then have "set es \<inter> {CHOICE_LIST, CUSTOM_JSON} = {}" using e by auto
    then have "calls = []" using e calls by (cases calls) (auto simp: of_bool_def split: if_splits)
    then have "\<forall>p \<in> set (pendings w2). data_of p \<noteq> Some d" using none w1(1) by (simp add: w2_def)
    from accounted_complete [OF a2(1) u2 this] True run a2(2) show ?thesis by simp
  next
    case False
    have "AwaitExtensions d \<notin> set calls" using calls by auto
    then have "table_matches d t' (pendings w2)"
      using e by (auto simp: table_matches_def w2_def w1(1) zero count_list_0_iff ght_wf_def ght_lookup_def of_bool_def)
    moreover have "list_ex (\<lambda>(k, v). v = None) t'"
    proof -
      obtain k v where "(k, v) \<in> set t'" using False by (cases t') auto
      moreover from this have "v = None" using e ght_lookup_set [of t' k v]
        by (auto simp: ght_wf_def ght_lookup_def split: if_splits)
      ultimately show ?thesis by (auto simp: list_ex_iff)
    qed
    ultimately have "data_ok (pendings w2) (ght_lookup (extension_tables w2)) d u"
      using w1(4) by (auto simp: data_ok_def table_matches_def w2_def)
    from accounted_data [OF a2(1) u2 this] False run a2(2) show ?thesis by simp
  qed
qed

text \<open>A callback is taken out of the list before it runs.\<close>

definition without_pending :: "nat \<Rightarrow> client_world \<Rightarrow> client_world" where
  "without_pending i w = w\<lparr>pendings := take i (pendings w) @ drop (Suc i) (pendings w)\<rparr>"

lemma pendings_split:
  assumes "i < length (pendings w)"
  shows "count_list (pendings w) q = count_list (pendings (without_pending i w)) q + of_bool (q = pendings w ! i)"
    and "mset (pendings w) = add_mset (pendings w ! i) (mset (pendings (without_pending i w)))"
    and "set (pendings (without_pending i w)) \<subseteq> set (pendings w)"
proof -
  have s: "pendings w = take i (pendings w) @ pendings w ! i # drop (Suc i) (pendings w)"
    using assms by (rule id_take_nth_drop)
  have "count_list (take i (pendings w) @ pendings w ! i # drop (Suc i) (pendings w)) q =
      count_list (pendings (without_pending i w)) q + of_bool (q = pendings w ! i)"
    by (simp add: without_pending_def)
  then show "count_list (pendings w) q = count_list (pendings (without_pending i w)) q + of_bool (q = pendings w ! i)"
    by (simp flip: s)
  have "mset (take i (pendings w) @ pendings w ! i # drop (Suc i) (pendings w)) =
      add_mset (pendings w ! i) (mset (pendings (without_pending i w)))"
    by (simp add: without_pending_def)
  then show "mset (pendings w) = add_mset (pendings w ! i) (mset (pendings (without_pending i w)))"
    by (simp flip: s)
  show "set (pendings (without_pending i w)) \<subseteq> set (pendings w)"
    by (auto simp: without_pending_def dest: in_set_takeD in_set_dropD)
qed

lemma without_pending_same [simp]:
  "verifier_datas (without_pending i w) = verifier_datas w" "returned (without_pending i w) = returned w"
  "extension_tables (without_pending i w) = extension_tables w" "client (without_pending i w) = client w"
  "next_object (without_pending i w) = next_object w"
  by (simp_all add: without_pending_def)

lemma mset_map_filter: "mset (List.map_filter f xs) = image_mset (the \<circ> f) (filter_mset (\<lambda>x. f x \<noteq> None) (mset xs))"
  by (simp add: List.map_filter_def)

lemma take_pending_ids:
  assumes "i < length (pendings w)"
  shows "mset (task_ids w) = mset (task_ids (without_pending i w)) +
           (case task_of (pendings w ! i) of None \<Rightarrow> {#} | Some t \<Rightarrow> {#fst t#})"
  by (simp add: task_ids_def mset_map_filter pendings_split(2) [OF assms] split: option.splits)

lemma take_pending:
  assumes acc: "accounted_except {} w" and i: "i < length (pendings w)"
    and D: "case data_of (pendings w ! i) of None \<Rightarrow> True | Some d \<Rightarrow> d \<in> D"
  shows "accounted_except D (without_pending i w)"
proof -
  let ?w = "without_pending i w"
  have "distinct (task_ids ?w)"
  proof (cases "task_of (pendings w ! i)")
    case None
    then have ids: "mset (task_ids w) = mset (task_ids ?w)" using take_pending_ids [OF i] by simp
    show ?thesis using acc mset_eq_imp_distinct_iff [OF ids] by (simp add: accounted_except_def)
  next
    case (Some t)
    then have ids: "mset (task_ids w) = mset (fst t # task_ids ?w)" using take_pending_ids [OF i] by simp
    show ?thesis using acc mset_eq_imp_distinct_iff [OF ids] by (simp add: accounted_except_def)
  qed
  moreover have "data_ok (pendings ?w) (ght_lookup (extension_tables w)) d u"
    if "ght_lookup (verifier_datas w) d = Some u" "d \<notin> D" for d u
  proof -
    have q: "count_list (pendings ?w) q = count_list (pendings w) q" if "data_of q = Some d" for q
      using pendings_split(1) [OF i, of q] D \<open>d \<notin> D\<close> that by auto
    have "data_ok (pendings w) (ght_lookup (extension_tables w)) d u"
      using acc that by (simp add: accounted_except_def)
    then show ?thesis by (rule data_ok_frame) (simp_all add: q)
  qed
  ultimately show ?thesis
    using acc pendings_split(3) [OF i] by (auto simp: accounted_except_def)
qed

lemma sound_without_pending: "sound w \<Longrightarrow> sound (without_pending i w)"
  unfolding without_pending_def by (erule sound_pendings) (auto dest: in_set_takeD in_set_dropD)

text \<open>A new operation.\<close>

lemma accounted_new_data:
  assumes acc: "accounted_except {} w" and d: "ght_lookup (verifier_datas w) d = None"
    and v: "\<And>d' u'. ght_lookup (verifier_datas w) d' = Some u' \<Longrightarrow> uvd_user_verifier u' \<noteq> uvd_user_verifier u"
    and t: "ght_lookup (extension_tables w) (uvd_user_verifier u) = Some []"
    and ids: "fst (uvd_task u) \<notin> set (task_ids w)" and enabled: "enabled_extensions (client w) \<noteq> None"
  shows "accounted_except {} (await (AwaitExtensions d) (w\<lparr>verifier_datas := ght_insert d u (verifier_datas w)\<rparr>)) \<and>
    mset (task_ids (await (AwaitExtensions d) (w\<lparr>verifier_datas := ght_insert d u (verifier_datas w)\<rparr>))) =
      add_mset (fst (uvd_task u)) (mset (task_ids w))"
proof -
  let ?w = "await (AwaitExtensions d) (w\<lparr>verifier_datas := ght_insert d u (verifier_datas w)\<rparr>)"
  have fresh: "ght_insert d u (verifier_datas w) = verifier_datas w @ [(d, u)]"
    using d by (simp add: ght_insert_fresh ght_contains_iff)
  have m: "mset (task_ids ?w) = add_mset (fst (uvd_task u)) (mset (task_ids w))"
    by (simp add: task_ids_def await_def fresh mset_map_filter)
  then have dist: "distinct (task_ids ?w)"
    using mset_eq_imp_distinct_iff [of "task_ids ?w" "fst (uvd_task u) # task_ids w"] acc ids
    by (simp add: accounted_except_def)
  have none: "count_list (pendings w) q = 0" if "data_of q = Some d" for q
    using acc d that by (auto simp: accounted_except_def count_list_0_iff)
  have same: "pendings ?w = pendings w @ [AwaitExtensions d]" "client ?w = client w"
      "extension_tables ?w = extension_tables w" "verifier_datas ?w = ght_insert d u (verifier_datas w)"
    by (simp_all add: await_def)
  have "accounted_except {} ?w"
  proof (rule accounted_exceptI)
    show "ght_wf (verifier_datas ?w)" using acc by (simp add: same accounted_except_def ght.wf_insert)
    fix d' u'
    assume d': "ght_lookup (verifier_datas ?w) d' = Some u'"
    show "data_ok (pendings ?w) (ght_lookup (extension_tables ?w)) d' u'"
    proof (cases "d' = d")
      case True
      have "data_ok (pendings w @ [AwaitExtensions d]) (ght_lookup (extension_tables w)) d u"
        unfolding data_ok_def using t none by (intro exI [of _ "[]"]) (simp add: ght.wf_empty ght.lookup_empty)
      moreover have "u' = u" using d' True by (simp add: await_def ght_lookup_insert)
      ultimately show ?thesis unfolding same True by simp
    next
      case False
      then have "data_ok (pendings w) (ght_lookup (extension_tables w)) d' u'"
        using acc d' by (simp add: same ght_lookup_insert accounted_except_def)
      then show ?thesis by (rule data_ok_frame) (use False in \<open>simp_all add: same\<close>)
    qed
    fix d2 u2
    assume d2: "ght_lookup (verifier_datas ?w) d2 = Some u2" and eq: "uvd_user_verifier u' = uvd_user_verifier u2"
    have "\<lbrakk>ght_lookup (verifier_datas w) d' = Some u'; ght_lookup (verifier_datas w) d2 = Some u2\<rbrakk> \<Longrightarrow> d' = d2"
      using acc eq unfolding accounted_except_def by blast
    then show "d' = d2"
      using d' d2 eq v [of d2 u2] v [of d' u'] by (auto simp: same ght_lookup_insert split: if_splits)
  qed (use acc dist enabled in \<open>auto simp: same ght_lookup_insert accounted_except_def\<close>)
  then show ?thesis using m by simp
qed

section \<open>Every step keeps the account\<close>

text \<open>A task that is at no place is handed on.\<close>

definition hands_on :: "client_task \<Rightarrow> client_world \<Rightarrow> client_world \<Rightarrow> bool" where
  "hands_on t w w' \<longleftrightarrow> accounted_except {} w' \<and> mset (task_ids w') = add_mset (fst t) (mset (task_ids w))"

lemma hands_on_await:
  assumes "accounted_except {} w" "sound w" "same_work w v" "fst t \<notin> set (task_ids w)" "task_of p = Some t"
  shows "hands_on t w (await p v)"
  using accounted_await_task [OF accounted_same_work [OF assms(1-3)] assms(5)] assms(4) same_work_ids [OF assms(3)]
  by (simp add: hands_on_def)

lemma hands_on_return:
  assumes "accounted_except {} w" "sound w" "same_work w v" "fst t \<notin> set (task_ids w)"
  shows "hands_on t w (g_task_return t r v)"
  using accounted_return [OF accounted_same_work [OF assms(1-3)]] assms(4) same_work_ids [OF assms(3)]
  by (simp add: hands_on_def)

lemma same_work_refl: "same_work w w"
  by (simp add: same_work_def)

lemma new_object_same_work: "new_object w = (n, w') \<Longrightarrow> same_work w w'"
  by (auto simp: new_object_def same_work_def)

lemma hands_on_verifier_proxy:
  assumes acc: "accounted_except {} w" and snd: "sound w" and t: "fst t \<notin> set (task_ids w)" "fst t < next_object w"
  shows "hands_on t w (on_user_verifier_proxy_created t c fails w)"
proof (cases fails)
  case (Some e)
  then show ?thesis
    using hands_on_return [OF acc snd same_work_refl t(1)] by (simp add: on_user_verifier_proxy_created_def)
next
  case None
  obtain v w1 where 1: "make_proxy c w = (v, w1)" by fastforce
  have v: "v = next_object w" using 1 by (auto simp: make_proxy_def new_object_def)
  note s1 = make_proxy_same_work [OF 1]
  define w2 where "w2 = w1\<lparr>extension_tables := ght_insert v [] (extension_tables w1)\<rparr>"
  obtain d w3 where 3: "new_object w2 = (d, w3)" using new_object_ex by blast
  have "same_work w w2" using s1 by (simp add: w2_def same_work_def ght_lookup_insert v)
  then have s3: "same_work w w3" using new_object_same_work [OF 3] same_work_trans by blast
  have "d \<ge> next_object w" using 3 s1 by (auto simp: w2_def new_object_def same_work_def)
  then have d: "ght_lookup (verifier_datas w) d = None"
    using data_given [OF snd, of d] by (cases "ght_lookup (verifier_datas w) d") auto
  have other: "uvd_user_verifier u' \<noteq> v" if "ght_lookup (verifier_datas w) d' = Some u'" for d' u'
    using data_given [OF snd that] v by simp
  have e3: "ght_lookup (extension_tables w3) v = Some []"
    using 3 by (auto simp: new_object_def w2_def ght_lookup_insert)
  have eq: "verifier_datas w3 = verifier_datas w" "enabled_extensions (client w3) = enabled_extensions (client w)"
      "enabled_extensions (client w1) = enabled_extensions (client w)"
    using s3 s1 by (simp_all add: same_work_def)
  show ?thesis
  proof (cases "enabled_extensions (client w)")
    case no: None
    then show ?thesis
      using hands_on_return [OF acc snd s1 t(1)] None by (simp add: on_user_verifier_proxy_created_def 1 eq)
  next
    case (Some es)
    then show ?thesis
      using accounted_new_data [OF accounted_same_work [OF acc snd s3], of d "\<lparr>uvd_task = t, uvd_user_verifier = v\<rparr>"]
        d other e3 eq t None same_work_ids [OF s3]
      by (simp add: on_user_verifier_proxy_created_def 1 w2_def [symmetric] user_verifier_data_new_def 3 hands_on_def Let_def)
  qed
qed

lemma hands_on_callback:
  assumes "accounted_except {} w" "sound w" "fst t \<notin> set (task_ids w)" "fst t < next_object w" "task_of p = Some t"
  shows "\<exists>w'. run_callback p fails w = Ret w' \<and> hands_on t w w'"
proof -
  note return = hands_on_return [OF assms(1,2) _ assms(3)]
  note wait = hands_on_await [OF assms(1,2) _ assms(3)]
  obtain n w1 where 1: "new_object w = (n, w1)" using new_object_ex by blast
  have query: "hands_on t w (query_for_timed_login_requested_signal q v)" if "hands_on t w v" for q v
    using that by (simp add: hands_on_def accounted_except_def task_ids_def query_for_timed_login_requested_signal_def)
  show ?thesis
  proof (cases p)
    case (AwaitReauthenticationConnection t')
    then show ?thesis
      using assms(5) return [OF same_work_refl] wait [OF new_object_same_work [OF 1]]
      by (auto simp: on_reauthentication_channel_connected_def 1 split: option.splits)
  next
    case (AwaitVerifierProxy t' c)
    then show ?thesis using assms(5) hands_on_verifier_proxy [OF assms(1-4)] by simp
  next
    case (AwaitGreeterProxy t' c)
    obtain q w2 where 2: "make_proxy c w = (q, w2)" by fastforce
    show ?thesis
      using AwaitGreeterProxy assms(5) return [OF same_work_refl] return [OF make_proxy_same_work [OF 2]]
      by (auto simp: on_greeter_proxy_created_def 2 query split: option.splits)
  qed (use assms(5) return [OF same_work_refl] wait [OF same_work_refl] in
       \<open>auto simp: on_got_manager_for_reauthentication_def on_reauthentication_channel_opened_def
          on_connection_for_greeter_def on_connection_for_user_verifier_def split: option.splits sum.splits\<close>)
qed

text \<open>The callbacks of an operation with data.\<close>

lemma data_callback:
  assumes acc: "accounted_except {} w" and snd: "sound w" and i: "i < length (pendings w)"
    and d: "data_of (pendings w ! i) = Some d"
  shows "\<exists>w'. run_callback (pendings w ! i) fails (without_pending i w) = Ret w' \<and> accounted_except {} w' \<and>
              mset (task_ids w') = mset (task_ids w)"
proof -
  let ?w = "without_pending i w" and ?p = "pendings w ! i"
  have "task_of ?p = None" using d by (cases ?p) simp_all
  then have ids: "mset (task_ids w) = mset (task_ids ?w)" using take_pending_ids [OF i] by simp
  have acc': "accounted_except {d} ?w" using take_pending [OF acc i, of "{d}"] d by simp
  have "ght_lookup (verifier_datas w) d \<noteq> None"
    using acc d nth_mem [OF i] unfolding accounted_except_def by blast
  then obtain u where u: "ght_lookup (verifier_datas ?w) d = Some u" by auto
  then have ok: "data_ok (pendings w) (ght_lookup (extension_tables w)) d u" using acc by (simp add: accounted_except_def)
  then obtain t where t: "ght_lookup (extension_tables ?w) (uvd_user_verifier u) = Some t"
    by (auto simp: data_ok_def)
  note split = pendings_split(1) [OF i]
  have proxy: "\<exists>w'. extension_proxy_created name d fails ?w = Ret w' \<and> accounted_except {} w' \<and>
      mset (task_ids w') = mset (task_ids w)"
    if "?p = call_for name d" "name \<in> {CHOICE_LIST, CUSTOM_JSON}" for name
  proof -
    have "count_list (pendings w) (AwaitExtensions d) = 0"
      using ok t split [of "call_for name d"] that(1) choice_not_json that(2)
      by (auto simp: data_ok_def call_for_def ght.lookup_empty split: if_splits)
    moreover have "count_list (call_for name d # pendings ?w) q = count_list (pendings w) q" for q
      using split [of q] that(1) by auto
    ultimately have "table_matches d t (call_for name d # pendings ?w)"
      using ok t by (auto simp: data_ok_def table_matches_def simp del: count_list.simps)
    from extension_proxy_ok [OF acc' sound_without_pending [OF snd] u t this that(2)] ids show ?thesis by simp
  qed
  show ?thesis
  proof (cases ?p)
    case (AwaitExtensions d')
    with d have p: "?p = AwaitExtensions d" by simp
    then have one: "count_list (pendings w) (AwaitExtensions d) \<noteq> 0" using split [of ?p] by simp
    then have "t = []" "count_list (pendings w) (AwaitExtensions d) = 1" using ok t by (auto simp: data_ok_def)
    moreover from this have "\<forall>q \<in> set (pendings ?w). data_of q \<noteq> Some d"
      using ok t split [of "AwaitExtensions d"] split [of "AwaitChoiceList d"] split [of "AwaitCustomJson d"] p
      by (intro no_pending_data) (auto simp: data_ok_def ght.lookup_empty)
    moreover obtain es where "enabled_extensions (client ?w) = Some es"
      using acc p nth_mem [OF i] unfolding accounted_except_def by fastforce
    ultimately show ?thesis using extensions_enabled_ok [OF acc' u] t p ids by simp
  next
    case (AwaitChoiceList d')
    with d proxy [of CHOICE_LIST] show ?thesis
      by (simp add: call_for_def on_user_verifier_choice_list_proxy_created_def)
  next
    case (AwaitCustomJson d')
    with d proxy [of CUSTOM_JSON] choice_not_json show ?thesis
      by (simp add: call_for_def on_user_verifier_custom_json_proxy_created_def)
  qed (use d in simp_all)
qed

lemma accounted_deliver:
  assumes acc: "accounted_except {} w" and snd: "sound w"
  shows "\<exists>w'. deliver i fails w = Ret w' \<and> accounted_except {} w' \<and> mset (task_ids w') = mset (task_ids w)"
proof (cases "i < length (pendings w)")
  case i: True
  have run: "deliver i fails w = run_callback (pendings w ! i) fails (without_pending i w)"
    using i by (simp add: deliver_def without_pending_def)
  show ?thesis
  proof (cases "task_of (pendings w ! i)")
    case None
    then obtain d where "data_of (pendings w ! i) = Some d" by (cases "pendings w ! i") simp_all
    from data_callback [OF acc snd i this] run show ?thesis by simp
  next
    case (Some t)
    then have d: "data_of (pendings w ! i) = None" by (cases "pendings w ! i") simp_all
    have ids: "mset (task_ids w) = mset (fst t # task_ids (without_pending i w))"
      using take_pending_ids [OF i] Some by simp
    have "distinct (fst t # task_ids (without_pending i w))"
      using acc mset_eq_imp_distinct_iff [OF ids] by (simp add: accounted_except_def)
    then have fresh: "fst t \<notin> set (task_ids (without_pending i w))" by simp
    have "fst t < next_object (without_pending i w)"
      using snd Some nth_mem [OF i] by (cases t) (fastforce simp: sound_def given_out_def)
    from hands_on_callback [OF take_pending [OF acc i] sound_without_pending [OF snd] fresh this Some] d ids run
    show ?thesis by (auto simp: hands_on_def)
  qed
qed (use acc in \<open>simp add: deliver_def\<close>)

text \<open>The operations of the application.\<close>

lemma open_channel_same_work: "open_channel B w = (r, w') \<Longrightarrow> same_work w w'"
  by (auto simp: open_channel_def same_work_refl split: option.splits prod.splits dest: new_object_same_work)

lemma get_connection_sync_same_work: "gdm_client_get_connection_sync B w = (r, w') \<Longrightarrow> same_work w w'"
  by (auto simp: gdm_client_get_connection_sync_def same_work_refl split: option.splits dest: open_channel_same_work)

lemma enabled_set_slot [simp]: "enabled_extensions (set_slot s p c) = enabled_extensions c"
  by (cases s) simp_all

lemma untrack_same_work: "same_work w (untrack_proxy s w)"
  by (simp add: untrack_proxy_def same_work_def split: option.splits)

lemma track_same_work: "same_work w (track_proxy s p w)"
  using untrack_same_work [of w s] by (simp add: track_proxy_def Let_def same_work_def split: option.splits)

lemma connection_closed_same_work: "same_work w (connection_closed c w)"
proof -
  have "same_work v (fold (\<lambda>h. untrack_proxy (snd h)) hs v)" for v and hs :: "(nat \<times> proxy_slot) list"
    by (induction hs arbitrary: v) (auto simp: same_work_refl intro: same_work_trans untrack_same_work)
  from this [of "w\<lparr>closed_connections := c # closed_connections w\<rparr>"] show ?thesis
    by (simp add: connection_closed_def same_work_def)
qed

lemma finish_same_work: "same_work w (finish i w)"
  by (auto simp: finish_def Let_def same_work_refl track_same_work gdm_client_get_user_verifier_finish_def
      gdm_client_open_reauthentication_channel_finish_def gdm_client_get_greeter_finish_def
      split: prod.splits wanted.splits option.splits sum.splits)

lemma sync_extensions_same_work: "same_work w (snd (sync_extensions B c es t w))"
proof (induction B c es t w rule: sync_extensions.induct)
  case (2 B c e es t w)
  obtain p v where p: "make_proxy c w = (p, v)" by fastforce
  from 2 make_proxy_same_work [OF p] show ?case by (auto simp: p intro: same_work_trans)
qed (simp add: same_work_refl)

lemma tracked_proxy_same_work:
  "same_work w v \<Longrightarrow> make_proxy c v = (p, x) \<Longrightarrow> same_work w (track_proxy s q x)"
  by (blast intro: same_work_trans make_proxy_same_work track_same_work)

lemma open_reauthentication_sync_same_work: "same_work w (snd (gdm_client_open_reauthentication_channel_sync B w))"
  by (auto simp: gdm_client_open_reauthentication_channel_sync_def split: sum.splits option.splits prod.splits
      dest!: open_channel_same_work intro: tracked_proxy_same_work same_work_trans [OF _ track_same_work])

lemma get_greeter_sync_same_work: "same_work w (snd (gdm_client_get_greeter_sync B w))"
proof -
  have "same_work w (query_for_timed_login_requested_signal q y)" if "same_work w y" for q y
    using that by (simp add: query_for_timed_login_requested_signal_def same_work_def)
  then show ?thesis
    by (auto simp: gdm_client_get_greeter_sync_def same_work_refl split: sum.splits option.splits prod.splits
        dest!: get_connection_sync_same_work intro: tracked_proxy_same_work same_work_trans [OF _ track_same_work])
qed

lemma change_new_table_same_work:
  "same_work w v \<Longrightarrow> next_object w \<le> k \<Longrightarrow> same_work w (change_table k f v)"
  "same_work w v \<Longrightarrow> next_object w \<le> k \<Longrightarrow> same_work w (v\<lparr>extension_tables := ght_insert k t (extension_tables v)\<rparr>)"
  by (simp_all add: same_work_def change_table_def ght_lookup_insert split: option.splits)

lemma get_user_verifier_sync_same_work: "same_work w (snd (gdm_client_get_user_verifier_sync B w))"
proof (cases "user_verifier (client w)")
  case None
  obtain r w1 where 1: "gdm_client_get_connection_sync B w = (r, w1)" by fastforce
  note s1 = get_connection_sync_same_work [OF 1]
  show ?thesis
  proof (cases r)
    case (Inr c)
    obtain v w2 where 2: "make_proxy c w1 = (v, w2)" by fastforce
    have v: "next_object w \<le> v" using 2 s1 by (auto simp: make_proxy_def new_object_def same_work_def)
    define w3 where "w3 = track_proxy VerifierSlot (Some v) w2"
    have s3: "same_work w w3"
      unfolding w3_def using s1 make_proxy_same_work [OF 2] track_same_work by (blast intro: same_work_trans)
    define w4 where "w4 = w3\<lparr>extension_tables := ght_insert v [] (extension_tables w3)\<rparr>"
    have s4: "same_work w w4" unfolding w4_def by (rule change_new_table_same_work(2) [OF s3 v])
    have s5: "same_work w (snd (sync_extensions B c es [] w4))" for es
      using s4 sync_extensions_same_work by (blast intro: same_work_trans)
    show ?thesis
      using None 1 Inr 2 s3 s4 change_new_table_same_work(1) [OF s5 v] same_work_trans [OF s1 track_same_work]
      by (auto simp: gdm_client_get_user_verifier_sync_def Let_def w3_def [symmetric] w4_def [symmetric]
          split: option.splits prod.splits) (metis snd_conv)
  qed (use None 1 s1 in \<open>simp add: gdm_client_get_user_verifier_sync_def\<close>)
qed (simp add: gdm_client_get_user_verifier_sync_def same_work_refl)

fun starts_task :: "client_event \<Rightarrow> bool" where
  "starts_task (GetUserVerifier B) = True"
| "starts_task (GetGreeter B) = True"
| "starts_task (OpenReauthenticationChannel user) = True"
| "starts_task _ = False"

text \<open>An application that enables every extension once.\<close>

fun distinct_extensions :: "client_event \<Rightarrow> bool" where
  "distinct_extensions (SetEnabledExtensions es) = (case es of None \<Rightarrow> False | Some es \<Rightarrow> distinct es)"
| "distinct_extensions _ = True"

lemma ids_given: "sound w \<Longrightarrow> n \<in> set (task_ids w) \<Longrightarrow> n < next_object w"
  by (fastforce simp: sound_def given_out_def task_ids_def List.map_filter_def)

definition one_more :: "nat \<Rightarrow> client_world \<Rightarrow> client_world \<Rightarrow> bool" where
  "one_more n w w' \<longleftrightarrow> accounted_except {} w' \<and> length (task_ids w') = length (task_ids w) + n"

lemma one_more_hands_on: "hands_on t w w' \<Longrightarrow> one_more 1 w w'"
  by (auto simp: one_more_def hands_on_def dest: arg_cong [where f = size])

lemma one_more_same_work: "accounted_except {} w \<Longrightarrow> sound w \<Longrightarrow> same_work w w' \<Longrightarrow> one_more 0 w w'"
  by (simp add: one_more_def accounted_same_work same_work_ids)

lemma new_task:
  assumes "accounted_except {} w" "sound w" "new_object w = (t, v)" "same_work v v'"
  shows "task_of p = Some (t, a) \<Longrightarrow> one_more 1 w (await p v')" "one_more 1 w (g_task_return (t, a) r v')"
proof -
  have s: "same_work w v'" using new_object_same_work [OF assms(3)] assms(4) by (rule same_work_trans)
  have "t = next_object w" using assms(3) by (auto simp: new_object_def)
  then have fresh: "fst (t, a) \<notin> set (task_ids w)" using ids_given [OF assms(2)] by auto
  show "task_of p = Some (t, a) \<Longrightarrow> one_more 1 w (await p v')"
    using one_more_hands_on hands_on_await [OF assms(1,2) s fresh] by blast
  show "one_more 1 w (g_task_return (t, a) r v')"
    using one_more_hands_on hands_on_return [OF assms(1,2) s fresh] by blast
qed

lemma new_task_connection:
  assumes "accounted_except {} w" "sound w" "new_object w = (t, v)"
  shows "one_more 1 w (gdm_client_get_connection B (t, a) v)"
  using new_task(1) [OF assms get_connection_sync_same_work]
  by (auto simp: gdm_client_get_connection_def split: prod.splits)

lemma accounted_step:
  assumes acc: "accounted_except {} w" and snd: "sound w" and e: "distinct_extensions e"
  shows "\<exists>w'. client_step e w = Ret w' \<and> one_more (of_bool (starts_task e)) w w'"
proof -
  obtain t v where o: "new_object w = (t, v)" using new_object_ex by blast
  note work = one_more_same_work [OF acc snd]
  note task = new_task [OF acc snd o same_work_refl] new_task_connection [OF acc snd o]
  show ?thesis
  proof (cases e)
    case (SetEnabledExtensions es)
    with e obtain xs where "es = Some xs" "distinct xs" by (auto split: option.splits)
    then show ?thesis
      using acc SetEnabledExtensions
      by (simp add: gdm_client_set_enabled_extensions_def one_more_def task_ids_def accounted_except_def)
  next
    case (Deliver i fails)
    from accounted_deliver [OF acc snd, of i fails] Deliver show ?thesis
      by (auto simp: one_more_def dest: arg_cong [where f = size])
  qed (use work task in \<open>auto simp: gdm_client_get_user_verifier_def gdm_client_get_greeter_def o
      gdm_client_open_reauthentication_channel_def get_user_verifier_sync_same_work get_greeter_sync_same_work
      open_reauthentication_sync_same_work finish_same_work connection_closed_same_work split: option.splits\<close>)
qed

lemma accounted_new: "accounted_except {} gdm_client_new"
  by (simp add: accounted_except_def gdm_client_new_def task_ids_def ght.wf_empty ght.lookup_empty List.map_filter_def)

lemma accounted_run:
  assumes "accounted_except {} w" "sound w" "\<forall>e \<in> set es. distinct_extensions e"
  shows "\<exists>w'. foldR client_step es w = Ret w' \<and> accounted_except {} w' \<and> sound w' \<and>
    length (task_ids w') = length (task_ids w) + length (filter starts_task es)"
  using assms
proof (induction es arbitrary: w)
  case (Cons e es)
  from accounted_step [OF Cons.prems(1,2), of e] Cons.prems(3)
  obtain v where v: "client_step e w = Ret v" "one_more (of_bool (starts_task e)) w v" by auto
  from Cons.IH [of v] v sound_step [OF Cons.prems(2) v(1)] Cons.prems(3) show ?case by (auto simp: one_more_def)
qed simp

section \<open>Properties\<close>

lemma nothing_pending:
  assumes "accounted_except {} w" "pendings w = []"
  shows "verifier_datas w = []"
proof (rule ccontr)
  assume "verifier_datas w \<noteq> []"
  then obtain d u where "(d, u) \<in> set (verifier_datas w)" by (cases "verifier_datas w") auto
  then have "data_ok [] (ght_lookup (extension_tables w)) d u"
    using assms ght_lookup_set [of "verifier_datas w" d u] by (simp add: accounted_except_def)
  then show False by (auto simp: data_ok_def missing_iff)
qed

lemma closed_slots:
  assumes "tracked w"
  shows "get_slot s (client (fold (\<lambda>h. untrack_proxy (snd h)) hs w)) =
           (if s \<in> snd ` set hs then None else get_slot s (client w))"
  using assms by (induction hs arbitrary: w) (simp_all add: tracked_untrack)

lemma tracked_handler:
  assumes "tracked w"
  shows "(c, s) \<in> set (closed_handlers w) \<longleftrightarrow> (\<exists>p. get_slot s (client w) = Some p \<and> proxy_connection w p = c)"
proof -
  have "(c, s) \<in> set (closed_handlers w) \<longleftrightarrow> (c, s) \<in> set (filter (\<lambda>h. snd h = s) (closed_handlers w))" by simp
  also have "\<dots> \<longleftrightarrow> (\<exists>p. get_slot s (client w) = Some p \<and> proxy_connection w p = c)"
    using assms unfolding tracked_def by (cases "get_slot s (client w)") auto
  finally show ?thesis .
qed

definition working_bus :: client_bus where
  "working_bus =
     \<lparr>manager_fails = None, open_fails = None, connect_fails = None, proxy_fails = None, enable_fails = False,
      choice_list_fails = False, custom_json_fails = False\<rparr>"



text \<open>
  C38. In every run the client watches the connection of every proxy that it keeps with exactly one handler, and has
  no other handler; a connection that closes takes away exactly the proxies that use it.
\<close>

theorem client_proxies_tracked:
  assumes "foldR client_step es gdm_client_new = Ret w"
  shows "tracked w \<and>
    (\<forall>s. get_slot s (client (connection_closed c w)) =
       (case get_slot s (client w) of
          None \<Rightarrow> None
        | Some p \<Rightarrow> if proxy_connection w p = c then None else Some p))"
proof -
  have t: "tracked w" using sound_run [OF assms] by (simp add: sound_def)
  let ?v = "w\<lparr>closed_connections := c # closed_connections w\<rparr>"
  have "proxy_connection ?v = proxy_connection w" by (rule ext) (simp add: proxy_connection_def)
  then have v: "tracked ?v" using t by (simp add: tracked_def cong: option.case_cong)
  have "s \<in> snd ` set (filter (\<lambda>h. fst h = c) (closed_handlers w)) \<longleftrightarrow>
      (\<exists>p. get_slot s (client w) = Some p \<and> proxy_connection w p = c)" for s
    using tracked_handler [OF t, of c s] by force
  then have "get_slot s (client (connection_closed c w)) =
      (if \<exists>p. get_slot s (client w) = Some p \<and> proxy_connection w p = c then None else get_slot s (client w))" for s
    unfolding connection_closed_def closed_slots [OF v] by auto
  then show ?thesis using t by (auto split: option.splits)
qed

theorem client_proxies_tracked_witness:
  "\<exists>w. foldR client_step [GetGreeterSync working_bus, ConnectionClosed 1] gdm_client_new = Ret w \<and> tracked w"
proof -
  have "\<exists>w. foldR client_step [GetGreeterSync working_bus, ConnectionClosed 1] gdm_client_new = Ret w" by simp
  then show ?thesis using client_proxies_tracked by blast
qed

text \<open>
  An extension that is enabled twice: the first proxy that arrives completes the operation and frees its
  data, and the callback of the second uses it.
\<close>

theorem duplicate_extension_use_after_free:
  "foldR client_step
     [SetEnabledExtensions (Some [CHOICE_LIST, CHOICE_LIST]), GetUserVerifier working_bus,
      Deliver 0 None, Deliver 0 None, Deliver 0 None, Deliver 0 None, Deliver 0 None] gdm_client_new = Stop freed_data"
  by code_simp

end
