(* ===== verification/Session_Launcher.thy ===== *)
theory Session_Launcher
  imports Gdm_Common Gdm_Settings
begin

text \<open>
  \<^verbatim>\<open>gdm-x-session.c\<close> and \<^verbatim>\<open>gdm-wayland-session.c\<close>: the programs that the worker starts in the session of a
  user. They start an X server (only the first), a message bus if there is none, and the session itself,
  register the session with the daemon, and end with the session. Each kind of process is started at most once, so
  that the kind names it. The log holds what the launcher does to processes and on the bus.
\<close>

section \<open>State\<close>

datatype launched = XServer | MessageBus | SessionProgram

type_synonym environ = "(string, string) ghash"

datatype launch_effect =
    Spawned launched "string list" environ
  | Signalled launched
  | Reaped launched
  | UpdatedActivationEnvironment string string
  | RegisteredSession
  | RegisteredDisplay
  | RemovedSource
  | RemovedMissingSource

record launcher_state =
  x_subprocess :: bool
  auth_file :: cstr
  display_name :: cstr
  bus_subprocess :: bool
  bus_connection :: bool
  display_manager_proxy :: bool
  bus_address :: cstr
  environment :: "string list option"
  session_subprocess :: bool
  session_command :: string
  session_exit_status :: int
  register_display_id :: bool
  register_source_pending :: bool
  launch_cancelled :: bool
  debug_enabled :: bool
  launch_log :: "launch_effect list"

datatype line_read = ReadFails | ReadNothing | ReadLine string

text \<open>What the system does; every step of the set up may fail.\<close>

record launcher_env =
  own_environ :: environ
  GDMCONFDIR :: string
  settings_work :: bool
  setting_debug :: "bool option"
  setting_disallow_tcp :: "bool option"
  runtime_dir :: string
  auth_opens :: bool
  auth_stream :: bool
  hostname_works :: cstr
  cookie :: cstr
  auth_writes :: "nat \<Rightarrow> bool"
  x_server_path :: cstr
  x_pipe :: bool
  x_starts :: bool
  x_display_line :: line_read
  session_bus_running :: bool
  bus_pipe :: bool
  bus_starts :: bool
  bus_address_line :: line_read
  bus_connects :: bool
  systemd_environment :: "string list option"
  activation_environment_works :: bool
  display_manager_works :: bool
  parse_argv :: "string \<Rightarrow> string list option"
  session_starts :: bool
  session_registers :: bool

definition log_launch :: "launch_effect \<Rightarrow> launcher_state \<Rightarrow> launcher_state" where
  "log_launch e st = st\<lparr>launch_log := launch_log st @ [e]\<rparr>"

definition launcher_getenv :: "launcher_env \<Rightarrow> string \<Rightarrow> cstr" where
  "launcher_getenv E k = ght_lookup (own_environ E) k"

text \<open>\<^verbatim>\<open>g_subprocess_launcher_setenv\<close>; a value that is \<^verbatim>\<open>NULL\<close> changes nothing.\<close>

definition environ_setenv :: "string \<Rightarrow> cstr \<Rightarrow> bool \<Rightarrow> environ \<Rightarrow> environ" where
  "environ_setenv k v overwrite env =
     (case v of
        None \<Rightarrow> env
      | Some x \<Rightarrow> if \<not> overwrite \<and> ght_contains env k then env else ght_insert k x env)"

section \<open>The X server\<close>

datatype xauth_family = FamilyLocal | FamilyWild

record xauth =
  family :: xauth_family
  address :: string
  auth_name :: string
  auth_data :: string

definition create_auth_file :: "launcher_env \<Rightarrow> cstr" where
  "create_auth_file E =
     (if auth_opens E \<and> auth_stream E then Some (runtime_dir E @ ''/gdm/Xauthority'') else None)"

text \<open>The name of the file, and the entries that are written to it; \<open>cookie\<close> is \<open>None\<close> without random bytes.\<close>

definition prepare_auth_file :: "launcher_env \<Rightarrow> cstr \<times> xauth list" where
  "prepare_auth_file E =
     (case create_auth_file E of
        None \<Rightarrow> (None, [])
      | Some name \<Rightarrow>
          (case cookie E of
             None \<Rightarrow> (None, [])
           | Some bytes \<Rightarrow>
               let auth_entry = \<lparr>family = FamilyLocal,
                                 address = (case hostname_works E of Some h \<Rightarrow> h | None \<Rightarrow> ''localhost''),
                                 auth_name = ''MIT-MAGIC-COOKIE-1'', auth_data = bytes\<rparr>
               in if \<not> auth_writes E 0 then (None, [])
                  else if \<not> auth_writes E 1 then (None, [auth_entry])
                  else (Some name, [auth_entry, auth_entry\<lparr>family := FamilyWild\<rparr>])))"

definition vt_argument :: "launcher_env \<Rightarrow> string list" where
  "vt_argument E =
     (case launcher_getenv E ''XDG_VTNR'' of
        None \<Rightarrow> []
      | Some v \<Rightarrow>
          let vt = to_gint (fst (strtol10 v))
          in if 0 < vt \<and> vt < 64 then [''vt'' @ dec_of_nat (nat vt)] else [])"

text \<open>The arguments up to the first \<^verbatim>\<open>NULL\<close>: a missing file of cookies cuts them off.\<close>

definition x_server_arguments :: "launcher_env \<Rightarrow> bool \<Rightarrow> bool \<Rightarrow> cstr \<Rightarrow> string list" where
  "x_server_arguments E disallow_tcp debug auth =
     map the (takeWhile (\<lambda>a. a \<noteq> None)
       ([x_server_path E] @ map Some (vt_argument E) @ [Some ''-displayfd'', Some ''3'', Some ''-auth'', auth] @
        (if \<not> disallow_tcp then [Some ''-listen'', Some ''tcp''] else []) @
        map Some ([''-background'', ''none'', ''-noreset'', ''-keeptty'', ''-novtswitch'', ''-verbose'', if debug then ''7'' else ''3''] @
                  (if debug then [''-core''] else []))))"

definition null_message :: string where
  "null_message = ''message of an error that is NULL''"

definition spawn_x_server :: "launcher_env \<Rightarrow> bool \<Rightarrow> launcher_state \<Rightarrow> (bool \<times> launcher_state) run" where
  "spawn_x_server E disallow_tcp st =
     (let auth = fst (prepare_auth_file E);
          argv = x_server_arguments E disallow_tcp (debug_enabled st) auth
      in if \<not> x_pipe E then Ret (False, st)
         else if argv = [] then Stop null_message
         else if \<not> x_starts E then Ret (False, st)
         else
           let st = log_launch (Spawned XServer argv (environ_setenv ''XORG_RUN_AS_USER_OK'' (Some ''1'') True (own_environ E))) st
           in case x_display_line E of
                ReadFails \<Rightarrow> Ret (False, st)
              | ReadNothing \<Rightarrow> Ret (False, st)
              | ReadLine n \<Rightarrow>
                  Ret (True, st\<lparr>display_name := Some (CHR '':'' # n), auth_file := auth, x_subprocess := True\<rparr>))"

section \<open>The message bus\<close>

definition spawn_bus :: "launcher_env \<Rightarrow> string \<Rightarrow> launcher_state \<Rightarrow> bool \<times> launcher_state" where
  "spawn_bus E fd st =
     (if session_bus_running E then (True, st\<lparr>bus_connection := True\<rparr>)
      else if \<not> bus_pipe E \<or> \<not> bus_starts E then (False, st)
      else
        let st = log_launch (Spawned MessageBus [''dbus-daemon'', ''--print-address'', fd, ''--session''] (own_environ E)) st
        in case bus_address_line E of
             ReadFails \<Rightarrow> (False, st)
           | ReadNothing \<Rightarrow> (False, st)
           | ReadLine a \<Rightarrow>
               let st = st\<lparr>bus_address := Some a, bus_subprocess := True\<rparr>
               in if \<not> bus_connects E then (False, st) else (True, st\<lparr>bus_connection := True\<rparr>))"

definition import_environment :: "launcher_env \<Rightarrow> launcher_state \<Rightarrow> launcher_state" where
  "import_environment E st =
     (case systemd_environment E of None \<Rightarrow> st | Some env \<Rightarrow> st\<lparr>environment := Some env\<rparr>)"

definition null_string :: string where
  "null_string = ''string of a variant that is NULL''"

definition update_bus_environment :: "launcher_env \<Rightarrow> launcher_state \<Rightarrow> (bool \<times> launcher_state) run" where
  "update_bus_environment E st =
     (case (display_name st, auth_file st) of
        (Some d, Some a) \<Rightarrow>
          if activation_environment_works E then Ret (True, log_launch (UpdatedActivationEnvironment d a) st)
          else Ret (False, st)
      | _ \<Rightarrow> Stop null_string)"

section \<open>The session\<close>

definition session_variables :: "string list" where
  "session_variables = [''DISPLAY'', ''XAUTHORITY'', ''WAYLAND_DISPLAY'', ''WAYLAND_SOCKET'']"

definition fallback_variables :: "string list" where
  "fallback_variables = [''PATH'']"

definition import_entry :: "string \<Rightarrow> environ \<Rightarrow> environ" where
  "import_entry s env =
     (case split_first (CHR ''='') s of
        None \<Rightarrow> env
      | Some (k, v) \<Rightarrow> environ_setenv k (Some v) (k \<in> set fallback_variables) env)"

text \<open>The variables of the user's systemd under those of the launcher.\<close>

definition merge_environment :: "launcher_env \<Rightarrow> launcher_state \<Rightarrow> environ" where
  "merge_environment E st =
     (case environment st of
        None \<Rightarrow> own_environ E
      | Some entries \<Rightarrow>
          fold (\<lambda>k env. if launcher_getenv E k = None then ght_remove k env else env) session_variables
            (fold import_entry entries (own_environ E)))"

definition x_session_environment :: "launcher_env \<Rightarrow> launcher_state \<Rightarrow> environ" where
  "x_session_environment E st =
     environ_setenv ''WINDOWPATH'' (launcher_getenv E ''XDG_VTNR'') True
       (environ_setenv ''DBUS_SESSION_BUS_ADDRESS'' (bus_address st) True
         (environ_setenv ''XAUTHORITY'' (auth_file st) True
           (environ_setenv ''DISPLAY'' (display_name st) True (merge_environment E st))))"

definition start_session :: "launcher_env \<Rightarrow> string list \<Rightarrow> environ \<Rightarrow> launcher_state \<Rightarrow> bool \<times> launcher_state" where
  "start_session E argv env st =
     (if session_starts E
      then (True, log_launch (Spawned SessionProgram argv env) st\<lparr>session_subprocess := True\<rparr>)
      else (False, st))"

definition x_spawn_session :: "launcher_env \<Rightarrow> launcher_state \<Rightarrow> bool \<times> launcher_state" where
  "x_spawn_session E st =
     start_session E [GDMCONFDIR E @ ''/Xsession'', session_command st] (x_session_environment E st) st"

definition wayland_spawn_session :: "launcher_env \<Rightarrow> launcher_state \<Rightarrow> bool \<times> launcher_state" where
  "wayland_spawn_session E st =
     (case parse_argv E (session_command st) of
        None \<Rightarrow> (False, st)
      | Some argv \<Rightarrow>
          start_session E argv
            (environ_setenv ''DBUS_SESSION_BUS_ADDRESS'' (bus_address st) True (merge_environment E st)) st)"

definition connect_to_display_manager :: "launcher_env \<Rightarrow> launcher_state \<Rightarrow> bool \<times> launcher_state" where
  "connect_to_display_manager E st = (display_manager_works E, st\<lparr>display_manager_proxy := display_manager_works E\<rparr>)"

definition register_session :: "launcher_env \<Rightarrow> launcher_state \<Rightarrow> bool \<times> launcher_state" where
  "register_session E st =
     (if session_registers E then (True, log_launch RegisteredSession st) else (False, st))"

definition register_display_later :: "launcher_state \<Rightarrow> launcher_state" where
  "register_display_later st = st\<lparr>register_display_id := True, register_source_pending := True\<rparr>"

section \<open>The main loop\<close>

datatype exit_kind = ExitedWith int | KilledBy nat

text \<open>\<open>None\<close> is a wait that was cancelled.\<close>

datatype launch_event =
    XServerFinished "exit_kind option"
  | BusFinished "exit_kind option"
  | SessionFinished "exit_kind option"
  | Sigterm
  | RegisterTimeout bool

definition on_x_server_finished :: "exit_kind option \<Rightarrow> launcher_state \<Rightarrow> launcher_state" where
  "on_x_server_finished r st =
     (case r of None \<Rightarrow> st | Some k \<Rightarrow> log_launch (Reaped XServer) st\<lparr>x_subprocess := False\<rparr>)"

definition on_bus_finished :: "exit_kind option \<Rightarrow> launcher_state \<Rightarrow> launcher_state" where
  "on_bus_finished r st =
     (case r of None \<Rightarrow> st | Some k \<Rightarrow> log_launch (Reaped MessageBus) st\<lparr>bus_subprocess := False\<rparr>)"

definition on_session_finished :: "exit_kind option \<Rightarrow> launcher_state \<Rightarrow> launcher_state" where
  "on_session_finished r st =
     (case r of
        None \<Rightarrow> st
      | Some k \<Rightarrow>
          let st = log_launch (Reaped SessionProgram) st\<lparr>session_subprocess := False\<rparr>
          in case k of ExitedWith n \<Rightarrow> st\<lparr>session_exit_status := n\<rparr> | KilledBy s \<Rightarrow> st)"

definition on_sigterm :: "launcher_state \<Rightarrow> launcher_state" where
  "on_sigterm st = st\<lparr>launch_cancelled := True\<rparr>"

text \<open>The source is removed after its callback; its identifier stays in the state.\<close>

definition register_display_timeout_cb :: "bool \<Rightarrow> launcher_state \<Rightarrow> launcher_state" where
  "register_display_timeout_cb works st =
     (let st = st\<lparr>register_source_pending := False\<rparr> in if works then log_launch RegisteredDisplay st else st)"

fun handle_launch_event :: "launch_event \<Rightarrow> launcher_state \<Rightarrow> launcher_state" where
  "handle_launch_event (XServerFinished r) st = on_x_server_finished r st"
| "handle_launch_event (BusFinished r) st = on_bus_finished r st"
| "handle_launch_event (SessionFinished r) st = on_session_finished r st"
| "handle_launch_event Sigterm st = on_sigterm st"
| "handle_launch_event (RegisterTimeout works) st = register_display_timeout_cb works st"

fun quits :: "launch_event \<Rightarrow> bool" where
  "quits (RegisterTimeout works) = False"
| "quits _ = True"

text \<open>
  The events of each iteration of the loop, which ends after the first iteration with an event that quits. \<open>None\<close>
  is a loop that has not ended yet.
\<close>

fun launcher_loop :: "launch_event list list \<Rightarrow> launcher_state \<Rightarrow> launcher_state option" where
  "launcher_loop [] st = None"
| "launcher_loop (es # ess) st =
     (let st = fold handle_launch_event es st in if list_ex quits es then Some st else launcher_loop ess st)"

section \<open>The end\<close>

definition log_when :: "bool \<Rightarrow> launch_effect \<Rightarrow> launcher_state \<Rightarrow> launcher_state" where
  "log_when b e st = (if b then log_launch e st else st)"

definition signal_subprocesses :: "launcher_state \<Rightarrow> launcher_state" where
  "signal_subprocesses st =
     log_when (x_subprocess st) (Signalled XServer)
       (log_when (bus_subprocess st) (Signalled MessageBus)
         (log_when (session_subprocess st) (Signalled SessionProgram) st))"

definition wait_on_subprocesses :: "launcher_state \<Rightarrow> launcher_state" where
  "wait_on_subprocesses st =
     log_when (session_subprocess st) (Reaped SessionProgram)
       (log_when (bus_subprocess st) (Reaped MessageBus)
         (log_when (x_subprocess st) (Reaped XServer) st))"

definition clear_state :: "launcher_state \<Rightarrow> launcher_state" where
  "clear_state st =
     (let st = st\<lparr>bus_connection := False, session_subprocess := False, x_subprocess := False, environment := None,
                  auth_file := None, display_name := None\<rparr>
      in if register_display_id st
         then log_launch (if register_source_pending st then RemovedSource else RemovedMissingSource)
                (st\<lparr>register_display_id := False, register_source_pending := False\<rparr>)
         else st)"

definition end_launcher :: "int \<Rightarrow> launcher_state \<Rightarrow> (int \<times> launcher_state) option run" where
  "end_launcher status st = Ret (Some (status, clear_state (wait_on_subprocesses (signal_subprocesses st))))"

definition EX_OK :: int where "EX_OK = 0"
definition EX_USAGE :: int where "EX_USAGE = 64"
definition EX_DATAERR :: int where "EX_DATAERR = 65"
definition EX_SOFTWARE :: int where "EX_SOFTWARE = 70"

definition init_state :: "string \<Rightarrow> launcher_state" where
  "init_state command =
     \<lparr>x_subprocess = False, auth_file = None, display_name = None, bus_subprocess = False, bus_connection = False,
      display_manager_proxy = False, bus_address = None, environment = None, session_subprocess = False,
      session_command = command, session_exit_status = 0, register_display_id = False,
      register_source_pending = False, launch_cancelled = False, debug_enabled = False, launch_log = []\<rparr>"

definition run_launcher_loop :: "launch_event list list \<Rightarrow> launcher_state \<Rightarrow> (int \<times> launcher_state) option run" where
  "run_launcher_loop ess st =
     (case launcher_loop ess st of
        None \<Rightarrow> Ret None
      | Some st \<Rightarrow> end_launcher (if session_subprocess st then EX_OK else session_exit_status st) st)"

definition x_start :: "launcher_env \<Rightarrow> launch_event list list \<Rightarrow> launcher_state \<Rightarrow> (int \<times> launcher_state) option run" where
  "x_start E ess st =
     (let (ret, st) = connect_to_display_manager E st
      in if \<not> ret then end_launcher EX_OK st
         else
           let (ret, st) = x_spawn_session E st
           in if \<not> ret then end_launcher EX_SOFTWARE st
              else
                let (ret, st) = register_session E st
                in if \<not> ret then end_launcher EX_SOFTWARE st
                   else run_launcher_loop ess (register_display_later st))"

definition x_with_bus :: "launcher_env \<Rightarrow> launch_event list list \<Rightarrow> launcher_state \<Rightarrow> (int \<times> launcher_state) option run" where
  "x_with_bus E ess st =
     bindR (update_bus_environment E (import_environment E st)) (\<lambda>(ret, st).
       if \<not> ret then end_launcher EX_SOFTWARE st else x_start E ess st)"

definition x_with_server :: "launcher_env \<Rightarrow> launch_event list list \<Rightarrow> launcher_state \<Rightarrow> (int \<times> launcher_state) option run" where
  "x_with_server E ess st =
     (let (ret, st) = spawn_bus E ''4'' st
      in if \<not> ret then end_launcher EX_SOFTWARE st else x_with_bus E ess st)"

definition x_main :: "launcher_env \<Rightarrow> string list \<Rightarrow> launch_event list list \<Rightarrow> (int \<times> launcher_state) option run" where
  "x_main E argv ess =
     (case argv of
        [name, command] \<Rightarrow>
          let st = init_state command
          in if \<not> settings_work E then end_launcher EX_DATAERR st
             else
               let st = st\<lparr>debug_enabled := (case setting_debug E of Some b \<Rightarrow> b | None \<Rightarrow> False)\<rparr>;
                   disallow_tcp = (case setting_disallow_tcp E of Some b \<Rightarrow> b | None \<Rightarrow> True)
               in bindR (spawn_x_server E disallow_tcp st) (\<lambda>(ret, st).
                    if \<not> ret then end_launcher EX_SOFTWARE st else x_with_server E ess st)
      | _ \<Rightarrow> Ret (Some (EX_USAGE, init_state [])))"

text \<open>The options are parsed: \<open>args\<close> is what is left, \<open>handle_registration\<close> the flag.\<close>

definition wayland_start ::
  "launcher_env \<Rightarrow> bool \<Rightarrow> launch_event list list \<Rightarrow> launcher_state \<Rightarrow> (int \<times> launcher_state) option run" where
  "wayland_start E handle_registration ess st =
     (let (ret, st) = wayland_spawn_session E (import_environment E st)
      in if \<not> ret then end_launcher EX_SOFTWARE st
         else
           let (ret, st) = connect_to_display_manager E st
           in if \<not> ret then end_launcher EX_OK st
              else if handle_registration
              then let (ret, st) = register_session E st
                   in if \<not> ret then end_launcher EX_SOFTWARE st
                      else run_launcher_loop ess (register_display_later st)
              else run_launcher_loop ess st)"

definition wayland_main ::
  "launcher_env \<Rightarrow> string list \<Rightarrow> bool \<Rightarrow> launch_event list list \<Rightarrow> (int \<times> launcher_state) option run" where
  "wayland_main E args handle_registration ess =
     (case args of
        [command] \<Rightarrow>
          let st = init_state command
          in if \<not> settings_work E then end_launcher EX_DATAERR st
             else
               let st = st\<lparr>debug_enabled := (case setting_debug E of Some b \<Rightarrow> b | None \<Rightarrow> False)\<rparr>;
                   (ret, st) = spawn_bus E ''3'' st
               in if \<not> ret then end_launcher EX_SOFTWARE st else wayland_start E handle_registration ess st
      | _ \<Rightarrow> Ret (Some (EX_USAGE, init_state [])))"

section \<open>The environment of a session\<close>

text \<open>
  The reference. What the launcher sets comes first; a variable of a session is never taken from the user's systemd; of
  the others the launcher's own value wins, but for \<^verbatim>\<open>PATH\<close>.
\<close>

definition imported :: "launcher_state \<Rightarrow> (string \<times> string) list" where
  "imported st = (case environment st of None \<Rightarrow> [] | Some es \<Rightarrow> List.map_filter (split_first (CHR ''='')) es)"

definition inherited_variable :: "launcher_env \<Rightarrow> launcher_state \<Rightarrow> string \<Rightarrow> cstr" where
  "inherited_variable E st k =
     (if k \<in> set session_variables then launcher_getenv E k
      else if k \<in> set fallback_variables
      then (case map_of (rev (imported st)) k of Some v \<Rightarrow> Some v | None \<Rightarrow> launcher_getenv E k)
      else (case launcher_getenv E k of Some v \<Rightarrow> Some v | None \<Rightarrow> map_of (imported st) k))"

definition x_session_variable :: "launcher_env \<Rightarrow> launcher_state \<Rightarrow> string \<Rightarrow> cstr" where
  "x_session_variable E st k =
     (let set_here = (if k = ''WINDOWPATH'' then launcher_getenv E ''XDG_VTNR''
                      else if k = ''DBUS_SESSION_BUS_ADDRESS'' then bus_address st
                      else if k = ''XAUTHORITY'' then auth_file st
                      else if k = ''DISPLAY'' then display_name st
                      else None)
      in case set_here of Some v \<Rightarrow> Some v | None \<Rightarrow> inherited_variable E st k)"

lemma lookup_setenv:
  "ght_lookup (environ_setenv k v overwrite env) j =
     (case v of
        None \<Rightarrow> ght_lookup env j
      | Some x \<Rightarrow> if j = k \<and> (overwrite \<or> ght_lookup env k = None) then Some x else ght_lookup env j)"
  by (auto simp: environ_setenv_def ght_lookup_insert ght_contains_iff split: option.splits)

lemma lookup_imported:
  "ght_lookup (fold import_entry es env) k =
     (let parsed = List.map_filter (split_first (CHR ''='')) es
      in if k \<in> set fallback_variables
         then (case map_of (rev parsed) k of Some v \<Rightarrow> Some v | None \<Rightarrow> ght_lookup env k)
         else (case ght_lookup env k of Some v \<Rightarrow> Some v | None \<Rightarrow> map_of parsed k))"
proof (induction es arbitrary: env)
  case (Cons e es)
  show ?case
  proof (cases "split_first (CHR ''='') e")
    case None
    with Cons show ?thesis by (simp add: import_entry_def map_filter_simps)
  next
    case (Some kv)
    obtain j v where kv: "kv = (j, v)" by fastforce
    with Cons Some show ?thesis
      by (auto simp: import_entry_def map_filter_simps lookup_setenv Let_def map_add_def split: option.splits)
  qed
qed (simp add: map_filter_simps split: option.splits)

lemma lookup_without_stale:
  "ght_lookup (fold (\<lambda>k env. if f k then ght_remove k env else env) ks env) j =
     (if j \<in> set ks \<and> f j then None else ght_lookup env j)"
  by (induction ks arbitrary: env) (auto simp: ght_lookup_remove)

lemma session_not_fallback: "k \<in> set session_variables \<Longrightarrow> k \<notin> set fallback_variables"
  by (auto simp: session_variables_def fallback_variables_def)

lemma lookup_merged: "ght_lookup (merge_environment E st) k = inherited_variable E st k"
proof (cases "environment st")
  case None
  then show ?thesis
    by (simp add: merge_environment_def inherited_variable_def imported_def launcher_getenv_def split: option.splits)
next
  case (Some es)
  then show ?thesis
    using session_not_fallback [of k]
    by (auto simp: merge_environment_def lookup_without_stale lookup_imported inherited_variable_def imported_def
        launcher_getenv_def Let_def split: option.splits)
qed

section \<open>Processes\<close>

definition spawned :: "launched \<Rightarrow> launcher_state \<Rightarrow> bool" where
  "spawned p st \<longleftrightarrow> (\<exists>argv env. Spawned p argv env \<in> set (launch_log st))"

fun kept_subprocess :: "launched \<Rightarrow> launcher_state \<Rightarrow> bool" where
  "kept_subprocess XServer st = x_subprocess st"
| "kept_subprocess MessageBus st = bus_subprocess st"
| "kept_subprocess SessionProgram st = session_subprocess st"

text \<open>Processes that were started, have not ended and are not known any more.\<close>

definition lost :: "launcher_state \<Rightarrow> launched set" where
  "lost st = {p. spawned p st \<and> Reaped p \<notin> set (launch_log st) \<and> \<not> kept_subprocess p st}"

definition left_behind :: "launcher_state \<Rightarrow> launched set" where
  "left_behind st = {p. spawned p st \<and> Reaped p \<notin> set (launch_log st)}"

lemma log_when_log: "launch_log (log_when b e st) = launch_log st @ (if b then [e] else [])"
  by (simp add: log_when_def log_launch_def)

lemma log_when_kept [simp]:
  "x_subprocess (log_when b e st) = x_subprocess st" "bus_subprocess (log_when b e st) = bus_subprocess st"
  "session_subprocess (log_when b e st) = session_subprocess st"
  by (simp_all add: log_when_def log_launch_def)

lemma ended_log:
  "set (launch_log (clear_state (wait_on_subprocesses (signal_subprocesses st)))) \<subseteq>
     set (launch_log st) \<union> {Reaped p |p. kept_subprocess p st} \<union> range Signalled \<union> {RemovedSource, RemovedMissingSource}"
  "set (launch_log st) \<union> {Reaped p |p. kept_subprocess p st} \<subseteq>
     set (launch_log (clear_state (wait_on_subprocesses (signal_subprocesses st))))"
proof -
  have reaped: "{Reaped p |p. kept_subprocess p st} =
      (if x_subprocess st then {Reaped XServer} else {}) \<union> (if bus_subprocess st then {Reaped MessageBus} else {}) \<union>
      (if session_subprocess st then {Reaped SessionProgram} else {})"
    by (auto elim: kept_subprocess.elims intro: kept_subprocess.simps [THEN iffD2])
  have "set (launch_log (clear_state v)) \<subseteq> set (launch_log v) \<union> {RemovedSource, RemovedMissingSource}"
      "set (launch_log v) \<subseteq> set (launch_log (clear_state v))" for v
    by (auto simp: clear_state_def log_launch_def Let_def)
  then show
    "set (launch_log (clear_state (wait_on_subprocesses (signal_subprocesses st)))) \<subseteq>
       set (launch_log st) \<union> {Reaped p |p. kept_subprocess p st} \<union> range Signalled \<union> {RemovedSource, RemovedMissingSource}"
    "set (launch_log st) \<union> {Reaped p |p. kept_subprocess p st} \<subseteq>
       set (launch_log (clear_state (wait_on_subprocesses (signal_subprocesses st))))"
    unfolding reaped
    by (fastforce simp: wait_on_subprocesses_def signal_subprocesses_def log_when_log split: if_splits)+
qed

lemma left_behind_end: "left_behind (clear_state (wait_on_subprocesses (signal_subprocesses st))) = lost st"
  using ended_log [of st] by (fastforce simp: left_behind_def lost_def spawned_def)

lemma lost_spawned:
  "lost (log_launch (Spawned p argv env) st) = lost st \<union> (if Reaped p \<in> set (launch_log st) \<or> kept_subprocess p st then {} else {p})"
  by (auto simp: lost_def spawned_def log_launch_def elim!: kept_subprocess.elims)

lemma lost_keeping:
  "lost (st\<lparr>x_subprocess := True\<rparr>) = lost st - {XServer}" "lost (st\<lparr>bus_subprocess := True\<rparr>) = lost st - {MessageBus}"
  "lost (st\<lparr>session_subprocess := True\<rparr>) = lost st - {SessionProgram}"
  by (auto simp: lost_def spawned_def elim!: kept_subprocess.elims)

lemma lost_other [simp]:
  "lost (st\<lparr>display_name := a\<rparr>) = lost st" "lost (st\<lparr>auth_file := a\<rparr>) = lost st" "lost (st\<lparr>bus_address := a\<rparr>) = lost st"
  "lost (st\<lparr>bus_connection := b\<rparr>) = lost st" "lost (st\<lparr>environment := c\<rparr>) = lost st" "lost (st\<lparr>debug_enabled := b\<rparr>) = lost st"
  "lost (st\<lparr>display_manager_proxy := b\<rparr>) = lost st" "lost (st\<lparr>session_exit_status := n\<rparr>) = lost st"
  "lost (st\<lparr>register_display_id := b\<rparr>) = lost st" "lost (st\<lparr>register_source_pending := b\<rparr>) = lost st"
  "lost (st\<lparr>launch_cancelled := b\<rparr>) = lost st"
  by (auto simp: lost_def spawned_def elim!: kept_subprocess.elims)

lemma lost_logged [simp]:
  "lost (log_launch (UpdatedActivationEnvironment d a) st) = lost st" "lost (log_launch RegisteredSession st) = lost st"
  "lost (log_launch RegisteredDisplay st) = lost st"
  by (auto simp: lost_def spawned_def log_launch_def elim!: kept_subprocess.elims)

lemma lost_init: "lost (init_state c) = {}"
  by (simp add: lost_def spawned_def init_state_def)

lemma lost_x_server:
  assumes "spawn_x_server E tcp st = Ret (ret, st')" "lost st = {}"
  shows "lost st' \<subseteq> {XServer} \<and> (ret \<longrightarrow> lost st' = {} \<and> (\<exists>n. x_display_line E = ReadLine n)) \<and>
         (lost st' \<noteq> {} \<longrightarrow> (\<forall>n. x_display_line E \<noteq> ReadLine n))"
  using assms
  by (auto simp: spawn_x_server_def Let_def lost_spawned lost_keeping split: if_splits line_read.splits)

lemma lost_bus:
  assumes "spawn_bus E fd st = (ret, st')" "lost st = {}"
  shows "lost st' \<subseteq> {MessageBus} \<and> (ret \<longrightarrow> lost st' = {}) \<and>
         (lost st' \<noteq> {} \<longrightarrow> (\<forall>a. bus_address_line E \<noteq> ReadLine a)) "
  using assms
  by (auto simp: spawn_bus_def Let_def lost_spawned lost_keeping split: if_splits line_read.splits)

lemma lost_loop: "lost st = {} \<Longrightarrow> launcher_loop ess st = Some st' \<Longrightarrow> lost st' = {}"
proof (induction ess st rule: launcher_loop.induct)
  case (2 es ess st)
  have event: "lost (handle_launch_event e v) \<subseteq> lost v" for e v
    by (cases e) (auto simp: on_x_server_finished_def on_bus_finished_def on_session_finished_def on_sigterm_def
        register_display_timeout_cb_def Let_def lost_def spawned_def log_launch_def
        split: option.splits exit_kind.splits elim!: kept_subprocess.elims)
  have "lost (fold handle_launch_event es v) \<subseteq> lost v" for v
    by (induction es arbitrary: v) (use event in \<open>auto, blast\<close>)
  then have "lost (fold handle_launch_event es st) = {}" using 2(2) by blast
  with 2 show ?case by (auto simp: Let_def split: if_splits)
qed simp

lemma lost_started: "start_session E argv env st = (ret, st') \<Longrightarrow> lost st = {} \<Longrightarrow> lost st' = {}"
  by (auto simp: start_session_def lost_spawned lost_keeping split: if_splits)

lemma end_launcher_lost:
  "end_launcher n v = Ret (Some (status, st)) \<Longrightarrow> left_behind st = lost v"
  by (auto simp: end_launcher_def left_behind_end)

lemma run_loop_lost:
  "run_launcher_loop ess v = Ret (Some (status, st)) \<Longrightarrow> lost v = {} \<Longrightarrow> left_behind st = {}"
  using lost_loop end_launcher_lost by (fastforce simp: run_launcher_loop_def split: option.splits)

lemma lost_update: "update_bus_environment E st = Ret (ret, st') \<Longrightarrow> lost st' = lost st"
  by (auto simp: update_bus_environment_def split: option.splits if_splits)

lemma lost_import: "lost (import_environment E st) = lost st"
  by (simp add: import_environment_def split: option.splits)

section \<open>Properties\<close>

definition demo_launcher_env :: launcher_env where
  "demo_launcher_env =
     \<lparr>own_environ = [(''PATH'', ''/bin'')], GDMCONFDIR = ''/etc/gdm'', settings_work = True,
      setting_debug = Some False, setting_disallow_tcp = None, runtime_dir = ''/run'', auth_opens = True,
      auth_stream = True, hostname_works = Some ''host'', cookie = Some ''0123456789abcdef'', auth_writes = (\<lambda>_. True),
      x_server_path = Some ''/usr/bin/X'', x_pipe = True, x_starts = True, x_display_line = ReadLine ''1'',
      session_bus_running = False, bus_pipe = True, bus_starts = True, bus_address_line = ReadLine ''unix:/bus'',
      bus_connects = True, systemd_environment = Some [''PATH=/usr/bin'', ''DISPLAY=:7''],
      activation_environment_works = True, display_manager_works = True, parse_argv = (\<lambda>c. Some [c]),
      session_starts = True, session_registers = True\<rparr>"

lemma x_start_lost:
  assumes "x_start E ess v = Ret (Some (status, st))" "lost v = {}"
  shows "left_behind st = {}"
  using assms
  by (auto simp: x_start_def Let_def connect_to_display_manager_def register_session_def register_display_later_def
      x_spawn_session_def split: if_splits prod.splits dest!: lost_started end_launcher_lost run_loop_lost)

lemma x_with_bus_lost:
  assumes "x_with_bus E ess v = Ret (Some (status, st))" "lost v = {}"
  shows "left_behind st = {}"
  using assms lost_import [of E v]
  by (auto simp: x_with_bus_def bindR_Ret_iff split: if_splits dest!: lost_update end_launcher_lost x_start_lost)

lemma x_with_server_lost:
  assumes "x_with_server E ess v = Ret (Some (status, st))" "lost v = {}"
  shows "left_behind st \<subseteq> {p. p = MessageBus \<and> (\<forall>a. bus_address_line E \<noteq> ReadLine a)}"
proof -
  obtain r s2 where 2: "spawn_bus E ''4'' v = (r, s2)" by fastforce
  note l2 = lost_bus [OF 2 assms(2)]
  show ?thesis
  proof (cases r)
    case True
    with assms(1) 2 x_with_bus_lost l2 have "left_behind st = {}" by (simp add: x_with_server_def)
    then show ?thesis by simp
  next
    case False
    with assms(1) 2 end_launcher_lost have "left_behind st = lost s2" by (auto simp: x_with_server_def)
    with l2 show ?thesis by auto
  qed
qed

text \<open>
  C39. Whatever fails, a launcher that ends has waited for every process that it started, but for an X server that did
  not report its display and a message bus that did not report its address.
\<close>

theorem x_launcher_children:
  assumes "x_main E argv ess = Ret (Some (status, st))"
  shows "left_behind st \<subseteq> {p. p = XServer \<and> (\<forall>n. x_display_line E \<noteq> ReadLine n) \<or>
                              p = MessageBus \<and> (\<forall>a. bus_address_line E \<noteq> ReadLine a)}"
proof (cases "\<exists>name command. argv = [name, command] \<and> settings_work E")
  case False
  have "left_behind (init_state []) = {}" by (simp add: left_behind_def spawned_def init_state_def)
  then have "left_behind st = {}"
    using assms False end_launcher_lost lost_init by (auto simp: x_main_def Let_def split: if_splits list.splits)
  then show ?thesis by simp
next
  case True
  then obtain name command where argv: "argv = [name, command]" "settings_work E" by blast
  let ?s0 = "(init_state command)\<lparr>debug_enabled := (case setting_debug E of Some b \<Rightarrow> b | None \<Rightarrow> False)\<rparr>"
  let ?tcp = "case setting_disallow_tcp E of Some b \<Rightarrow> b | None \<Rightarrow> True"
  from assms argv obtain r s1 where 1: "spawn_x_server E ?tcp ?s0 = Ret (r, s1)"
      "(if \<not> r then end_launcher EX_SOFTWARE s1 else x_with_server E ess s1) = Ret (Some (status, st))"
    by (auto simp: x_main_def bindR_Ret_iff Let_def)
  note l1 = lost_x_server [OF 1(1)]
  show ?thesis
  proof (cases r)
    case True
    with 1 l1 have "left_behind st \<subseteq> {p. p = MessageBus \<and> (\<forall>a. bus_address_line E \<noteq> ReadLine a)}"
      by (intro x_with_server_lost) (auto simp: lost_init)
    then show ?thesis by auto
  next
    case False
    with 1(2) end_launcher_lost have "left_behind st = lost s1" by auto
    with l1 show ?thesis by (auto simp: lost_init)
  qed
qed

theorem x_launcher_children_witness:
  "left_behind (snd (the (case x_main demo_launcher_env [''gdm-x-session'', ''gnome'']
       [[SessionFinished (Some (ExitedWith 3))]] of Ret r \<Rightarrow> r | _ \<Rightarrow> None))) = {}"
proof -
  let ?r = "x_main demo_launcher_env [''gdm-x-session'', ''gnome''] [[SessionFinished (Some (ExitedWith 3))]]"
  have line: "x_display_line demo_launcher_env = ReadLine ''1''" "bus_address_line demo_launcher_env = ReadLine ''unix:/bus''"
    by (simp_all add: demo_launcher_env_def)
  have "\<exists>st. ?r = Ret (Some (3, st))"
    by (simp add: x_main_def demo_launcher_env_def spawn_x_server_def x_server_arguments_def prepare_auth_file_def
        create_auth_file_def x_with_server_def spawn_bus_def x_with_bus_def update_bus_environment_def
        import_environment_def x_start_def connect_to_display_manager_def x_spawn_session_def start_session_def
        register_session_def register_display_later_def run_launcher_loop_def on_session_finished_def end_launcher_def
        log_launch_def Let_def init_state_def)
  then obtain st where r: "?r = Ret (Some (3, st))" by blast
  from x_launcher_children [OF r] have "left_behind st = {}" by (auto simp: line)
  with r show ?thesis by simp
qed

text \<open>The same for the launcher of Wayland sessions, which starts no X server.\<close>

theorem wayland_launcher_children:
  assumes "wayland_main E args handle_registration ess = Ret (Some (status, st))"
  shows "left_behind st \<subseteq> {p. p = MessageBus \<and> (\<forall>a. bus_address_line E \<noteq> ReadLine a)}"
proof -
  have init: "left_behind (init_state []) = {}" by (simp add: left_behind_def spawned_def init_state_def)
  have start: "left_behind st = {}" if "wayland_start E handle_registration ess v = Ret (Some (status, st))" "lost v = {}" for v
    using that lost_import [of E v]
    by (auto simp: wayland_start_def Let_def connect_to_display_manager_def register_session_def register_display_later_def
        wayland_spawn_session_def split: if_splits prod.splits option.splits
        dest!: lost_started end_launcher_lost run_loop_lost)
  have bus: "left_behind st \<subseteq> {p. p = MessageBus \<and> (\<forall>a. bus_address_line E \<noteq> ReadLine a)}"
    if "spawn_bus E ''3'' v = (r, u)" "lost v = {}"
      "(if \<not> r then end_launcher EX_SOFTWARE u else wayland_start E handle_registration ess u) = Ret (Some (status, st))" for v r u
    using lost_bus [OF that(1,2)] that(3) start [of u] end_launcher_lost [of EX_SOFTWARE u status st]
    by (cases r) auto
  show ?thesis
  proof (cases "\<exists>command. args = [command] \<and> settings_work E")
    case True
    then obtain command where args: "args = [command]" "settings_work E" by blast
    let ?v = "(init_state command)\<lparr>debug_enabled := (case setting_debug E of Some b \<Rightarrow> b | None \<Rightarrow> False)\<rparr>"
    obtain r u where "spawn_bus E ''3'' ?v = (r, u)" by fastforce
    with assms args bus [OF this] show ?thesis by (simp add: wayland_main_def Let_def lost_init)
  next
    case False
    then have "left_behind st = {}"
      using assms init end_launcher_lost lost_init by (auto simp: wayland_main_def Let_def split: if_splits list.splits)
    then show ?thesis by simp
  qed
qed

text \<open>
  C40. The environment of an X session is the reference: what the launcher sets, then its own variables, then those of
  the user's systemd, with \<^verbatim>\<open>PATH\<close> the other way around and no variable of an earlier session.
\<close>

theorem x_session_environment_merged:
  "ght_lookup (x_session_environment E st) k = x_session_variable E st k"
  by (auto simp: x_session_environment_def x_session_variable_def lookup_setenv lookup_merged Let_def split: option.splits)

text \<open>
  Without the display manager the launcher ends with the status of a success, without having started the session.
\<close>

theorem no_display_manager_success:
  assumes "\<not> display_manager_works E" "x_start E ess v = Ret (Some (status, st))"
  shows "status = EX_OK \<and> (spawned SessionProgram st \<longleftrightarrow> spawned SessionProgram v)"
proof -
  have "status = EX_OK" "st = clear_state (wait_on_subprocesses (signal_subprocesses (v\<lparr>display_manager_proxy := False\<rparr>)))"
    using assms by (auto simp: x_start_def connect_to_display_manager_def end_launcher_def)
  then show ?thesis
    using ended_log [of "v\<lparr>display_manager_proxy := False\<rparr>"] by (fastforce simp: spawned_def)
qed

text \<open>
  The launcher keeps the identifier of a source that has run: when the display was registered before the session
  ends, the end removes a source that is not there any more.
\<close>

theorem registered_display_removes_missing_source:
  assumes "register_display_id v" "\<not> register_source_pending v" "run_launcher_loop [[SessionFinished r]] v = Ret (Some (status, st))"
  shows "RemovedMissingSource \<in> set (launch_log st)"
proof -
  have keep: "register_display_id (log_when b e u) = register_display_id u"
      "register_source_pending (log_when b e u) = register_source_pending u" for b e u
    by (simp_all add: log_when_def log_launch_def)
  have "register_display_id (on_session_finished r v)" "\<not> register_source_pending (on_session_finished r v)"
    using assms(1,2) by (simp_all add: on_session_finished_def log_launch_def Let_def split: option.splits exit_kind.splits)
  with assms(3) show ?thesis
    by (auto simp: run_launcher_loop_def end_launcher_def clear_state_def wait_on_subprocesses_def
        signal_subprocesses_def keep Let_def log_launch_def)
qed

end
