(* ===== verification/Session_Child.thy ===== *)
theory Session_Child
  imports Session_Files
begin

text \<open>
  The child side of the fork in \<^verbatim>\<open>gdm_session_worker_start_session\<close> (\<^verbatim>\<open>gdm-session-worker.c\<close>): the new process
  rotates or opens its log, gives up its privileges and replaces itself by the program of the session, which it searches
  in \<^verbatim>\<open>PATH\<close>.
\<close>

section \<open>Executing a program\<close>

datatype exec_errno = ENOENT | EACCES | ENOEXEC | ESTALE | ENOTDIR | OtherErrno nat

text \<open>A program that was executed with its arguments, or the error of the last attempt.\<close>

datatype exec_outcome = Executed string "string list" | ExecFailed exec_errno

text \<open>What \<^verbatim>\<open>execve\<close> does with a file and arguments: \<open>None\<close> is success.\<close>

type_synonym exec_oracle = "string \<Rightarrow> string list \<Rightarrow> exec_errno option"

text \<open>The arguments are not empty: the program itself is the first.\<close>

definition script_execute :: "exec_oracle \<Rightarrow> string \<Rightarrow> string list \<Rightarrow> exec_outcome" where
  "script_execute X file argv =
     (let new_argv = ''/bin/sh'' # file # tl argv
      in case X ''/bin/sh'' new_argv of None \<Rightarrow> Executed ''/bin/sh'' new_argv | Some e \<Rightarrow> ExecFailed e)"

definition try_execute :: "exec_oracle \<Rightarrow> string \<Rightarrow> string list \<Rightarrow> exec_outcome" where
  "try_execute X file argv =
     (case X file argv of
        None \<Rightarrow> Executed file argv
      | Some e \<Rightarrow> if e = ENOEXEC then script_execute X file argv else ExecFailed e)"

definition my_strchrnul :: "string \<Rightarrow> char \<Rightarrow> string" where
  "my_strchrnul str c = dropWhile (\<lambda>x. x \<noteq> c) str"

definition try_next :: "exec_errno \<Rightarrow> bool" where
  "try_next e = (e \<in> set [EACCES, ENOENT, ESTALE, ENOTDIR])"

text \<open>\<open>path\<close> is what is left of the search path.\<close>

function path_loop :: "exec_oracle \<Rightarrow> string list \<Rightarrow> string \<Rightarrow> bool \<Rightarrow> string \<Rightarrow> exec_outcome" where
  "path_loop X argv file got_eacces path =
     (let p = my_strchrnul path (CHR '':'');
          dir = take (length path - length p) path;
          startp = (if dir = [] then file else dir @ ''/'' @ file)
      in case try_execute X startp argv of
           Executed f a \<Rightarrow> Executed f a
         | ExecFailed e \<Rightarrow>
             if \<not> try_next e then ExecFailed e
             else
               let got_eacces = (got_eacces \<or> e = EACCES)
               in if p = [] then ExecFailed (if got_eacces then EACCES else e)
                  else path_loop X argv file got_eacces (tl p))"
  by pat_completeness auto
termination
proof (relation "measure (\<lambda>(X, argv, file, g, path). length path)")
  fix path p :: string
  assume "p = my_strchrnul path (CHR '':'')" "p \<noteq> []"
  then have "length p \<le> length path" "p \<noteq> []"
    by (simp_all add: my_strchrnul_def length_dropWhile_le)
  then show "((X, argv, prog, g', tl p), (X, argv, prog, g, path)) \<in> measure (\<lambda>(X, argv, prog, g, path). length path)"
    for X :: exec_oracle and argv :: "string list" and prog :: string and g g' :: bool
    by (cases p) simp_all
qed simp

declare path_loop.simps [simp del]

definition gdm_session_execute :: "exec_oracle \<Rightarrow> cstr \<Rightarrow> string \<Rightarrow> string list \<Rightarrow> bool \<Rightarrow> exec_outcome" where
  "gdm_session_execute X path_variable file argv search_path =
     (if file = [] then ExecFailed ENOENT
      else if \<not> search_path \<or> CHR ''/'' \<in> set file then try_execute X file argv
      else path_loop X argv file False (case path_variable of None \<Rightarrow> ''/bin:/usr/bin:.'' | Some p \<Rightarrow> p))"

section \<open>Logs\<close>

text \<open>The files by their names, each with its contents and its access mode.\<close>

type_synonym log_files = "(string, string \<times> nat) ghash"

definition g_unlink :: "string \<Rightarrow> log_files \<Rightarrow> log_files" where
  "g_unlink name fs = ght_remove name fs"

definition g_rename :: "string \<Rightarrow> string \<Rightarrow> log_files \<Rightarrow> log_files" where
  "g_rename old new fs =
     (case ght_lookup fs old of None \<Rightarrow> fs | Some t \<Rightarrow> ght_insert new t (ght_remove old fs))"

definition log_name :: "string \<Rightarrow> nat \<Rightarrow> string" where
  "log_name path i = (if i = 0 then path else path @ ''.'' @ dec_of_nat i)"

fun rotate_loop :: "string \<Rightarrow> nat \<Rightarrow> log_files \<Rightarrow> log_files" where
  "rotate_loop path 0 fs = fs"
| "rotate_loop path (Suc i) fs =
     rotate_loop path i (g_rename (log_name path i) (log_name path (Suc i)) (g_unlink (log_name path (Suc i)) fs))"

definition rotate_logs :: "string \<Rightarrow> nat \<Rightarrow> log_files \<Rightarrow> log_files" where
  "rotate_logs path n_copies fs = g_unlink path (rotate_loop path (n_copies - 1) fs)"

definition MAX_LOGS :: nat where
  "MAX_LOGS = 5"

text \<open>The file a log was opened as, or \<^verbatim>\<open>/dev/null\<close>.\<close>

datatype log_target = LogFile string | LogNull

text \<open>
  Which of the operations on a log succeed, and the suffix \<^verbatim>\<open>mkstemp\<close> chose. Removing and renaming a file in the log
  directory succeeds when the file is there.
\<close>

record log_oracle =
  log_opens :: bool
  log_mkstemp :: cstr
  log_truncates :: bool
  log_chmods :: bool
  log_dir_accessible :: bool
  log_loggable :: bool

text \<open>The modes are octal in the source.\<close>

definition mode_0600 :: nat where
  "mode_0600 = 384"

definition mode_0644 :: nat where
  "mode_0644 = 420"

definition open_create :: "string \<Rightarrow> log_files \<Rightarrow> log_files" where
  "open_create name fs = (case ght_lookup fs name of None \<Rightarrow> ght_insert name ([], mode_0600) fs | Some _ \<Rightarrow> fs)"

definition g_fchmod :: "log_oracle \<Rightarrow> string \<Rightarrow> nat \<Rightarrow> log_files \<Rightarrow> log_target \<times> log_files" where
  "g_fchmod L name mode fs =
     (if log_chmods L
      then (LogFile name, ght_insert name (case ght_lookup fs name of None \<Rightarrow> [] | Some (t, _) \<Rightarrow> t, mode) fs)
      else (LogNull, fs))"

text \<open>The part the two functions that open a log share: they differ in the mode.\<close>

definition open_log :: "log_oracle \<Rightarrow> nat \<Rightarrow> string \<Rightarrow> log_files \<Rightarrow> log_target \<times> log_files" where
  "open_log L mode filename fs =
     (if \<not> log_opens L
      then case log_mkstemp L of
             None \<Rightarrow> (LogNull, fs)
           | Some suffix \<Rightarrow>
               let temp_name = filename @ ''.'' @ suffix
               in g_fchmod L temp_name mode (ght_insert temp_name ([], mode_0600) fs)
      else
        let fs = open_create filename fs
        in if \<not> log_truncates L then (LogNull, fs)
           else
             let old = (case ght_lookup fs filename of None \<Rightarrow> mode_0600 | Some (_, m) \<Rightarrow> m)
             in g_fchmod L filename mode (ght_insert filename ([], old) fs))"

definition open_program_session_log :: "log_oracle \<Rightarrow> string \<Rightarrow> log_files \<Rightarrow> log_target \<times> log_files" where
  "open_program_session_log L filename fs = open_log L mode_0644 filename (rotate_logs filename MAX_LOGS fs)"

definition open_user_session_log :: "log_oracle \<Rightarrow> string \<Rightarrow> log_files \<Rightarrow> log_target \<times> log_files" where
  "open_user_session_log L dir fs =
     (let filename = join_path dir ''session.log'';
          fs = (if log_dir_accessible L \<and> log_loggable L then g_rename filename (filename @ ''.old'') fs else fs)
      in open_log L mode_0600 filename fs)"

section \<open>The child\<close>

record child_setup =
  child_tty_fd :: int
  child_is_program :: bool
  child_log_file :: string
  child_arguments :: "string list"
  child_uid :: u32
  child_journald :: bool
  child_setsid :: bool
  child_setuid :: bool
  child_home :: cstr
  child_cache_home :: cstr
  child_path :: cstr
  child_chdir :: "string \<Rightarrow> bool"
  child_mkdir :: "string \<Rightarrow> bool"
  child_logs :: log_oracle
  child_execs :: exec_oracle

datatype child_effect =
    StdinTty
  | StdinNull
  | ProgramLog log_target
  | NewSession
  | ControllingTerminal
  | UserIdentity u32
  | LoadedEnvironment
  | WorkingDirectory string
  | JournalOutput
  | MadeDirectory string
  | UserLog log_target
  | PamEnded
  | Execution exec_outcome
  | ExitFailure

definition user_log_effects :: "child_setup \<Rightarrow> log_files \<Rightarrow> child_effect list \<times> log_files" where
  "user_log_effects C fs =
     (case child_home C of
        None \<Rightarrow> ([UserLog LogNull], fs)
      | Some h \<Rightarrow>
          if h = [] then ([UserLog LogNull], fs)
          else
            let cache_dir = (case child_cache_home C of
                               None \<Rightarrow> join_path h ''.cache''
                             | Some c \<Rightarrow> if c = [] then join_path h ''.cache'' else c);
                log_dir = join_path cache_dir ''gdm''
            in if child_mkdir C log_dir
               then let (target, fs) = open_user_session_log (child_logs C) log_dir fs
                    in ([MadeDirectory log_dir, UserLog target], fs)
               else ([UserLog LogNull], fs))"

definition as_user :: "child_setup \<Rightarrow> log_files \<Rightarrow> child_effect list \<times> log_files" where
  "as_user C fs =
     (let environment = (if child_is_program C then [] else [LoadedEnvironment]);
          directory = [WorkingDirectory (case child_home C of Some h \<Rightarrow> if child_chdir C h then h else ''/'' | None \<Rightarrow> ''/'')];
          journal = (if child_journald C then [JournalOutput] else []);
          (log, fs) = (if \<not> child_journald C \<and> \<not> child_is_program C then user_log_effects C fs else ([], fs));
          execution =
            (case gdm_session_execute (child_execs C) (child_path C) (hd (child_arguments C)) (child_arguments C) True of
               Executed f a \<Rightarrow> [Execution (Executed f a)]
             | ExecFailed e \<Rightarrow> [Execution (ExecFailed e), ExitFailure])
      in (environment @ directory @ journal @ log @ PamEnded # execution, fs))"

definition session_child :: "child_setup \<Rightarrow> log_files \<Rightarrow> child_effect list \<times> log_files" where
  "session_child C fs =
     (let stdin = (if child_tty_fd C > 0 then StdinTty else StdinNull);
          (log, fs) =
            (if \<not> child_journald C \<and> child_is_program C
             then let (target, fs) = open_program_session_log (child_logs C) (child_log_file C) fs
                  in ([ProgramLog target], fs)
             else ([], fs))
      in if \<not> child_setsid C then (stdin # log @ [ExitFailure], fs)
         else
           let terminal = (if child_tty_fd C > 0 then [ControllingTerminal] else [])
           in if \<not> child_setuid C then (stdin # log @ NewSession # terminal @ [ExitFailure], fs)
              else
                let (rest, fs) = as_user C fs
                in (stdin # log @ NewSession # terminal @ UserIdentity (child_uid C) # rest, fs))"

section \<open>Properties\<close>

lemma lookup_rename:
  "old \<noteq> new \<Longrightarrow> ght_lookup (g_rename old new (g_unlink new fs)) f =
     (if f = new then ght_lookup fs old else if f = old then None else ght_lookup fs f)"
  by (simp add: g_rename_def g_unlink_def ght_lookup_remove ght_lookup_insert split: option.splits)

lemma log_name_inj: "log_name path i = log_name path j \<longleftrightarrow> i = j"
  by (auto simp: log_name_def dec_of_nat_inj)

lemma log_name_0 [simp]: "log_name path 0 = path"
  by (simp add: log_name_def)

subsection \<open>The search path\<close>

text \<open>The search without the loop: an attempt for every part of the path, in order.\<close>

definition candidate :: "string \<Rightarrow> string \<Rightarrow> string" where
  "candidate name dir = (if dir = [] then name else dir @ ''/'' @ name)"

fun decisive :: "exec_outcome \<Rightarrow> bool" where
  "decisive (Executed f a) = True"
| "decisive (ExecFailed e) = (\<not> try_next e)"

definition search_result :: "bool \<Rightarrow> exec_outcome list \<Rightarrow> exec_outcome" where
  "search_result denied attempts =
     (case find decisive attempts of
        Some r \<Rightarrow> r
      | None \<Rightarrow> if denied \<or> ExecFailed EACCES \<in> set attempts then ExecFailed EACCES else last attempts)"

lemma search_result_Cons:
  "attempts \<noteq> [] \<Longrightarrow> search_result denied (r # attempts) =
     (if decisive r then r else search_result (denied \<or> r = ExecFailed EACCES) attempts)"
  by (auto simp: search_result_def split: option.splits)

lemma split_at_none: "c \<notin> set l \<Longrightarrow> split_at c l = [l]"
  by (induction l) auto

lemma split_at_some: "split_at c t \<noteq> []"
  by (induction t) (auto split: list.splits)

lemma my_strchrnul_part: "c \<notin> set dir \<Longrightarrow> my_strchrnul (dir @ c # rest) c = c # rest"
  by (auto simp: my_strchrnul_def dropWhile_append)

lemma my_strchrnul_cases:
  obtains "my_strchrnul path c = []" "c \<notin> set path"
  | dir rest where "path = dir @ c # rest" "c \<notin> set dir" "my_strchrnul path c = c # rest"
proof (cases "c \<in> set path")
  case True
  then obtain dir rest where "path = dir @ c # rest" "c \<notin> set dir"
    by (meson split_list_first)
  then show thesis
    by (intro that(2)) (auto simp: my_strchrnul_part)
next
  case False
  then show thesis
    by (intro that(1)) (auto simp: my_strchrnul_def)
qed

lemma path_loop_part:
  "CHR '':'' \<notin> set dir \<Longrightarrow> path_loop X argv name denied (dir @ CHR '':'' # rest) =
     (case try_execute X (candidate name dir) argv of
        Executed f a \<Rightarrow> Executed f a
      | ExecFailed e \<Rightarrow> if \<not> try_next e then ExecFailed e else path_loop X argv name (denied \<or> e = EACCES) rest)"
  by (subst path_loop.simps) (simp add: my_strchrnul_part candidate_def Let_def split: exec_outcome.splits)

lemma path_loop_search:
  "path_loop X argv name denied path =
     search_result denied (map (\<lambda>d. try_execute X (candidate name d) argv) (split_at (CHR '':'') path))"
proof (induction X argv name denied path rule: path_loop.induct)
  case (1 X argv name denied path)
  show ?case
  proof (rule my_strchrnul_cases [of path "CHR '':''"])
    assume "my_strchrnul path (CHR '':'') = []" "CHR '':'' \<notin> set path"
    then show ?thesis
      by (subst path_loop.simps)
        (auto simp: split_at_none search_result_def candidate_def split: exec_outcome.splits)
  next
    fix dir rest
    assume p: "path = dir @ CHR '':'' # rest" "CHR '':'' \<notin> set dir" "my_strchrnul path (CHR '':'') = CHR '':'' # rest"
    then have d: "take (length path - length (my_strchrnul path (CHR '':''))) path = dir" by simp
    have "try_execute X (candidate name dir) argv = ExecFailed e \<Longrightarrow> try_next e \<Longrightarrow>
        path_loop X argv name (denied \<or> e = EACCES) rest =
        search_result (denied \<or> e = EACCES) (map (\<lambda>d. try_execute X (candidate name d) argv) (split_at (CHR '':'') rest))" for e
      using "1.IH" [OF refl refl refl, of e, unfolded d, unfolded p(3)] by (simp add: candidate_def)
    with p show ?thesis
      by (cases "try_execute X (candidate name dir) argv")
        (auto simp: path_loop_part split_at_line search_result_Cons split_at_some)
  qed
qed

text \<open>
  C21. The search of a program: with a name that is not empty and holds no slash, every part of the search
  path, in order, is tried as a directory (an empty part as the current directory), a file that is no executable format
  is given to the shell, the first attempt that succeeds or fails for another reason than a missing or inaccessible file
  decides, and when none does the error is \<^verbatim>\<open>EACCES\<close> if any attempt was denied and that of the last attempt otherwise;
  every part fits the buffer that was allocated before the file name.
\<close>

theorem session_execute_search:
  assumes "name \<noteq> []" "CHR ''/'' \<notin> set name"
  shows "gdm_session_execute X variable name argv True =
           search_result False (map (\<lambda>d. try_execute X (candidate name d) argv)
             (split_at (CHR '':'') (case variable of None \<Rightarrow> ''/bin:/usr/bin:.'' | Some p \<Rightarrow> p))) \<and>
         (\<forall>path d. d \<in> set (split_at (CHR '':'') path) \<longrightarrow> length d \<le> length path)"
proof -
  have "d \<in> set (split_at (CHR '':'') path) \<Longrightarrow> length d \<le> length path" for d path
    by (induction path arbitrary: d) (fastforce split: if_splits list.splits)+
  with assms show ?thesis
    by (simp add: gdm_session_execute_def path_loop_search)
qed

definition sh_only :: exec_oracle where
  "sh_only f argv = (if f = ''/bin/sh'' then None else if f = ''/b/x'' then Some ENOEXEC else Some ENOENT)"

theorem session_execute_search_witness:
  "gdm_session_execute sh_only (Some ''/a::/b'') ''x'' [''x'', ''-v''] True = Executed ''/bin/sh'' [''/bin/sh'', ''/b/x'', ''-v'']"
  using session_execute_search [of "''x''" sh_only "Some ''/a::/b''" "[''x'', ''-v'']"]
  by (simp add: search_result_def candidate_def try_execute_def script_execute_def sh_only_def try_next_def)

subsection \<open>Rotation of logs\<close>

lemma lookup_rename_log:
  "ght_lookup (g_rename (log_name path n) (log_name path (Suc n)) (g_unlink (log_name path (Suc n)) fs)) f =
     (if f = log_name path (Suc n) then ght_lookup fs (log_name path n)
      else if f = log_name path n then None else ght_lookup fs f)"
  by (rule lookup_rename) (simp add: log_name_inj)

lemma rotate_loop_other: "\<forall>i \<le> n. f \<noteq> log_name path i \<Longrightarrow> ght_lookup (rotate_loop path n fs) f = ght_lookup fs f"
  by (induction n arbitrary: fs) (simp_all add: lookup_rename_log)

lemma rotate_loop_moves:
  "0 < i \<Longrightarrow> i \<le> n \<Longrightarrow> ght_lookup (rotate_loop path n fs) (log_name path i) = ght_lookup fs (log_name path (i - 1))"
proof (induction n arbitrary: fs)
  case (Suc n)
  show ?case
  proof (cases "i = Suc n")
    case True
    then show ?thesis by (simp add: rotate_loop_other lookup_rename_log log_name_inj)
  next
    case False
    with Suc.prems have "i \<le> n" "i - 1 \<noteq> n" "i - 1 \<noteq> Suc n" by auto
    with Suc.prems show ?thesis by (simp add: Suc.IH lookup_rename_log log_name_inj)
  qed
qed simp

text \<open>
  Rotating the logs of a path, with at least one copy kept: no file has the path, its \<open>i\<close>-th copy below the
  number of copies is what the \<open>(i - 1)\<close>-th was, and no other file changes.
\<close>

theorem rotate_logs_exact:
  assumes "0 < n"
  shows "ght_lookup (rotate_logs path n fs) path = None \<and>
         (\<forall>i. 0 < i \<and> i < n \<longrightarrow>
            ght_lookup (rotate_logs path n fs) (log_name path i) = ght_lookup fs (log_name path (i - 1))) \<and>
         (\<forall>f. (\<forall>i < n. f \<noteq> log_name path i) \<longrightarrow> ght_lookup (rotate_logs path n fs) f = ght_lookup fs f)"
proof (intro conjI allI impI)
  show "ght_lookup (rotate_logs path n fs) path = None"
    by (simp add: rotate_logs_def g_unlink_def ght_lookup_remove)
next
  fix i assume i: "0 < i \<and> i < n"
  then have "log_name path i \<noteq> path" using log_name_inj [of path i 0] by simp
  moreover have "i \<le> n - 1" using i by linarith
  ultimately show "ght_lookup (rotate_logs path n fs) (log_name path i) = ght_lookup fs (log_name path (i - 1))"
    using i by (simp add: rotate_logs_def g_unlink_def ght_lookup_remove rotate_loop_moves)
next
  fix f assume f: "\<forall>i < n. f \<noteq> log_name path i"
  with assms have "f \<noteq> path" by (metis log_name_0)
  moreover have "\<forall>i \<le> n - 1. f \<noteq> log_name path i" using f assms by auto
  ultimately show "ght_lookup (rotate_logs path n fs) f = ght_lookup fs f"
    by (simp add: rotate_logs_def g_unlink_def ght_lookup_remove rotate_loop_other)
qed

theorem rotate_logs_exact_witness:
  "ght_lookup (rotate_logs ''l'' MAX_LOGS [(''l'', (''new'', 420)), (''l.1'', (''old'', 420))]) ''l.2'' = Some (''old'', 420)"
proof -
  have "ght_lookup (rotate_logs ''l'' MAX_LOGS [(''l'', (''new'', 420)), (''l.1'', (''old'', 420))]) (log_name ''l'' 2) =
      ght_lookup [(''l'', (''new'', 420)), (''l.1'', (''old'', 420))] (log_name ''l'' (2 - 1))"
    using rotate_logs_exact [of MAX_LOGS "''l''" "[(''l'', (''new'', 420)), (''l.1'', (''old'', 420))]"]
    by (simp add: MAX_LOGS_def)
  then show ?thesis by (simp add: log_name_def dec_of_nat.simps ght_lookup_def)
qed

subsection \<open>Privileges\<close>

text \<open>What is done before the identity of the user is taken.\<close>

fun privileged_effect :: "child_effect \<Rightarrow> bool" where
  "privileged_effect StdinTty = True"
| "privileged_effect StdinNull = True"
| "privileged_effect (ProgramLog _) = True"
| "privileged_effect NewSession = True"
| "privileged_effect ControllingTerminal = True"
| "privileged_effect ExitFailure = True"
| "privileged_effect _ = False"

text \<open>What is done for the user between that and the execution.\<close>

fun user_effect :: "child_effect \<Rightarrow> bool" where
  "user_effect LoadedEnvironment = True"
| "user_effect (WorkingDirectory _) = True"
| "user_effect JournalOutput = True"
| "user_effect (MadeDirectory _) = True"
| "user_effect (UserLog _) = True"
| "user_effect _ = False"

lemma user_log_effects_user: "list_all user_effect (fst (user_log_effects C fs))"
  by (auto simp: user_log_effects_def Let_def split: option.splits prod.splits)

lemma as_user_effects:
  "\<exists>r front. fst (as_user C fs) = front @ PamEnded # Execution r # (case r of Executed f a \<Rightarrow> [] | ExecFailed e \<Rightarrow> [ExitFailure]) \<and>
     list_all user_effect front"
proof -
  obtain log fs' where l: "(if \<not> child_journald C \<and> \<not> child_is_program C then user_log_effects C fs else ([], fs)) = (log, fs')"
    by fastforce
  then have "list_all user_effect log"
    using user_log_effects_user [of C fs] by (auto split: if_splits)
  with l show ?thesis
    by (auto simp: as_user_def Let_def split: exec_outcome.splits)
qed

text \<open>
  C20. The child never acts for the user with the privileges of the daemon: when it can become the leader of a new session
  and take the identity of the user, what it does before that is one of setting up standard input, the program log, the
  new session and its controlling terminal, and what it does after that ends with the one execution of the program, whose
  failure makes the child exit; when it cannot, it only does things of the first kind and exits, with no program
  executed.
\<close>

theorem child_drops_privileges:
  "if child_setsid C \<and> child_setuid C
   then \<exists>before r front.
          fst (session_child C fs) = before @ UserIdentity (child_uid C) # front @ PamEnded # Execution r #
            (case r of Executed f a \<Rightarrow> [] | ExecFailed e \<Rightarrow> [ExitFailure]) \<and>
          list_all privileged_effect before \<and> NewSession \<in> set before \<and> ExitFailure \<notin> set before \<and>
          list_all user_effect front
   else list_all privileged_effect (fst (session_child C fs)) \<and> last (fst (session_child C fs)) = ExitFailure"
proof -
  obtain log fs' where l: "(if \<not> child_journald C \<and> child_is_program C
      then let (target, fs) = open_program_session_log (child_logs C) (child_log_file C) fs in ([ProgramLog target], fs)
      else ([], fs)) = (log, fs')"
    by fastforce
  then have log: "list_all privileged_effect log" "ExitFailure \<notin> set log"
    by (auto split: if_splits prod.splits)
  define terminal where "terminal = (if child_tty_fd C > 0 then [ControllingTerminal] else [])"
  define input where "input = (if child_tty_fd C > 0 then StdinTty else StdinNull)"
  note parts = session_child_def l input_def [symmetric] terminal_def [symmetric]
  have priv: "list_all privileged_effect (input # log @ NewSession # terminal)" "ExitFailure \<notin> set (input # log @ NewSession # terminal)"
    using log by (auto simp: input_def terminal_def)
  obtain r front where a: "fst (as_user C fs') = front @ PamEnded # Execution r #
      (case r of Executed f a \<Rightarrow> [] | ExecFailed e \<Rightarrow> [ExitFailure])" "list_all user_effect front"
    using as_user_effects by blast
  show ?thesis
  proof (cases "child_setsid C \<and> child_setuid C")
    case True
    then have "fst (session_child C fs) = (input # log @ NewSession # terminal) @ UserIdentity (child_uid C) # fst (as_user C fs')"
      by (simp add: parts split: prod.splits)
    with True a priv show ?thesis
      by (simp del: append.simps, intro exI [of _ "input # log @ NewSession # terminal"] exI [of _ r] exI [of _ front]) simp
  next
    case False
    then have "fst (session_child C fs) = (if child_setsid C then input # log @ NewSession # terminal else input # log) @ [ExitFailure]"
      by (auto simp: parts)
    with False priv show ?thesis by auto
  qed
qed

end
