(* ===== verification/Session_Auditor.thy ===== *)
theory Session_Auditor
  imports Session_Worker Gdm_Settings
begin

text \<open>
  The auditors \<^verbatim>\<open>gdm-session-auditor.c\<close> and \<^verbatim>\<open>gdm-session-linux-auditor.c\<close>, and what they make of the events that the
  worker reports to them (\<open>audit_event\<close> of the worker's model).
\<close>

section \<open>The auditor\<close>

record session_auditor =
  aud_username :: cstr
  aud_hostname :: cstr
  aud_display_device :: cstr

datatype audit_type = AUDIT_USER_LOGIN | AUDIT_USER_LOGOUT

text \<open>What \<^verbatim>\<open>audit_log_user_message\<close> is given.\<close>

record audit_record =
  rec_type :: audit_type
  rec_text :: string
  rec_hostname :: cstr
  rec_tty :: cstr
  rec_success :: bool

text \<open>The methods of a class; a missing one is \<open>None\<close>.\<close>

record auditor_class =
  cls_password_changed :: "(session_auditor \<Rightarrow> audit_record list) option"
  cls_password_change_failure :: "(session_auditor \<Rightarrow> audit_record list) option"
  cls_user_accredited :: "(session_auditor \<Rightarrow> audit_record list) option"
  cls_login :: "(session_auditor \<Rightarrow> audit_record list) option"
  cls_login_failure :: "(session_auditor \<Rightarrow> pam_code \<Rightarrow> audit_record list) option"
  cls_logout :: "(session_auditor \<Rightarrow> audit_record list) option"

definition gdm_session_auditor_new :: "cstr \<Rightarrow> cstr \<Rightarrow> session_auditor" where
  "gdm_session_auditor_new host device =
     \<lparr>aud_username = None, aud_hostname = host, aud_display_device = device\<rparr>"

text \<open>Whether the property was notified, too.\<close>

definition gdm_session_auditor_set_username :: "session_auditor \<Rightarrow> cstr \<Rightarrow> session_auditor \<times> bool" where
  "gdm_session_auditor_set_username a name =
     (if name = None \<and> aud_username a = None then (a, False)
      else if (name = None \<or> aud_username a = None) \<or> the name \<noteq> the (aud_username a)
      then (a\<lparr>aud_username := name\<rparr>, True)
      else (a, False))"

definition gdm_session_auditor_report_password_changed :: "auditor_class \<Rightarrow> session_auditor \<Rightarrow> audit_record list" where
  "gdm_session_auditor_report_password_changed K a = (case cls_password_changed K of None \<Rightarrow> [] | Some f \<Rightarrow> f a)"

definition gdm_session_auditor_report_password_change_failure ::
  "auditor_class \<Rightarrow> session_auditor \<Rightarrow> audit_record list" where
  "gdm_session_auditor_report_password_change_failure K a =
     (case cls_password_change_failure K of None \<Rightarrow> [] | Some f \<Rightarrow> f a)"

definition gdm_session_auditor_report_user_accredited :: "auditor_class \<Rightarrow> session_auditor \<Rightarrow> audit_record list" where
  "gdm_session_auditor_report_user_accredited K a = (case cls_user_accredited K of None \<Rightarrow> [] | Some f \<Rightarrow> f a)"

definition gdm_session_auditor_report_login :: "auditor_class \<Rightarrow> session_auditor \<Rightarrow> audit_record list" where
  "gdm_session_auditor_report_login K a = (case cls_login K of None \<Rightarrow> [] | Some f \<Rightarrow> f a)"

definition gdm_session_auditor_report_login_failure ::
  "auditor_class \<Rightarrow> session_auditor \<Rightarrow> pam_code \<Rightarrow> audit_record list" where
  "gdm_session_auditor_report_login_failure K a code = (case cls_login_failure K of None \<Rightarrow> [] | Some f \<Rightarrow> f a code)"

definition gdm_session_auditor_report_logout :: "auditor_class \<Rightarrow> session_auditor \<Rightarrow> audit_record list" where
  "gdm_session_auditor_report_logout K a = (case cls_logout K of None \<Rightarrow> [] | Some f \<Rightarrow> f a)"

section \<open>The auditor for Linux\<close>

text \<open>\<^verbatim>\<open>g_snprintf\<close> into a buffer of the size.\<close>

definition snprintf_buffer :: "nat \<Rightarrow> string \<Rightarrow> string" where
  "snprintf_buffer n text = take (n - 1) text"

definition log_user_message ::
  "(string \<Rightarrow> u32 option) \<Rightarrow> session_auditor \<Rightarrow> audit_type \<Rightarrow> bool \<Rightarrow> audit_record list" where
  "log_user_message passwd_uid a type result =
     (let name = (case aud_username a of None \<Rightarrow> ''unknown'' | Some n \<Rightarrow> n);
          pw = (case aud_username a of None \<Rightarrow> None | Some n \<Rightarrow> passwd_uid n);
          buf = (case pw of
                   Some i \<Rightarrow> snprintf_buffer 512 (''uid='' @ dec_of_int (sint i))
                 | None \<Rightarrow> snprintf_buffer 512 (''acct='' @ name))
      in [\<lparr>rec_type = type, rec_text = buf, rec_hostname = aud_hostname a, rec_tty = aud_display_device a,
           rec_success = result\<rparr>])"

definition gdm_session_linux_auditor_report_login ::
  "(string \<Rightarrow> u32 option) \<Rightarrow> session_auditor \<Rightarrow> audit_record list" where
  "gdm_session_linux_auditor_report_login P a = log_user_message P a AUDIT_USER_LOGIN True"

definition gdm_session_linux_auditor_report_login_failure ::
  "(string \<Rightarrow> u32 option) \<Rightarrow> session_auditor \<Rightarrow> pam_code \<Rightarrow> audit_record list" where
  "gdm_session_linux_auditor_report_login_failure P a code = log_user_message P a AUDIT_USER_LOGIN False"

definition gdm_session_linux_auditor_report_logout ::
  "(string \<Rightarrow> u32 option) \<Rightarrow> session_auditor \<Rightarrow> audit_record list" where
  "gdm_session_linux_auditor_report_logout P a = log_user_message P a AUDIT_USER_LOGOUT True"

definition dummy_auditor_class :: auditor_class where
  "dummy_auditor_class =
     \<lparr>cls_password_changed = None, cls_password_change_failure = None, cls_user_accredited = None,
      cls_login = None, cls_login_failure = None, cls_logout = None\<rparr>"

definition linux_auditor_class :: "(string \<Rightarrow> u32 option) \<Rightarrow> auditor_class" where
  "linux_auditor_class P = dummy_auditor_class
     \<lparr>cls_login := Some (gdm_session_linux_auditor_report_login P),
      cls_login_failure := Some (gdm_session_linux_auditor_report_login_failure P),
      cls_logout := Some (gdm_session_linux_auditor_report_logout P)\<rparr>"

text \<open>A program session gets the dummy, and so does a build without \<^verbatim>\<open>libaudit\<close>.\<close>

definition auditor_class_for :: "(string \<Rightarrow> u32 option) \<Rightarrow> bool \<Rightarrow> bool \<Rightarrow> auditor_class" where
  "auditor_class_for P have_libaudit is_program =
     (if is_program then dummy_auditor_class
      else if have_libaudit then linux_auditor_class P
      else dummy_auditor_class)"

section \<open>The trail of a worker\<close>

text \<open>The calls of the worker on its auditor, by the event that the model of the worker logs.\<close>

fun auditor_step :: "auditor_class \<Rightarrow> audit_event \<Rightarrow> session_auditor \<times> audit_record list \<Rightarrow> session_auditor \<times> audit_record list" where
  "auditor_step K (AuditUsername name) (a, rs) = (fst (gdm_session_auditor_set_username a name), rs)"
| "auditor_step K AuditPasswordChanged (a, rs) = (a, rs @ gdm_session_auditor_report_password_changed K a)"
| "auditor_step K AuditPasswordChangeFailure (a, rs) = (a, rs @ gdm_session_auditor_report_password_change_failure K a)"
| "auditor_step K AuditUserAccredited (a, rs) = (a, rs @ gdm_session_auditor_report_user_accredited K a)"
| "auditor_step K AuditLogin (a, rs) = (a, rs @ gdm_session_auditor_report_login K a)"
| "auditor_step K (AuditLoginFailure code) (a, rs) = (a, rs @ gdm_session_auditor_report_login_failure K a code)"
| "auditor_step K AuditLogout (a, rs) = (a, rs @ gdm_session_auditor_report_logout K a)"

definition audit_trail :: "auditor_class \<Rightarrow> session_auditor \<Rightarrow> audit_event list \<Rightarrow> session_auditor \<times> audit_record list" where
  "audit_trail K a es = fold (auditor_step K) es (a, [])"

text \<open>The reference: who is named at a point of the trail, and the record of an event.\<close>

fun name_at :: "cstr \<Rightarrow> audit_event list \<Rightarrow> cstr" where
  "name_at n [] = n"
| "name_at n (e # es) = name_at (case e of AuditUsername m \<Rightarrow> m | _ \<Rightarrow> n) es"

fun recorded_as :: "audit_event \<Rightarrow> (audit_type \<times> bool) option" where
  "recorded_as AuditLogin = Some (AUDIT_USER_LOGIN, True)"
| "recorded_as (AuditLoginFailure _) = Some (AUDIT_USER_LOGIN, False)"
| "recorded_as AuditLogout = Some (AUDIT_USER_LOGOUT, True)"
| "recorded_as _ = None"

definition records_of ::
  "(string \<Rightarrow> u32 option) \<Rightarrow> session_auditor \<Rightarrow> cstr \<Rightarrow> audit_event \<Rightarrow> audit_record list" where
  "records_of P a name e =
     (case recorded_as e of
        None \<Rightarrow> []
      | Some (t, ok) \<Rightarrow>
          [\<lparr>rec_type = t,
            rec_text = (case name of
                          None \<Rightarrow> ''acct=unknown''
                        | Some n \<Rightarrow> take 511 (case P n of None \<Rightarrow> ''acct='' @ n | Some i \<Rightarrow> ''uid='' @ dec_of_int (sint i))),
            rec_hostname = aud_hostname a, rec_tty = aud_display_device a, rec_success = ok\<rparr>])"

fun trail :: "(string \<Rightarrow> u32 option) \<Rightarrow> session_auditor \<Rightarrow> cstr \<Rightarrow> audit_event list \<Rightarrow> audit_record list" where
  "trail P a n [] = []"
| "trail P a n (e # es) = records_of P a n e @ trail P a (name_at n [e]) es"

section \<open>Properties\<close>

lemma set_username: "fst (gdm_session_auditor_set_username a name) = a\<lparr>aud_username := name\<rparr>"
  by (cases a) (auto simp: gdm_session_auditor_set_username_def)

lemmas auditor_class_defs = linux_auditor_class_def dummy_auditor_class_def
  gdm_session_auditor_report_password_changed_def gdm_session_auditor_report_password_change_failure_def
  gdm_session_auditor_report_user_accredited_def gdm_session_auditor_report_login_def
  gdm_session_auditor_report_login_failure_def gdm_session_auditor_report_logout_def
  gdm_session_linux_auditor_report_login_def gdm_session_linux_auditor_report_login_failure_def
  gdm_session_linux_auditor_report_logout_def

lemma auditor_step_linux:
  "auditor_step (linux_auditor_class P) e (a, rs) =
     (a\<lparr>aud_username := name_at (aud_username a) [e]\<rparr>, rs @ records_of P a (aud_username a) e)"
  by (cases e)
    (auto simp: set_username auditor_class_defs log_user_message_def records_of_def snprintf_buffer_def Let_def
      split: option.splits)

lemma records_of_username: "records_of P (a\<lparr>aud_username := m\<rparr>) n e = records_of P a n e"
  by (simp add: records_of_def split: option.splits)

lemma trail_username: "trail P (a\<lparr>aud_username := m\<rparr>) n es = trail P a n es"
  by (induction es arbitrary: n) (simp_all add: records_of_username)

lemma fold_auditor_step:
  "fold (auditor_step (linux_auditor_class P)) es (a, rs) =
     (a\<lparr>aud_username := name_at (aud_username a) es\<rparr>, rs @ trail P a (aud_username a) es)"
  by (induction es arbitrary: a rs) (simp_all add: auditor_step_linux trail_username)

lemma fold_dummy_step: "snd (fold (auditor_step dummy_auditor_class) es (a, rs)) = rs"
proof (induction es arbitrary: a rs)
  case (Cons e es)
  obtain a' where "auditor_step dummy_auditor_class e (a, rs) = (a', rs)"
    by (cases e) (auto simp: auditor_class_defs)
  with Cons show ?case by simp
qed simp

text \<open>
  C22. The audit trail of a worker: a user session leaves, in order, exactly one record for every
  login, failed login and logout, about the user whose name was reported last (by its UID when the user is known), with
  the host and device of the worker, and no text is longer than the buffer; a program session leaves no record at all. This is a build with \<^verbatim>\<open>libaudit\<close>.
\<close>

theorem worker_audit_trail:
  "snd (audit_trail (auditor_class_for P True program) (gdm_session_auditor_new host device) es) =
     (if program then [] else trail P (gdm_session_auditor_new host device) None es) \<and>
   length (trail P a n es) = length (filter (\<lambda>e. recorded_as e \<noteq> None) es) \<and>
   list_all (\<lambda>r. length (rec_text r) < 512) (trail P a n es)"
proof (intro conjI)
  show "snd (audit_trail (auditor_class_for P True program) (gdm_session_auditor_new host device) es) =
     (if program then [] else trail P (gdm_session_auditor_new host device) None es)"
    by (simp add: audit_trail_def auditor_class_for_def fold_dummy_step fold_auditor_step gdm_session_auditor_new_def)
  show "length (trail P a n es) = length (filter (\<lambda>e. recorded_as e \<noteq> None) es)"
    by (induction es arbitrary: n) (auto simp: records_of_def split: option.splits)
  show "list_all (\<lambda>r. length (rec_text r) < 512) (trail P a n es)"
    by (induction es arbitrary: n) (auto simp: records_of_def split: option.splits)
qed

text \<open>A UID that does not fit a signed number is written as a negative one.\<close>

theorem large_uid_negative:
  "rec_text (hd (log_user_message (\<lambda>_. Some 4294967294) (a\<lparr>aud_username := Some n\<rparr>) t ok)) = ''uid=-2''"
  by (simp add: log_user_message_def snprintf_buffer_def dec_of_int_def dec_of_nat.simps)

end
