(* ===== verification/Daemon_Main.thy ===== *)
theory Daemon_Main
  imports File_Utils
begin

text \<open>
  The process of the daemon, \<^verbatim>\<open>daemon/main.c\<close>: its start, its name on the bus with the manager that lives while it
  has the name, its signals; and its messages, \<^verbatim>\<open>common/gdm-log.c\<close>.
\<close>

unbundle bit_operations_syntax

section \<open>Messages\<close>

text \<open>The flags of \<^verbatim>\<open>GLogLevelFlags\<close>.\<close>

definition G_LOG_FLAG_FATAL :: u32 where "G_LOG_FLAG_FATAL = 2"
definition G_LOG_LEVEL_ERROR :: u32 where "G_LOG_LEVEL_ERROR = 4"
definition G_LOG_LEVEL_CRITICAL :: u32 where "G_LOG_LEVEL_CRITICAL = 8"
definition G_LOG_LEVEL_WARNING :: u32 where "G_LOG_LEVEL_WARNING = 16"
definition G_LOG_LEVEL_MESSAGE :: u32 where "G_LOG_LEVEL_MESSAGE = 32"
definition G_LOG_LEVEL_INFO :: u32 where "G_LOG_LEVEL_INFO = 64"
definition G_LOG_LEVEL_DEBUG :: u32 where "G_LOG_LEVEL_DEBUG = 128"
definition G_LOG_LEVEL_MASK :: u32 where "G_LOG_LEVEL_MASK = NOT 3"

lemmas log_level_defs = G_LOG_FLAG_FATAL_def G_LOG_LEVEL_ERROR_def G_LOG_LEVEL_CRITICAL_def G_LOG_LEVEL_WARNING_def
  G_LOG_LEVEL_MESSAGE_def G_LOG_LEVEL_INFO_def G_LOG_LEVEL_DEBUG_def G_LOG_LEVEL_MASK_def

datatype syslog_priority = LOG_EMERG | LOG_CRIT | LOG_ERR | LOG_NOTICE | LOG_INFO | LOG_DEBUG

definition get_syslog_priority_from_log_level :: "u32 \<Rightarrow> syslog_priority" where
  "get_syslog_priority_from_log_level log_level =
     (let l = log_level AND G_LOG_LEVEL_MASK
      in if l = G_LOG_FLAG_FATAL then LOG_EMERG
         else if l = G_LOG_LEVEL_ERROR then LOG_CRIT
         else if l = G_LOG_LEVEL_CRITICAL then LOG_ERR
         else if l = G_LOG_LEVEL_WARNING \<or> l = G_LOG_LEVEL_MESSAGE then LOG_NOTICE
         else if l = G_LOG_LEVEL_INFO then LOG_INFO
         else LOG_DEBUG)"

datatype log_output = Stderr syslog_priority string | Syslog syslog_priority string | ClosedLog

record log_state =
  log_initialized :: bool
  is_sd_booted :: bool
  debug_enabled :: bool
  log_output :: "log_output list"

definition log_start :: log_state where
  "log_start = \<lparr>log_initialized = False, is_sd_booted = False, debug_enabled = False, log_output = []\<rparr>"

definition gdm_log_init :: "log_state \<Rightarrow> log_state" where
  "gdm_log_init s = (if log_initialized s then s else s\<lparr>log_initialized := True\<rparr>)"

definition gdm_log_default_handler :: "cstr \<Rightarrow> u32 \<Rightarrow> string \<Rightarrow> log_state \<Rightarrow> log_state" where
  "gdm_log_default_handler domain log_level message s =
     (let s = gdm_log_init s
      in if log_level AND G_LOG_LEVEL_MASK = G_LOG_LEVEL_DEBUG \<and> \<not> debug_enabled s then s
         else
           let priority = get_syslog_priority_from_log_level log_level;
               line = (case domain of None \<Rightarrow> [] | Some d \<Rightarrow> d @ '': '') @ message @ [CHR 0x0A]
           in s\<lparr>log_output := log_output s @ [if is_sd_booted s then Stderr priority line else Syslog priority line]\<rparr>)"

definition gdm_log_set_debug :: "bool \<Rightarrow> log_state \<Rightarrow> log_state run" where
  "gdm_log_set_debug debug s =
     (if \<not> log_initialized s then Stop ''assertion: initialized''
      else if debug_enabled s = debug then Ret s
      else if debug
      then Ret (gdm_log_default_handler (Some ''Gdm'') G_LOG_LEVEL_DEBUG ''Enabling debugging'' (s\<lparr>debug_enabled := True\<rparr>))
      else Ret ((gdm_log_default_handler (Some ''Gdm'') G_LOG_LEVEL_DEBUG ''Disabling debugging'' s)\<lparr>debug_enabled := False\<rparr>))"

definition gdm_log_toggle_debug :: "log_state \<Rightarrow> log_state run" where
  "gdm_log_toggle_debug s = gdm_log_set_debug (\<not> debug_enabled s) s"

definition gdm_log_shutdown :: "log_state \<Rightarrow> log_state" where
  "gdm_log_shutdown s =
     (if \<not> log_initialized s then s
      else s\<lparr>log_output := log_output s @ (if is_sd_booted s then [] else [ClosedLog]), log_initialized := False\<rparr>)"

section \<open>The name on the bus\<close>

text \<open>
  \<open>main_manager\<close> says that the pointer is set; the manager itself is an object that \<^verbatim>\<open>gdm_manager_new\<close> creates once and
  hands out with another reference as long as it lives.
\<close>

record daemon_process =
  main_manager :: bool
  manager_refs :: nat
  manager_starts :: nat
  reconnect_sources :: nat
  name_owners :: nat
  settings_reloads :: nat
  main_loop :: bool
  exit_status :: "int option"

definition bus_connection_closed :: "daemon_process \<Rightarrow> daemon_process" where
  "bus_connection_closed p =
     (if \<not> main_manager p then p
      else p\<lparr>main_manager := False, manager_refs := manager_refs p - 1, reconnect_sources := reconnect_sources p + 1\<rparr>)"

text \<open>Whether the caller keeps its source.\<close>

definition bus_reconnect :: "bool \<Rightarrow> daemon_process \<Rightarrow> bool \<times> daemon_process" where
  "bus_reconnect bus p = (if \<not> bus then (True, p) else (False, p\<lparr>name_owners := name_owners p + 1\<rparr>))"

definition on_name_acquired :: "bool \<Rightarrow> daemon_process \<Rightarrow> daemon_process" where
  "on_name_acquired registers p =
     (if 0 < manager_refs p \<or> registers
      then p\<lparr>main_manager := True, manager_refs := manager_refs p + 1, manager_starts := manager_starts p + 1\<rparr>
      else p\<lparr>main_loop := False, exit_status := Some 1\<rparr>)"

definition on_name_lost :: "daemon_process \<Rightarrow> daemon_process" where
  "on_name_lost p = bus_connection_closed p"

definition on_shutdown_signal :: "daemon_process \<Rightarrow> daemon_process" where
  "on_shutdown_signal p = p\<lparr>main_loop := False\<rparr>"

definition on_sighup :: "daemon_process \<Rightarrow> daemon_process" where
  "on_sighup p = p\<lparr>settings_reloads := settings_reloads p + 1\<rparr>"

text \<open>
  What the main loop delivers. Without a bus that was asked for the name there is no news about it, and the timer of
  a reconnection fires while it is there.
\<close>

datatype process_event =
    NameAcquired bool
  | NameLost
  | ConnectionClosed
  | ReconnectTimer bool
  | ShutdownSignal
  | HangupSignal
  | TimedExit

fun process_step :: "process_event \<Rightarrow> daemon_process \<Rightarrow> daemon_process" where
  "process_step (NameAcquired registers) p = (if 0 < name_owners p then on_name_acquired registers p else p)"
| "process_step NameLost p = (if 0 < name_owners p then on_name_lost p else p)"
| "process_step ConnectionClosed p = (if 0 < name_owners p then bus_connection_closed p else p)"
| "process_step (ReconnectTimer bus) p =
     (if 0 < reconnect_sources p
      then let (again, p) = bus_reconnect bus p
           in if again then p else p\<lparr>reconnect_sources := reconnect_sources p - 1\<rparr>
      else p)"
| "process_step ShutdownSignal p = on_shutdown_signal p"
| "process_step HangupSignal p = on_sighup p"
| "process_step TimedExit p = on_shutdown_signal p"

definition process_run :: "process_event list \<Rightarrow> daemon_process \<Rightarrow> daemon_process" where
  "process_run es p = fold (\<lambda>e p. if main_loop p then process_step e p else p) es p"

section \<open>The start\<close>

record startup_env =
  su_options :: "(bool \<times> bool \<times> bool) option"
  su_uid :: u32
  su_settings :: bool
  su_debug :: bool
  su_gdm_group :: "u32 option"
  su_bus :: bool
  su_pid :: nat
  su_pid_opens :: bool
  su_pid_writes :: bool

datatype startup_effect =
    BlockedSigusr1
  | PrintedVersion
  | FatalWarnings
  | LogInitialized
  | LogDebug bool
  | EnsuredDir string u32 u32 nat
  | AskedForName
  | PidFileDeleted
  | PidFileMade
  | PidFileHolds string
  | PidFileDeletedAtExit
  | WorkingDirectoryRoot
  | TimedExitStarted

definition pid_text :: "nat \<Rightarrow> string" where
  "pid_text n = take 8 (dec_of_nat n @ [CHR 0x0A])"

definition write_pid :: "startup_env \<Rightarrow> startup_effect list" where
  "write_pid U =
     (if \<not> su_pid_opens U then []
      else if \<not> su_pid_writes U then [PidFileMade]
      else [PidFileMade, PidFileHolds (pid_text (su_pid U)), PidFileDeletedAtExit])"

text \<open>The run directory and the log directory; the second has the group whose entry may be missing.\<close>

definition gdm_daemon_ensure_dirs :: "startup_env \<Rightarrow> startup_effect list run" where
  "gdm_daemon_ensure_dirs U =
     (case su_gdm_group U of
        None \<Rightarrow> Stop ''NULL dereference: grent''
      | Some g \<Rightarrow> Ret [EnsuredDir ''GDM_RUN_DIR'' 0 0 493, EnsuredDir ''LOGDIR'' 0 g 457])"

definition fresh_process :: daemon_process where
  "fresh_process = \<lparr>main_manager = False, manager_refs = 0, manager_starts = 0, reconnect_sources = 0, name_owners = 0,
     settings_reloads = 0, main_loop = True, exit_status = None\<rparr>"

text \<open>Up to the main loop: what was done, and the exit status or the process that runs.\<close>

definition daemon_main :: "startup_env \<Rightarrow> (startup_effect list \<times> (int + daemon_process)) run" where
  "daemon_main U =
     (case su_options U of
        None \<Rightarrow> Ret ([BlockedSigusr1], Inl 1)
      | Some (fatal_warnings, do_timed_exit, print_version) \<Rightarrow>
          if print_version then Ret ([BlockedSigusr1, PrintedVersion], Inl 0)
          else if su_uid U \<noteq> 0 then Ret ([BlockedSigusr1], Inl 1)
          else
            let first = BlockedSigusr1 # (if fatal_warnings then [FatalWarnings] else []) @ [LogInitialized]
            in if \<not> su_settings U then Ret (first, Inl 1)
               else
                 bindR (gdm_daemon_ensure_dirs U) (\<lambda>dirs.
                   let (again, p) = bus_reconnect (su_bus U) fresh_process
                   in Ret (first @ [LogDebug (su_debug U)] @ dirs @ (if again then [] else [AskedForName]) @
                           PidFileDeleted # write_pid U @ [WorkingDirectoryRoot] @
                           (if do_timed_exit then [TimedExitStarted] else []), Inr p)))"

text \<open>After the main loop.\<close>

definition daemon_end :: "daemon_process \<Rightarrow> daemon_process" where
  "daemon_end p =
     (if exit_status p \<noteq> None then p
      else p\<lparr>main_manager := False, manager_refs := (if main_manager p then manager_refs p - 1 else manager_refs p),
             exit_status := Some 0\<rparr>)"

section \<open>Properties\<close>

text \<open>
  The process identifier fits the buffer as long as it has at most seven digits, which is the case below the greatest
  value Linux allows (\<open>2 ^ 22\<close>): the file then holds all of it and a newline.
\<close>

lemma length_dec_of_nat: "n < 10 ^ k \<Longrightarrow> 0 < k \<Longrightarrow> length (dec_of_nat n) \<le> k"
proof (induction n arbitrary: k rule: dec_of_nat.induct)
  case (1 n)
  show ?case
  proof (cases "n < 10")
    case False
    with "1.prems" obtain j where k: "k = Suc j" "0 < j" by (cases k; cases "k - 1") auto
    then have "n div 10 < 10 ^ j" using "1.prems" by (simp add: less_mult_imp_div_less mult.commute)
    with "1.IH" [OF False, of j] k False show ?thesis by (subst dec_of_nat.simps) simp
  qed (use "1.prems" in \<open>simp add: dec_of_nat.simps\<close>)
qed

theorem pid_file_complete: "n \<le> 2 ^ 22 \<Longrightarrow> pid_text n = dec_of_nat n @ [CHR 0x0A]"
  using length_dec_of_nat [of n 7] by (simp add: pid_text_def)

text \<open>No level of a message has the highest priority: the mask removes the flag that the first case compares with.\<close>

theorem never_emergency: "get_syslog_priority_from_log_level l \<noteq> LOG_EMERG"
proof -
  have "l AND NOT 3 \<noteq> (2 :: u32)"
  proof
    assume "l AND NOT 3 = (2 :: u32)"
    then have "bit (l AND NOT 3) 1 = bit (2 :: u32) 1" by simp
    then show False by (simp add: bit_simps)
  qed
  then show ?thesis by (simp add: get_syslog_priority_from_log_level_def log_level_defs Let_def)
qed

text \<open>
  A daemon that is not started by root, or only asked for its version, touches neither directories nor the file of
  the running daemon.
\<close>

theorem unprivileged_start_harmless:
  assumes "daemon_main U = Ret (es, r)" and "su_uid U \<noteq> 0"
  shows "es = [BlockedSigusr1] \<and> r = Inl 1 \<or> es = [BlockedSigusr1, PrintedVersion] \<and> r = Inl 0"
  using assms by (auto simp: daemon_main_def split: option.splits if_splits)

text \<open>
  When the bus cannot be reached at the start, the daemon stays without a manager for ever: the value that asks for
  another attempt is ignored, no timer is started, and nothing that can happen later changes it.
\<close>

theorem first_connection_not_retried:
  assumes "daemon_main U = Ret (es, Inr p)" and "\<not> su_bus U"
  shows "manager_starts (process_run events p) = 0 \<and> reconnect_sources (process_run events p) = 0 \<and>
         name_owners (process_run events p) = 0"
proof -
  have "p = fresh_process"
    using assms by (auto simp: daemon_main_def bus_reconnect_def gdm_daemon_ensure_dirs_def Let_def split: option.splits if_splits)
  moreover have "manager_starts p = 0 \<and> reconnect_sources p = 0 \<and> name_owners p = 0 \<Longrightarrow>
      manager_starts (process_run events p) = 0 \<and> reconnect_sources (process_run events p) = 0 \<and>
      name_owners (process_run events p) = 0" for p
    unfolding process_run_def
  proof (induction events arbitrary: p)
    case (Cons e events)
    show ?case
      unfolding fold_simps o_apply
      by (rule Cons.IH, use Cons.prems in \<open>cases e\<close>) (simp_all add: on_shutdown_signal_def on_sighup_def)
  qed simp
  ultimately show ?thesis by (simp add: fresh_process_def)
qed

text \<open>The name is announced once as acquired, until it is lost.\<close>

fun announced_once :: "bool \<Rightarrow> process_event list \<Rightarrow> bool" where
  "announced_once has [] = True"
| "announced_once has (e # es) =
     (case e of
        NameAcquired r \<Rightarrow> \<not> has \<and> announced_once True es
      | NameLost \<Rightarrow> announced_once False es
      | ConnectionClosed \<Rightarrow> announced_once False es
      | _ \<Rightarrow> announced_once has es)"

definition one_manager :: "bool \<Rightarrow> daemon_process \<Rightarrow> bool" where
  "one_manager has p \<longleftrightarrow>
     manager_refs p = (if main_manager p then 1 else 0) \<and> (main_manager p \<longrightarrow> has \<and> 0 < name_owners p)"

fun announced :: "bool \<Rightarrow> process_event \<Rightarrow> bool" where
  "announced has (NameAcquired r) = True"
| "announced has NameLost = False"
| "announced has ConnectionClosed = False"
| "announced has _ = has"

lemma announced_once_Cons:
  "announced_once has (e # es) \<Longrightarrow> announced_once (announced has e) es \<and> (has \<longrightarrow> (\<forall>r. e \<noteq> NameAcquired r))"
  by (cases e) simp_all

lemma one_manager_step:
  assumes "one_manager has p" "has \<longrightarrow> (\<forall>r. e \<noteq> NameAcquired r)"
  shows "one_manager (announced has e) (process_step e p)"
proof (cases e)
  case (ReconnectTimer bus)
  with assms show ?thesis by (simp add: one_manager_def bus_reconnect_def Let_def)
next
  case (NameAcquired r)
  with assms have "\<not> has" by blast
  with NameAcquired assms(1) show ?thesis by (simp add: one_manager_def on_name_acquired_def split: if_splits)
qed (use assms in \<open>simp_all add: one_manager_def on_name_acquired_def on_name_lost_def bus_connection_closed_def
      on_shutdown_signal_def on_sighup_def split: if_splits\<close>)

lemma one_manager_run: "one_manager has p \<Longrightarrow> announced_once has es \<Longrightarrow> \<exists>has. one_manager has (process_run es p)"
  unfolding process_run_def
proof (induction es arbitrary: p has)
  case (Cons e es)
  show ?case
  proof (cases "main_loop p")
    case True
    have "one_manager (announced has e) (process_step e p)" "announced_once (announced has e) es"
      using announced_once_Cons [OF Cons.prems(2)] one_manager_step [OF Cons.prems(1)] by blast+
    with Cons.IH True show ?thesis by simp
  next
    case False
    then have "fold (\<lambda>e p. if main_loop p then process_step e p else p) es p = p" for es by (induction es) simp_all
    with False Cons.prems show ?thesis by auto
  qed
qed auto


definition demo_startup :: startup_env where
  "demo_startup =
     \<lparr>su_options = Some (False, False, False), su_uid = 0, su_settings = True, su_debug = False, su_gdm_group = Some 42,
      su_bus = True, su_pid = 1234, su_pid_opens = True, su_pid_writes = True\<rparr>"


end
