(* ===== verification/New_Session.thy ===== *)
theory New_Session
  imports Gdm_Prelude
begin

text \<open>
  The tools \<^verbatim>\<open>utils/gdm-new-session.c\<close>, which asks for a session of a user and waits for its end, and
  \<^verbatim>\<open>utils/gdm-runtime-config.c\<close>, which sets a key of the runtime configuration.
\<close>

section \<open>A session for a user\<close>

record new_session =
  ns_username :: string
  ns_headless :: bool
  ns_display_path :: cstr
  ns_terminate_requested :: bool
  ns_watching_added :: bool
  ns_sigterm :: bool
  ns_running :: bool
  ns_calls :: "(string \<times> string \<times> string) list"

text \<open>What the bus and logind answer.\<close>

record ns_env =
  ns_bus :: bool
  ns_displays :: bool
  ns_call_ok :: "string \<Rightarrow> bool"
  ns_session_of :: "string \<Rightarrow> string option"
  ns_user_of :: "string \<Rightarrow> string option"

datatype ns_exit = EX_OK | EX_USAGE | EX_SOFTWARE

definition call_gdm_display_factory_method :: "ns_env \<Rightarrow> string \<Rightarrow> new_session \<Rightarrow> bool \<times> new_session" where
  "call_gdm_display_factory_method E method s =
     (let iface = (if ns_headless s then ''org.gnome.DisplayManager.RemoteDisplayFactory''
                   else ''org.gnome.DisplayManager.LocalDisplayFactory'')
      in (ns_call_ok E method, s\<lparr>ns_calls := ns_calls s @ [(iface, method, ns_username s)]\<rparr>))"

definition create_session :: "ns_env \<Rightarrow> new_session \<Rightarrow> bool \<times> new_session" where
  "create_session E s = call_gdm_display_factory_method E ''CreateUserDisplay'' s"

definition terminate_session :: "ns_env \<Rightarrow> new_session \<Rightarrow> bool \<times> new_session" where
  "terminate_session E s = call_gdm_display_factory_method E ''DestroyUserDisplay'' s"

text \<open>An added object, by its path, and whether it has the interface of a display.\<close>

definition on_display_added :: "ns_env \<Rightarrow> string \<Rightarrow> bool \<Rightarrow> new_session \<Rightarrow> new_session" where
  "on_display_added E path is_display s =
     (if \<not> is_display then s
      else
        (case ns_session_of E path of
           None \<Rightarrow> s
         | Some session \<Rightarrow>
             (case ns_user_of E session of
                None \<Rightarrow> s
              | Some name \<Rightarrow>
                  if ns_username s = name
                  then
                    let s = s\<lparr>ns_display_path := Some path, ns_watching_added := False\<rparr>
                    in if ns_terminate_requested s then snd (terminate_session E s) else s
                  else s)))"

definition on_display_removed :: "string \<Rightarrow> new_session \<Rightarrow> new_session" where
  "on_display_removed path s =
     (if ns_display_path s = Some path then s\<lparr>ns_display_path := None, ns_running := False\<rparr> else s)"

text \<open>The source of the signal is removed by the return value.\<close>

definition on_sigterm :: "ns_env \<Rightarrow> new_session \<Rightarrow> new_session" where
  "on_sigterm E s =
     (let s = s\<lparr>ns_sigterm := False\<rparr>
      in if ns_display_path s = None then s\<lparr>ns_terminate_requested := True\<rparr>
         else snd (terminate_session E s))"

definition watch_displays :: "ns_env \<Rightarrow> new_session \<Rightarrow> bool \<times> new_session" where
  "watch_displays E s = (if \<not> ns_displays E then (False, s) else (True, s\<lparr>ns_watching_added := True\<rparr>))"

definition setup_session :: "ns_env \<Rightarrow> new_session \<Rightarrow> bool \<times> new_session" where
  "setup_session E s = (if \<not> ns_bus E then (False, s) else watch_displays E s)"

text \<open>
  The program up to its main loop. The arguments are those that the parsing of the options leaves; \<open>None\<close> is a parsing
  that fails.
\<close>

definition new_session_main :: "ns_env \<Rightarrow> (bool \<times> string list) option \<Rightarrow> ns_exit + new_session" where
  "new_session_main E arguments =
     (case arguments of
        None \<Rightarrow> Inl EX_USAGE
      | Some (headless, argv) \<Rightarrow>
          if length argv < 2 then Inl EX_USAGE
          else
            let s = \<lparr>ns_username = argv ! 1, ns_headless = headless, ns_display_path = None,
                     ns_terminate_requested = False, ns_watching_added = False, ns_sigterm = False,
                     ns_running = True, ns_calls = []\<rparr>;
                (ok, s) = setup_session E s
            in if \<not> ok then Inl EX_SOFTWARE
               else
                 let (ok, s) = create_session E s
                 in if \<not> ok then Inl EX_SOFTWARE
                    else Inr (s\<lparr>ns_sigterm := True\<rparr>))"

text \<open>What the main loop delivers, each with the answers of the moment. A second SIGTERM ends the process.\<close>

datatype ns_event =
    DisplayAdded ns_env string bool
  | DisplayRemoved string
  | SigTerm ns_env

fun ns_step :: "ns_event \<Rightarrow> new_session \<Rightarrow> new_session" where
  "ns_step (DisplayAdded E path d) s = (if ns_running s \<and> ns_watching_added s then on_display_added E path d s else s)"
| "ns_step (DisplayRemoved path) s = (if ns_running s then on_display_removed path s else s)"
| "ns_step (SigTerm E) s = (if ns_running s \<and> ns_sigterm s then on_sigterm E s else s)"

definition ns_run :: "ns_event list \<Rightarrow> new_session \<Rightarrow> new_session" where
  "ns_run es s = fold ns_step es s"

section \<open>The runtime configuration\<close>

type_synonym runtime_conf = "(string \<times> string, string) ghash"

datatype rc_exit = RC_OK | RC_USAGE | RC_CANTCREAT

text \<open>
  The file is read if it can be, its keys are kept, and it is written back. \<open>accepted\<close> says which names of groups and
  keys GLib takes.
\<close>

definition runtime_config_main ::
  "(string \<Rightarrow> string \<Rightarrow> bool) \<Rightarrow> bool \<Rightarrow> string list \<Rightarrow> runtime_conf option \<Rightarrow> rc_exit \<times> runtime_conf option" where
  "runtime_config_main accepted saves argv conf =
     (if length argv < 5 \<or> argv ! 1 \<noteq> ''set'' then (RC_USAGE, conf)
      else
        let group = argv ! 2; key = argv ! 3; new = argv ! 4;
            loaded = (case conf of None \<Rightarrow> [] | Some c \<Rightarrow> c);
            changed = (if accepted group key then ght_insert (group, key) new loaded else loaded)
        in if \<not> saves then (RC_CANTCREAT, conf) else (RC_OK, Some changed))"

section \<open>Properties\<close>

definition destroy_calls :: "new_session \<Rightarrow> nat" where
  "destroy_calls s = length (filter (\<lambda>(i, m, u). m = ''DestroyUserDisplay'') (ns_calls s))"

definition create_calls :: "new_session \<Rightarrow> nat" where
  "create_calls s = length (filter (\<lambda>(i, m, u). m = ''CreateUserDisplay'') (ns_calls s))"

text \<open>The calls go to the factory that was chosen, for the user that was given.\<close>

definition addressed :: "new_session \<Rightarrow> bool" where
  "addressed s = list_all (\<lambda>(i, m, u). u = ns_username s \<and>
     i = (if ns_headless s then ''org.gnome.DisplayManager.RemoteDisplayFactory''
          else ''org.gnome.DisplayManager.LocalDisplayFactory'')) (ns_calls s)"

text \<open>The display has been asked for once, and its end at most once: not before the signal, nor before there is a display.\<close>

definition ns_inv :: "new_session \<Rightarrow> bool" where
  "ns_inv s \<longleftrightarrow>
     create_calls s = 1 \<and> addressed s \<and>
     (ns_running s \<longrightarrow> (ns_watching_added s \<longleftrightarrow> ns_display_path s = None)) \<and>
     destroy_calls s = (if ns_sigterm s \<or> ns_terminate_requested s \<and> ns_watching_added s then 0 else 1) \<and>
     (ns_sigterm s \<longrightarrow> \<not> ns_terminate_requested s)"

lemma terminate_session_simps:
  "create_calls (snd (terminate_session E s)) = create_calls s"
  "destroy_calls (snd (terminate_session E s)) = Suc (destroy_calls s)"
  "addressed (snd (terminate_session E s)) = addressed s"
  "ns_running (snd (terminate_session E s)) = ns_running s"
  "ns_watching_added (snd (terminate_session E s)) = ns_watching_added s"
  "ns_display_path (snd (terminate_session E s)) = ns_display_path s"
  "ns_sigterm (snd (terminate_session E s)) = ns_sigterm s"
  "ns_terminate_requested (snd (terminate_session E s)) = ns_terminate_requested s"
  by (simp_all add: terminate_session_def call_gdm_display_factory_method_def Let_def create_calls_def destroy_calls_def
      addressed_def)

lemma calls_update_simps [simp]:
  "create_calls (s\<lparr>ns_display_path := p\<rparr>) = create_calls s" "create_calls (s\<lparr>ns_watching_added := b\<rparr>) = create_calls s"
  "create_calls (s\<lparr>ns_running := b\<rparr>) = create_calls s" "create_calls (s\<lparr>ns_sigterm := b\<rparr>) = create_calls s"
  "create_calls (s\<lparr>ns_terminate_requested := b\<rparr>) = create_calls s"
  "destroy_calls (s\<lparr>ns_display_path := p\<rparr>) = destroy_calls s" "destroy_calls (s\<lparr>ns_watching_added := b\<rparr>) = destroy_calls s"
  "destroy_calls (s\<lparr>ns_running := b\<rparr>) = destroy_calls s" "destroy_calls (s\<lparr>ns_sigterm := b\<rparr>) = destroy_calls s"
  "destroy_calls (s\<lparr>ns_terminate_requested := b\<rparr>) = destroy_calls s"
  "addressed (s\<lparr>ns_display_path := p\<rparr>) = addressed s" "addressed (s\<lparr>ns_watching_added := b\<rparr>) = addressed s"
  "addressed (s\<lparr>ns_running := b\<rparr>) = addressed s" "addressed (s\<lparr>ns_sigterm := b\<rparr>) = addressed s"
  "addressed (s\<lparr>ns_terminate_requested := b\<rparr>) = addressed s"
  by (simp_all add: create_calls_def destroy_calls_def addressed_def)

lemma ns_inv_main: "new_session_main E arguments = Inr s \<Longrightarrow> ns_inv s"
  by (auto simp: new_session_main_def setup_session_def watch_displays_def ns_inv_def create_session_def
      call_gdm_display_factory_method_def addressed_def create_calls_def destroy_calls_def Let_def
      split: option.splits if_splits)

lemma ns_inv_added: "ns_inv s \<Longrightarrow> ns_running s \<Longrightarrow> ns_watching_added s \<Longrightarrow> ns_inv (on_display_added E path d s)"
  by (auto simp: ns_inv_def on_display_added_def terminate_session_simps Let_def split: option.splits if_splits)

lemma ns_inv_sigterm: "ns_inv s \<Longrightarrow> ns_running s \<Longrightarrow> ns_sigterm s \<Longrightarrow> ns_inv (on_sigterm E s)"
  by (auto simp: ns_inv_def on_sigterm_def terminate_session_simps Let_def)

lemma ns_inv_removed: "ns_inv s \<Longrightarrow> ns_running s \<Longrightarrow> ns_inv (on_display_removed path s)"
  by (auto simp: ns_inv_def on_display_removed_def)

lemma ns_inv_step: "ns_inv s \<Longrightarrow> ns_inv (ns_step e s)"
  by (cases e) (simp_all add: ns_inv_added ns_inv_sigterm ns_inv_removed)

lemma ns_inv_run: "ns_inv s \<Longrightarrow> ns_inv (ns_run es s)"
  unfolding ns_run_def by (induction es arbitrary: s) (simp_all add: ns_inv_step)

text \<open>
  For every order of displays that come and go and of the signal, the tool asks for the session of its user once and
  for its end at most once, at the factory that its option chose: the end is asked for once the signal came and the
  session has a display, in whichever order.
\<close>

theorem new_session_calls:
  assumes "new_session_main E arguments = Inr s" and "s' = ns_run es s"
  shows "create_calls s' = 1 \<and> addressed s' \<and>
     destroy_calls s' = (if ns_sigterm s' \<or> (ns_terminate_requested s' \<and> ns_watching_added s') then 0 else 1)"
  using ns_inv_run [OF ns_inv_main [OF assms(1)], of es] assms(2) by (simp add: ns_inv_def)

text \<open>
  A display whose session is not known when it appears is never taken for that of the tool: nothing is read again
  later, and its removal does not end the tool.
\<close>

lemma unknown_session_missed:
  assumes "ns_session_of E path = None \<or> (\<exists>i. ns_session_of E path = Some i \<and> ns_user_of E i = None)"
    and "ns_display_path s = None"
  shows "ns_step (DisplayRemoved path) (ns_step (DisplayAdded E path d) s) = s"
  using assms by (auto simp: on_display_added_def on_display_removed_def)

text \<open>A key that is set is the new value in the file, and every other key keeps its value.\<close>

theorem runtime_config_sets:
  assumes "runtime_config_main accepted True [a, ''set'', g, k, v] conf = (RC_OK, conf')" and "accepted g k"
  shows "\<exists>c. conf' = Some c \<and> ght_lookup c (g, k) = Some v \<and>
    (\<forall>x. x \<noteq> (g, k) \<longrightarrow> ght_lookup c x = (case conf of None \<Rightarrow> None | Some c0 \<Rightarrow> ght_lookup c0 x))"
proof -
  have "ght_lookup ([] :: runtime_conf) x = None" for x by (simp add: ght_lookup_def)
  with assms show ?thesis
    by (auto simp: runtime_config_main_def ght_lookup_insert Let_def split: option.splits)
qed

end
