(* ===== verification/User_Switching.thy ===== *)
theory User_Switching
  imports Gdm_Login1
begin

text \<open>
  Going to the login screen: the functions of \<^verbatim>\<open>common/gdm-common.c\<close> behind
  \<^verbatim>\<open>gdm_goto_login_session_sync\<close> of \<^verbatim>\<open>libgdm/gdm-user-switching.c\<close>. What the bus and
  logind answer is an argument; the calls that change something are collected.
\<close>

section \<open>Calls\<close>

record switch_bus =
  sw_bus :: "string + unit"
  sw_activate :: "string \<Rightarrow> string \<Rightarrow> bool"
  sw_create :: "string + string"
  sw_seat :: "string \<Rightarrow> int + string"

datatype switch_call = ActivateSessionOnSeat string string | CreateTransientDisplay

datatype switch_error =
    NoSystemBus string
  | NoCurrentSession find_error
  | NoCurrentSeat
  | NoTransientDisplay string

text \<open>The value that is returned, the error that is set, and the calls that were made.\<close>

type_synonym switch_result = "bool \<times> switch_error option \<times> switch_call list"

definition create_transient_display :: "switch_bus \<Rightarrow> switch_result" where
  "create_transient_display B =
     (case sw_create B of
        Inl m \<Rightarrow> (False, Some (NoTransientDisplay m), [CreateTransientDisplay])
      | Inr path \<Rightarrow> (True, None, [CreateTransientDisplay]))"

definition gdm_activate_session_by_id :: "switch_bus \<Rightarrow> string \<Rightarrow> string \<Rightarrow> bool \<times> switch_call list" where
  "gdm_activate_session_by_id B seat session =
     (sw_activate B session seat, [ActivateSessionOnSeat session seat])"

definition goto_login_session :: "sysenv \<Rightarrow> switch_bus \<Rightarrow> u32 \<Rightarrow> switch_result" where
  "goto_login_session E B me =
     (case gdm_find_display_session E 0 me of
        Inl e \<Rightarrow> (False, Some (NoCurrentSession e), [])
      | Inr our_session \<Rightarrow>
          (case sw_seat B our_session of
             Inl r \<Rightarrow> (False, Some NoCurrentSeat, [])
           | Inr seat \<Rightarrow>
               let (ret, calls) =
                     (case gdm_get_login_window_session_id E (Some seat) of
                        None \<Rightarrow> (False, [])
                      | Some session \<Rightarrow> gdm_activate_session_by_id B seat session)
               in if \<not> ret \<and> seat = ''seat0''
                  then let (ret, e, created) = create_transient_display B in (ret, e, calls @ created)
                  else (ret, None, calls)))"

definition gdm_goto_login_session :: "sysenv \<Rightarrow> switch_bus \<Rightarrow> u32 \<Rightarrow> switch_result" where
  "gdm_goto_login_session E B me =
     (case sw_bus B of
        Inl m \<Rightarrow> (False, Some (NoSystemBus m), [])
      | Inr _ \<Rightarrow> goto_login_session E B me)"

definition gdm_goto_login_session_sync :: "sysenv \<Rightarrow> switch_bus \<Rightarrow> u32 \<Rightarrow> switch_result" where
  "gdm_goto_login_session_sync E B me = gdm_goto_login_session E B me"

section \<open>Properties\<close>

text \<open>The seat of the caller.\<close>

definition own_seat :: "sysenv \<Rightarrow> switch_bus \<Rightarrow> u32 \<Rightarrow> string option" where
  "own_seat E B me =
     (case gdm_find_display_session E 0 me of
        Inl e \<Rightarrow> None
      | Inr s \<Rightarrow> (case sw_seat B s of Inl r \<Rightarrow> None | Inr seat \<Rightarrow> Some seat))"

definition login_window_activated :: "sysenv \<Rightarrow> switch_bus \<Rightarrow> string \<Rightarrow> bool" where
  "login_window_activated E B seat =
     (\<exists>s. gdm_get_login_window_session_id E (Some seat) = Some s \<and> sw_activate B s seat)"

lemmas switching_defs = gdm_goto_login_session_sync_def gdm_goto_login_session_def goto_login_session_def
  create_transient_display_def gdm_activate_session_by_id_def own_seat_def login_window_activated_def Let_def

text \<open>
  Going to the login screen succeeds exactly when the seat of the caller is known and either a login window of the seat
  could be activated or a display could be created on the first seat; a display is only created on the first seat and
  when no login window could be activated.
\<close>

theorem goto_login_succeeds:
  assumes "gdm_goto_login_session_sync E B me = (ret, e, calls)" and "sw_bus B = Inr ()"
  shows "ret = (\<exists>seat. own_seat E B me = Some seat \<and>
            (login_window_activated E B seat \<or> (seat = ''seat0'' \<and> (\<exists>p. sw_create B = Inr p))))"
    and "CreateTransientDisplay \<in> set calls \<longleftrightarrow>
           own_seat E B me = Some ''seat0'' \<and> \<not> login_window_activated E B ''seat0''"
    and "count_list calls CreateTransientDisplay \<le> 1"
  using assms by (auto simp: switching_defs split: sum.splits option.splits if_splits)

text \<open>
  A failure comes with an error, but for one case: on another seat than the first, when no login window could be
  activated, \<^verbatim>\<open>FALSE\<close> is returned and no error is set.
\<close>

theorem goto_login_fails_silently:
  assumes "gdm_goto_login_session_sync E B me = (False, e, calls)"
  shows "e = None \<longleftrightarrow> sw_bus B = Inr () \<and>
    (\<exists>seat. own_seat E B me = Some seat \<and> seat \<noteq> ''seat0'' \<and> \<not> login_window_activated E B seat)"
  using assms by (auto simp: switching_defs split: sum.splits option.splits if_splits)

end
