(* ===== verification/Pam_Gdm.thy ===== *)
theory Pam_Gdm
  imports Gdm_Common
begin

text \<open>
  The PAM module \<^verbatim>\<open>pam_gdm/pam_gdm.c\<close>: it gives the password of the encrypted disk, which systemd leaves in the
  kernel keyring, to the modules after it.
\<close>

section \<open>The module\<close>

datatype sm_code = SM_SUCCESS | SM_AUTH_ERR | SM_AUTHINFO_UNAVAIL

text \<open>
  The keyring: \<^verbatim>\<open>find_key_by_type_and_desc\<close> gives a serial number or 0, and \<^verbatim>\<open>keyctl_read_alloc\<close> the payload, with a
  \<open>NUL\<close> behind it.
\<close>

record keyring =
  have_keyutils :: bool
  find_key :: "string \<Rightarrow> string \<Rightarrow> nat"
  read_key :: "nat \<Rightarrow> string option"

definition c_string :: "string \<Rightarrow> string" where
  "c_string = takeWhile (\<lambda>c. c \<noteq> CHR 0x00)"

text \<open>The loop of the search; \<open>i\<close> is the offset in the payload.\<close>

function last_password_loop :: "string \<Rightarrow> nat \<Rightarrow> string \<Rightarrow> string" where
  "last_password_loop cached i current =
     (if i < length cached
      then let current = c_string (drop i cached) in last_password_loop cached (i + length current + 1) current
      else current)"
  by pat_completeness auto
termination
  by (relation "measure (\<lambda>(cached, i, current). length cached - i)") auto

declare last_password_loop.simps [simp del]

definition last_cached_password :: "string \<Rightarrow> string" where
  "last_cached_password cached = last_password_loop cached 0 (c_string cached)"

text \<open>The code and the password that was handed to \<^verbatim>\<open>pam_set_item\<close>, whose return code is an argument.\<close>

definition pam_sm_authenticate :: "keyring \<Rightarrow> (string \<Rightarrow> int) \<Rightarrow> sm_code \<times> cstr" where
  "pam_sm_authenticate K set_authtok =
     (if \<not> have_keyutils K then (SM_AUTHINFO_UNAVAIL, None)
      else
        let serial = find_key K ''user'' ''cryptsetup''
        in if serial = 0 then (SM_AUTHINFO_UNAVAIL, None)
           else
             (case read_key K serial of
                None \<Rightarrow> (SM_AUTHINFO_UNAVAIL, None)
              | Some cached_passwords \<Rightarrow>
                  let password = last_cached_password cached_passwords;
                      r = set_authtok password
                  in (if r < 0 then SM_AUTH_ERR else SM_SUCCESS, Some password)))"

definition pam_sm_setcred :: sm_code where
  "pam_sm_setcred = SM_SUCCESS"

definition pam_sm_acct_mgmt :: sm_code where
  "pam_sm_acct_mgmt = SM_SUCCESS"

definition pam_sm_chauthtok :: sm_code where
  "pam_sm_chauthtok = SM_SUCCESS"

definition pam_sm_open_session :: sm_code where
  "pam_sm_open_session = SM_SUCCESS"

definition pam_sm_close_session :: sm_code where
  "pam_sm_close_session = SM_SUCCESS"

section \<open>Properties\<close>

text \<open>The passwords of a payload: the parts between the \<open>NUL\<close>s; a \<open>NUL\<close> at the end ends the last one.\<close>

definition passwords :: "string \<Rightarrow> string list" where
  "passwords cached =
     (let parts = split_at (CHR 0x00) cached
      in if cached \<noteq> [] \<and> last cached = CHR 0x00 then butlast parts else parts)"

lemma split_at_alone: "c \<notin> set l \<Longrightarrow> split_at c l = [l]"
  by (induction l) auto

lemma passwords_Cons:
  assumes "CHR 0x00 \<notin> set p"
  shows "passwords (p @ CHR 0x00 # rest) = (if rest = [] then [p] else p # passwords rest)"
proof (cases rest)
  case Nil
  with assms show ?thesis by (simp add: passwords_def split_at_line)
next
  case (Cons c cs)
  moreover have "split_at (CHR 0x00) rest \<noteq> []" using Cons by (auto split: list.splits)
  ultimately show ?thesis using assms
    by (auto simp: passwords_def split_at_line Let_def)
qed

lemma passwords_not_Nil: "passwords cached \<noteq> []"
proof (cases "CHR 0x00 \<in> set cached")
  case True
  then obtain p rest where "cached = p @ CHR 0x00 # rest" "CHR 0x00 \<notin> set p" by (meson split_list_first)
  then show ?thesis by (simp add: passwords_Cons)
next
  case False
  then have "cached = [] \<or> last cached \<noteq> CHR 0x00" using last_in_set by fastforce
  with False show ?thesis by (auto simp: passwords_def split_at_alone)
qed

lemma last_password_loop_drop:
  "last_password_loop cached i current =
     (if drop i cached = [] then current else last (passwords (drop i cached)))"
proof (induction cached i current rule: last_password_loop.induct)
  case (1 cached i current)
  show ?case
  proof (cases "i < length cached")
    case True
    define rest where "rest = drop i cached"
    show ?thesis
    proof (cases "CHR 0x00 \<in> set rest")
      case nul: True
      then obtain p r where r: "rest = p @ CHR 0x00 # r" "CHR 0x00 \<notin> set p" by (meson split_list_first)
      then have c: "c_string rest = p" by (auto simp: c_string_def takeWhile_append)
      have "drop (i + length p + 1) cached = drop (length p + 1) rest"
        by (simp add: rest_def add.commute add.left_commute)
      then have d: "drop (i + length p + 1) cached = r" using r by simp
      have "last_password_loop cached i current = last_password_loop cached (i + length p + 1) p"
        using True c by (subst last_password_loop.simps) (simp add: rest_def)
      also have "\<dots> = (if r = [] then p else last (passwords r))"
        using 1 [OF True refl, folded rest_def, unfolded c, unfolded d] .
      finally show ?thesis
        using True r passwords_not_Nil [of r] by (simp add: passwords_Cons rest_def [symmetric] del: drop_eq_Nil)
    next
      case False
      then have "c_string rest = rest" by (auto simp: c_string_def takeWhile_eq_all_conv)
      moreover have "rest \<noteq> []" using True by (simp add: rest_def)
      moreover have "i + length rest = length cached" using True by (simp add: rest_def)
      moreover have "last rest \<noteq> CHR 0x00" using False \<open>rest \<noteq> []\<close> last_in_set by metis
      ultimately show ?thesis
        using True False
        by (subst last_password_loop.simps, subst last_password_loop.simps)
          (simp add: passwords_def split_at_alone rest_def [symmetric])
    qed
  qed (simp add: last_password_loop.simps)
qed

text \<open>
  The password that is handed on is the last one of the payload: its passwords are separated by \<open>NUL\<close>s, the last one
  may end in one, and every read stays in the payload and the \<open>NUL\<close> behind it. An empty payload gives the empty password.
\<close>

theorem last_password:
  "last_cached_password cached = (if cached = [] then [] else last (passwords cached))"
  by (simp add: last_cached_password_def last_password_loop_drop c_string_def)

text \<open>
  The return codes of PAM are not negative, so that the test for an error never holds: whatever \<^verbatim>\<open>pam_set_item\<close> returns,
  the module reports a success once it has read the key.
\<close>

theorem failed_authtok_is_success:
  assumes "\<forall>p. 0 \<le> set_authtok p"
  shows "fst (pam_sm_authenticate K set_authtok) =
     (if have_keyutils K \<and> find_key K ''user'' ''cryptsetup'' \<noteq> 0 \<and> read_key K (find_key K ''user'' ''cryptsetup'') \<noteq> None
      then SM_SUCCESS else SM_AUTHINFO_UNAVAIL)"
  using assms by (auto simp: pam_sm_authenticate_def Let_def linorder_not_less split: option.splits) (meson linorder_not_less)

end
