(* ===== verification/Spec2Isabelle.thy ===== *)
theory Spec2Isabelle
  imports Daemon_Properties Manager_Reauthentication Session_Worker_Calls Session_Owners Gdm_Settings
    Greeter_Environment Session_Record Gdm_Sessions Gdm_Config Gdm_Client_Safety Session_Launcher Session_Child
    Session_Auditor Daemon_Main New_Session User_Switching Pam_Gdm
begin

text \<open>
  GDM, the GNOME Display Manager: a daemon that shows a greeter on every seat, authenticates
  users through PAM and starts their sessions. This library models the daemon and its worker
  process as executable functions and proves what keeps them correct.

  \<^bold>\<open>The parts of the program and how they work together.\<close>

  \<^item> The daemon (\<^verbatim>\<open>src/daemon/gdm-manager.c\<close>) keeps displays in a display store
    (\<^verbatim>\<open>gdm-display-store.c\<close>). A display (\<^verbatim>\<open>gdm-display.c\<close>) runs a greeter in a launch
    environment (\<^verbatim>\<open>gdm-launch-environment.c\<close>) under a transient user from the dynamic user
    store (\<^verbatim>\<open>gdm-dynamic-user-store.c\<close>). The local display factory
    (\<^verbatim>\<open>gdm-local-display-factory.c\<close> on top of \<^verbatim>\<open>gdm-display-factory.c\<close>) follows the
    seats of logind and the active virtual terminal and creates and destroys displays; the
    remote display factory (\<^verbatim>\<open>gdm-remote-display-factory.c\<close>) creates displays for remote users.
    They call each other through the status of displays: a change of a status notifies the
    manager and the factory, whose handlers change displays in turn.
  \<^item> Manager and launch environments own sessions (\<^verbatim>\<open>gdm-session.c\<close>). A session runs a
    conversation for every PAM service, each with a worker process
    (\<^verbatim>\<open>gdm-session-worker-job.c\<close>), drives it with D-Bus calls and passes questions and
    answers between PAM and the greeter.
  \<^item> The worker (\<^verbatim>\<open>gdm-session-worker.c\<close>) is the PAM application. It loads the settings of
    the user (\<^verbatim>\<open>gdm-session-settings.c\<close>), understands binary PAM messages
    (\<^verbatim>\<open>src/pam-extensions/\<close>), and starts and watches the session program.
  \<^item> Around the daemon: the tool \<^verbatim>\<open>src/utils/gdm-config.c\<close> writes the settings of the greeter,
    \<^verbatim>\<open>src/libgdm/\<close> is what a greeter links to.

  \<^bold>\<open>Theories.\<close>

  \<^item> \<open>Gdm_Prelude\<close>: nullable strings, GLib's hash tables with their contract as the locale
    \<open>hash_table\<close>, decimal printing, string functions, and \<open>run\<close>, the outcome of code that may
    end the daemon.
  \<^item> \<open>Dynamic_User_Store\<close>: \<^verbatim>\<open>gdm-dynamic-user-store.c\<close>; allocation of UIDs and names, and the
    userdb answers. The search for a UID is proved to end and to find the first free one.
  \<^item> \<open>Launch_Environment\<close>, \<open>Gdm_Display\<close>, \<open>Display_Store\<close>, \<open>Gdm_Login1\<close>: the data and the
    operations of \<^verbatim>\<open>gdm-launch-environment.c\<close>, \<^verbatim>\<open>gdm-display.c\<close>,
    \<^verbatim>\<open>gdm-display-store.c\<close> and of the logind queries of
    \<^verbatim>\<open>src/common/gdm-common.c\<close>.
  \<^item> \<open>Daemon_State\<close>, \<open>Daemon_Displays\<close>, \<open>Local_Display_Factory\<close>, \<open>Gdm_Manager\<close>: the daemon as a
    whole. Displays are objects with an address; a raw pointer that outlives its display ends
    in \<open>Stop dangling\<close>. Handlers take the emission of the status signal as an argument.
  \<^item> \<open>Daemon_Invariant\<close>, \<open>Daemon_Contracts\<close>: the invariant of the daemon, the locale
    \<open>status_emitter\<close> with what an emission promises, and that every operation keeps the
    invariant given such an emission.
  \<^item> \<open>Daemon_Loop\<close>: \<open>notify_status\<close> closes the recursion between handlers and emission, the locale
    is interpreted for it, and the main loop is a step function over events. Memory safety,
    the ownership of dynamic users and the purge are proved for every reachable state.
    \<open>Daemon_Properties\<close> has properties of single operations.
  \<^item> \<open>Remote_Display_Factory\<close>: \<^verbatim>\<open>gdm-remote-display-factory.c\<close>; its displays are part of the main
    loop, and the lock that keeps the machine from suspending is a state machine of its own.
  \<^item> \<open>Manager_Reauthentication\<close>: the reauthentication channels of \<^verbatim>\<open>gdm-manager.c\<close>, with the tables
    of waiting calls and temporary sessions.
  \<^item> \<open>Gdm_Settings\<close>: \<^verbatim>\<open>src/common/gdm-settings*.c\<close>; that reading and writing keys are those of a list
    of layers, and how values are printed and read.
  \<^item> \<open>Pam_Extensions\<close>, \<open>Session_Settings\<close>, \<open>Session_Worker\<close>: the worker. PAM is a program tree
    (\<open>pam_prog\<close>) that may ask questions in the middle of a call, so that every theorem holds
    for every PAM stack.
  \<^item> \<open>Session_Worker_Safety\<close>, \<open>Session_Worker_Calls\<close>: the abstract machine \<open>pam_step\<close> of a PAM
    application, that every run of the worker is one of its runs, that sessions are only
    opened after authentication, that method calls are answered once, that PAM is released.
  \<^item> \<open>Gdm_Common\<close>: helpers of \<^verbatim>\<open>src/common/gdm-common.c\<close>: environment files, waiting for
    processes, random bytes.
  \<^item> \<open>Session_Worker_Job\<close>, \<open>Session_Files\<close>, \<open>Gdm_Session\<close>: the daemon's side of a session;
    conversations are objects with an address, and calls in flight, child watches and the
    table of conversations hold such addresses.
  \<^item> \<open>Gdm_Session_Safety\<close>, \<open>Session_Owners\<close>: the invariant of a session, the locale
    \<open>gentle_listener\<close> with what an owner must not do inside of a signal, its interpretations for
    the four owners of sessions, memory safety, and the order of the calls to the workers.
  \<^item> \<open>File_Utils\<close>, \<open>Greeter_Environment\<close>: \<^verbatim>\<open>src/common/gdm-file-utils.c\<close> on trees of files, and the part of
    \<^verbatim>\<open>gdm-launch-environment.c\<close> that prepares the directories of a seat and the environment of a
    greeter. The locale \<open>owner_callback\<close> says what a walk that changes owners needs of its callback.
  \<^item> \<open>Session_Child\<close>: what \<^verbatim>\<open>gdm-session-worker.c\<close> does in the process that becomes the session: its logs, the change
    of identity, and the search of the program, compared with a reference.
  \<^item> \<open>Session_Launcher\<close>: \<^verbatim>\<open>gdm-x-session.c\<close> and \<^verbatim>\<open>gdm-wayland-session.c\<close>, the programs that the worker starts;
    which processes they leave behind, and the environment of a session against a reference.
  \<^item> \<open>Session_Record\<close>: \<^verbatim>\<open>gdm-session-record.c\<close>; what is written to utmp, wtmp and btmp.
  \<^item> \<open>Session_Auditor\<close>: \<^verbatim>\<open>gdm-session-auditor.c\<close> and \<^verbatim>\<open>gdm-session-linux-auditor.c\<close>; the audit trail that the events of a
    worker leave.
  \<^item> \<open>Daemon_Main\<close>: \<^verbatim>\<open>daemon/main.c\<close> and \<^verbatim>\<open>common/gdm-log.c\<close>; the start of the daemon, and the life of the manager with
    the name on the bus.
  \<^item> \<open>New_Session\<close>, \<open>User_Switching\<close>, \<open>Pam_Gdm\<close>: \<^verbatim>\<open>gdm-new-session.c\<close> and \<^verbatim>\<open>gdm-runtime-config.c\<close> of \<^verbatim>\<open>src/utils\<close>, the way
    to the login screen in \<^verbatim>\<open>gdm-common.c\<close> and \<^verbatim>\<open>gdm-user-switching.c\<close>, and the PAM module.
  \<^item> \<open>Gdm_Sessions\<close>: \<^verbatim>\<open>src/libgdm/gdm-sessions.c\<close>; the sessions that a greeter offers, compared with a
    reference that asks the directories in order.
  \<^item> \<open>Gdm_Client\<close>, \<open>Gdm_Client_Safety\<close>: \<^verbatim>\<open>src/libgdm/gdm-client.c\<close>; the callbacks that wait for the bus are a list
    that is answered in any order. Every task is accounted for, and proxies are kept exactly while they
    are watched.
  \<^item> \<open>Gdm_Config\<close>: \<^verbatim>\<open>src/utils/gdm-config.c\<close>; commands that read and write the dconf profiles, key files and
    locks of a file system, with every failure as a value.

  \<^bold>\<open>Groups of theorems.\<close> Memory safety of the daemon and of sessions; ownership of the dynamic
  users; the settings refine layers; the worker refines the protocol of PAM applications and is driven through it in order
  by the session; every method call of the worker is answered once, as is every call of the client library; who may open private
  channels, reauthenticate and manage displays of users; exact results of the purge, of the UID search, of the
  userdb listing, of the fallback session, of the sessions that are offered and of the records of logins;
  what is in force after the configuration tool has run; round trips of environment files, user records,
  terminal names, the extension registry and user settings; bounds of the PAM conversation, of
  waiting and of reading; and theorems that show where the code and what is written about it
  part.

  \<^bold>\<open>Bounds and fuel.\<close> \<open>notify_status\<close> takes the depth of nested status changes as fuel, since the
  recursion of the code has no bound of its own; theorems about it hold for every depth, and the
  outcome \<open>OutOfFuel\<close> is the only one that says nothing. Loops that wait for the outside (polls
  of a process, reads, repeated looks at the user database) take the list of the answers that
  the outside gives, so they are total. Buffers have the sizes of the code: replies to PAM are
  bounded by \<^verbatim>\<open>PAM_MAX_RESP_SIZE\<close> (512), the extension registry by its block of 4096 bytes.
  UIDs are 32-bit words.

  \<^bold>\<open>The outside.\<close> PAM, logind, polkit, the AccountsService, the user database, the files, spawning
  and D-Bus peers are arguments of the definitions. Hypotheses on them are named:
  \<open>workers_start\<close> (the system can start worker processes), \<open>registers_once\<close> (a worker announces
  itself once), and \<open>sane_build\<close> (the constants the build chooses); without the first, the code
  dereferences \<^verbatim>\<open>NULL\<close>, which is a theorem too.

  \<^bold>\<open>Not modelled.\<close> The threads of the varlink server; the export of the initial setup home; \<^verbatim>\<open>session-worker-main.c\<close>, which starts the main loop of the
  worker; the private servers of \<^verbatim>\<open>gdm-dbus-util.c\<close>; the auditor for Solaris; the registration of classes and
  properties with GObject; the test programs. The lifetime of session objects is left to their
  owners: a session model ends where its owner drops it.
\<close>

end
